(* ===== verification/Prelude.thy ===== *)
theory Prelude
  imports Main "HOL-Library.Word" "HOL-Library.List_Lexorder" "HOL-Library.Char_ord"
begin

text \<open>
  What the components share: status values and results (include/gem16/status.h), byte
  strings, the few operations of the C++ standard library the sources use on them
  (\<open>std::to_string\<close>, \<open>std::from_chars\<close>, \<open>starts_with\<close>, \<open>find\<close>, \<open>std::map::emplace\<close>),
  and generic lemmas about them.

  A \<open>std::string\<close> or \<open>std::string_view\<close> is a \<open>char list\<close>: HOL's \<open>char\<close> is an 8-bit
  byte, and \<open>byte c\<close> reads it as \<open>unsigned char\<close>.  The order on strings is the
  lexicographic order on unsigned bytes, which is \<open>std::less<std::string>\<close>.
\<close>

unbundle bit_operations_syntax

named_theorems wf_intros \<open>introduction rules for the well-formedness invariants of the components\<close>
named_theorems string_simps \<open>closed facts about the byte strings the components compare with\<close>

section \<open>Status and Result\<close>

datatype status_code =
    KOk | KInvalidArgument | KNotFound | KIoError | KDataLoss | KUnsupported
  | KResourceExhausted | KCancelled | KInternal

datatype status = Status (code: status_code) (message: string)

text \<open>
  \<open>Result<T>\<close> is \<open>status + 'a\<close>: \<open>Inl\<close> carries the error, \<open>Inr\<close> the value.  A function
  that returns a bare \<open>Status\<close> has type \<open>unit result\<close>, with \<open>Inr ()\<close> for \<open>Status::Ok()\<close>.
\<close>

type_synonym 'a result = "status + 'a"

fun result_ok :: "'a result \<Rightarrow> bool" where
  "result_ok (Inl _) = False"
| "result_ok (Inr _) = True"

definition rbind :: "'e + 'a \<Rightarrow> ('a \<Rightarrow> 'e + 'b) \<Rightarrow> 'e + 'b" where
  "rbind r f = (case r of Inl e \<Rightarrow> Inl e | Inr v \<Rightarrow> f v)"

lemma rbind_simps [simp]:
  "rbind (Inl e) f = Inl e"
  "rbind (Inr v) f = f v"
  by (simp_all add: rbind_def)

lemma rbind_Inr_iff:
  "rbind r f = Inr w \<longleftrightarrow> (\<exists>v. r = Inr v \<and> f v = Inr w)"
  by (cases r) auto

lemma rbind_cong [fundef_cong]:
  "r = r' \<Longrightarrow> (\<And>v. r' = Inr v \<Longrightarrow> f v = f' v) \<Longrightarrow> rbind r f = rbind r' f'"
  by (cases r') auto

text \<open>An early return: \<open>if (!cond) return error;\<close>.\<close>

definition rguard :: "bool \<Rightarrow> 'e \<Rightarrow> 'e + unit" where
  "rguard b e = (if b then Inr () else Inl e)"

lemma rguard_Inr_iff [simp]: "rguard b e = Inr u \<longleftrightarrow> b"
  by (simp add: rguard_def)

text \<open>A loop over a range whose body may return an error: the first error ends it.\<close>

fun rfold :: "('s \<Rightarrow> 'a \<Rightarrow> 'e + 's) \<Rightarrow> 's \<Rightarrow> 'a list \<Rightarrow> 'e + 's" where
  "rfold f s [] = Inr s"
| "rfold f s (x # xs) = rbind (f s x) (\<lambda>s'. rfold f s' xs)"

lemma rfold_cong [fundef_cong]:
  assumes "s = s'" "xs = xs'" "\<And>t x. x \<in> set xs' \<Longrightarrow> f t x = f' t x"
  shows "rfold f s xs = rfold f' s' xs'"
  unfolding assms(1,2) using assms(3)
  by (induction xs' arbitrary: s') (auto simp: rbind_def split: sum.splits)

lemma rfold_append:
  "rfold f s (xs @ ys) = rbind (rfold f s xs) (\<lambda>t. rfold f t ys)"
proof (induction xs arbitrary: s)
  case (Cons x xs)
  then show ?case by (cases "f s x") auto
qed simp

text \<open>An invariant of the loop state that the body keeps holds for the result.\<close>

lemma rfold_invariant:
  assumes "rfold f s xs = Inr t" "P s"
    and "\<And>u x v. x \<in> set xs \<Longrightarrow> P u \<Longrightarrow> f u x = Inr v \<Longrightarrow> P v"
  shows "P t"
  using assms
proof (induction xs arbitrary: s)
  case (Cons x xs)
  from Cons.prems(1) obtain v where v: "f s x = Inr v" "rfold f v xs = Inr t"
    by (auto simp: rbind_Inr_iff)
  have "P v" using Cons.prems(2,3) v(1) by auto
  then show ?case using Cons.IH [OF v(2)] Cons.prems(3) by auto
qed auto

text \<open>
  A computation that may also have no result at all (fuel spent, or an exception that is not
  caught): \<open>None\<close>.
\<close>

definition fbind :: "('e + 'a) option \<Rightarrow> ('a \<Rightarrow> ('e + 'b) option) \<Rightarrow> ('e + 'b) option" where
  "fbind r f = (case r of None \<Rightarrow> None | Some (Inl e) \<Rightarrow> Some (Inl e) | Some (Inr v) \<Rightarrow> f v)"

lemma fbind_simps [simp]:
  "fbind None f = None"
  "fbind (Some (Inl e)) f = Some (Inl e)"
  "fbind (Some (Inr v)) f = f v"
  by (simp_all add: fbind_def)

lemma fbind_Inr_iff:
  "fbind r f = Some (Inr w) \<longleftrightarrow> (\<exists>v. r = Some (Inr v) \<and> f v = Some (Inr w))"
  by (auto simp: fbind_def split: option.splits sum.splits)

lemma fbind_None_iff:
  "fbind r f = None \<longleftrightarrow> r = None \<or> (\<exists>v. r = Some (Inr v) \<and> f v = None)"
  by (auto simp: fbind_def split: option.splits sum.splits)

lemma fbind_cong [fundef_cong]:
  "r = r' \<Longrightarrow> (\<And>v. r' = Some (Inr v) \<Longrightarrow> f v = f' v) \<Longrightarrow> fbind r f = fbind r' f'"
  by (auto simp: fbind_def split: option.splits sum.splits)

text \<open>Loops that check every element, without and with the extra \<open>None\<close>.\<close>

fun rcheck :: "('a \<Rightarrow> 'e + unit) \<Rightarrow> 'a list \<Rightarrow> 'e + unit" where
  "rcheck f [] = Inr ()"
| "rcheck f (x # xs) = rbind (f x) (\<lambda>_. rcheck f xs)"

lemma rcheck_cong [fundef_cong]:
  "xs = ys \<Longrightarrow> (\<And>x. x \<in> set ys \<Longrightarrow> f x = g x) \<Longrightarrow> rcheck f xs = rcheck g ys"
  by (induction ys arbitrary: xs) auto

lemma rcheck_Inr [simp]: "rcheck f xs = Inr u \<longleftrightarrow> (\<forall>x \<in> set xs. f x = Inr ())"
  by (induction xs) (auto simp: rbind_Inr_iff)

fun fcheck :: "('a \<Rightarrow> ('e + unit) option) \<Rightarrow> 'a list \<Rightarrow> ('e + unit) option" where
  "fcheck f [] = Some (Inr ())"
| "fcheck f (x # xs) = fbind (f x) (\<lambda>_. fcheck f xs)"

lemma fcheck_cong [fundef_cong]:
  "xs = ys \<Longrightarrow> (\<And>x. x \<in> set ys \<Longrightarrow> f x = g x) \<Longrightarrow> fcheck f xs = fcheck g ys"
  by (induction ys arbitrary: xs) auto

lemma fcheck_Inr [simp]: "fcheck f xs = Some (Inr u) \<longleftrightarrow> (\<forall>x \<in> set xs. f x = Some (Inr ()))"
  by (induction xs) (auto simp: fbind_Inr_iff)

text \<open>That a computation returns at all, with the rules that show it.\<close>

definition returns :: "'a option \<Rightarrow> bool" where
  "returns r \<longleftrightarrow> r \<noteq> None"

named_theorems returns_intros \<open>rules that show that a computation returns\<close>

lemma returns_Some [simp]: "returns (Some x)" "\<not> returns None"
  by (simp_all add: returns_def)

lemma returns_fbind [returns_intros]:
  "returns r \<Longrightarrow> (\<And>v. r = Some (Inr v) \<Longrightarrow> returns (f v)) \<Longrightarrow> returns (fbind r f)"
  by (auto simp: returns_def fbind_def split: option.splits sum.splits)

lemma returns_fcheck [returns_intros]: "(\<And>x. x \<in> set xs \<Longrightarrow> returns (f x)) \<Longrightarrow> returns (fcheck f xs)"
  by (induction xs) (auto intro: returns_intros)

text \<open>How many elements pass, when every check returns.\<close>

fun fcount :: "('a \<Rightarrow> ('e + unit) option) \<Rightarrow> 'a list \<Rightarrow> nat option" where
  "fcount f [] = Some 0"
| "fcount f (x # xs) =
     (case f x of
        None \<Rightarrow> None
      | Some (Inl _) \<Rightarrow> fcount f xs
      | Some (Inr _) \<Rightarrow> map_option Suc (fcount f xs))"

lemma fcount_cong [fundef_cong]:
  "xs = ys \<Longrightarrow> (\<And>x. x \<in> set ys \<Longrightarrow> f x = g x) \<Longrightarrow> fcount f xs = fcount g ys"
  by (induction ys arbitrary: xs) (auto split: option.splits sum.splits)

lemma returns_fcount: "(\<And>x. x \<in> set xs \<Longrightarrow> returns (f x)) \<Longrightarrow> returns (fcount f xs)"
  by (induction xs) (auto simp: returns_def split: option.splits sum.splits)

lemma fcount_all:
  "fcount f xs = Some n \<Longrightarrow> n \<le> length xs \<and> (n = length xs \<longleftrightarrow> (\<forall>x \<in> set xs. f x = Some (Inr ()))) \<and>
    (n \<noteq> 0 \<longleftrightarrow> (\<exists>x \<in> set xs. f x = Some (Inr ())))"
proof (induction xs arbitrary: n)
  case (Cons x xs)
  from Cons.prems obtain r where r: "f x = Some r" by (auto split: option.splits)
  show ?case
  proof (cases r)
    case (Inl e)
    with Cons r have "n \<le> length xs \<and> (n \<noteq> 0 \<longleftrightarrow> (\<exists>x \<in> set xs. f x = Some (Inr ())))" by simp
    with Inl r show ?thesis by auto
  next
    case (Inr u)
    with Cons.prems r obtain k where "n = Suc k" "fcount f xs = Some k" by auto
    with Cons.IH Inr r show ?thesis by auto
  qed
qed simp

section \<open>Byte strings\<close>

definition byte :: "char \<Rightarrow> nat" where
  "byte c = of_char c"

definition chr :: "nat \<Rightarrow> char" where
  "chr n = char_of n"

lemma byte_less [simp]: "byte c < 256"
  by (simp add: byte_def)

lemma byte_chr [simp]: "n < 256 \<Longrightarrow> byte (chr n) = n"
  by (simp add: byte_def chr_def)

lemma chr_byte [simp]: "chr (byte c) = c"
  by (simp add: byte_def chr_def)

lemma byte_inject [simp]: "byte c = byte d \<longleftrightarrow> c = d"
  by (metis chr_byte)

text \<open>\<open>std::string_view::starts_with\<close>, \<open>ends_with\<close> and \<open>find\<close>.\<close>

fun starts_with :: "'a list \<Rightarrow> 'a list \<Rightarrow> bool" where
  "starts_with s [] = True"
| "starts_with [] (p # ps) = False"
| "starts_with (c # s) (p # ps) = (c = p \<and> starts_with s ps)"

lemma starts_with_iff: "starts_with s p \<longleftrightarrow> (\<exists>t. s = p @ t)"
  by (induction s p rule: starts_with.induct) auto

lemma starts_with_append [simp]: "starts_with (p @ t) p"
  by (auto simp: starts_with_iff)

lemma starts_with_length: "starts_with s p \<Longrightarrow> length p \<le> length s"
  by (auto simp: starts_with_iff)

lemma starts_with_split: "starts_with s p \<Longrightarrow> s = p @ drop (length p) s"
  by (auto simp: starts_with_iff)

definition ends_with :: "'a list \<Rightarrow> 'a list \<Rightarrow> bool" where
  "ends_with s p \<longleftrightarrow> length p \<le> length s \<and> drop (length s - length p) s = p"

text \<open>The first index at which the pattern stands, or \<open>None\<close> for \<open>npos\<close>.\<close>

fun find_sub :: "'a list \<Rightarrow> 'a list \<Rightarrow> nat option" where
  "find_sub p [] = (if p = [] then Some 0 else None)"
| "find_sub p (c # s) =
     (if starts_with (c # s) p then Some 0 else map_option Suc (find_sub p s))"

lemma find_sub_Some:
  "find_sub p s = Some i \<Longrightarrow> i + length p \<le> length s \<and> starts_with (drop i s) p"
  by (induction s arbitrary: i) (auto split: if_splits dest: starts_with_length)

lemma find_sub_Some_split:
  "find_sub p s = Some i \<Longrightarrow> s = take i s @ p @ drop (i + length p) s"
proof -
  assume f: "find_sub p s = Some i"
  from find_sub_Some [OF f] have "starts_with (drop i s) p" by simp
  from starts_with_split [OF this] have "drop i s = p @ drop (length p) (drop i s)" .
  also have "drop (length p) (drop i s) = drop (i + length p) s" by (simp add: add.commute)
  finally show ?thesis using append_take_drop_id [of i s] by metis
qed

lemma find_sub_first:
  "find_sub p s = Some i \<Longrightarrow> j < i \<Longrightarrow> \<not> starts_with (drop j s) p"
proof (induction s arbitrary: i j)
  case (Cons c s)
  then show ?case by (cases j) (auto split: if_splits)
qed (auto split: if_splits)

lemma find_sub_None:
  "find_sub p s = None \<Longrightarrow> \<not> starts_with (drop j s) p"
proof (induction s arbitrary: j)
  case Nil
  then show ?case by (cases p) (auto split: if_splits)
next
  case (Cons c s)
  then show ?case by (cases j) (auto split: if_splits)
qed

lemma find_sub_None_iff:
  "find_sub p s = None \<longleftrightarrow> (\<forall>j. \<not> starts_with (drop j s) p)"
proof
  assume h: "\<forall>j. \<not> starts_with (drop j s) p"
  show "find_sub p s = None"
  proof (cases "find_sub p s")
    case (Some i)
    with find_sub_Some [OF Some] h show ?thesis by blast
  qed
qed (blast dest: find_sub_None)

text \<open>The first position is determined by what stands at and before it.\<close>

lemma find_sub_eqI:
  assumes "starts_with (drop i s) p" "\<And>j. j < i \<Longrightarrow> \<not> starts_with (drop j s) p"
    and "i \<le> length s"
  shows "find_sub p s = Some i"
proof (cases "find_sub p s")
  case None
  then show ?thesis using assms(1) find_sub_None by blast
next
  case (Some k)
  have "\<not> k < i" using find_sub_Some [OF Some] assms(2) by blast
  moreover have "\<not> i < k" using find_sub_first [OF Some] assms(1) by blast
  ultimately show ?thesis using Some by simp
qed

text \<open>
  A marker whose first element occurs nowhere else in it cannot overlap itself, so it is found
  exactly behind a text that does not contain it.
\<close>

lemma starts_with_self_overlap:
  assumes "starts_with (s @ m @ t) m" "m = h # r" "h \<notin> set r" "s \<noteq> []"
  shows "starts_with s m"
proof -
  from assms(1) obtain u where u: "s @ m @ t = m @ u" by (auto simp: starts_with_iff)
  have "length m \<le> length s"
  proof (rule ccontr)
    assume "\<not> length m \<le> length s"
    then have l: "length s < length m" by simp
    have "(s @ m @ t) ! length s = h" using assms(2) by simp
    moreover have "(m @ u) ! length s = r ! (length s - 1)"
      using l assms(2,4) by (cases s) (simp_all add: nth_append)
    moreover have "r ! (length s - 1) \<in> set r"
      using l assms(2,4) by (intro nth_mem) (cases s; simp)
    ultimately show False using u assms(3) by metis
  qed
  then have "take (length m) s = m"
    using u by (metis append_eq_conv_conj append_take_drop_id take_append take_all_iff
        diff_is_0_eq take_eq_Nil append_Nil2)
  then show ?thesis by (metis append_take_drop_id starts_with_append)
qed

lemma find_sub_behind:
  assumes "find_sub m s = None" "m = h # r" "h \<notin> set r"
  shows "find_sub m (s @ m @ t) = Some (length s)"
proof (rule find_sub_eqI)
  show "starts_with (drop (length s) (s @ m @ t)) m" by simp
  show "\<not> starts_with (drop j (s @ m @ t)) m" if j: "j < length s" for j
  proof
    assume "starts_with (drop j (s @ m @ t)) m"
    with j have "starts_with (drop j s @ m @ t) m" by simp
    then have "starts_with (drop j s) m"
      using starts_with_self_overlap [OF _ assms(2,3)] j by (metis drop_eq_Nil not_le)
    then show False using find_sub_None [OF assms(1)] by blast
  qed
qed simp

section \<open>Decimal numbers\<close>

definition digit :: "nat \<Rightarrow> char" where
  "digit n = chr (48 + n)"

definition is_digit :: "char \<Rightarrow> bool" where
  "is_digit c \<longleftrightarrow> 48 \<le> byte c \<and> byte c \<le> 57"

definition digit_value :: "char \<Rightarrow> nat" where
  "digit_value c = byte c - 48"

lemma is_digit_digit [simp]: "n < 10 \<Longrightarrow> is_digit (digit n)"
  by (simp add: is_digit_def digit_def)

lemma digit_value_digit [simp]: "n < 10 \<Longrightarrow> digit_value (digit n) = n"
  by (simp add: digit_value_def digit_def)

text \<open>\<open>std::to_string\<close> on unsigned and signed integers.\<close>

fun decimal :: "nat \<Rightarrow> string" where
  "decimal n = (if n < 10 then [digit n] else decimal (n div 10) @ [digit (n mod 10)])"

declare decimal.simps [simp del]

definition decimal_int :: "int \<Rightarrow> string" where
  "decimal_int i = (if i < 0 then CHR ''-'' # decimal (nat (- i)) else decimal (nat i))"

definition digits_value :: "string \<Rightarrow> nat" where
  "digits_value ds = foldl (\<lambda>v c. v * 10 + digit_value c) 0 ds"

lemma digits_value_snoc [simp]:
  "digits_value (ds @ [c]) = digits_value ds * 10 + digit_value c"
  by (simp add: digits_value_def)

lemma digits_value_Nil [simp]: "digits_value [] = 0"
  by (simp add: digits_value_def)

lemma digits_value_single [simp]: "digits_value [c] = digit_value c"
  by (simp add: digits_value_def)

lemma decimal_digits: "\<forall>c \<in> set (decimal n). is_digit c"
proof (induction n rule: decimal.induct)
  case (1 n)
  then show ?case by (subst decimal.simps) auto
qed

lemma decimal_not_Nil [simp]: "decimal n \<noteq> []"
  by (subst decimal.simps) simp

lemma digits_value_decimal [simp]: "digits_value (decimal n) = n"
proof (induction n rule: decimal.induct)
  case (1 n)
  then show ?case by (subst decimal.simps) (auto split: if_splits)
qed

lemma decimal_inj: "decimal m = decimal n \<Longrightarrow> m = n"
  by (metis digits_value_decimal)

text \<open>No leading zero, except for zero itself.\<close>

lemma decimal_hd: "n > 0 \<Longrightarrow> hd (decimal n) \<noteq> digit 0"
proof (induction n rule: decimal.induct)
  case (1 n)
  show ?case
  proof (cases "n < 10")
    case True
    have "digit n \<noteq> digit 0"
      using True "1.prems" digit_value_digit [of n] digit_value_digit [of 0] by force
    with True show ?thesis by (subst decimal.simps) simp
  next
    case False
    with "1.IH" have "hd (decimal (n div 10)) \<noteq> digit 0" by auto
    with False show ?thesis by (subst decimal.simps) simp
  qed
qed

lemma decimal_0 [simp]: "decimal 0 = [digit 0]"
  by (simp add: decimal.simps)

text \<open>Bounds of the signed 64-bit integers.\<close>

definition int64_min :: int where "int64_min = - (2 ^ 63)"

definition int64_max :: int where "int64_max = 2 ^ 63 - 1"

definition in_int64 :: "int \<Rightarrow> bool" where
  "in_int64 i \<longleftrightarrow> int64_min \<le> i \<and> i \<le> int64_max"

text \<open>
  \<open>std::from_chars\<close> into a \<open>std::int64_t\<close>: an optional minus sign and the longest run of
  digits.  No digit is \<open>invalid_argument\<close>; a value out of range is \<open>result_out_of_range\<close>
  (with the pointer after the digits); otherwise the value.  The second component is what
  is left of the input at the returned pointer.
\<close>

datatype errc = ErrcOk int | ErrcInvalid | ErrcRange

definition from_chars_int64 :: "string \<Rightarrow> errc \<times> string" where
  "from_chars_int64 s =
     (let neg = starts_with s ''-'';
          body = (if neg then drop 1 s else s);
          ds = takeWhile is_digit body;
          left = dropWhile is_digit body;
          v = (if neg then - int (digits_value ds) else int (digits_value ds))
      in if ds = [] then (ErrcInvalid, s)
         else if in_int64 v then (ErrcOk v, left)
         else (ErrcRange, left))"

text \<open>The largest unsigned 64-bit integer, and the products that are checked against it: the test
  divides, as the sources do.\<close>

definition u64_max :: nat where "u64_max = 2 ^ 64 - 1"

definition mul_overflows :: "nat \<Rightarrow> nat \<Rightarrow> bool" where
  "mul_overflows left right \<longleftrightarrow> right \<noteq> 0 \<and> left > u64_max div right"

lemma mul_overflows_iff: "mul_overflows left right \<longleftrightarrow> left * right > u64_max"
  unfolding mul_overflows_def not_le [symmetric] by (cases "right = 0") (simp_all add: less_eq_div_iff_mult_less_eq)

lemma u64_max_less: "n \<le> u64_max \<longleftrightarrow> n < 2 ^ 64"
  by (simp add: u64_max_def less_eq_Suc_le)

lemma checked_product:
  assumes "rfold (\<lambda>r f. if mul_overflows r f then Inl e else Inr (r * f)) a ds = Inr n" "a \<le> u64_max"
  shows "n = a * prod_list ds \<and> n \<le> u64_max"
  using assms
proof (induction ds arbitrary: a)
  case (Cons d ds)
  then show ?case using Cons.IH [of "a * d"]
    by (auto simp: mul_overflows_iff mult.assoc split: if_splits)
qed simp

section \<open>Ordered maps\<close>

text \<open>
  A \<open>std::map\<close> is the list of its pairs in key order, which is also the order in which the
  sources iterate over it.  \<open>map_emplace\<close> is \<open>emplace\<close>: \<open>None\<close> when the key is present
  (the map is unchanged then).
\<close>

fun map_emplace :: "'k::linorder \<Rightarrow> 'v \<Rightarrow> ('k \<times> 'v) list \<Rightarrow> ('k \<times> 'v) list option" where
  "map_emplace k v [] = Some [(k, v)]"
| "map_emplace k v ((k', v') # m) =
     (if k < k' then Some ((k, v) # (k', v') # m)
      else if k = k' then None
      else map_option ((#) (k', v')) (map_emplace k v m))"

definition sorted_keys :: "('k::linorder \<times> 'v) list \<Rightarrow> bool" where
  "sorted_keys m \<longleftrightarrow> sorted_wrt (<) (map fst m)"

lemma sorted_keys_Nil [simp, wf_intros]: "sorted_keys []"
  by (simp add: sorted_keys_def)

lemma sorted_keys_Cons [simp]:
  "sorted_keys ((k, v) # m) \<longleftrightarrow> (\<forall>x \<in> set m. k < fst x) \<and> sorted_keys m"
  by (auto simp: sorted_keys_def)

lemma map_emplace_set:
  "map_emplace k v m = Some m' \<Longrightarrow> set m' = insert (k, v) (set m)"
  by (induction k v m arbitrary: m' rule: map_emplace.induct) (auto split: if_splits)

lemma map_emplace_sorted [wf_intros]:
  "map_emplace k v m = Some m' \<Longrightarrow> sorted_keys m \<Longrightarrow> sorted_keys m'"
proof (induction k v m arbitrary: m' rule: map_emplace.induct)
  case (2 k v k' v' m)
  show ?case
  proof (cases "k < k'")
    case True
    with 2 show ?thesis by (fastforce dest: less_trans)
  next
    case False
    with 2 obtain m'' where m'': "map_emplace k v m = Some m''" "m' = (k', v') # m''" "k \<noteq> k'"
      by (auto split: if_splits)
    with False 2 have "sorted_keys m''" "k' < k" by auto
    with m'' 2 map_emplace_set [OF m''(1)] show ?thesis by auto
  qed
qed auto

lemma map_emplace_None:
  "sorted_keys m \<Longrightarrow> map_emplace k v m = None \<longleftrightarrow> k \<in> fst ` set m"
  by (induction k v m rule: map_emplace.induct) (force split: if_splits)+

lemma map_emplace_length:
  "map_emplace k v m = Some m' \<Longrightarrow> length m' = Suc (length m)"
  by (induction k v m arbitrary: m' rule: map_emplace.induct) (auto split: if_splits)

lemma map_emplace_lookup:
  "map_emplace k v m = Some m' \<Longrightarrow> sorted_keys m \<Longrightarrow>
   map_of m' = (map_of m)(k \<mapsto> v)"
proof (induction k v m arbitrary: m' rule: map_emplace.induct)
  case (2 k v k' v' m)
  then show ?case by (auto split: if_splits simp: fun_eq_iff)
qed auto

text \<open>Keys that come in increasing order are appended at the end.\<close>

lemma map_emplace_snoc:
  "(\<forall>x \<in> set m. fst x < k) \<Longrightarrow> map_emplace k v m = Some (m @ [(k, v)])"
  by (induction k v m rule: map_emplace.induct) auto

section \<open>Joining with commas\<close>

text \<open>The loops that print \<open>','\<close> before every element but the first.\<close>

fun comma_join :: "string list \<Rightarrow> string" where
  "comma_join [] = []"
| "comma_join [x] = x"
| "comma_join (x # y # zs) = x @ '','' @ comma_join (y # zs)"

end
