(* ===== verification/Utf8.thy ===== *)
theory Utf8
  imports Prelude
begin

text \<open>
  The three UTF-8 scanners of the program and its encoder: \<open>Parser::IsValidUtf8\<close> and
  \<open>Parser::AppendUtf8\<close> of src/util/json.cpp, \<open>Utf8CodePointCount\<close> of
  src/runtime/tool_call_parser.cpp, and the character splitter \<open>Utf8Characters\<close> of
  src/model/tokenizer.cpp.  The specification they are measured against is the set of
  encodings of sequences of Unicode scalar values.  Bytes and code points are natural
  numbers here; the 32-bit code point of the source never exceeds 21 bits, so it cannot
  wrap.
\<close>

section \<open>The encoder\<close>

definition append_utf8 :: "nat \<Rightarrow> string" where
  "append_utf8 cp =
     (if cp \<le> 0x7F then [chr cp]
      else if cp \<le> 0x7FF then
        [chr (0xC0 OR drop_bit 6 cp), chr (0x80 OR (cp AND 0x3F))]
      else if cp \<le> 0xFFFF then
        [chr (0xE0 OR drop_bit 12 cp), chr (0x80 OR (drop_bit 6 cp AND 0x3F)),
         chr (0x80 OR (cp AND 0x3F))]
      else
        [chr (0xF0 OR drop_bit 18 cp), chr (0x80 OR (drop_bit 12 cp AND 0x3F)),
         chr (0x80 OR (drop_bit 6 cp AND 0x3F)), chr (0x80 OR (cp AND 0x3F))])"

definition scalar :: "nat \<Rightarrow> bool" where
  "scalar cp \<longleftrightarrow> cp \<le> 0x10FFFF \<and> \<not> (0xD800 \<le> cp \<and> cp \<le> 0xDFFF)"

definition encode_all :: "nat list \<Rightarrow> string" where
  "encode_all cps = concat (map append_utf8 cps)"

section \<open>The validator of the JSON parser\<close>

definition utf8_lead :: "nat \<Rightarrow> (nat \<times> nat \<times> nat) option" where
  "utf8_lead first =
     (if first AND 0xE0 = 0xC0 then Some (1, first AND 0x1F, 0x80)
      else if first AND 0xF0 = 0xE0 then Some (2, first AND 0x0F, 0x800)
      else if first AND 0xF8 = 0xF0 then Some (3, first AND 0x07, 0x10000)
      else None)"

fun utf8_continue :: "nat \<Rightarrow> string \<Rightarrow> nat \<Rightarrow> nat option" where
  "utf8_continue 0 t cp = Some cp"
| "utf8_continue (Suc n) [] cp = None"
| "utf8_continue (Suc n) (b # t) cp =
     (if byte b AND 0xC0 \<noteq> 0x80 then None
      else utf8_continue n t (push_bit 6 cp OR (byte b AND 0x3F)))"

function is_valid_utf8 :: "string \<Rightarrow> bool" where
  "is_valid_utf8 [] = True"
| "is_valid_utf8 (c # t) =
     (if byte c \<le> 0x7F then is_valid_utf8 t
      else case utf8_lead (byte c) of
        None \<Rightarrow> False
      | Some (n, cp0, minimum) \<Rightarrow>
          if length (c # t) \<le> n then False
          else (case utf8_continue n t cp0 of
            None \<Rightarrow> False
          | Some cp \<Rightarrow>
              if cp < minimum \<or> 0x10FFFF < cp \<or> (0xD800 \<le> cp \<and> cp \<le> 0xDFFF) then False
              else is_valid_utf8 (drop n t)))"
  by pat_completeness auto
termination
  by (relation "measure length") auto

section \<open>The code point counter of the tool schema checker\<close>

definition utf8_width :: "nat \<Rightarrow> nat option" where
  "utf8_width lead =
     (if lead \<le> 0x7F then Some 1
      else if 0xC2 \<le> lead \<and> lead \<le> 0xDF then Some 2
      else if 0xE0 \<le> lead \<and> lead \<le> 0xEF then Some 3
      else if 0xF0 \<le> lead \<and> lead \<le> 0xF4 then Some 4
      else None)"

definition is_continuation :: "char \<Rightarrow> bool" where
  "is_continuation b \<longleftrightarrow> byte b AND 0xC0 = 0x80"

text \<open>The second-byte restrictions; \<open>t\<close> is the text after the lead byte.\<close>

definition bad_second_byte :: "nat \<Rightarrow> string \<Rightarrow> bool" where
  "bad_second_byte lead t \<longleftrightarrow>
     (lead = 0xE0 \<and> byte (t ! 0) < 0xA0) \<or>
     (lead = 0xED \<and> 0xA0 \<le> byte (t ! 0)) \<or>
     (lead = 0xF0 \<and> byte (t ! 0) < 0x90) \<or>
     (lead = 0xF4 \<and> 0x90 \<le> byte (t ! 0))"

function utf8_code_point_count :: "string \<Rightarrow> nat option" where
  "utf8_code_point_count [] = Some 0"
| "utf8_code_point_count (c # t) =
     (case utf8_width (byte c) of
        None \<Rightarrow> None
      | Some width \<Rightarrow>
          if length (c # t) < width then None
          else if \<not> list_all is_continuation (take (width - 1) t) then None
          else if bad_second_byte (byte c) t then None
          else map_option Suc (utf8_code_point_count (drop (width - 1) t)))"
  by pat_completeness auto
termination
  by (relation "measure length") auto

section \<open>The character splitter of the tokenizer\<close>

definition character_length :: "nat \<Rightarrow> nat option" where
  "character_length first =
     (if first < 0x80 then Some 1
      else if first AND 0xE0 = 0xC0 then Some 2
      else if first AND 0xF0 = 0xE0 then Some 3
      else if first AND 0xF8 = 0xF0 then Some 4
      else None)"

function utf8_characters :: "string \<Rightarrow> string list result" where
  "utf8_characters [] = Inr []"
| "utf8_characters (c # t) =
     (case character_length (byte c) of
        None \<Rightarrow> Inl (Status KInvalidArgument ''text contains invalid UTF-8'')
      | Some n \<Rightarrow>
          if length (c # t) < n
          then Inl (Status KInvalidArgument ''text contains truncated UTF-8'')
          else if \<not> list_all is_continuation (take (n - 1) t)
          then Inl (Status KInvalidArgument ''text contains invalid UTF-8 continuation'')
          else rbind (utf8_characters (drop (n - 1) t))
                 (\<lambda>cs. Inr ((c # take (n - 1) t) # cs)))"
  by pat_completeness auto
termination
  by (relation "measure length") auto

declare is_valid_utf8.simps(2) [simp del] utf8_code_point_count.simps(2) [simp del]
  utf8_characters.simps(2) [simp del]

section \<open>Bit masks as intervals, bit fields as sums\<close>

lemma and_shifted_mask:
  fixes n :: nat
  shows "n AND push_bit k (mask w) = (n div 2 ^ k mod 2 ^ w) * 2 ^ k"
proof -
  have "n AND push_bit k (mask w) = push_bit k (take_bit w (drop_bit k n))"
    by (rule bit_eqI) (auto simp: bit_simps)
  then show ?thesis
    by (simp add: push_bit_eq_mult take_bit_eq_mod drop_bit_eq_div)
qed

lemma or_disjoint:
  fixes a b :: nat
  assumes "b < 2 ^ k"
  shows "push_bit k a OR b = a * 2 ^ k + b"
proof -
  have b: "take_bit k b = b" using assms by (simp add: take_bit_nat_eq_self)
  have "push_bit k a AND b = 0"
    by (subst b [symmetric], rule bit_eqI) (auto simp: bit_simps)
  then show ?thesis
    using disjunctive_add_eq_or [of "push_bit k a" b] by (simp add: push_bit_eq_mult)
qed

lemma mask_test:
  fixes n :: nat
  assumes "n < 256" "k \<le> 8"
  shows "n AND push_bit k (mask (8 - k)) = (n div 2 ^ k) * 2 ^ k"
proof -
  have "n < 2 ^ k * 2 ^ (8 - k)"
    using assms by (simp flip: power_add)
  then have "n div 2 ^ k < 2 ^ (8 - k)"
    by (simp add: less_mult_imp_div_less mult.commute)
  then show ?thesis by (simp add: and_shifted_mask)
qed

lemma div_test: "d > 0 \<Longrightarrow> (n div d * d = c * d) = (c * d \<le> n \<and> n < (c + 1) * (d::nat))"
  using dividend_less_times_div [of d n] by (auto simp: div_nat_eqI mult.commute)

lemma lead2_iff: "n < 256 \<Longrightarrow> (n AND 0xE0 = 0xC0) = (192 \<le> n \<and> n < (224::nat))"
  using mask_test [of n 5] div_test [of 32 n 6]
  by (simp add: mask_eq_exp_minus_1 push_bit_eq_mult)

lemma lead3_iff: "n < 256 \<Longrightarrow> (n AND 0xF0 = 0xE0) = (224 \<le> n \<and> n < (240::nat))"
  using mask_test [of n 4] div_test [of 16 n 14]
  by (simp add: mask_eq_exp_minus_1 push_bit_eq_mult)

lemma lead4_iff: "n < 256 \<Longrightarrow> (n AND 0xF8 = 0xF0) = (240 \<le> n \<and> n < (248::nat))"
  using mask_test [of n 3] div_test [of 8 n 30]
  by (simp add: mask_eq_exp_minus_1 push_bit_eq_mult)

lemma continuation_iff: "n < 256 \<Longrightarrow> (n AND 0xC0 = 0x80) = (128 \<le> n \<and> n < (192::nat))"
  using mask_test [of n 6] div_test [of 64 n 2]
  by (simp add: mask_eq_exp_minus_1 push_bit_eq_mult)

lemma payload_and:
  "n AND 0x3F = n mod (64::nat)" "n AND 0x1F = n mod (32::nat)"
  "n AND 0x0F = n mod (16::nat)" "n AND 0x07 = n mod (8::nat)"
  using and_shifted_mask [of n 0 6] and_shifted_mask [of n 0 5] and_shifted_mask [of n 0 4]
    and_shifted_mask [of n 0 3] by (simp_all add: mask_eq_exp_minus_1)

lemma lead_or:
  "n < 64 \<Longrightarrow> 0x80 OR n = 128 + (n::nat)" "n < 32 \<Longrightarrow> 0xC0 OR n = 192 + (n::nat)"
  "n < 16 \<Longrightarrow> 0xE0 OR n = 224 + (n::nat)" "n < 8 \<Longrightarrow> 0xF0 OR n = 240 + (n::nat)"
  using or_disjoint [of n 6 2] or_disjoint [of n 5 6] or_disjoint [of n 4 14] or_disjoint [of n 3 30]
  by (simp_all add: push_bit_eq_mult)
lemma shift_or: "push_bit 6 cp OR (n AND 0x3F) = cp * 64 + n mod (64::nat)"
 using or_disjoint [of "n mod 64" 6 cp] by (simp add: payload_and)

lemma utf8_continue_Suc:
  "utf8_continue (Suc n) (b # t) cp =
     (if 128 \<le> byte b \<and> byte b < 192 then utf8_continue n t (cp * 64 + byte b mod 64) else None)"
  by (auto simp: continuation_iff shift_or)

lemma is_continuation_iff: "is_continuation b \<longleftrightarrow> 128 \<le> byte b \<and> byte b < 192"
  by (simp add: is_continuation_def continuation_iff)

lemma utf8_lead_cases:
  "n < 256 \<Longrightarrow> utf8_lead n =
     (if 192 \<le> n \<and> n < 224 then Some (1, n mod 32, 0x80)
      else if 224 \<le> n \<and> n < 240 then Some (2, n mod 16, 0x800)
      else if 240 \<le> n \<and> n < 248 then Some (3, n mod 8, 0x10000)
      else None)"
  by (simp add: utf8_lead_def lead2_iff lead3_iff lead4_iff payload_and)

lemma character_length_cases:
  "n < 256 \<Longrightarrow> character_length n =
     (if n < 128 then Some 1
      else if 192 \<le> n \<and> n < 224 then Some 2
      else if 224 \<le> n \<and> n < 240 then Some 3
      else if 240 \<le> n \<and> n < 248 then Some 4
      else None)"
  by (simp add: character_length_def lead2_iff lead3_iff lead4_iff)

text \<open>The encoder in terms of division and remainder.\<close>

lemma append_utf8_div:
  assumes "cp \<le> 0x10FFFF"
  shows "append_utf8 cp =
     (if cp < 128 then [chr cp]
      else if cp < 2048 then [chr (192 + cp div 64), chr (128 + cp mod 64)]
      else if cp < 65536 then
        [chr (224 + cp div 4096), chr (128 + cp div 64 mod 64), chr (128 + cp mod 64)]
      else [chr (240 + cp div 262144), chr (128 + cp div 4096 mod 64),
            chr (128 + cp div 64 mod 64), chr (128 + cp mod 64)])"
proof -
  have "cp div 64 < 32" if "cp < 2048" using that by (simp add: less_mult_imp_div_less)
  moreover have "cp div 4096 < 16" if "cp < 65536" using that by (simp add: less_mult_imp_div_less)
  moreover have "cp div 262144 < 8" using assms by (simp add: less_mult_imp_div_less)
  ultimately show ?thesis
    by (simp add: append_utf8_def drop_bit_eq_div payload_and lead_or)
qed

lemma field64: "r < 64 \<Longrightarrow> (x * 64 + r) div 64 = (x::nat) \<and> (x * 64 + r) mod 64 = r"
  by simp

text \<open>The shapes of an encoded scalar value, by the fields of its bytes.\<close>

lemma append_utf8_fields:
  "p < 128 \<Longrightarrow> append_utf8 p = [chr p]"
  "2 \<le> p \<Longrightarrow> p < 32 \<Longrightarrow> q < 64 \<Longrightarrow>
     append_utf8 (p * 64 + q) = [chr (192 + p), chr (128 + q)]"
  "p < 16 \<Longrightarrow> q < 64 \<Longrightarrow> r < 64 \<Longrightarrow> 2048 \<le> (p * 64 + q) * 64 + r \<Longrightarrow>
     append_utf8 ((p * 64 + q) * 64 + r) = [chr (224 + p), chr (128 + q), chr (128 + r)]"
  "q < 64 \<Longrightarrow> r < 64 \<Longrightarrow> s < 64 \<Longrightarrow> 65536 \<le> ((p * 64 + q) * 64 + r) * 64 + s \<Longrightarrow>
     ((p * 64 + q) * 64 + r) * 64 + s \<le> 0x10FFFF \<Longrightarrow>
     append_utf8 (((p * 64 + q) * 64 + r) * 64 + s) =
       [chr (240 + p), chr (128 + q), chr (128 + r), chr (128 + s)]"
proof -
  show "p < 128 \<Longrightarrow> append_utf8 p = [chr p]"
    by (simp add: append_utf8_def)
  show "append_utf8 (p * 64 + q) = [chr (192 + p), chr (128 + q)]"
    if "2 \<le> p" "p < 32" "q < 64"
    using that by (subst append_utf8_div) auto
  show "append_utf8 ((p * 64 + q) * 64 + r) = [chr (224 + p), chr (128 + q), chr (128 + r)]"
    if "p < 16" "q < 64" "r < 64" "2048 \<le> (p * 64 + q) * 64 + r"
  proof -
    define cp where "cp = (p * 64 + q) * 64 + r"
    have f: "cp div 64 = p * 64 + q" "cp mod 64 = r"
      unfolding cp_def using field64 [OF that(3)] by blast+
    have "cp div 4096 = p" "cp div 64 mod 64 = q"
      using f(1) field64 [OF that(2), of p] by (simp_all add: div_mult2_eq [of cp 64 64, simplified])
    moreover have "2048 \<le> cp" "cp < 65536"
      using that by (auto simp: cp_def)
    ultimately show ?thesis
      using f by (fold cp_def) (simp add: append_utf8_div)
  qed
  show "append_utf8 (((p * 64 + q) * 64 + r) * 64 + s) =
       [chr (240 + p), chr (128 + q), chr (128 + r), chr (128 + s)]"
    if "q < 64" "r < 64" "s < 64" "65536 \<le> ((p * 64 + q) * 64 + r) * 64 + s"
      "((p * 64 + q) * 64 + r) * 64 + s \<le> 0x10FFFF"
  proof -
    define x where "x = (p * 64 + q) * 64 + r"
    define cp where "cp = x * 64 + s"
    have x: "x div 64 = p * 64 + q" "x mod 64 = r"
      unfolding x_def using field64 [OF that(2)] by blast+
    have f: "cp div 64 = x" "cp mod 64 = s"
      unfolding cp_def using field64 [OF that(3)] by blast+
    have g: "cp div 4096 = p * 64 + q" "cp div 64 mod 64 = r"
      using f x by (simp_all add: div_mult2_eq [of cp 64 64, simplified])
    have "cp div 262144 = p" "cp div 4096 mod 64 = q"
      using g(1) field64 [OF that(1), of p]
      by (simp_all add: div_mult2_eq [of cp 4096 64, simplified])
    moreover have "65536 \<le> cp" "cp \<le> 0x10FFFF"
      using that by (auto simp: cp_def x_def)
    ultimately show ?thesis
      using f g by (fold x_def, fold cp_def) (simp add: append_utf8_div)
  qed
qed

text \<open>Every scalar value has one of these shapes.\<close>

lemma scalar_cases:
  assumes "scalar cp"
  obtains (one) "cp < 128" "append_utf8 cp = [chr cp]"
  | (two) p q where "cp = p * 64 + q" "2 \<le> p" "p < 32" "q < 64"
      "append_utf8 cp = [chr (192 + p), chr (128 + q)]"
  | (three) p q r where "cp = (p * 64 + q) * 64 + r" "p < 16" "q < 64" "r < 64"
      "2048 \<le> cp" "p = 0 \<Longrightarrow> 32 \<le> q" "p = 13 \<Longrightarrow> q < 32"
      "append_utf8 cp = [chr (224 + p), chr (128 + q), chr (128 + r)]"
  | (four) p q r s where "cp = ((p * 64 + q) * 64 + r) * 64 + s" "p \<le> 4" "q < 64" "r < 64" "s < 64"
      "65536 \<le> cp" "cp \<le> 0x10FFFF" "p = 0 \<Longrightarrow> 16 \<le> q" "p = 4 \<Longrightarrow> q < 16"
      "append_utf8 cp = [chr (240 + p), chr (128 + q), chr (128 + r), chr (128 + s)]"
proof -
  obtain x r where x: "cp = x * 64 + r" "r < 64"
    by (metis div_mult_mod_eq mod_less_divisor zero_less_numeral)
  obtain y q where y: "x = y * 64 + q" "q < 64"
    by (metis div_mult_mod_eq mod_less_divisor zero_less_numeral)
  obtain z p where z: "y = z * 64 + p" "p < 64"
    by (metis div_mult_mod_eq mod_less_divisor zero_less_numeral)
  have sc: "cp \<le> 0x10FFFF" "cp < 0xD800 \<or> 0xDFFF < cp"
    using assms by (auto simp: scalar_def)
  consider "cp < 128" | "128 \<le> cp" "cp < 2048" | "2048 \<le> cp" "cp < 65536" | "65536 \<le> cp"
    by linarith
  then show thesis
  proof cases
    case 1
    then show ?thesis using one append_utf8_fields(1) by blast
  next
    case 2
    then have b: "2 \<le> x" "x < 32" using x by linarith+
    show ?thesis
      using two [OF x(1) b x(2)] append_utf8_fields(2) [OF b x(2)] x(1) by simp
  next
    case 3
    have e: "cp = (y * 64 + q) * 64 + r" by (simp only: x y)
    have lo: "2048 \<le> (y * 64 + q) * 64 + r" using 3 by (simp only: e)
    have b: "y < 16" using 3 unfolding e by simp
    have c: "32 \<le> q" if "y = 0" using lo that x(2) by simp
    have d: "q < 32" if "y = 13" using sc(2) that x(2) y(2) unfolding e by auto
    show ?thesis
      using three [OF e b y(2) x(2) 3(1) c d] append_utf8_fields(3) [OF b y(2) x(2) lo]
      by (simp only: e)
  next
    case 4
    have e: "cp = ((z * 64 + p) * 64 + q) * 64 + r" by (simp only: x y z)
    have lo: "65536 \<le> ((z * 64 + p) * 64 + q) * 64 + r" using 4 by (simp only: e)
    have hi: "((z * 64 + p) * 64 + q) * 64 + r \<le> 0x10FFFF" using sc(1) by (simp only: e)
    have b: "z \<le> 4" using hi by simp
    have c: "16 \<le> p" if "z = 0" using lo that x(2) y(2) by simp
    have d: "p < 16" if "z = 4" using hi that by simp
    show ?thesis
      using four [OF e b z(2) y(2) x(2) 4 sc(1) c d] append_utf8_fields(4) [OF z(2) y(2) x(2) lo hi]
      by (simp only: e)
  qed
qed

section \<open>Encodings of scalar values\<close>

lemma append_utf8_not_Nil [simp]: "append_utf8 cp \<noteq> []"
  by (simp add: append_utf8_def)

lemma encode_all_simps [simp]:
  "encode_all [] = []"
  "encode_all (cp # cps) = append_utf8 cp @ encode_all cps"
  "encode_all (cps @ cps') = encode_all cps @ encode_all cps'"
  by (simp_all add: encode_all_def)

lemma field_mods:
  "p < 32 \<Longrightarrow> (192 + p) mod 32 = (p::nat)" "p < 16 \<Longrightarrow> (224 + p) mod 16 = (p::nat)"
  "p < 8 \<Longrightarrow> (240 + p) mod 8 = (p::nat)" "p < 64 \<Longrightarrow> (128 + p) mod 64 = (p::nat)"
  by (auto intro!: mod_nat_eqI)

text \<open>The rewrite rules that run a scanner over a known lead byte and its continuations.\<close>

lemmas scanner_simps = utf8_lead_cases utf8_continue_Suc is_continuation_iff
  character_length_cases field_mods numeral_2_eq_2 numeral_3_eq_3

declare utf8_continue.simps(3) [simp del]

text \<open>A scanner reads one encoded scalar value and goes on with the rest.\<close>

lemma is_valid_utf8_append_scalar:
  assumes "scalar cp"
  shows "is_valid_utf8 (append_utf8 cp @ t) = is_valid_utf8 t"
  using assms
proof (cases rule: scalar_cases)
  case one
  then show ?thesis by (simp add: is_valid_utf8.simps(2))
next
  case (two p q)
  have "128 \<le> p * 64 + q" "p * 64 + q \<le> 0x10FFFF" "\<not> (55296 \<le> p * 64 + q)"
    using two by simp_all
  with two show ?thesis
    by (simp add: is_valid_utf8.simps(2) scanner_simps)
next
  case (three p q r)
  then show ?thesis
    using assms unfolding scalar_def
    by (auto simp: is_valid_utf8.simps(2) scanner_simps)
next
  case (four p q r s)
  then show ?thesis
    using assms unfolding scalar_def
    by (auto simp: is_valid_utf8.simps(2) scanner_simps)
qed

lemma continuation_byte:
  assumes "128 \<le> byte b" "byte b < 192"
  obtains q where "b = chr (128 + q)" "q < 64"
  using that [of "byte b - 128"] assms by simp

lemma byte_between:
  assumes "k \<le> byte b" "byte b < k + m"
  obtains p where "b = chr (k + p)" "p < m"
  using that [of "byte b - k"] assms by simp

text \<open>Conversely, a scanner only advances over an encoded scalar value.\<close>

lemma is_valid_utf8_ConsD:
  assumes v: "is_valid_utf8 (c # t)"
  obtains cp u where "scalar cp" "c # t = append_utf8 cp @ u" "is_valid_utf8 u"
proof -
  from v consider "byte c < 128" | "192 \<le> byte c" "byte c < 192 + 32"
    | "224 \<le> byte c" "byte c < 224 + 16" | "240 \<le> byte c" "byte c < 240 + 8"
    by (auto simp: is_valid_utf8.simps(2) utf8_lead_cases split: if_splits)
  then show thesis
  proof cases
    case 1
    with v have "is_valid_utf8 t" by (simp add: is_valid_utf8.simps(2))
    with 1 show ?thesis
      by (intro that [of "byte c" t]) (simp_all add: append_utf8_fields scalar_def)
  next
    case 2
    from byte_between [OF this] obtain p where p: "c = chr (192 + p)" "p < 32" .
    from v p obtain b u where t: "t = b # u"
      by (cases t) (auto simp: is_valid_utf8.simps(2) scanner_simps)
    from v p t have "128 \<le> byte b" "byte b < 192"
      by (auto simp: is_valid_utf8.simps(2) scanner_simps split: if_splits)
    then obtain q where q: "b = chr (128 + q)" "q < 64" by (rule continuation_byte)
    from v p t q have lo: "128 \<le> p * 64 + q" and u: "is_valid_utf8 u"
      by (auto simp: is_valid_utf8.simps(2) scanner_simps split: if_splits)
    have "2 \<le> p" using lo q by linarith
    with p q t u lo show ?thesis
      by (intro that [of "p * 64 + q" u]) (simp_all add: append_utf8_fields scalar_def)
  next
    case 3
    from byte_between [OF this] obtain p where p: "c = chr (224 + p)" "p < 16" .
    from v p obtain b b' u where t: "t = b # b' # u"
      by (cases t; cases "tl t") (auto simp: is_valid_utf8.simps(2) scanner_simps)
    from v p t have "128 \<le> byte b \<and> byte b < 192" "128 \<le> byte b' \<and> byte b' < 192"
      by (auto simp: is_valid_utf8.simps(2) scanner_simps split: if_splits)
    then obtain q r where q: "b = chr (128 + q)" "q < 64" and r: "b' = chr (128 + r)" "r < 64"
      by (metis continuation_byte)
    let ?cp = "(p * 64 + q) * 64 + r"
    from v p t q r have lo: "2048 \<le> ?cp" and sc: "\<not> (55296 \<le> ?cp \<and> ?cp \<le> 57343)"
      and u: "is_valid_utf8 u"
      by (simp_all add: is_valid_utf8.simps(2) scanner_simps split: if_splits)
    have "?cp \<le> 0x10FFFF" using p q r by simp
    with sc have "scalar ?cp" unfolding scalar_def by simp
    moreover have "c # t = append_utf8 ?cp @ u"
      using append_utf8_fields(3) [OF p(2) q(2) r(2) lo] p q r t by simp
    ultimately show ?thesis using u by (rule that)
  next
    case 4
    from byte_between [OF this] obtain p where p: "c = chr (240 + p)" "p < 8" .
    from v p obtain b b' b'' u where t: "t = b # b' # b'' # u"
      by (cases t; cases "tl t"; cases "tl (tl t)") (auto simp: is_valid_utf8.simps(2) scanner_simps)
    from v p t have "128 \<le> byte b \<and> byte b < 192" "128 \<le> byte b' \<and> byte b' < 192"
      "128 \<le> byte b'' \<and> byte b'' < 192"
      by (auto simp: is_valid_utf8.simps(2) scanner_simps split: if_splits)
    then obtain q r s where q: "b = chr (128 + q)" "q < 64" and r: "b' = chr (128 + r)" "r < 64"
      and s: "b'' = chr (128 + s)" "s < 64"
      by (metis continuation_byte)
    let ?cp = "((p * 64 + q) * 64 + r) * 64 + s"
    from v p t q r s have lo: "65536 \<le> ?cp" and hi: "?cp \<le> 0x10FFFF" and u: "is_valid_utf8 u"
      by (simp_all add: is_valid_utf8.simps(2) scanner_simps split: if_splits)
    have "scalar ?cp" using lo hi unfolding scalar_def by simp
    moreover have "c # t = append_utf8 ?cp @ u"
      using append_utf8_fields(4) [OF q(2) r(2) s(2) lo hi] p q r s t by simp
    ultimately show ?thesis using u by (rule that)
  qed
qed

lemma utf8_code_point_count_append_scalar:
  assumes "scalar cp"
  shows "utf8_code_point_count (append_utf8 cp @ t) = map_option Suc (utf8_code_point_count t)"
  using assms
proof (cases rule: scalar_cases)
  case one
  then show ?thesis
    by (simp add: utf8_code_point_count.simps(2) utf8_width_def bad_second_byte_def)
next
  case (two p q)
  then show ?thesis
    by (simp add: utf8_code_point_count.simps(2) utf8_width_def bad_second_byte_def scanner_simps)
next
  case (three p q r)
  then show ?thesis
    by (auto simp: utf8_code_point_count.simps(2) utf8_width_def bad_second_byte_def scanner_simps)
next
  case (four p q r s)
  then show ?thesis
    by (auto simp: utf8_code_point_count.simps(2) utf8_width_def bad_second_byte_def scanner_simps)
qed

lemma utf8_code_point_count_ConsD:
  assumes v: "utf8_code_point_count (c # t) = Some n"
  obtains cp u m where "scalar cp" "c # t = append_utf8 cp @ u" "utf8_code_point_count u = Some m"
    "n = Suc m"
proof -
  note S = utf8_code_point_count.simps(2) utf8_width_def scanner_simps bad_second_byte_def
  from v consider "byte c < 128" | "194 \<le> byte c" "byte c < 194 + 30"
    | "224 \<le> byte c" "byte c < 224 + 16" | "240 \<le> byte c" "byte c < 240 + 5"
    by (auto simp: S split: if_splits)
  then show thesis
  proof cases
    case 1
    with v obtain m where "utf8_code_point_count t = Some m" "n = Suc m"
      by (auto simp: S)
    with 1 show ?thesis
      by (intro that [of "byte c" t]) (simp_all add: append_utf8_fields scalar_def)
  next
    case 2
    from byte_between [OF this] obtain p where p: "c = chr (194 + p)" "p < 30" .
    from v p obtain b u where t: "t = b # u"
      by (cases t) (auto simp: S)
    from v p t have "128 \<le> byte b" "byte b < 192"
      by (auto simp: S split: if_splits)
    then obtain q where q: "b = chr (128 + q)" "q < 64" by (rule continuation_byte)
    from v p t q obtain m where m: "utf8_code_point_count u = Some m" "n = Suc m"
      by (auto simp: S split: if_splits)
    have "append_utf8 ((p + 2) * 64 + q) = [chr (192 + (p + 2)), chr (128 + q)]"
      using p q by (intro append_utf8_fields(2)) simp_all
    with p q t m show ?thesis
      by (intro that [of "(p + 2) * 64 + q" u]) (simp_all add: scalar_def)
  next
    case 3
    from byte_between [OF this] obtain p where p: "c = chr (224 + p)" "p < 16" .
    from v p obtain b b' u where t: "t = b # b' # u"
      by (cases t; cases "tl t") (auto simp: S split: if_splits)
    from v p t have "128 \<le> byte b \<and> byte b < 192" "128 \<le> byte b' \<and> byte b' < 192"
      by (auto simp: S split: if_splits)
    then obtain q r where q: "b = chr (128 + q)" "q < 64" and r: "b' = chr (128 + r)" "r < 64"
      by (metis continuation_byte)
    let ?cp = "(p * 64 + q) * 64 + r"
    from v p t q r obtain m where m: "utf8_code_point_count u = Some m" "n = Suc m"
      and e: "p = 0 \<Longrightarrow> 32 \<le> q" "p = 13 \<Longrightarrow> q < 32"
      by (auto simp: S split: if_splits)
    have lo: "2048 \<le> ?cp" using e(1) by (cases p) auto
    have hi: "?cp \<le> 0x10FFFF" using p q r by simp
    have "?cp < 0xD800 \<or> 0xDFFF < ?cp" using e(2) p q r by (cases "p < 13"; cases "p = 13") auto
    with hi have "scalar ?cp" unfolding scalar_def by auto
    moreover have "c # t = append_utf8 ?cp @ u"
      using append_utf8_fields(3) [OF p(2) q(2) r(2) lo] p q r t by simp
    ultimately show ?thesis using m by (rule that)
  next
    case 4
    from byte_between [OF this] obtain p where p: "c = chr (240 + p)" "p < 5" .
    from v p obtain b b' b'' u where t: "t = b # b' # b'' # u"
      by (cases t; cases "tl t"; cases "tl (tl t)") (auto simp: S split: if_splits)
    from v p t have "128 \<le> byte b \<and> byte b < 192" "128 \<le> byte b' \<and> byte b' < 192"
      "128 \<le> byte b'' \<and> byte b'' < 192"
      by (auto simp: S split: if_splits)
    then obtain q r s where q: "b = chr (128 + q)" "q < 64" and r: "b' = chr (128 + r)" "r < 64"
      and s: "b'' = chr (128 + s)" "s < 64"
      by (metis continuation_byte)
    let ?cp = "((p * 64 + q) * 64 + r) * 64 + s"
    from v p t q r s obtain m where m: "utf8_code_point_count u = Some m" "n = Suc m"
      and e: "p = 0 \<Longrightarrow> 16 \<le> q" "p = 4 \<Longrightarrow> q < 16"
      by (auto simp: S split: if_splits)
    have lo: "65536 \<le> ?cp" using e(1) by (cases p) auto
    have hi: "?cp \<le> 0x10FFFF" using e(2) p q r s by (cases "p = 4") auto
    have "scalar ?cp" using lo hi unfolding scalar_def by simp
    moreover have "c # t = append_utf8 ?cp @ u"
      using append_utf8_fields(4) [OF q(2) r(2) s(2) lo hi] p q r s t by simp
    ultimately show ?thesis using m by (rule that)
  qed
qed

lemma is_valid_utf8_encode_all: "list_all scalar cps \<Longrightarrow> is_valid_utf8 (encode_all cps)"
  by (induction cps) (auto simp: is_valid_utf8_append_scalar)

lemma is_valid_utf8_decode:
  "is_valid_utf8 s \<Longrightarrow> \<exists>cps. list_all scalar cps \<and> s = encode_all cps"
proof (induction "length s" arbitrary: s rule: less_induct)
  case less
  show ?case
  proof (cases s)
    case Nil
    then show ?thesis by (intro exI [of _ "[]"]) simp
  next
    case (Cons c t)
    with less.prems obtain cp u where u: "scalar cp" "c # t = append_utf8 cp @ u" "is_valid_utf8 u"
      by (auto elim: is_valid_utf8_ConsD)
    from u(2) Cons have "length u < length s"
      by (metis append_utf8_not_Nil length_append length_greater_0_conv less_add_same_cancel2)
    from less.hyps [OF this u(3)] obtain cps where "list_all scalar cps" "u = encode_all cps" by blast
    with u Cons show ?thesis by (intro exI [of _ "cp # cps"]) simp
  qed
qed

lemma utf8_code_point_count_encode_all:
  "list_all scalar cps \<Longrightarrow> utf8_code_point_count (encode_all cps) = Some (length cps)"
  by (induction cps) (auto simp: utf8_code_point_count_append_scalar)

lemma utf8_code_point_count_decode:
  "utf8_code_point_count s = Some n \<Longrightarrow>
   \<exists>cps. list_all scalar cps \<and> s = encode_all cps \<and> length cps = n"
proof (induction "length s" arbitrary: s n rule: less_induct)
  case less
  show ?case
  proof (cases s)
    case Nil
    with less.prems show ?thesis by (intro exI [of _ "[]"]) simp
  next
    case (Cons c t)
    with less.prems obtain cp u m where u: "scalar cp" "c # t = append_utf8 cp @ u"
        "utf8_code_point_count u = Some m" "n = Suc m"
      by (auto elim: utf8_code_point_count_ConsD)
    from u(2) Cons have "length u < length s"
      by (metis append_utf8_not_Nil length_append length_greater_0_conv less_add_same_cancel2)
    from less.hyps [OF this u(3)] obtain cps
      where "list_all scalar cps" "u = encode_all cps" "length cps = m" by blast
    with u Cons show ?thesis by (intro exI [of _ "cp # cps"]) simp
  qed
qed

lemma is_valid_utf8_append:
  "is_valid_utf8 s \<Longrightarrow> is_valid_utf8 (s @ t) = is_valid_utf8 t"
proof -
  assume "is_valid_utf8 s"
  then obtain cps where "list_all scalar cps" "s = encode_all cps"
    using is_valid_utf8_decode by blast
  then show ?thesis
    by (induction cps arbitrary: s) (auto simp: is_valid_utf8_append_scalar)
qed

lemma utf8_characters_append_scalar:
  assumes "scalar cp"
  shows "utf8_characters (append_utf8 cp @ t) =
    rbind (utf8_characters t) (\<lambda>cs. Inr (append_utf8 cp # cs))"
  using assms
proof (cases rule: scalar_cases)
  case one
  then show ?thesis by (simp add: utf8_characters.simps(2) scanner_simps)
qed (simp_all add: utf8_characters.simps(2) scanner_simps)

lemma utf8_characters_concat:
  "utf8_characters s = Inr cs \<Longrightarrow> concat cs = s"
proof (induction s arbitrary: cs rule: utf8_characters.induct)
  case (2 c t)
  from "2.prems" obtain n ds where n: "character_length (byte c) = Some n" "n \<le> length (c # t)"
      "list_all is_continuation (take (n - 1) t)" "utf8_characters (drop (n - 1) t) = Inr ds"
      "cs = (c # take (n - 1) t) # ds"
    by (auto simp: utf8_characters.simps(2) rbind_Inr_iff split: option.splits if_splits)
  with "2.IH" [OF n(1)] show ?case by simp
qed simp

lemma utf8_characters_scalars:
  "list_all scalar cps \<Longrightarrow> utf8_characters (encode_all cps) = Inr (map append_utf8 cps)"
  by (induction cps) (auto simp: utf8_characters_append_scalar)

section \<open>Properties\<close>

text \<open>
  C12. The UTF-8 validator of the JSON parser accepts a byte string exactly when it is the
  encoding, by the program's own encoder, of some sequence of Unicode scalar values: no
  overlong form, no surrogate, nothing above U+10FFFF, no truncated sequence.
\<close>
theorem is_valid_utf8_iff:
  "is_valid_utf8 s \<longleftrightarrow> (\<exists>cps. list_all scalar cps \<and> s = encode_all cps)"
  using is_valid_utf8_decode is_valid_utf8_encode_all by blast

text \<open>
  The code point counter of the strict schema checker, a different scanner in a
  different file, returns \<open>n\<close> exactly on the encodings of \<open>n\<close> scalar values, and fails on
  every other string; so it fails exactly where the JSON validator rejects.
\<close>
theorem utf8_code_point_count_iff:
  "(utf8_code_point_count s = Some n \<longleftrightarrow>
     (\<exists>cps. list_all scalar cps \<and> s = encode_all cps \<and> length cps = n)) \<and>
   (is_valid_utf8 s \<longleftrightarrow> utf8_code_point_count s \<noteq> None)"
  using is_valid_utf8_decode utf8_code_point_count_decode is_valid_utf8_encode_all
    utf8_code_point_count_encode_all by fast

text \<open>
  The tokenizer's character splitter cuts the encoding of a scalar value sequence into
  exactly the encodings of its members.
\<close>
theorem utf8_characters_encode_all:
  "list_all scalar cps \<Longrightarrow> utf8_characters (encode_all cps) = Inr (map append_utf8 cps)"
  by (rule utf8_characters_scalars)

theorem utf8_characters_encode_all_witness:
  "utf8_characters (encode_all [0x41, 0x20AC, 0x1F600]) = Inr (map append_utf8 [0x41, 0x20AC, 0x1F600])"
  by (rule utf8_characters_encode_all) (simp add: scalar_def)

end
