(* ===== verification/Binary64.thy ===== *)
theory Binary64
  imports Prelude
begin

text \<open>
  IEEE 754 binary64 as the sources use it: the value of a \<open>double\<close>, the correctly rounded
  conversions of the standard library (\<open>std::strtod\<close> of a decimal token, the cast from
  \<open>std::int64_t\<close>), comparison, and \<open>ostream << double\<close> with a precision of 17.

  \<open>Finite s m e\<close> stands for \<open>(-1)\<^sup>s * m * 2\<^sup>e\<close>.  It is canonical when
  \<open>2\<^sup>5\<^sup>2 \<le> m < 2\<^sup>5\<^sup>3\<close> and \<open>-1074 \<le> e \<le> 971\<close> (a normal number), or \<open>m < 2\<^sup>5\<^sup>2\<close> and
  \<open>e = -1074\<close> (a subnormal number or zero).
\<close>

datatype binary64 = Finite bool nat int | Infinite bool

fun is_finite :: "binary64 \<Rightarrow> bool" where
  "is_finite (Finite _ _ _) = True"
| "is_finite (Infinite _) = False"

fun canonical :: "binary64 \<Rightarrow> bool" where
  "canonical (Finite s m e) \<longleftrightarrow>
     - 1074 \<le> e \<and> e \<le> 971 \<and> m < 2 ^ 53 \<and> (2 ^ 52 \<le> m \<or> e = - 1074)"
| "canonical (Infinite _) = True"

text \<open>The number of binary digits.\<close>

fun bit_length :: "nat \<Rightarrow> nat" where
  "bit_length n = (if n = 0 then 0 else Suc (bit_length (n div 2)))"

declare bit_length.simps [simp del]

text \<open>Round \<open>num / den\<close> to the nearest natural number, ties to even.\<close>

definition round_div :: "nat \<Rightarrow> nat \<Rightarrow> nat" where
  "round_div num den =
     (let q = num div den; r = num mod den
      in if 2 * r < den then q
         else if den < 2 * r then Suc q
         else if even q then q else Suc q)"

text \<open>\<open>scaled e num den\<close> is the fraction \<open>num / den / 2\<^sup>e\<close> as a numerator and a denominator.\<close>

definition scaled :: "int \<Rightarrow> nat \<Rightarrow> nat \<Rightarrow> nat \<times> nat" where
  "scaled e num den =
     (if 0 \<le> e then (num, den * 2 ^ nat e) else (num * 2 ^ nat (- e), den))"

definition binary_exponent :: "nat \<Rightarrow> nat \<Rightarrow> int" where
  "binary_exponent num den =
     (let e0 = int (bit_length num) - int (bit_length den) - 53;
          (n, d) = scaled e0 num den;
          e1 = (if 2 ^ 53 \<le> n div d then e0 + 1 else e0)
      in max (- 1074) e1)"

definition round_ratio :: "bool \<Rightarrow> nat \<Rightarrow> nat \<Rightarrow> binary64" where
  "round_ratio s num den =
     (if num = 0 then Finite s 0 (- 1074)
      else
        let e = binary_exponent num den;
            (n, d) = scaled e num den;
            m = round_div n d;
            (m', e') = (if 2 ^ 53 \<le> m then (2 ^ 52, e + 1) else (m, e))
        in if 971 < e' then Infinite s else Finite s m' e')"

text \<open>\<open>static_cast<double>(std::int64_t)\<close>.\<close>

definition double_of_int :: "int \<Rightarrow> binary64" where
  "double_of_int i = round_ratio (i < 0) (nat \<bar>i\<bar>) 1"

text \<open>
  \<open>std::strtod\<close> on a complete decimal token: optional sign, digits, optional fraction,
  optional exponent.  The value \<open>digits * 10\<^sup>k\<close> is rounded once.
\<close>

record decimal_token =
  negative :: bool
  significand :: nat
  exponent10 :: int

definition split_fraction :: "string \<Rightarrow> string \<times> string \<times> string" where
  "split_fraction s =
     (let ip = takeWhile is_digit s; s1 = dropWhile is_digit s
      in if starts_with s1 ''.''
         then (ip, takeWhile is_digit (drop 1 s1), dropWhile is_digit (drop 1 s1))
         else (ip, [], s1))"

definition exponent_value :: "string \<Rightarrow> int" where
  "exponent_value s =
     (case s of [] \<Rightarrow> 0
      | _ # t \<Rightarrow>
          (if starts_with t ''-'' then - int (digits_value (drop 1 t))
           else if starts_with t ''+'' then int (digits_value (drop 1 t))
           else int (digits_value t)))"

definition read_decimal :: "string \<Rightarrow> decimal_token" where
  "read_decimal s =
     (let neg = starts_with s ''-'';
          (ip, fp, ep) = split_fraction (if neg then drop 1 s else s)
      in \<lparr>negative = neg, significand = digits_value (ip @ fp),
          exponent10 = exponent_value ep - int (length fp)\<rparr>)"

definition double_of_token :: "decimal_token \<Rightarrow> binary64" where
  "double_of_token t =
     (if 0 \<le> exponent10 t
      then round_ratio (negative t) (significand t * 10 ^ nat (exponent10 t)) 1
      else round_ratio (negative t) (significand t) (10 ^ nat (- exponent10 t)))"

definition strtod :: "string \<Rightarrow> binary64" where
  "strtod s = double_of_token (read_decimal s)"

text \<open>
  Comparison of finite values: both sides are brought to the smaller exponent.  Zeros of
  either sign are equal, as the built-in operators have it.
\<close>

fun common_scale :: "binary64 \<Rightarrow> int \<Rightarrow> int" where
  "common_scale (Finite s m e) e0 = (if s then - int (m * 2 ^ nat (e - e0)) else int (m * 2 ^ nat (e - e0)))"
| "common_scale (Infinite s) e0 = 0"

fun double_less :: "binary64 \<Rightarrow> binary64 \<Rightarrow> bool" where
  "double_less (Finite s m e) (Finite s' m' e') \<longleftrightarrow>
     common_scale (Finite s m e) (min e e') < common_scale (Finite s' m' e') (min e e')"
| "double_less (Finite s m e) (Infinite s') \<longleftrightarrow> \<not> s'"
| "double_less (Infinite s) (Finite s' m' e') \<longleftrightarrow> s"
| "double_less (Infinite s) (Infinite s') \<longleftrightarrow> s \<and> \<not> s'"

definition double_eq :: "binary64 \<Rightarrow> binary64 \<Rightarrow> bool" where
  "double_eq x y \<longleftrightarrow> \<not> double_less x y \<and> \<not> double_less y x"

definition double_le :: "binary64 \<Rightarrow> binary64 \<Rightarrow> bool" where
  "double_le x y \<longleftrightarrow> \<not> double_less y x"

text \<open>
  \<open>ostream << double\<close> at precision 17 in the default format (\<open>%.17g\<close>): 17 significant
  digits, scientific notation for a decimal exponent below -4 or above 16, trailing zeros
  removed.
\<close>

definition magnitude :: "nat \<Rightarrow> int \<Rightarrow> nat \<times> nat" where
  "magnitude m e = (if 0 \<le> e then (m * 2 ^ nat e, 1) else (m, 2 ^ nat (- e)))"

definition decimal_exponent :: "nat \<Rightarrow> nat \<Rightarrow> int" where
  "decimal_exponent p q =
     (if q \<le> p then int (length (decimal (p div q))) - 1
      else - int (length (decimal ((q - 1) div p))))"

definition significant_digits :: "nat \<Rightarrow> nat \<Rightarrow> nat \<times> int" where
  "significant_digits p q =
     (let x = decimal_exponent p q;
          n = (if 16 \<le> x then round_div p (q * 10 ^ nat (x - 16))
               else round_div (p * 10 ^ nat (16 - x)) q)
      in if 10 ^ 17 \<le> n then (10 ^ 16, x + 1) else (n, x))"

definition strip_zeros :: "string \<Rightarrow> string" where
  "strip_zeros ds = rev (dropWhile (\<lambda>c. c = CHR ''0'') (rev ds))"

definition with_fraction :: "string \<Rightarrow> string \<Rightarrow> string" where
  "with_fraction ip fp = (let f = strip_zeros fp in if f = [] then ip else ip @ ''.'' @ f)"

definition exponent_digits :: "nat \<Rightarrow> string" where
  "exponent_digits n = (if n < 10 then CHR ''0'' # decimal n else decimal n)"

definition format_digits :: "nat \<Rightarrow> int \<Rightarrow> string" where
  "format_digits n x =
     (let ds = decimal n
      in if x < - 4 \<or> 17 \<le> x
         then with_fraction (take 1 ds) (drop 1 ds) @ ''e'' @
              (if x < 0 then ''-'' else ''+'') @ exponent_digits (nat \<bar>x\<bar>)
         else if 0 \<le> x
         then with_fraction (take (Suc (nat x)) ds) (drop (Suc (nat x)) ds)
         else with_fraction ''0'' (replicate (nat (- x) - 1) (CHR ''0'') @ ds))"

fun print_double :: "binary64 \<Rightarrow> string" where
  "print_double (Infinite s) = (if s then ''-inf'' else ''inf'')"
| "print_double (Finite s m e) =
     (if s then ''-'' else []) @
     (if m = 0 then ''0''
      else case magnitude m e of (p, q) \<Rightarrow> (case significant_digits p q of (n, x) \<Rightarrow> format_digits n x))"

section \<open>The <charconv> conversions of doubles\<close>

text \<open>
  \<open>std::to_chars(double)\<close>: the shortest text that reads back as the same value, fixed notation
  unless scientific is strictly shorter, and of the texts of that length the one closest to the
  value.  \<open>shortest_digits\<close> tries 1 to 17 significant digits: of the two candidates next to the
  value those that read back, and of these the closer one.
\<close>

definition candidate_digits :: "nat \<Rightarrow> int \<Rightarrow> nat \<Rightarrow> nat \<Rightarrow> nat \<Rightarrow> (nat \<times> int) option" where
  "candidate_digits m e p q n =
     (let k = decimal_exponent p q - int (n - 1);
          (a, b) = (if 0 \<le> k then (p, q * 10 ^ nat k) else (p * 10 ^ nat (- k), q));
          lo = a div b;
          back = (\<lambda>d. double_of_token \<lparr>negative = False, significand = d, exponent10 = k\<rparr> = Finite False m e)
      in if back lo \<and> (2 * (a mod b) \<le> b \<or> \<not> back (Suc lo)) then Some (lo, k)
         else if back (Suc lo) then Some (if Suc lo = 10 ^ n then (10 ^ (n - 1), k + 1) else (Suc lo, k))
         else None)"

fun first_some :: "('a \<Rightarrow> 'b option) \<Rightarrow> 'a list \<Rightarrow> 'b option" where
  "first_some f [] = None"
| "first_some f (x # xs) = (case f x of Some y \<Rightarrow> Some y | None \<Rightarrow> first_some f xs)"

definition shortest_digits :: "nat \<Rightarrow> int \<Rightarrow> nat \<times> int" where
  "shortest_digits m e =
     (case magnitude m e of (p, q) \<Rightarrow>
        (case first_some (candidate_digits m e p q) [1..<18] of Some r \<Rightarrow> r | None \<Rightarrow> (p div q, 0)))"

definition scientific_text :: "string \<Rightarrow> int \<Rightarrow> string" where
  "scientific_text ds x =
     take 1 ds @ (if length ds = 1 then [] else ''.'' @ drop 1 ds) @ ''e'' @
     (if x < 0 then ''-'' else ''+'') @ exponent_digits (nat \<bar>x\<bar>)"

definition fixed_text :: "nat \<Rightarrow> int \<Rightarrow> string \<Rightarrow> int \<Rightarrow> string" where
  "fixed_text m e ds x =
     (if x < 0 then ''0.'' @ replicate (nat (- x) - 1) (CHR ''0'') @ ds
      else if nat x + 1 < length ds then take (Suc (nat x)) ds @ ''.'' @ drop (Suc (nat x)) ds
      else decimal (m * 2 ^ nat e div 2 ^ nat (- e)))"

fun to_chars_double :: "binary64 \<Rightarrow> string" where
  "to_chars_double (Infinite s) = (if s then ''-inf'' else ''inf'')"
| "to_chars_double (Finite s m e) =
     (if s then ''-'' else []) @
     (if m = 0 then ''0''
      else case shortest_digits m e of (n, k) \<Rightarrow>
        let ds = decimal n;
            x = k + int (length ds) - 1;
            f = fixed_text m e ds x;
            t = scientific_text ds x
        in if length f \<le> length t then f else t)"

text \<open>
  \<open>std::from_chars\<close> into a \<open>double\<close> (general format): whether it succeeds and what it leaves
  unread.  It takes a minus sign but no plus, digits with an optional point (at least one digit
  on one side of it), an exponent when digits follow it, or \<open>inf\<close>, \<open>infinity\<close>, \<open>nan\<close> and
  \<open>nan(...)\<close> in any case.  A value beyond the range, or a non-zero one that rounds to zero, is
  \<open>result_out_of_range\<close>.
\<close>

datatype float_errc = FloatOk | FloatInvalid | FloatRange

definition to_lower :: "char \<Rightarrow> char" where
  "to_lower c = (if CHR ''A'' \<le> c \<and> c \<le> CHR ''Z'' then chr (byte c + 32) else c)"

definition is_alnum :: "char \<Rightarrow> bool" where
  "is_alnum c \<longleftrightarrow> (CHR ''0'' \<le> c \<and> c \<le> CHR ''9'') \<or> (CHR ''A'' \<le> c \<and> c \<le> CHR ''Z'') \<or>
     (CHR ''a'' \<le> c \<and> c \<le> CHR ''z'')"

definition skip_nan_payload :: "string \<Rightarrow> string" where
  "skip_nan_payload s =
     (case s of
        [] \<Rightarrow> s
      | c # t \<Rightarrow>
          let r = dropWhile (\<lambda>x. is_alnum x \<or> x = CHR ''_'') t
          in if c = CHR ''('' \<and> starts_with r '')'' then drop 1 r else s)"

definition scan_special :: "string \<Rightarrow> string option" where
  "scan_special s =
     (let l = map to_lower s
      in if starts_with l ''infinity'' then Some (drop 8 s)
         else if starts_with l ''inf'' then Some (drop 3 s)
         else if starts_with l ''nan'' then Some (skip_nan_payload (drop 3 s))
         else None)"

definition scan_exponent :: "string \<Rightarrow> string" where
  "scan_exponent s =
     (if starts_with s ''e'' \<or> starts_with s ''E'' then
        let t = drop 1 s;
            u = (if starts_with t ''+'' \<or> starts_with t ''-'' then drop 1 t else t)
        in if takeWhile is_digit u = [] then s else dropWhile is_digit u
      else s)"

definition from_chars_double :: "string \<Rightarrow> float_errc \<times> string" where
  "from_chars_double s =
     (let body = (if starts_with s ''-'' then drop 1 s else s);
          (ip, fp, r) = split_fraction body
      in if ip = [] \<and> fp = [] then
           (case scan_special body of Some left \<Rightarrow> (FloatOk, left) | None \<Rightarrow> (FloatInvalid, s))
         else
           let left = scan_exponent r;
               token = take (length s - length left) s
           in (case strtod token of
                 Infinite _ \<Rightarrow> (FloatRange, left)
               | Finite _ m _ \<Rightarrow>
                   if m = 0 \<and> digits_value (ip @ fp) \<noteq> 0 then (FloatRange, left) else (FloatOk, left)))"

section \<open>Integers convert to finite values\<close>

lemma bit_length_bounds: "n < 2 ^ bit_length n" "n > 0 \<Longrightarrow> 2 ^ (bit_length n - 1) \<le> n"
proof -
  show "n < 2 ^ bit_length n"
  proof (induction n rule: bit_length.induct)
    case (1 n)
    then show ?case by (subst bit_length.simps) auto
  qed
  show "n > 0 \<Longrightarrow> 2 ^ (bit_length n - 1) \<le> n"
  proof (induction n rule: bit_length.induct)
    case (1 n)
    show ?case
    proof (cases "n div 2 = 0")
      case True
      with 1 have "n = 1" by auto
      then show ?thesis by (simp add: bit_length.simps)
    next
      case False
      with 1 have ih: "2 ^ (bit_length (n div 2) - 1) \<le> n div 2" by simp
      have "bit_length n = Suc (bit_length (n div 2))" "bit_length (n div 2) \<noteq> 0"
        using False "1.prems" by (subst bit_length.simps, simp)+
      then have "2 ^ (bit_length n - 1) = (2::nat) * 2 ^ (bit_length (n div 2) - 1)"
        by (cases "bit_length (n div 2)") simp_all
      with ih show ?thesis by linarith
    qed
  qed
qed

lemma bit_length_le: "n < 2 ^ k \<Longrightarrow> bit_length n \<le> k"
proof (rule ccontr)
  assume a: "n < 2 ^ k" "\<not> bit_length n \<le> k"
  then have "n > 0" by (cases "n = 0") (auto simp: bit_length.simps)
  have "(2::nat) ^ k \<le> 2 ^ (bit_length n - 1)"
    using a(2) by (intro power_increasing) simp_all
  also have "\<dots> \<le> n" using bit_length_bounds(2) [OF \<open>n > 0\<close>] .
  finally show False using a(1) by simp
qed

text \<open>A 64-bit integer converts to a finite double, and only zero to a zero.\<close>

lemma round_ratio_integer:
  assumes "num < 2 ^ 64"
  shows "\<exists>m e. round_ratio s num 1 = Finite s m e \<and> (m = 0 \<longleftrightarrow> num = 0)"
proof (cases "num = 0")
  case False
  define e where "e = binary_exponent num (Suc 0)"
  have bl1: "bit_length (Suc 0) = 1" by (simp add: bit_length.simps)
  have bl: "bit_length num \<le> 64" using assms by (rule bit_length_le)
  have e: "e \<le> int (bit_length num) - 53" "e \<le> 11" if "-1074 \<le> int (bit_length num) - 53"
    using bl by (auto simp: e_def binary_exponent_def bl1 Let_def split: prod.split)
  then have e: "e \<le> int (bit_length num) - 53" "e \<le> 11" by auto
  obtain n d where nd: "scaled e num 1 = (n, d)" by (cases "scaled e num 1")
  have "0 < d \<and> d \<le> n"
  proof (cases "0 \<le> e")
    case True
    have "nat e \<le> bit_length num - 1" using e(1) True by simp
    then have "(2::nat) ^ nat e \<le> 2 ^ (bit_length num - 1)" by (intro power_increasing) simp_all
    also have "\<dots> \<le> num" using bit_length_bounds(2) False by simp
    finally show ?thesis using nd True by (auto simp: scaled_def)
  qed (use nd False in \<open>auto simp: scaled_def\<close>)
  then have "1 \<le> n div d" by (simp add: Suc_le_eq div_greater_zero_iff)
  then have "1 \<le> round_div n d" by (auto simp: round_div_def Let_def)
  then show ?thesis
    using e(2) nd False by (auto simp: round_ratio_def e_def [symmetric] Let_def)
qed (simp add: round_ratio_def)

end
