(* ===== verification/Json.thy ===== *)
theory Json
  imports Utf8 Binary64
begin

text \<open>
  The JSON reader and writer of src/util/json.{h,cpp}: the value type, \<open>Parser\<close> with its
  limits, \<open>Value::find\<close> and \<open>Value::as_number\<close>, \<open>Escape\<close>, \<open>Quote\<close> and \<open>Stringify\<close>.

  The parser's state is the part of the input still to read (\<open>rest\<close>, the source's
  \<open>input_.substr(position_)\<close>), the byte position (which only error messages use) and the
  count of values seen.  The three mutually recursive functions for values, arrays and
  objects take fuel, one unit per call; \<open>None\<close> is "out of fuel".  \<open>json_parse\<close> gives
  \<open>4 * length + 4\<close> units, and \<open>parse_run_terminates\<close> shows that this is always enough.
\<close>

section \<open>Values\<close>

datatype json =
    JNull
  | JBool bool
  | JInt int
  | JDouble binary64
  | JString string
  | JArray "json list"
  | JObject "(string \<times> json) list"

fun is_null :: "json \<Rightarrow> bool" where
  "is_null JNull = True"
| "is_null _ = False"

fun is_bool :: "json \<Rightarrow> bool" where
  "is_bool (JBool _) = True"
| "is_bool _ = False"

fun is_integer :: "json \<Rightarrow> bool" where
  "is_integer (JInt _) = True"
| "is_integer _ = False"

fun is_number :: "json \<Rightarrow> bool" where
  "is_number (JInt _) = True"
| "is_number (JDouble _) = True"
| "is_number _ = False"

fun is_string :: "json \<Rightarrow> bool" where
  "is_string (JString _) = True"
| "is_string _ = False"

fun is_array :: "json \<Rightarrow> bool" where
  "is_array (JArray _) = True"
| "is_array _ = False"

fun is_object :: "json \<Rightarrow> bool" where
  "is_object (JObject _) = True"
| "is_object _ = False"

text \<open>
  The accessors throw \<open>bad_variant_access\<close> on another alternative: \<open>None\<close> here.
\<close>

fun as_bool :: "json \<Rightarrow> bool option" where
  "as_bool (JBool b) = Some b"
| "as_bool _ = None"

fun as_integer :: "json \<Rightarrow> int option" where
  "as_integer (JInt i) = Some i"
| "as_integer _ = None"

fun as_string :: "json \<Rightarrow> string option" where
  "as_string (JString s) = Some s"
| "as_string _ = None"

fun as_array :: "json \<Rightarrow> json list option" where
  "as_array (JArray a) = Some a"
| "as_array _ = None"

fun as_object :: "json \<Rightarrow> (string \<times> json) list option" where
  "as_object (JObject m) = Some m"
| "as_object _ = None"

fun as_number :: "json \<Rightarrow> binary64 option" where
  "as_number (JInt i) = Some (double_of_int i)"
| "as_number (JDouble d) = Some d"
| "as_number _ = None"

fun json_find :: "json \<Rightarrow> string \<Rightarrow> json option" where
  "json_find (JObject m) key = map_of m key"
| "json_find _ key = None"

section \<open>Writing\<close>

definition hex_digit :: "nat \<Rightarrow> char" where
  "hex_digit n = ''0123456789abcdef'' ! n"

definition escape_byte :: "char \<Rightarrow> string" where
  "escape_byte c =
     (if c = CHR 0x22 then [CHR 0x5C, CHR 0x22]
      else if c = CHR 0x5C then [CHR 0x5C, CHR 0x5C]
      else if c = CHR 0x08 then [CHR 0x5C, CHR ''b'']
      else if c = CHR 0x0C then [CHR 0x5C, CHR ''f'']
      else if c = CHR 0x0A then [CHR 0x5C, CHR ''n'']
      else if c = CHR 0x0D then [CHR 0x5C, CHR ''r'']
      else if c = CHR 0x09 then [CHR 0x5C, CHR ''t'']
      else if byte c < 0x20
      then [CHR 0x5C, CHR ''u'', CHR ''0'', CHR ''0'',
            hex_digit (drop_bit 4 (byte c)), hex_digit (byte c AND 0x0F)]
      else [c])"

definition escape :: "string \<Rightarrow> string" where
  "escape s = concat (map escape_byte s)"

definition quote :: "string \<Rightarrow> string" where
  "quote s = CHR 0x22 # escape s @ [CHR 0x22]"

fun stringify :: "json \<Rightarrow> string" where
  "stringify JNull = ''null''"
| "stringify (JBool b) = (if b then ''true'' else ''false'')"
| "stringify (JInt i) = decimal_int i"
| "stringify (JDouble d) = print_double d"
| "stringify (JString s) = quote s"
| "stringify (JArray a) = ''['' @ comma_join (map stringify a) @ '']''"
| "stringify (JObject m) =
     ''{'' @ comma_join (map (\<lambda>(k, v). quote k @ '':'' @ stringify v) m) @ ''}''"

section \<open>Parser state\<close>

record json_limits =
  max_depth :: nat
  max_values :: nat
  max_string_bytes :: nat

definition default_limits :: json_limits where
  "default_limits =
     \<lparr>max_depth = 128, max_values = 2000000, max_string_bytes = 256 * 1024 * 1024\<rparr>"

record pstate =
  rest :: string
  position :: nat
  values_seen :: nat

definition advance :: "nat \<Rightarrow> pstate \<Rightarrow> pstate" where
  "advance n s = s\<lparr>rest := drop n (rest s), position := position s + n\<rparr>"

definition json_error :: "string \<Rightarrow> pstate \<Rightarrow> status" where
  "json_error msg s =
     Status KDataLoss (''JSON parse error at byte '' @ decimal (position s) @ '': '' @ msg)"

definition is_space :: "char \<Rightarrow> bool" where
  "is_space c \<longleftrightarrow> c = CHR '' '' \<or> c = CHR 0x09 \<or> c = CHR 0x0A \<or> c = CHR 0x0D"

definition skip_whitespace :: "pstate \<Rightarrow> pstate" where
  "skip_whitespace s = advance (length (takeWhile is_space (rest s))) s"

text \<open>\<open>Consume\<close>: the new state when the expected byte stands next, \<open>None\<close> otherwise.\<close>

definition consume :: "char \<Rightarrow> pstate \<Rightarrow> pstate option" where
  "consume c s =
     (case rest s of [] \<Rightarrow> None | x # _ \<Rightarrow> if x = c then Some (advance 1 s) else None)"

definition next_is :: "(char \<Rightarrow> bool) \<Rightarrow> pstate \<Rightarrow> bool" where
  "next_is p s = (case rest s of [] \<Rightarrow> False | x # _ \<Rightarrow> p x)"

section \<open>Literals and numbers\<close>

definition parse_literal :: "string \<Rightarrow> json \<Rightarrow> pstate \<Rightarrow> (json \<times> pstate) result" where
  "parse_literal literal v s =
     (if take (length literal) (rest s) \<noteq> literal then Inl (json_error ''invalid literal'' s)
      else Inr (v, advance (length literal) s))"

definition is_digit19 :: "char \<Rightarrow> bool" where
  "is_digit19 c \<longleftrightarrow> CHR ''1'' \<le> c \<and> c \<le> CHR ''9''"

definition skip_digits :: "pstate \<Rightarrow> pstate" where
  "skip_digits s = advance (length (takeWhile is_digit (rest s))) s"

definition number_integer_part :: "pstate \<Rightarrow> pstate result" where
  "number_integer_part s =
     (case consume (CHR ''0'') s of
        Some s1 \<Rightarrow>
          (if next_is is_digit s1 then Inl (json_error ''leading zero in number'' s1) else Inr s1)
      | None \<Rightarrow>
          (if \<not> next_is is_digit19 s then Inl (json_error ''invalid integer part'' s)
           else Inr (skip_digits s)))"

definition number_fraction :: "pstate \<Rightarrow> (bool \<times> pstate) result" where
  "number_fraction s =
     (case consume (CHR ''.'') s of
        None \<Rightarrow> Inr (True, s)
      | Some s1 \<Rightarrow>
          (if \<not> next_is is_digit s1 then Inl (json_error ''fraction requires a digit'' s1)
           else Inr (False, skip_digits s1)))"

definition number_exponent :: "pstate \<Rightarrow> (bool \<times> pstate) result" where
  "number_exponent s =
     (if next_is (\<lambda>c. c = CHR ''e'' \<or> c = CHR ''E'') s then
        let s1 = advance 1 s;
            s2 = (if next_is (\<lambda>c. c = CHR ''+'' \<or> c = CHR ''-'') s1 then advance 1 s1 else s1)
        in if \<not> next_is is_digit s2 then Inl (json_error ''exponent requires a digit'' s2)
           else Inr (False, skip_digits s2)
      else Inr (True, s))"

text \<open>
  \<open>strtod\<close> on a token of this grammar consumes all of it, so only the finiteness test of
  the source can fail.
\<close>

definition number_value :: "bool \<Rightarrow> string \<Rightarrow> pstate \<Rightarrow> json result" where
  "number_value integer token s =
     (let as_double =
            (let d = strtod token
             in if is_finite d then Inr (JDouble d)
                else Inl (json_error ''invalid or non-finite number'' s))
      in if integer then
           (case from_chars_int64 token of
              (ErrcOk v, []) \<Rightarrow> Inr (JInt v)
            | (ErrcRange, _) \<Rightarrow> as_double
            | _ \<Rightarrow> Inl (json_error ''invalid integer'' s))
         else as_double)"

definition parse_number :: "pstate \<Rightarrow> (json \<times> pstate) result" where
  "parse_number s =
     (let s0 = (case consume (CHR ''-'') s of Some s' \<Rightarrow> s' | None \<Rightarrow> s)
      in if consume (CHR ''-'') s \<noteq> None \<and> rest s0 = []
         then Inl (json_error ''incomplete number'' s0)
         else
           rbind (number_integer_part s0) (\<lambda>s1.
           rbind (number_fraction s1) (\<lambda>(int1, s2).
           rbind (number_exponent s2) (\<lambda>(int2, s3).
             let token = take (position s3 - position s) (rest s)
             in rbind (number_value (int1 \<and> int2) token s3) (\<lambda>v. Inr (v, s3))))))"

section \<open>Strings\<close>

definition hex_value :: "char \<Rightarrow> nat option" where
  "hex_value c =
     (if CHR ''0'' \<le> c \<and> c \<le> CHR ''9'' then Some (byte c - byte (CHR ''0''))
      else if CHR ''a'' \<le> c \<and> c \<le> CHR ''f'' then Some (byte c - byte (CHR ''a'') + 10)
      else if CHR ''A'' \<le> c \<and> c \<le> CHR ''F'' then Some (byte c - byte (CHR ''A'') + 10)
      else None)"

fun hex_loop :: "nat \<Rightarrow> nat \<Rightarrow> pstate \<Rightarrow> (nat \<times> pstate) result" where
  "hex_loop 0 v s = Inr (v, s)"
| "hex_loop (Suc n) v s =
     (case rest s of
        [] \<Rightarrow> Inl (json_error ''incomplete unicode escape'' s)
      | c # _ \<Rightarrow>
          (case hex_value c of
             None \<Rightarrow> Inl (json_error ''non-hexadecimal unicode escape'' (advance 1 s))
           | Some d \<Rightarrow> hex_loop n (push_bit 4 v + d) (advance 1 s)))"

definition parse_hex4 :: "pstate \<Rightarrow> (nat \<times> pstate) result" where
  "parse_hex4 s =
     (if length (rest s) < 4 then Inl (json_error ''incomplete unicode escape'' s)
      else hex_loop 4 0 s)"

definition parse_unicode_escape :: "pstate \<Rightarrow> (nat \<times> pstate) result" where
  "parse_unicode_escape s =
     rbind (parse_hex4 s) (\<lambda>(cp, s1).
       if 0xD800 \<le> cp \<and> cp \<le> 0xDBFF then
         (if \<not> starts_with (rest s1) [CHR 0x5C, CHR ''u'']
          then Inl (json_error ''high surrogate is not followed by a low surrogate'' s1)
          else
            rbind (parse_hex4 (advance 2 s1)) (\<lambda>(second, s2).
              if second < 0xDC00 \<or> 0xDFFF < second
              then Inl (json_error ''invalid low surrogate'' s2)
              else Inr (0x10000 + push_bit 10 (cp - 0xD800) + (second - 0xDC00), s2)))
       else if 0xDC00 \<le> cp \<and> cp \<le> 0xDFFF
       then Inl (json_error ''unexpected low surrogate'' s1)
       else Inr (cp, s1))"

definition simple_escape :: "char \<Rightarrow> char option" where
  "simple_escape c =
     (if c = CHR 0x22 then Some (CHR 0x22)
      else if c = CHR 0x5C then Some (CHR 0x5C)
      else if c = CHR ''/'' then Some (CHR ''/'')
      else if c = CHR ''b'' then Some (CHR 0x08)
      else if c = CHR ''f'' then Some (CHR 0x0C)
      else if c = CHR ''n'' then Some (CHR 0x0A)
      else if c = CHR ''r'' then Some (CHR 0x0D)
      else if c = CHR ''t'' then Some (CHR 0x09)
      else None)"

text \<open>
  One turn of the loop of \<open>ParseString\<close> on a byte that is not the closing quote: the bytes
  to append and the state after them.
\<close>

definition string_unit :: "pstate \<Rightarrow> (string \<times> pstate) result" where
  "string_unit s =
     (case rest s of
        [] \<Rightarrow> Inl (json_error ''unterminated string'' s)
      | b # _ \<Rightarrow>
          let s1 = advance 1 s
          in if byte b < 0x20 then Inl (json_error ''unescaped control character in string'' s1)
             else if b \<noteq> CHR 0x5C then Inr ([b], s1)
             else (case rest s1 of
                 [] \<Rightarrow> Inl (json_error ''incomplete string escape'' s1)
               | e # _ \<Rightarrow>
                   let s2 = advance 1 s1
                   in (case simple_escape e of
                         Some c \<Rightarrow> Inr ([c], s2)
                       | None \<Rightarrow>
                           if e = CHR ''u''
                           then rbind (parse_unicode_escape s2)
                                  (\<lambda>(cp, s3). Inr (append_utf8 cp, s3))
                           else Inl (json_error ''invalid string escape'' s2))))"

lemma advance_fields [simp]:
  "rest (advance n s) = drop n (rest s)"
  "position (advance n s) = position s + n"
  "values_seen (advance n s) = values_seen s"
  by (simp_all add: advance_def)

lemma hex_loop_shorter: "hex_loop n v s = Inr (w, s') \<Longrightarrow> length (rest s') = length (rest s) - n"
  by (induction n v s rule: hex_loop.induct) (auto split: list.splits option.splits)

lemma parse_hex4_shorter: "parse_hex4 s = Inr (w, s') \<Longrightarrow> length (rest s') \<le> length (rest s)"
  by (auto simp: parse_hex4_def split: if_splits dest!: hex_loop_shorter)

lemma parse_unicode_escape_shorter:
  "parse_unicode_escape s = Inr (w, s') \<Longrightarrow> length (rest s') \<le> length (rest s)"
  by (fastforce simp: parse_unicode_escape_def rbind_Inr_iff split: if_splits
      dest!: parse_hex4_shorter)

lemma string_unit_shorter:
  assumes "string_unit s = Inr (u, s')"
  shows "length (rest s') < length (rest s)"
proof (cases "rest s")
  case Nil
  with assms show ?thesis by (simp add: string_unit_def)
next
  case (Cons b t)
  note b = Cons
  show ?thesis
  proof (cases t)
    case Nil
    with assms b have "s' = advance 1 s"
      by (auto simp: string_unit_def Let_def split: if_splits)
    with b Nil show ?thesis by simp
  next
    case (Cons e t')
    with assms b show ?thesis
      by (auto simp: string_unit_def Let_def rbind_Inr_iff split: if_splits option.splits
          dest!: parse_unicode_escape_shorter)
  qed
qed

function string_loop :: "json_limits \<Rightarrow> string \<Rightarrow> pstate \<Rightarrow> (string \<times> pstate) result" where
  "string_loop lim out s =
     (if next_is (\<lambda>c. c = CHR 0x22) s then
        (let s1 = advance 1 s
         in if \<not> is_valid_utf8 out then Inl (json_error ''string is not valid UTF-8'' s1)
            else Inr (out, s1))
      else
        rbind (string_unit s) (\<lambda>(u, s1).
          if length (out @ u) > max_string_bytes lim
          then Inl (json_error ''string byte limit exceeded'' s1)
          else string_loop lim (out @ u) s1))"
  by pat_completeness auto
termination
  by (relation "measure (\<lambda>(lim, out, s). length (rest s))") (auto dest: string_unit_shorter)

declare string_loop.simps [simp del]

definition parse_string :: "json_limits \<Rightarrow> pstate \<Rightarrow> (string \<times> pstate) result" where
  "parse_string lim s = string_loop lim [] (advance 1 s)"

section \<open>Values, arrays and objects\<close>

type_synonym 'a fueled = "'a result option"

function (sequential) parse_value :: "nat \<Rightarrow> json_limits \<Rightarrow> nat \<Rightarrow> pstate \<Rightarrow> (json \<times> pstate) fueled"
and parse_array_items :: "nat \<Rightarrow> json_limits \<Rightarrow> nat \<Rightarrow> json list \<Rightarrow> pstate \<Rightarrow> (json \<times> pstate) fueled"
and parse_members :: "nat \<Rightarrow> json_limits \<Rightarrow> nat \<Rightarrow> (string \<times> json) list \<Rightarrow> pstate \<Rightarrow>
      (json \<times> pstate) fueled" where
  "parse_value 0 lim depth s = None"
| "parse_value (Suc fuel) lim depth s =
     (if depth > max_depth lim then Some (Inl (json_error ''nesting limit exceeded'' s))
      else
        let s1 = s\<lparr>values_seen := values_seen s + 1\<rparr>
        in if values_seen s1 > max_values lim
           then Some (Inl (json_error ''value count limit exceeded'' s1))
           else (case rest s1 of
               [] \<Rightarrow> Some (Inl (json_error ''unexpected end of input'' s1))
             | c # _ \<Rightarrow>
                 if c = CHR ''n'' then Some (parse_literal ''null'' JNull s1)
                 else if c = CHR ''t'' then Some (parse_literal ''true'' (JBool True) s1)
                 else if c = CHR ''f'' then Some (parse_literal ''false'' (JBool False) s1)
                 else if c = CHR 0x22
                 then Some (rbind (parse_string lim s1) (\<lambda>(t, s2). Inr (JString t, s2)))
                 else if c = CHR ''['' then
                   (let s2 = skip_whitespace (advance 1 s1)
                    in case consume (CHR '']'') s2 of
                         Some s3 \<Rightarrow> Some (Inr (JArray [], s3))
                       | None \<Rightarrow> parse_array_items fuel lim (depth + 1) [] s2)
                 else if c = CHR ''{'' then
                   (let s2 = skip_whitespace (advance 1 s1)
                    in case consume (CHR ''}'') s2 of
                         Some s3 \<Rightarrow> Some (Inr (JObject [], s3))
                       | None \<Rightarrow> parse_members fuel lim (depth + 1) [] s2)
                 else if c = CHR ''-'' \<or> is_digit c then Some (parse_number s1)
                 else Some (Inl (json_error ''unexpected character'' s1))))"
| "parse_array_items 0 lim depth array s = None"
| "parse_array_items (Suc fuel) lim depth array s =
     fbind (parse_value fuel lim depth s) (\<lambda>(item, s1).
       let s2 = skip_whitespace s1
       in case consume (CHR '']'') s2 of
            Some s3 \<Rightarrow> Some (Inr (JArray (array @ [item]), s3))
          | None \<Rightarrow>
              (case consume (CHR '','') s2 of
                 None \<Rightarrow> Some (Inl (json_error ''expected ',' or ']' in array'' s2))
               | Some s3 \<Rightarrow>
                   parse_array_items fuel lim depth (array @ [item]) (skip_whitespace s3)))"
| "parse_members 0 lim depth object s = None"
| "parse_members (Suc fuel) lim depth object s =
     (if \<not> next_is (\<lambda>c. c = CHR 0x22) s
      then Some (Inl (json_error ''expected a string object key'' s))
      else
        fbind (Some (parse_string lim s)) (\<lambda>(key, s1).
          let s2 = skip_whitespace s1
          in case consume (CHR '':'') s2 of
               None \<Rightarrow> Some (Inl (json_error ''expected ':' after object key'' s2))
             | Some s3 \<Rightarrow>
                 fbind (parse_value fuel lim depth (skip_whitespace s3)) (\<lambda>(v, s4).
                   case map_emplace key v object of
                     None \<Rightarrow> Some (Inl (json_error ''duplicate object key'' s4))
                   | Some object' \<Rightarrow>
                       let s5 = skip_whitespace s4
                       in case consume (CHR ''}'') s5 of
                            Some s6 \<Rightarrow> Some (Inr (JObject object', s6))
                          | None \<Rightarrow>
                              (case consume (CHR '','') s5 of
                                 None \<Rightarrow> Some (Inl (json_error ''expected ',' or '}' in object'' s5))
                               | Some s6 \<Rightarrow>
                                   parse_members fuel lim depth object' (skip_whitespace s6)))))"
  by pat_completeness auto
termination
  by (relation "measure (\<lambda>x. case x of Inl (n, _) \<Rightarrow> n | Inr (Inl (n, _)) \<Rightarrow> n | Inr (Inr (n, _)) \<Rightarrow> n)")
    auto

definition parse_run :: "nat \<Rightarrow> json_limits \<Rightarrow> string \<Rightarrow> json fueled" where
  "parse_run fuel lim input =
     fbind (parse_value fuel lim 0
        (skip_whitespace \<lparr>rest = input, position = 0, values_seen = 0\<rparr>)) (\<lambda>(v, s).
       let s1 = skip_whitespace s
       in if rest s1 \<noteq> [] then Some (Inl (json_error ''trailing data after the root value'' s1))
          else Some (Inr v))"

definition parse_fuel :: "string \<Rightarrow> nat" where
  "parse_fuel input = 4 * length input + 4"

text \<open>The product is one of 64-bit sizes.\<close>

definition document_limit :: "json_limits \<Rightarrow> nat" where
  "document_limit lim = max_string_bytes lim * 2 mod 2 ^ 64"

definition json_parse :: "string \<Rightarrow> json_limits \<Rightarrow> json result" where
  "json_parse input lim =
     (if length input > document_limit lim
      then Inl (Status KDataLoss ''JSON document exceeds configured byte limit'')
      else case parse_run (parse_fuel input) lim input of
             Some r \<Rightarrow> r
           | None \<Rightarrow> Inl (Status KInternal ''out of fuel''))"

end
