(* ===== verification/Json_Sound.thy ===== *)
theory Json_Sound
  imports Json
begin

text \<open>
  What a successful run of the JSON parser guarantees (\<open>parse_sound\<close>): the value is well
  formed and within the limits, the parser moved forward, and its value counter counts the
  nodes of the value.  From it: the fuel \<open>json_parse\<close> gives always suffices, so the model
  terminates with the parser's own answer on every input.
\<close>

section \<open>The well-formedness of values\<close>

fun json_ok :: "json \<Rightarrow> bool" where
  "json_ok JNull = True"
| "json_ok (JBool b) = True"
| "json_ok (JInt i) = in_int64 i"
| "json_ok (JDouble d) = is_finite d"
| "json_ok (JString s) = is_valid_utf8 s"
| "json_ok (JArray a) = list_all json_ok a"
| "json_ok (JObject m) = (sorted_keys m \<and> list_all (\<lambda>(k, v). is_valid_utf8 k \<and> json_ok v) m)"

fun json_depth :: "json \<Rightarrow> nat" where
  "json_depth (JArray a) = foldr (\<lambda>x n. max (Suc (json_depth x)) n) a 0"
| "json_depth (JObject m) = foldr (\<lambda>(k, x) n. max (Suc (json_depth x)) n) m 0"
| "json_depth _ = 0"

fun json_count :: "json \<Rightarrow> nat" where
  "json_count (JArray a) = Suc (sum_list (map json_count a))"
| "json_count (JObject m) = Suc (sum_list (map (\<lambda>(k, x). json_count x) m))"
| "json_count _ = 1"

fun strings_le :: "nat \<Rightarrow> json \<Rightarrow> bool" where
  "strings_le n (JString s) = (length s \<le> n)"
| "strings_le n (JArray a) = list_all (strings_le n) a"
| "strings_le n (JObject m) = list_all (\<lambda>(k, v). length k \<le> n \<and> strings_le n v) m"
| "strings_le n _ = True"

lemma strings_le_mono: "strings_le m v \<Longrightarrow> m \<le> n \<Longrightarrow> strings_le n v"
  by (induction m v rule: strings_le.induct) (fastforce simp: list_all_iff)+

text \<open>A value within the limits: what the parser promises, and what it needs to read one back.\<close>

definition within :: "json_limits \<Rightarrow> json \<Rightarrow> bool" where
  "within lim v \<longleftrightarrow> json_ok v \<and> json_depth v \<le> max_depth lim \<and>
     json_count v \<le> max_values lim \<and> strings_le (max_string_bytes lim) v"

lemma json_depth_array_le: "json_depth (JArray a) \<le> n \<longleftrightarrow> (\<forall>x \<in> set a. Suc (json_depth x) \<le> n)"
  by (induction a) auto

lemma json_depth_object_le:
  "json_depth (JObject m) \<le> n \<longleftrightarrow> (\<forall>x \<in> set m. Suc (json_depth (snd x)) \<le> n)"
  by (induction m) auto

lemma json_depth_bound:
  assumes "d \<le> n"
  shows "d + json_depth (JArray a) \<le> n \<longleftrightarrow> (\<forall>x \<in> set a. Suc (d + json_depth x) \<le> n)"
    and "d + json_depth (JObject m) \<le> n \<longleftrightarrow> (\<forall>x \<in> set m. Suc (d + json_depth (snd x)) \<le> n)"
proof -
  have iff: "d + k \<le> n \<longleftrightarrow> k \<le> n - d" for k using assms by auto
  show "d + json_depth (JArray a) \<le> n \<longleftrightarrow> (\<forall>x \<in> set a. Suc (d + json_depth x) \<le> n)"
    unfolding iff json_depth_array_le using assms by auto
  show "d + json_depth (JObject m) \<le> n \<longleftrightarrow> (\<forall>x \<in> set m. Suc (d + json_depth (snd x)) \<le> n)"
    unfolding iff json_depth_object_le using assms by auto
qed

declare json_depth.simps(1,2) [simp del]

section \<open>Progress: every successful step consumes input\<close>

lemma skip_whitespace_length: "length (rest (skip_whitespace s)) \<le> length (rest s)"
  by (simp add: skip_whitespace_def)

lemma skip_digits_length: "length (rest (skip_digits s)) \<le> length (rest s)"
  by (simp add: skip_digits_def)

lemma consume_Some: "consume c s = Some s' \<longleftrightarrow> (\<exists>t. rest s = c # t \<and> s' = advance 1 s)"
  by (auto simp: consume_def split: list.splits)

lemma consume_None: "consume c s = None \<longleftrightarrow> (\<forall>t. rest s \<noteq> c # t)"
  by (auto simp: consume_def split: list.splits)

lemma consume_length: "consume c s = Some s' \<Longrightarrow> length (rest s') < length (rest s)"
  by (auto simp: consume_Some)

lemma values_seen_simps [simp]:
  "values_seen (skip_whitespace s) = values_seen s"
  "values_seen (skip_digits s) = values_seen s"
  "consume c s = Some s' \<Longrightarrow> values_seen s' = values_seen s"
  by (auto simp: skip_whitespace_def skip_digits_def consume_Some)

text \<open>
  \<open>moves s s'\<close>: the parser went from \<open>s\<close> to \<open>s'\<close> without counting a value or growing the
  rest; \<open>moves_on\<close>: and it consumed at least one byte.
\<close>

definition moves :: "pstate \<Rightarrow> pstate \<Rightarrow> bool" where
  "moves s s' \<longleftrightarrow> length (rest s') \<le> length (rest s) \<and> values_seen s' = values_seen s"

definition moves_on :: "pstate \<Rightarrow> pstate \<Rightarrow> bool" where
  "moves_on s s' \<longleftrightarrow> length (rest s') < length (rest s) \<and> values_seen s' = values_seen s"

lemma moves_refl [simp]: "moves s s"
  by (simp add: moves_def)

lemma moves_trans:
  "moves s t \<Longrightarrow> moves t u \<Longrightarrow> moves s u"
  "moves_on s t \<Longrightarrow> moves t u \<Longrightarrow> moves_on s u"
  "moves s t \<Longrightarrow> moves_on t u \<Longrightarrow> moves_on s u"
  by (auto simp: moves_def moves_on_def)

lemma moves_on_moves: "moves_on s t \<Longrightarrow> moves s t"
  by (simp add: moves_def moves_on_def)

lemma moves_advance [simp]: "moves s (advance n s)"
  by (simp add: moves_def)

lemma moves_skip [simp]: "moves s (skip_whitespace s)" "moves s (skip_digits s)"
  by (simp_all add: moves_def skip_whitespace_length skip_digits_length)

lemma moves_on_consume: "consume c s = Some s' \<Longrightarrow> moves_on s s'"
  by (auto simp: moves_on_def consume_length)

lemma moves_on_skip_digits: "next_is is_digit s \<Longrightarrow> moves_on s (skip_digits s)"
  by (auto simp: moves_on_def skip_digits_def next_is_def split: list.splits)

lemma is_digit19_digit: "is_digit19 c \<Longrightarrow> is_digit c"
  by (auto simp: is_digit19_def is_digit_def byte_def less_eq_char_def)

lemma next_is_digit19: "next_is is_digit19 s \<Longrightarrow> next_is is_digit s"
  by (auto simp: next_is_def is_digit19_digit split: list.splits)

lemma parse_literal_moves: "parse_literal l v s = Inr (w, s') \<Longrightarrow> l \<noteq> [] \<Longrightarrow> w = v \<and> moves_on s s'"
proof -
  assume a: "parse_literal l v s = Inr (w, s')" "l \<noteq> []"
  then have "take (length l) (rest s) = l" "w = v" "s' = advance (length l) s"
    by (auto simp: parse_literal_def split: if_splits)
  with a(2) show ?thesis
    by (cases "rest s") (auto simp: moves_on_def)
qed

lemma number_integer_part_moves: "number_integer_part s = Inr s' \<Longrightarrow> moves_on s s'"
  by (auto simp: number_integer_part_def split: option.splits if_splits
      intro: moves_on_consume moves_on_skip_digits next_is_digit19)

lemma number_fraction_moves: "number_fraction s = Inr (b, s') \<Longrightarrow> moves s s'"
  by (auto simp: number_fraction_def split: option.splits if_splits
      dest!: moves_on_consume intro: moves_trans moves_on_moves)

lemma number_exponent_moves: "number_exponent s = Inr (b, s') \<Longrightarrow> moves s s'"
  by (auto simp: number_exponent_def Let_def split: if_splits
      intro: moves_trans(1) [OF moves_advance] moves_trans(1) [OF moves_advance moves_skip(2)])

lemma number_value_ok: "number_value b tok s = Inr v \<Longrightarrow> json_ok v \<and> json_depth v = 0 \<and>
    json_count v = 1 \<and> strings_le n v"
  by (auto simp: number_value_def Let_def from_chars_int64_def
      split: if_splits prod.splits errc.splits list.splits)

lemma parse_number_moves:
  assumes "parse_number s = Inr (v, s')"
  shows "moves_on s s' \<and> json_ok v \<and> json_depth v = 0 \<and> json_count v = 1 \<and> strings_le n v"
proof -
  define s0 where "s0 = (case consume (CHR ''-'') s of Some t \<Rightarrow> t | None \<Rightarrow> s)"
  have "moves s s0"
    by (auto simp: s0_def split: option.splits intro: moves_on_moves moves_on_consume)
  moreover from assms obtain s1 b2 s2 b3 where
      "number_integer_part s0 = Inr s1" "number_fraction s1 = Inr (b2, s2)"
      "number_exponent s2 = Inr (b3, s')" "\<exists>b tok. number_value b tok s' = Inr v"
    unfolding parse_number_def s0_def [symmetric] Let_def
    by (auto simp: rbind_Inr_iff split: if_splits) blast+
  ultimately show ?thesis
    using number_integer_part_moves number_fraction_moves number_exponent_moves number_value_ok
    by (meson moves_trans)
qed


lemma hex_loop_moves: "hex_loop n v s = Inr (w, s') \<Longrightarrow> moves s s'"
proof (induction n v s rule: hex_loop.induct)
  case (2 n v s)
  then show ?case
    by (auto split: list.splits option.splits) (metis moves_advance moves_trans(1) One_nat_def)
qed simp

lemma parse_unicode_escape_moves: "parse_unicode_escape s = Inr (w, s') \<Longrightarrow> moves s s'"
  by (fastforce simp: parse_unicode_escape_def parse_hex4_def rbind_Inr_iff split: if_splits
      dest!: hex_loop_moves intro: moves_trans(1) moves_trans(1) [OF _ moves_trans(1) [OF moves_advance]])

lemma string_unit_moves: "string_unit s = Inr (u, s') \<Longrightarrow> moves_on s s'"
proof -
  assume a: "string_unit s = Inr (u, s')"
  have "moves s s'"
    using a by (auto simp: string_unit_def Let_def rbind_Inr_iff split: list.splits if_splits option.splits
      dest!: parse_unicode_escape_moves intro: moves_trans(1) [OF moves_advance]
         moves_trans(1) [OF moves_advance moves_trans(1) [OF moves_advance]]
         moves_trans(1) [OF moves_advance moves_advance])
  with string_unit_shorter [OF a] show ?thesis by (simp add: moves_def moves_on_def)
qed

lemma string_loop_moves:
  "string_loop lim out s = Inr (u, s') \<Longrightarrow> length out \<le> max_string_bytes lim \<Longrightarrow>
   moves s s' \<and> is_valid_utf8 u \<and> length u \<le> max_string_bytes lim"
proof (induction lim out s rule: string_loop.induct)
  case (1 lim out s)
  show ?case
  proof (cases "next_is (\<lambda>c. c = CHR 0x22) s")
    case True
    with "1.prems" show ?thesis
      by (auto simp: string_loop.simps [of lim out s] Let_def split: if_splits)
  next
    case False
    with "1.prems"(1) obtain w t where w: "string_unit s = Inr (w, t)"
        "length (out @ w) \<le> max_string_bytes lim" "string_loop lim (out @ w) t = Inr (u, s')"
      by (auto simp: string_loop.simps [of lim out s] rbind_Inr_iff split: if_splits)
    from w(2) have "moves t s' \<and> is_valid_utf8 u \<and> length u \<le> max_string_bytes lim"
      by (intro "1.IH" [OF False w(1) refl _ w(3)]) auto
    with string_unit_moves [OF w(1)] show ?thesis
      using moves_on_moves moves_trans(1) by blast
  qed
qed

lemma parse_string_moves:
  assumes "parse_string lim s = Inr (u, s')" "rest s \<noteq> []"
  shows "moves_on s s' \<and> is_valid_utf8 u \<and> length u \<le> max_string_bytes lim"
proof -
  from assms(1) have "moves (advance 1 s) s' \<and> is_valid_utf8 u \<and> length u \<le> max_string_bytes lim"
    by (intro string_loop_moves [of lim "[]"]) (simp_all add: parse_string_def)
  moreover have "moves_on s (advance 1 s)" using assms(2) by (simp add: moves_on_def)
  ultimately show ?thesis using moves_trans(2) by blast
qed

section \<open>Soundness of the parser\<close>

definition value_result :: "json_limits \<Rightarrow> nat \<Rightarrow> pstate \<Rightarrow> json \<Rightarrow> pstate \<Rightarrow> bool" where
  "value_result lim depth s v s' \<longleftrightarrow>
     length (rest s') < length (rest s) \<and> json_ok v \<and> strings_le (max_string_bytes lim) v \<and>
     depth + json_depth v \<le> max_depth lim \<and>
     values_seen s' = values_seen s + json_count v \<and> values_seen s' \<le> max_values lim"

definition items_result :: "json_limits \<Rightarrow> nat \<Rightarrow> json list \<Rightarrow> pstate \<Rightarrow> json list \<Rightarrow> pstate \<Rightarrow> bool" where
  "items_result lim depth array s items s' \<longleftrightarrow>
     length (rest s') < length (rest s) \<and>
     (\<forall>x \<in> set items. x \<in> set array \<or>
        json_ok x \<and> strings_le (max_string_bytes lim) x \<and> depth + json_depth x \<le> max_depth lim) \<and>
     values_seen s' + sum_list (map json_count array) = values_seen s + sum_list (map json_count items) \<and>
     values_seen s' \<le> max_values lim"

definition members_result :: "json_limits \<Rightarrow> nat \<Rightarrow> (string \<times> json) list \<Rightarrow> pstate \<Rightarrow>
    (string \<times> json) list \<Rightarrow> pstate \<Rightarrow> bool" where
  "members_result lim depth object s members s' \<longleftrightarrow>
     length (rest s') < length (rest s) \<and> sorted_keys members \<and>
     (\<forall>(k, x) \<in> set members. (k, x) \<in> set object \<or>
        is_valid_utf8 k \<and> length k \<le> max_string_bytes lim \<and>
        json_ok x \<and> strings_le (max_string_bytes lim) x \<and> depth + json_depth x \<le> max_depth lim) \<and>
     values_seen s' + sum_list (map (\<lambda>(k, x). json_count x) object) =
       values_seen s + sum_list (map (\<lambda>(k, x). json_count x) members) \<and>
     values_seen s' \<le> max_values lim"

lemma map_emplace_count:
  "map_emplace k v m = Some m' \<Longrightarrow>
   sum_list (map (\<lambda>(k, x). f x) m') = f v + sum_list (map (\<lambda>(k, x). f x) m)" for f :: "'b \<Rightarrow> nat"
  by (induction k v m arbitrary: m' rule: map_emplace.induct) (auto split: if_splits)

lemma parse_sound:
  "parse_value fuel lim depth s = Some (Inr (v, s')) \<Longrightarrow> value_result lim depth s v s'"
  "parse_array_items fuel lim depth array s = Some (Inr (v, s')) \<Longrightarrow>
     values_seen s \<le> max_values lim \<Longrightarrow>
     \<exists>items. v = JArray items \<and> items_result lim depth array s items s'"
  "parse_members fuel lim depth object s = Some (Inr (v, s')) \<Longrightarrow>
     values_seen s \<le> max_values lim \<Longrightarrow> sorted_keys object \<Longrightarrow>
     \<exists>members. v = JObject members \<and> members_result lim depth object s members s'"
proof (induction fuel lim depth s and fuel lim depth array s and fuel lim depth object s
    arbitrary: v s' and v s' and v s'
    rule: parse_value_parse_array_items_parse_members.induct)
  case (2 fuel lim depth s)
  let ?s1 = "s\<lparr>values_seen := values_seen s + 1\<rparr>"
  from "2.prems" have d: "depth \<le> max_depth lim" and n: "values_seen s + 1 \<le> max_values lim"
    by (auto simp: Let_def split: if_splits)
  from "2.prems" d n obtain c t where c: "rest s = c # t"
    by (cases "rest s") (auto simp: Let_def)
  have leaf: "value_result lim depth s v s'"
    if "moves_on ?s1 s'" "json_ok v" "json_depth v = 0" "json_count v = 1" "strings_le (max_string_bytes lim) v"
    using that d n by (auto simp: value_result_def moves_on_def)
  consider (lit) l w where "parse_literal l w ?s1 = Inr (v, s')" "l \<noteq> []"
      "json_ok w" "json_depth w = 0" "json_count w = 1" "strings_le (max_string_bytes lim) w"
    | (str) u where "parse_string lim ?s1 = Inr (u, s')" "v = JString u"
    | (num) "parse_number ?s1 = Inr (v, s')"
    | (nilarr) s3 where "consume (CHR '']'') (skip_whitespace (advance 1 ?s1)) = Some s3" "v = JArray []" "s' = s3"
    | (arr) "c = CHR ''[''" "consume (CHR '']'') (skip_whitespace (advance 1 ?s1)) = None"
        "parse_array_items fuel lim (depth + 1) [] (skip_whitespace (advance 1 ?s1)) = Some (Inr (v, s'))"
    | (nilobj) s3 where "consume (CHR ''}'') (skip_whitespace (advance 1 ?s1)) = Some s3" "v = JObject []" "s' = s3"
    | (obj) "c = CHR ''{''" "consume (CHR ''}'') (skip_whitespace (advance 1 ?s1)) = None"
        "parse_members fuel lim (depth + 1) [] (skip_whitespace (advance 1 ?s1)) = Some (Inr (v, s'))"
    using "2.prems" d n c
    by (auto simp: Let_def rbind_Inr_iff split: if_splits option.splits)
  then show ?case
  proof cases
    case lit
    then show ?thesis using parse_literal_moves [OF lit(1,2)] leaf by auto
  next
    case str
    have "rest ?s1 \<noteq> []" using c by simp
    from parse_string_moves [OF str(1) this] show ?thesis
      using str(2) leaf by auto
  next
    case num
    then show ?thesis using parse_number_moves [OF num] leaf by auto
  next
    case nilarr
    from moves_on_consume [OF nilarr(1)] have "moves_on ?s1 s'"
      using nilarr(3) moves_trans by (meson moves_advance moves_skip(1))
    then show ?thesis using leaf nilarr(2) by (simp add: json_depth.simps)
  next
    case nilobj
    from moves_on_consume [OF nilobj(1)] have "moves_on ?s1 s'"
      using nilobj(3) moves_trans by (meson moves_advance moves_skip(1))
    then show ?thesis using leaf nilobj(2) by (simp add: json_depth.simps)
  next
    case arr
    have "moves ?s1 (skip_whitespace (advance 1 ?s1))" by (meson moves_trans moves_advance moves_skip(1))
    then have m: "length (rest (skip_whitespace (advance 1 ?s1))) \<le> length (rest s)"
      "values_seen (skip_whitespace (advance 1 ?s1)) = Suc (values_seen s)"
      by (auto simp: moves_def)
    from "2.IH"(1) [OF _ refl _ _ _ _ _ _ _ refl arr(2,3)] d n c arr(1) m obtain items
      where "v = JArray items" "items_result lim (depth + 1) [] (skip_whitespace (advance 1 ?s1)) items s'"
      by auto
    with m d show ?thesis
      by (auto simp: value_result_def items_result_def json_depth_bound list_all_iff)
  next
    case obj
    have "moves ?s1 (skip_whitespace (advance 1 ?s1))" by (meson moves_trans moves_advance moves_skip(1))
    then have m: "length (rest (skip_whitespace (advance 1 ?s1))) \<le> length (rest s)"
      "values_seen (skip_whitespace (advance 1 ?s1)) = Suc (values_seen s)"
      by (auto simp: moves_def)
    from "2.IH"(2) [OF _ refl _ _ _ _ _ _ _ _ refl obj(2,3)] d n c obj(1) m obtain members
      where "v = JObject members"
        "members_result lim (depth + 1) [] (skip_whitespace (advance 1 ?s1)) members s'"
      by auto
    with m d show ?thesis
      by (auto simp: value_result_def members_result_def json_depth_bound list_all_iff)
  qed
next
  case (4 fuel lim depth array s)
  from "4.prems"(1) obtain item s1 where item: "parse_value fuel lim depth s = Some (Inr (item, s1))"
    and cont: "(case consume (CHR '']'') (skip_whitespace s1) of
            Some s3 \<Rightarrow> Some (Inr (JArray (array @ [item]), s3))
          | None \<Rightarrow>
              (case consume (CHR '','') (skip_whitespace s1) of
                 None \<Rightarrow> Some (Inl (json_error ''expected ',' or ']' in array'' (skip_whitespace s1)))
               | Some s3 \<Rightarrow>
                   parse_array_items fuel lim depth (array @ [item]) (skip_whitespace s3))) = Some (Inr (v, s'))"
    by (auto simp: fbind_Inr_iff Let_def)
  have one: "value_result lim depth s item s1" by (rule "4.IH"(1) [OF item])
  show ?case
  proof (cases "consume (CHR '']'') (skip_whitespace s1)")
    case (Some s3)
    then have "moves s1 s3" using moves_on_consume moves_on_moves moves_trans(1) moves_skip(1) by blast
    with Some cont one show ?thesis
      by (auto simp: value_result_def items_result_def moves_def)
  next
    case None
    with cont obtain s3 where s3: "consume (CHR '','') (skip_whitespace s1) = Some s3"
      and rec: "parse_array_items fuel lim depth (array @ [item]) (skip_whitespace s3) = Some (Inr (v, s'))"
      by (auto split: option.splits)
    have "moves s1 (skip_whitespace s3)"
      using moves_on_consume [OF s3] moves_on_moves moves_trans(1) moves_skip(1) by blast
    then have m: "length (rest (skip_whitespace s3)) \<le> length (rest s1)"
      "values_seen (skip_whitespace s3) = values_seen s1" by (auto simp: moves_def)
    with one have "values_seen (skip_whitespace s3) \<le> max_values lim" by (simp add: value_result_def)
    from "4.IH"(2) [OF item _ refl None s3 rec this] obtain items where
      "v = JArray items" "items_result lim depth (array @ [item]) (skip_whitespace s3) items s'" by auto
    with one m show ?thesis
      by (fastforce simp: value_result_def items_result_def)
  qed
next
  case (6 fuel lim depth object s)
  from "6.prems"(1) have q: "next_is (\<lambda>c. c = CHR 0x22) s" by (auto split: if_splits)
  then have ne: "rest s \<noteq> []" by (auto simp: next_is_def)
  from "6.prems"(1) q obtain key s1 where key: "parse_string lim s = Inr (key, s1)"
    by (cases "parse_string lim s") auto
  with "6.prems"(1) q obtain s3 where s3: "consume (CHR '':'') (skip_whitespace s1) = Some s3"
    by (auto simp: Let_def split: option.splits)
  with "6.prems"(1) q key obtain x s4 where
      x: "parse_value fuel lim depth (skip_whitespace s3) = Some (Inr (x, s4))"
    by (auto simp: Let_def fbind_Inr_iff)
  with "6.prems"(1) q key s3 obtain object' where e: "map_emplace key x object = Some object'"
    by (auto simp: Let_def split: option.splits)
  have k: "moves_on s s1" "is_valid_utf8 key" "length key \<le> max_string_bytes lim"
    using parse_string_moves [OF key ne] by auto
  have m3: "moves s1 (skip_whitespace s3)"
    using moves_on_consume [OF s3] moves_on_moves moves_trans(1) moves_skip(1) by blast
  have one: "value_result lim depth (skip_whitespace s3) x s4"
    by (rule "6.IH"(1)) (use q key s3 x in auto)
  note em = map_emplace_set [OF e] map_emplace_sorted [OF e "6.prems"(3)] map_emplace_count [OF e]
  show ?case
  proof (cases "consume (CHR ''}'') (skip_whitespace s4)")
    case (Some s6)
    then have m6: "moves s4 s6"
      using moves_on_consume moves_on_moves moves_trans(1) moves_skip(1) by blast
    from Some "6.prems"(1) q key s3 x e have "v = JObject object'" "s' = s6"
      by (auto simp: Let_def)
    with m6 one k m3 em show ?thesis
      by (auto simp: value_result_def members_result_def moves_def moves_on_def)
  next
    case None
    with "6.prems"(1) q key s3 x e obtain s6 where
        s6: "consume (CHR '','') (skip_whitespace s4) = Some s6"
      and rec: "parse_members fuel lim depth object' (skip_whitespace s6) = Some (Inr (v, s'))"
      by (auto simp: Let_def split: option.splits)
    have "moves s4 (skip_whitespace s6)"
      using moves_on_consume [OF s6] moves_on_moves moves_trans(1) moves_skip(1) by blast
    then have m: "length (rest (skip_whitespace s6)) \<le> length (rest s4)"
      "values_seen (skip_whitespace s6) = values_seen s4" by (auto simp: moves_def)
    with one have b: "values_seen (skip_whitespace s6) \<le> max_values lim" by (simp add: value_result_def)
    have q': "\<not> \<not> next_is (\<lambda>c. c = CHR 0x22) s" and k': "Some (parse_string lim s) = Some (Inr (key, s1))"
      using q key by simp_all
    from "6.IH"(2) [OF q' k' refl refl s3 x refl e refl None s6 rec b em(2)]
    obtain members where
      "v = JObject members" "members_result lim depth object' (skip_whitespace s6) members s'" by auto
    with one m k m3 em show ?thesis
      by (fastforce simp: value_result_def members_result_def moves_def moves_on_def)
  qed
qed simp_all


section \<open>The fuel is enough\<close>

lemma skip_after_consume: "consume c (skip_whitespace s) = Some s' \<Longrightarrow>
   length (rest (skip_whitespace s')) < length (rest s)"
  using skip_whitespace_length [of s] skip_whitespace_length [of s'] consume_length
  by (meson le_less_trans less_le_trans)

lemma parse_terminates:
  "2 * length (rest s) + 1 \<le> fuel \<Longrightarrow> parse_value fuel lim depth s \<noteq> None"
  "2 * length (rest s) + 2 \<le> fuel \<Longrightarrow> parse_array_items fuel lim depth array s \<noteq> None"
  "2 * length (rest s) + 2 \<le> fuel \<Longrightarrow> parse_members fuel lim depth object s \<noteq> None"
proof (induction fuel lim depth s and fuel lim depth array s and fuel lim depth object s
    rule: parse_value_parse_array_items_parse_members.induct)
  case (2 fuel lim depth s)
  let ?s1 = "s\<lparr>values_seen := values_seen s + 1\<rparr>"
  let ?s2 = "skip_whitespace (advance 1 ?s1)"
  have "length (rest ?s2) \<le> length (rest s) - 1"
    using skip_whitespace_length [of "advance 1 ?s1"] by simp
  then have "rest s = c # t \<Longrightarrow> 2 * length (rest ?s2) + 2 \<le> fuel" for c t
    using "2.prems" by simp
  with "2.IH"(1) [OF _ refl _ _ _ _ _ _ _ refl] "2.IH"(2) [OF _ refl _ _ _ _ _ _ _ _ refl]
  show ?case
    by (auto simp: Let_def split: list.splits option.splits if_splits)
next
  case (4 fuel lim depth array s)
  have v: "parse_value fuel lim depth s \<noteq> None" using "4.prems" by (intro "4.IH"(1)) simp
  have "parse_array_items fuel lim depth (array @ [item]) (skip_whitespace s3) \<noteq> None"
    if item: "parse_value fuel lim depth s = Some (Inr (item, s1))"
      and n: "consume (CHR '']'') (skip_whitespace s1) = None"
      and c: "consume (CHR '','') (skip_whitespace s1) = Some s3" for item s1 s3
  proof (rule "4.IH"(2) [OF item refl refl n c])
    show "2 * length (rest (skip_whitespace s3)) + 2 \<le> fuel"
      using parse_sound(1) [OF item] skip_after_consume [OF c] "4.prems"
      by (simp add: value_result_def)
  qed
  with v show ?case
    by (auto simp: fbind_None_iff Let_def split: option.splits)
next
  case (6 fuel lim depth object s)
  have v: "parse_value fuel lim depth (skip_whitespace s3) \<noteq> None"
    if q: "next_is (\<lambda>c. c = CHR 0x22) s" and key: "parse_string lim s = Inr (key, s1)"
      and c: "consume (CHR '':'') (skip_whitespace s1) = Some s3" for key s1 s3
  proof (rule "6.IH"(1) [of "(key, s1)"])
    have "length (rest s1) < length (rest s)"
      using parse_string_moves [OF key] q by (auto simp: next_is_def moves_on_def split: list.splits)
    then show "2 * length (rest (skip_whitespace s3)) + 1 \<le> fuel"
      using skip_after_consume [OF c] "6.prems" by simp
  qed (use q key c in auto)
  have "parse_members fuel lim depth object' (skip_whitespace s6) \<noteq> None"
    if q: "next_is (\<lambda>c. c = CHR 0x22) s" and key: "parse_string lim s = Inr (key, s1)"
      and c: "consume (CHR '':'') (skip_whitespace s1) = Some s3"
      and x: "parse_value fuel lim depth (skip_whitespace s3) = Some (Inr (x, s4))"
      and e: "map_emplace key x object = Some object'"
      and n: "consume (CHR ''}'') (skip_whitespace s4) = None"
      and c': "consume (CHR '','') (skip_whitespace s4) = Some s6" for key s1 s3 x s4 object' s6
  proof -
    have q': "\<not> \<not> next_is (\<lambda>c. c = CHR 0x22) s" and k': "Some (parse_string lim s) = Some (Inr (key, s1))"
      using q key by simp_all
    have "length (rest s1) < length (rest s)"
      using parse_string_moves [OF key] q by (auto simp: next_is_def moves_on_def split: list.splits)
    moreover have "length (rest s4) < length (rest (skip_whitespace s3))"
      using parse_sound(1) [OF x] by (simp add: value_result_def)
    ultimately have "2 * length (rest (skip_whitespace s6)) + 2 \<le> fuel"
      using skip_after_consume [OF c] skip_after_consume [OF c'] "6.prems" by simp
    from "6.IH"(2) [OF q' k' refl refl c x refl e refl n c' this] show ?thesis .
  qed
  note rec = this
  show ?case
  proof
    assume n: "parse_members (Suc fuel) lim depth object s = None"
    then have q: "next_is (\<lambda>c. c = CHR 0x22) s" by (auto split: if_splits)
    from n q obtain key s1 where key: "parse_string lim s = Inr (key, s1)"
      by (cases "parse_string lim s") auto
    from n q key obtain s3 where c: "consume (CHR '':'') (skip_whitespace s1) = Some s3"
      by (auto simp: Let_def split: option.splits)
    from n q key c v [OF q key c] obtain x s4
      where x: "parse_value fuel lim depth (skip_whitespace s3) = Some (Inr (x, s4))"
      by (auto simp: Let_def fbind_None_iff)
    from n q key c x obtain object' s6 where
        "map_emplace key x object = Some object'"
        "consume (CHR ''}'') (skip_whitespace s4) = None"
        "consume (CHR '','') (skip_whitespace s4) = Some s6"
        "parse_members fuel lim depth object' (skip_whitespace s6) = None"
      by (auto simp: Let_def split: option.splits)
    with rec [OF q key c x] show False by blast
  qed
qed simp_all

lemma parse_run_terminates:
  "parse_fuel input \<le> fuel \<Longrightarrow> parse_run fuel lim input \<noteq> None"
proof -
  assume f: "parse_fuel input \<le> fuel"
  let ?s = "skip_whitespace \<lparr>rest = input, position = 0, values_seen = 0\<rparr>"
  have "length (rest ?s) \<le> length input"
    using skip_whitespace_length [of "\<lparr>rest = input, position = 0, values_seen = 0\<rparr>"] by simp
  then have "parse_value fuel lim 0 ?s \<noteq> None"
    using f by (intro parse_terminates(1)) (simp add: parse_fuel_def)
  then show ?thesis by (auto simp: parse_run_def fbind_None_iff Let_def)
qed

lemma parse_run_sound:
  "parse_run fuel lim input = Some (Inr v) \<Longrightarrow> within lim v"
  by (auto simp: parse_run_def fbind_Inr_iff Let_def within_def value_result_def split: if_splits
      dest!: parse_sound(1))

lemma json_parse_within:
  "json_parse input lim = Inr v \<Longrightarrow> within lim v"
  by (auto simp: json_parse_def split: if_splits option.splits intro: parse_run_sound)

end
