(* ===== verification/Tool_Schema.thy ===== *)
theory Tool_Schema
  imports Json_Sound
begin

text \<open>
  The JSON Schema subset of src/runtime/tool_call_parser.cpp: \<open>ValidateSchemaDefinition\<close>
  (what a tool may declare) and \<open>MatchesStrictSchema\<close> (whether generated arguments obey it).

  The validator is total: every accessor stands behind a test of the alternative.  The matcher
  trusts a validated schema and uses the accessors directly, so in the model it has three
  outcomes: \<open>Some (Inr ())\<close> for \<open>true\<close>, \<open>Some (Inl reason)\<close> for \<open>false\<close> with the text of the
  \<open>reason\<close> parameter, and \<open>None\<close> for the \<open>bad_variant_access\<close> exception that a wrong alternative
  would throw.  \<open>matches_schema_returns\<close> shows that it cannot happen on a validated schema.
\<close>

section \<open>Names and types\<close>

definition invalid_tool :: "string \<Rightarrow> status" where
  "invalid_tool msg = Status KInvalidArgument msg"

definition name_character :: "char \<Rightarrow> bool" where
  "name_character c \<longleftrightarrow>
     (CHR ''a'' \<le> c \<and> c \<le> CHR ''z'') \<or> (CHR ''A'' \<le> c \<and> c \<le> CHR ''Z'') \<or>
     (CHR ''0'' \<le> c \<and> c \<le> CHR ''9'') \<or> c = CHR ''_''"

definition is_protocol_name :: "string \<Rightarrow> bool" where
  "is_protocol_name name \<longleftrightarrow> name \<noteq> [] \<and> length name \<le> 64 \<and> list_all name_character name"

definition is_schema_type :: "string \<Rightarrow> bool" where
  "is_schema_type t \<longleftrightarrow>
     t \<in> {''null'', ''boolean'', ''object'', ''array'', ''number'', ''integer'', ''string''}"

definition supported_keywords :: "string list" where
  "supported_keywords =
     [''$defs'', ''$ref'', ''additionalProperties'', ''allOf'', ''anyOf'', ''const'', ''default'',
      ''description'', ''enum'', ''exclusiveMaximum'', ''exclusiveMinimum'', ''items'', ''maximum'',
      ''maxItems'', ''maxLength'', ''minimum'', ''minItems'', ''minLength'', ''oneOf'', ''properties'',
      ''required'', ''title'', ''type'']"

section \<open>The checks on one schema object\<close>

text \<open>\<open>if (const Value* v = schema.find(key); v != nullptr) ...\<close>\<close>

definition on_keyword :: "json \<Rightarrow> string \<Rightarrow> (json \<Rightarrow> 'e + unit) \<Rightarrow> 'e + unit" where
  "on_keyword schema key f = (case json_find schema key of None \<Rightarrow> Inr () | Some v \<Rightarrow> f v)"

lemma on_keyword_cong [fundef_cong]:
  "schema = schema' \<Longrightarrow> key = key' \<Longrightarrow> (\<And>v. json_find schema' key' = Some v \<Longrightarrow> f v = g v) \<Longrightarrow>
   on_keyword schema key f = on_keyword schema' key' g"
  by (auto simp: on_keyword_def split: option.splits)

lemma on_keyword_Inr [simp]:
  "on_keyword schema key f = Inr u \<longleftrightarrow> (\<forall>v. json_find schema key = Some v \<longrightarrow> f v = Inr ())"
  by (auto simp: on_keyword_def split: option.splits)

definition check_keywords :: "bool \<Rightarrow> string \<Rightarrow> (string \<times> json) list \<Rightarrow> unit result" where
  "check_keywords strict path members =
     (if strict
      then rcheck (\<lambda>(keyword, value).
             rguard (keyword \<in> set supported_keywords)
               (Status KUnsupported
                  (path @ '' uses unsupported strict-schema keyword '' @ [CHR 0x27] @ keyword @ [CHR 0x27])))
             members
      else Inr ())"

definition check_type :: "string \<Rightarrow> json \<Rightarrow> unit result" where
  "check_type path t =
     (case t of
        JString s \<Rightarrow> rguard (is_schema_type s) (invalid_tool (path @ '' has an unknown schema type''))
      | JArray (x # xs) \<Rightarrow>
          rcheck (\<lambda>item. rguard (case item of JString s \<Rightarrow> is_schema_type s | _ \<Rightarrow> False)
             (invalid_tool (path @ '' has an invalid schema type union''))) (x # xs)
      | _ \<Rightarrow> Inl (invalid_tool (path @ '' type must be a string or non-empty array'')))"

definition check_text :: "string \<Rightarrow> json \<Rightarrow> string \<Rightarrow> unit result" where
  "check_text path schema keyword =
     on_keyword schema keyword (\<lambda>v.
       rguard (is_string v) (invalid_tool (path @ ''.'' @ keyword @ '' must be a string'')))"

definition required_step :: "string \<Rightarrow> string list \<Rightarrow> json \<Rightarrow> string list result" where
  "required_step path seen name =
     (case name of
        JString s \<Rightarrow>
          (if \<not> is_protocol_name s
           then Inl (invalid_tool (path @ '' required entries must be protocol-safe names''))
           else if s \<in> set seen
           then Inl (invalid_tool (path @ '' required entries must be unique''))
           else Inr (s # seen))
      | _ \<Rightarrow> Inl (invalid_tool (path @ '' required entries must be protocol-safe names'')))"

definition check_required :: "string \<Rightarrow> json \<Rightarrow> unit result" where
  "check_required path required =
     (case required of
        JArray names \<Rightarrow> rbind (rfold (required_step path) [] names) (\<lambda>_. Inr ())
      | _ \<Rightarrow> Inl (invalid_tool (path @ '' required must be an array'')))"

definition check_reference :: "string \<Rightarrow> json \<Rightarrow> unit result" where
  "check_reference path reference =
     rguard (case reference of JString s \<Rightarrow> starts_with s ''#/$defs/'' | _ \<Rightarrow> False)
       (Status KUnsupported (path @ '' supports only local #/$defs references''))"

definition check_enum :: "string \<Rightarrow> json \<Rightarrow> unit result" where
  "check_enum path enumeration =
     rguard (case enumeration of JArray (x # xs) \<Rightarrow> True | _ \<Rightarrow> False)
       (invalid_tool (path @ '' enum must be a non-empty array''))"

definition check_bound :: "string \<Rightarrow> json \<Rightarrow> string \<Rightarrow> unit result" where
  "check_bound path schema keyword =
     on_keyword schema keyword (\<lambda>v.
       rguard (case as_number v of None \<Rightarrow> False | Some d \<Rightarrow> is_finite d)
         (invalid_tool (path @ ''.'' @ keyword @ '' must be finite numeric data'')))"

definition check_length :: "string \<Rightarrow> json \<Rightarrow> string \<Rightarrow> unit result" where
  "check_length path schema keyword =
     on_keyword schema keyword (\<lambda>v.
       rguard (case v of JInt i \<Rightarrow> 0 \<le> i | _ \<Rightarrow> False)
         (invalid_tool (path @ ''.'' @ keyword @ '' must be a non-negative integer'')))"

section \<open>The validator\<close>

text \<open>
  The recursion is bounded by the depth test, so \<open>33 - depth\<close> is the termination measure.
  \<open>check_children\<close> is the loop over the children under one keyword, with the path of each.
\<close>

function validate_schema :: "bool \<Rightarrow> string \<Rightarrow> nat \<Rightarrow> json \<Rightarrow> unit result" where
  "validate_schema strict path depth schema =
     (case schema of
        JObject members \<Rightarrow>
          if depth > 32 then Inl (invalid_tool (path @ '' exceeds the schema depth limit''))
          else
            rbind (check_keywords strict path members) (\<lambda>_.
            rbind (on_keyword schema ''type'' (check_type path)) (\<lambda>_.
            rbind (rcheck (check_text path schema) [''description'', ''title'']) (\<lambda>_.
            rbind (on_keyword schema ''properties'' (\<lambda>properties.
              case properties of
                JObject children \<Rightarrow>
                  rcheck (\<lambda>(name, child).
                    if \<not> is_protocol_name name
                    then Inl (Status KUnsupported (path @ '' property '' @ [CHR 0x27] @ name @ [CHR 0x27] @
                           '' cannot be represented by the Gemma tool protocol''))
                    else validate_schema strict (path @ ''.properties.'' @ name) (depth + 1) child) children
              | _ \<Rightarrow> Inl (invalid_tool (path @ '' properties must be an object'')))) (\<lambda>_.
            rbind (on_keyword schema ''required'' (check_required path)) (\<lambda>_.
            rbind (on_keyword schema ''additionalProperties'' (\<lambda>additional.
              if is_bool additional then Inr ()
              else validate_schema strict (path @ ''.additionalProperties'') (depth + 1) additional)) (\<lambda>_.
            rbind (on_keyword schema ''items'' (\<lambda>items.
              validate_schema strict (path @ ''.items'') (depth + 1) items)) (\<lambda>_.
            rbind (rcheck (\<lambda>keyword. on_keyword schema keyword (\<lambda>alternatives.
              case alternatives of
                JArray (x # xs) \<Rightarrow>
                  rcheck (\<lambda>(index, alternative).
                    validate_schema strict (path @ ''.'' @ keyword @ ''['' @ decimal index @ '']'')
                      (depth + 1) alternative) (enumerate 0 (x # xs))
              | _ \<Rightarrow> Inl (invalid_tool (path @ ''.'' @ keyword @ '' must be a non-empty array''))))
              [''anyOf'', ''oneOf'', ''allOf'']) (\<lambda>_.
            rbind (on_keyword schema ''$defs'' (\<lambda>definitions.
              case definitions of
                JObject children \<Rightarrow>
                  rcheck (\<lambda>(name, child).
                    validate_schema strict (path @ ''.$defs.'' @ name) (depth + 1) child) children
              | _ \<Rightarrow> Inl (invalid_tool (path @ '' $defs must be an object'')))) (\<lambda>_.
            rbind (on_keyword schema ''$ref'' (check_reference path)) (\<lambda>_.
            rbind (on_keyword schema ''enum'' (check_enum path)) (\<lambda>_.
            rbind (rcheck (check_bound path schema)
                [''minimum'', ''maximum'', ''exclusiveMinimum'', ''exclusiveMaximum'']) (\<lambda>_.
            rcheck (check_length path schema)
                [''minLength'', ''maxLength'', ''minItems'', ''maxItems'']))))))))))))
      | _ \<Rightarrow> Inl (invalid_tool (path @ '' must be a JSON Schema object'')))"
  by pat_completeness auto
termination
  by (relation "measure (\<lambda>(strict, path, depth, schema). 33 - depth)") auto

declare validate_schema.simps [simp del]


section \<open>The matcher\<close>

type_synonym verdict = "(string + unit) option"

definition resolve_reference :: "json \<Rightarrow> string \<Rightarrow> json option" where
  "resolve_reference root reference =
     (if \<not> starts_with reference ''#/$defs/'' then None
      else case json_find root ''$defs'' of
        None \<Rightarrow> None
      | Some definitions \<Rightarrow>
          if \<not> is_object definitions then None
          else json_find definitions (drop (length ''#/$defs/'') reference))"

definition json_equal :: "json \<Rightarrow> json \<Rightarrow> bool" where
  "json_equal left right =
     (case (as_number left, as_number right) of
        (Some l, Some r) \<Rightarrow> double_eq l r
      | _ \<Rightarrow> stringify left = stringify right)"

definition type_matches :: "json \<Rightarrow> string \<Rightarrow> bool" where
  "type_matches v t =
     (if t = ''null'' then is_null v
      else if t = ''boolean'' then is_bool v
      else if t = ''object'' then is_object v
      else if t = ''array'' then is_array v
      else if t = ''number'' then is_number v
      else if t = ''integer'' then is_integer v
      else if t = ''string'' then is_string v
      else False)"

text \<open>\<open>static_cast<std::size_t>\<close> of an int64 bound.\<close>

definition size_of_int64 :: "int \<Rightarrow> nat" where
  "size_of_int64 i = nat (i mod 2 ^ 64)"

text \<open>\<open>if (const Value* v = schema.find(key); v != nullptr) ...\<close> for a body that may throw.\<close>

definition when_keyword :: "json \<Rightarrow> string \<Rightarrow> (json \<Rightarrow> verdict) \<Rightarrow> verdict" where
  "when_keyword schema key f =
     (case json_find schema key of None \<Rightarrow> Some (Inr ()) | Some v \<Rightarrow> f v)"

lemma when_keyword_cong [fundef_cong]:
  "schema = schema' \<Longrightarrow> key = key' \<Longrightarrow> (\<And>v. json_find schema' key' = Some v \<Longrightarrow> f v = g v) \<Longrightarrow>
   when_keyword schema key f = when_keyword schema' key' g"
  by (auto simp: when_keyword_def split: option.splits)

lemma when_keyword_Inr [simp]:
  "when_keyword schema key f = Some (Inr u) \<longleftrightarrow> (\<forall>v. json_find schema key = Some v \<longrightarrow> f v = Some (Inr ()))"
  by (auto simp: when_keyword_def split: option.splits)

lemma returns_when_keyword [returns_intros]:
  "(\<And>v. json_find schema key = Some v \<Longrightarrow> returns (f v)) \<Longrightarrow> returns (when_keyword schema key f)"
  by (auto simp: when_keyword_def split: option.splits)

definition require_that :: "bool \<Rightarrow> string \<Rightarrow> verdict" where
  "require_that b reason = Some (rguard b reason)"

lemma require_that_simps [simp]:
  "require_that b reason = Some (Inr u) \<longleftrightarrow> b" "returns (require_that b reason)"
  by (auto simp: require_that_def)

text \<open>\<open>matched = matched || TypeMatches(value, member.as_string())\<close>.\<close>

fun type_union :: "json \<Rightarrow> bool \<Rightarrow> json list \<Rightarrow> bool option" where
  "type_union v matched [] = Some matched"
| "type_union v matched (x # xs) =
     (if matched then type_union v True xs
      else case as_string x of None \<Rightarrow> None | Some t \<Rightarrow> type_union v (type_matches v t) xs)"

definition match_type :: "json \<Rightarrow> json \<Rightarrow> verdict" where
  "match_type v t =
     (case (case t of JString s \<Rightarrow> Some (type_matches v s) | JArray ts \<Rightarrow> type_union v False ts | _ \<Rightarrow> None) of
        None \<Rightarrow> None
      | Some matched \<Rightarrow> require_that matched ''value has the wrong JSON type'')"

definition match_enum :: "json \<Rightarrow> json \<Rightarrow> verdict" where
  "match_enum v enumeration =
     (case as_array enumeration of
        None \<Rightarrow> None
      | Some candidates \<Rightarrow>
          require_that (list_ex (json_equal v) candidates) ''value is not in the schema enum'')"

definition match_const :: "json \<Rightarrow> json \<Rightarrow> verdict" where
  "match_const v constant = require_that (json_equal v constant) ''value differs from the schema const''"

definition match_required :: "json \<Rightarrow> json \<Rightarrow> verdict" where
  "match_required v required =
     (case as_array required of
        None \<Rightarrow> None
      | Some names \<Rightarrow>
          fcheck (\<lambda>name. case as_string name of
             None \<Rightarrow> None
           | Some n \<Rightarrow> require_that (json_find v n \<noteq> None)
               (''required property '' @ [CHR 0x27] @ n @ [CHR 0x27] @ '' is missing'')) names)"

definition match_size :: "json \<Rightarrow> string \<Rightarrow> (nat \<Rightarrow> bool) \<Rightarrow> string \<Rightarrow> verdict" where
  "match_size schema keyword p reason =
     when_keyword schema keyword (\<lambda>b. case as_integer b of
        None \<Rightarrow> None | Some i \<Rightarrow> require_that (p (size_of_int64 i)) reason)"

definition match_string :: "json \<Rightarrow> string \<Rightarrow> verdict" where
  "match_string schema s =
     (case utf8_code_point_count s of
        None \<Rightarrow> Some (Inl ''string contains invalid UTF-8'')
      | Some count \<Rightarrow>
          fbind (match_size schema ''minLength'' (\<lambda>b. b \<le> count) ''string is shorter than minLength'') (\<lambda>_.
          match_size schema ''maxLength'' (\<lambda>b. count \<le> b) ''string is longer than maxLength''))"

definition match_bound :: "json \<Rightarrow> string \<Rightarrow> (binary64 \<Rightarrow> bool) \<Rightarrow> string \<Rightarrow> verdict" where
  "match_bound schema keyword p reason =
     when_keyword schema keyword (\<lambda>b. case as_number b of
        None \<Rightarrow> None | Some d \<Rightarrow> require_that (p d) reason)"

definition match_number :: "json \<Rightarrow> binary64 \<Rightarrow> verdict" where
  "match_number schema number =
     fbind (match_bound schema ''minimum'' (\<lambda>b. \<not> double_less number b) ''number is below minimum'') (\<lambda>_.
     fbind (match_bound schema ''maximum'' (\<lambda>b. \<not> double_less b number) ''number is above maximum'') (\<lambda>_.
     fbind (match_bound schema ''exclusiveMinimum'' (\<lambda>b. \<not> double_le number b)
        ''number is not above exclusiveMinimum'') (\<lambda>_.
     match_bound schema ''exclusiveMaximum'' (\<lambda>b. \<not> double_le b number)
        ''number is not below exclusiveMaximum'')))"

text \<open>A nested failure, with the reason of the caller around it.\<close>

definition explain :: "(string \<Rightarrow> string) \<Rightarrow> verdict \<Rightarrow> verdict" where
  "explain f r = (case r of Some (Inl reason) \<Rightarrow> Some (Inl (f reason)) | _ \<Rightarrow> r)"

lemma explain_simps [simp]:
  "explain f r = Some (Inr u) \<longleftrightarrow> r = Some (Inr ())" "returns (explain f r) \<longleftrightarrow> returns r"
  by (auto simp: explain_def returns_def split: option.splits sum.splits)

definition combination_valid :: "string \<Rightarrow> nat \<Rightarrow> nat \<Rightarrow> bool" where
  "combination_valid keyword matches available =
     (if keyword = ''allOf'' then matches = available
      else if keyword = ''anyOf'' then matches \<noteq> 0
      else matches = 1)"

function matches_schema :: "json \<Rightarrow> nat \<Rightarrow> json \<Rightarrow> json \<Rightarrow> verdict" where
  "matches_schema root depth v schema =
     (if depth > 32 then Some (Inl ''schema recursion exceeds 32 levels'')
      else
        fbind (when_keyword schema ''$ref'' (\<lambda>reference.
          case as_string reference of
            None \<Rightarrow> None
          | Some r \<Rightarrow>
              (case resolve_reference root r of
                 None \<Rightarrow> Some (Inl ''schema reference cannot be resolved'')
               | Some target \<Rightarrow> matches_schema root (depth + 1) v target))) (\<lambda>_.
        fbind (fcheck (\<lambda>keyword. when_keyword schema keyword (\<lambda>alternatives.
          case as_array alternatives of
            None \<Rightarrow> None
          | Some xs \<Rightarrow>
              (case fcount (\<lambda>x. matches_schema root (depth + 1) v x) xs of
                 None \<Rightarrow> None
               | Some n \<Rightarrow> require_that (combination_valid keyword n (length xs))
                   (keyword @ '' constraint did not match'')))) [''allOf'', ''anyOf'', ''oneOf'']) (\<lambda>_.
        fbind (when_keyword schema ''type'' (match_type v)) (\<lambda>_.
        fbind (when_keyword schema ''enum'' (match_enum v)) (\<lambda>_.
        fbind (when_keyword schema ''const'' (match_const v)) (\<lambda>_.
        fbind (case v of
          JObject members \<Rightarrow>
            fbind (when_keyword schema ''required'' (match_required v)) (\<lambda>_.
            fcheck (\<lambda>(name, member).
              case (case json_find schema ''properties'' of
                      None \<Rightarrow> None | Some properties \<Rightarrow> json_find properties name) of
                Some member_schema \<Rightarrow>
                  explain (\<lambda>r. ''property '' @ [CHR 0x27] @ name @ [CHR 0x27] @ '': '' @ r)
                    (matches_schema root (depth + 1) member member_schema)
              | None \<Rightarrow>
                  when_keyword schema ''additionalProperties'' (\<lambda>additional.
                    if additional = JBool False
                    then Some (Inl (''additional property '' @ [CHR 0x27] @ name @ [CHR 0x27] @ '' is forbidden''))
                    else if is_object additional
                    then explain (\<lambda>r. ''additional property '' @ [CHR 0x27] @ name @ [CHR 0x27] @ '': '' @ r)
                           (matches_schema root (depth + 1) member additional)
                    else Some (Inr ()))) members)
        | _ \<Rightarrow> Some (Inr ())) (\<lambda>_.
        fbind (case v of
          JArray members \<Rightarrow>
            fbind (match_size schema ''minItems'' (\<lambda>b. b \<le> length members) ''array is shorter than minItems'') (\<lambda>_.
            fbind (match_size schema ''maxItems'' (\<lambda>b. length members \<le> b) ''array is longer than maxItems'') (\<lambda>_.
            when_keyword schema ''items'' (\<lambda>items.
              fcheck (\<lambda>member. explain (\<lambda>r. ''array item: '' @ r)
                (matches_schema root (depth + 1) member items)) members)))
        | _ \<Rightarrow> Some (Inr ())) (\<lambda>_.
        fbind (case v of JString s \<Rightarrow> match_string schema s | _ \<Rightarrow> Some (Inr ())) (\<lambda>_.
        case as_number v of Some d \<Rightarrow> match_number schema d | None \<Rightarrow> Some (Inr ()))))))))))"
  by pat_completeness auto
termination
  by (relation "measure (\<lambda>(root, depth, v, schema). 33 - depth)") auto

declare matches_schema.simps [simp del]

section \<open>What a validated schema guarantees\<close>

text \<open>A schema object that the validator accepted at depth \<open>d\<close>, under some path.\<close>

definition valid_at :: "nat \<Rightarrow> json \<Rightarrow> bool" where
  "valid_at d schema \<longleftrightarrow> (\<exists>strict path. validate_schema strict path d schema = Inr ())"

lemma enumerate_all: "(\<forall>(i, y) \<in> set (enumerate n xs). P y) \<longleftrightarrow> (\<forall>y \<in> set xs. P y)"
  by (induction xs arbitrary: n) auto

lemma nonempty_array_Inr:
  "(case c of JArray (x # xs) \<Rightarrow> rcheck f (enumerate 0 (x # xs)) | _ \<Rightarrow> Inl e) = Inr u \<longleftrightarrow>
   (\<exists>x xs. c = JArray (x # xs) \<and> (\<forall>p \<in> set (enumerate 0 (x # xs)). f p = Inr ()))"
  by (cases c) (auto simp: rbind_Inr_iff split: list.splits)

lemma validated:
  assumes "validate_schema strict path d schema = Inr ()"
  shows "is_object schema" "d \<le> 32"
    and "json_find schema ''type'' = Some t \<Longrightarrow> check_type path t = Inr ()"
    and "json_find schema ''properties'' = Some (JObject m) \<Longrightarrow> (n, child) \<in> set m \<Longrightarrow>
           is_protocol_name n \<and> valid_at (Suc d) child"
    and "json_find schema ''properties'' = Some p \<Longrightarrow> is_object p"
    and "json_find schema ''required'' = Some r \<Longrightarrow> check_required path r = Inr ()"
    and "json_find schema ''additionalProperties'' = Some a \<Longrightarrow> is_bool a \<or> valid_at (Suc d) a"
    and "json_find schema ''items'' = Some i \<Longrightarrow> valid_at (Suc d) i"
    and "k \<in> {''anyOf'', ''oneOf'', ''allOf''} \<Longrightarrow> json_find schema k = Some c \<Longrightarrow>
           \<exists>x xs. c = JArray (x # xs) \<and> (\<forall>y \<in> set (x # xs). valid_at (Suc d) y)"
    and "json_find schema ''$defs'' = Some (JObject m) \<Longrightarrow> (n, child) \<in> set m \<Longrightarrow> valid_at (Suc d) child"
    and "json_find schema ''$ref'' = Some r \<Longrightarrow> check_reference path r = Inr ()"
    and "json_find schema ''enum'' = Some e \<Longrightarrow> check_enum path e = Inr ()"
    and "k \<in> {''minimum'', ''maximum'', ''exclusiveMinimum'', ''exclusiveMaximum''} \<Longrightarrow>
           check_bound path schema k = Inr ()"
    and "k \<in> {''minLength'', ''maxLength'', ''minItems'', ''maxItems''} \<Longrightarrow>
           check_length path schema k = Inr ()"
proof -
  from assms obtain members where m: "schema = JObject members"
    by (auto simp: validate_schema.simps [of strict path d schema] split: json.splits)
  note a = assms [unfolded m validate_schema.simps [of strict path d "JObject members", unfolded json.case]]
  show "is_object schema" using m by simp
  show d: "d \<le> 32"
    using a by (auto split: if_splits)
  then have d': "\<not> 32 < d" by simp
  note a = a [unfolded if_not_P [OF d'] rbind_Inr_iff rcheck_Inr on_keyword_Inr ex_simps simp_thms,
      folded m]
  note ty = a [THEN conjunct2, THEN conjunct1]
  note pr = a [THEN conjunct2, THEN conjunct2, THEN conjunct2, THEN conjunct1]
  note rq = a [THEN conjunct2, THEN conjunct2, THEN conjunct2, THEN conjunct2, THEN conjunct1]
  note ad = a [THEN conjunct2, THEN conjunct2, THEN conjunct2, THEN conjunct2, THEN conjunct2, THEN conjunct1]
  note it = a [THEN conjunct2, THEN conjunct2, THEN conjunct2, THEN conjunct2, THEN conjunct2, THEN conjunct2, THEN conjunct1]
  note al = a [THEN conjunct2, THEN conjunct2, THEN conjunct2, THEN conjunct2, THEN conjunct2, THEN conjunct2, THEN conjunct2, THEN conjunct1]
  note df = a [THEN conjunct2, THEN conjunct2, THEN conjunct2, THEN conjunct2, THEN conjunct2, THEN conjunct2, THEN conjunct2, THEN conjunct2, THEN conjunct1]
  note rf = a [THEN conjunct2, THEN conjunct2, THEN conjunct2, THEN conjunct2, THEN conjunct2, THEN conjunct2, THEN conjunct2, THEN conjunct2, THEN conjunct2, THEN conjunct1]
  note en = a [THEN conjunct2, THEN conjunct2, THEN conjunct2, THEN conjunct2, THEN conjunct2, THEN conjunct2, THEN conjunct2, THEN conjunct2, THEN conjunct2, THEN conjunct2, THEN conjunct1]
  note bd = a [THEN conjunct2, THEN conjunct2, THEN conjunct2, THEN conjunct2, THEN conjunct2, THEN conjunct2, THEN conjunct2, THEN conjunct2, THEN conjunct2, THEN conjunct2, THEN conjunct2, THEN conjunct1]
  note ln = a [THEN conjunct2, THEN conjunct2, THEN conjunct2, THEN conjunct2, THEN conjunct2, THEN conjunct2, THEN conjunct2, THEN conjunct2, THEN conjunct2, THEN conjunct2, THEN conjunct2, THEN conjunct2]
  show "json_find schema ''type'' = Some t \<Longrightarrow> check_type path t = Inr ()"
    using ty by simp
  show "json_find schema ''properties'' = Some (JObject m) \<Longrightarrow> (n, child) \<in> set m \<Longrightarrow>
      is_protocol_name n \<and> valid_at (Suc d) child"
    using pr by (fastforce simp: valid_at_def split: if_splits)
  show "json_find schema ''properties'' = Some p \<Longrightarrow> is_object p"
    using pr by (auto split: json.splits)
  show "json_find schema ''required'' = Some r \<Longrightarrow> check_required path r = Inr ()"
    using rq by simp
  show "json_find schema ''additionalProperties'' = Some a \<Longrightarrow> is_bool a \<or> valid_at (Suc d) a"
    using ad by (auto simp: valid_at_def split: if_splits)
  show "json_find schema ''items'' = Some i \<Longrightarrow> valid_at (Suc d) i"
    using it by (auto simp: valid_at_def)
  show "json_find schema ''$defs'' = Some (JObject m) \<Longrightarrow> (n, child) \<in> set m \<Longrightarrow> valid_at (Suc d) child"
    using df by (fastforce simp: valid_at_def)
  show "json_find schema ''$ref'' = Some r \<Longrightarrow> check_reference path r = Inr ()"
    "json_find schema ''enum'' = Some e \<Longrightarrow> check_enum path e = Inr ()"
    using rf en by simp_all
  show "k \<in> {''minimum'', ''maximum'', ''exclusiveMinimum'', ''exclusiveMaximum''} \<Longrightarrow>
      check_bound path schema k = Inr ()"
    "k \<in> {''minLength'', ''maxLength'', ''minItems'', ''maxItems''} \<Longrightarrow> check_length path schema k = Inr ()"
    using bd ln by auto
  assume k: "k \<in> {''anyOf'', ''oneOf'', ''allOf''}" "json_find schema k = Some c"
  have k': "k \<in> set [''anyOf'', ''oneOf'', ''allOf'']" using k(1) by simp
  note al [unfolded nonempty_array_Inr, THEN bspec, OF k', rule_format, OF k(2)]
  then obtain x xs where c: "c = JArray (x # xs)" and
      "\<forall>p \<in> set (enumerate 0 (x # xs)). (case p of (i, y) \<Rightarrow>
         validate_schema strict (path @ ''.'' @ k @ ''['' @ decimal i @ '']'') (d + 1) y) = Inr ()"
    by (elim exE conjE)
  then have "\<forall>(i, y) \<in> set (enumerate 0 (x # xs)). valid_at (Suc d) y"
    unfolding valid_at_def by fastforce
  with c show "\<exists>x xs. c = JArray (x # xs) \<and> (\<forall>y \<in> set (x # xs). valid_at (Suc d) y)"
    unfolding enumerate_all by blast
qed

lemma returns_case:
  "returns r \<Longrightarrow> (\<And>x. r = Some x \<Longrightarrow> returns (f x)) \<Longrightarrow>
   returns (case r of None \<Rightarrow> None | Some x \<Rightarrow> f x)"
  by (auto simp: returns_def split: option.splits)

lemma type_union_returns: "\<forall>x \<in> set xs. is_string x \<Longrightarrow> returns (type_union v b xs)"
proof (induction xs arbitrary: b)
  case (Cons x xs)
  then obtain s where "x = JString s" by (cases x) auto
  with Cons show ?case by auto
qed simp

lemma match_type_returns:
  assumes "check_type path t = Inr ()"
  shows "returns (match_type v t)"
proof (cases t)
  case (JArray xs)
  have item: "(case x of JString s \<Rightarrow> is_schema_type s | _ \<Rightarrow> False) \<Longrightarrow> is_string x" for x
    by (cases x) auto
  have "\<forall>x \<in> set xs. is_string x"
    using assms JArray item by (cases xs) (auto simp: check_type_def rbind_Inr_iff)
  then have "returns (type_union v False xs)" by (rule type_union_returns)
  with JArray show ?thesis by (auto simp: match_type_def intro!: returns_case)
qed (use assms in \<open>auto simp: check_type_def match_type_def\<close>)

lemma required_strings:
  "rfold (required_step path) seen names = Inr seen' \<Longrightarrow> \<forall>x \<in> set names. is_string x"
proof (induction names arbitrary: seen)
  case (Cons x names)
  then show ?case by (cases x) (auto simp: rbind_Inr_iff required_step_def)
qed simp

lemma match_required_returns:
  assumes "check_required path r = Inr ()"
  shows "returns (match_required v r)"
proof -
  from assms obtain names seen where r: "r = JArray names" and
      "rfold (required_step path) [] names = Inr seen"
    by (auto simp: check_required_def rbind_Inr_iff split: json.splits)
  from required_strings [OF this(2)] have s: "\<forall>x \<in> set names. is_string x" .
  show ?thesis
    unfolding match_required_def r as_array.simps option.case
  proof (rule returns_fcheck)
    fix x assume "x \<in> set names"
    with s obtain n where "x = JString n" by (cases x) auto
    then show "returns (case as_string x of None \<Rightarrow> None | Some n \<Rightarrow> require_that (json_find v n \<noteq> None)
        (''required property '' @ [CHR 0x27] @ n @ [CHR 0x27] @ '' is missing''))" by simp
  qed
qed

lemma match_size_returns:
  assumes "check_length path schema k = Inr ()"
  shows "returns (match_size schema k p reason)"
  unfolding match_size_def
proof (rule returns_when_keyword)
  fix b assume "json_find schema k = Some b"
  with assms show "returns (case as_integer b of None \<Rightarrow> None | Some i \<Rightarrow> require_that (p (size_of_int64 i)) reason)"
    by (cases b) (simp_all add: check_length_def)
qed

lemma match_bound_returns:
  assumes "check_bound path schema k = Inr ()"
  shows "returns (match_bound schema k p reason)"
  unfolding match_bound_def
proof (rule returns_when_keyword)
  fix b assume "json_find schema k = Some b"
  with assms show "returns (case as_number b of None \<Rightarrow> None | Some d \<Rightarrow> require_that (p d) reason)"
    by (cases b) (simp_all add: check_bound_def)
qed

lemma resolve_reference_valid:
  assumes "valid_at d root" "resolve_reference root r = Some target"
  shows "valid_at (Suc d) target"
proof -
  from assms(2) obtain m where "json_find root ''$defs'' = Some (JObject m)"
      "map_of m (drop (length ''#/$defs/'') r) = Some target"
    unfolding resolve_reference_def by (auto split: if_splits option.splits elim!: is_object.elims)
  with assms(1) show ?thesis
    using validated(10) map_of_SomeD unfolding valid_at_def [of d root] by metis
qed

text \<open>On schemas the validator accepted, the matcher never throws.\<close>

lemma matches_schema_answers:
  assumes root: "valid_at d\<^sub>0 root"
  shows "valid_at d schema \<Longrightarrow> returns (matches_schema root depth v schema)"
proof (induction "33 - depth" arbitrary: depth d v schema rule: less_induct)
  case less
  show ?case
  proof (cases "depth > 32")
    case True
    then show ?thesis by (simp add: matches_schema.simps [of root depth])
  next
    case False
    have rec: "valid_at e s \<Longrightarrow> returns (matches_schema root (depth + 1) w s)" for e w s
      using less.hyps [of "depth + 1" e s w] False by simp
    from less.prems obtain strict path where val: "validate_schema strict path d schema = Inr ()"
      by (auto simp: valid_at_def)
    note V = validated [OF val]
    have ref: "returns (case as_string reference of None \<Rightarrow> None
          | Some r \<Rightarrow> (case resolve_reference root r of
               None \<Rightarrow> Some (Inl ''schema reference cannot be resolved'')
             | Some target \<Rightarrow> matches_schema root (depth + 1) v target))"
      if r: "json_find schema ''$ref'' = Some reference" for reference
    proof -
      obtain s where "reference = JString s"
        using V(11) [OF r] by (auto simp: check_reference_def split: json.splits)
      then show ?thesis
        using rec [OF resolve_reference_valid [OF root]] by (auto split: option.splits)
    qed
    have alt: "returns (case as_array alternatives of None \<Rightarrow> None
          | Some xs \<Rightarrow> (case fcount (\<lambda>x. matches_schema root (depth + 1) v x) xs of
                 None \<Rightarrow> None
               | Some n \<Rightarrow> require_that (combination_valid keyword n (length xs))
                   (keyword @ '' constraint did not match'')))"
      if "keyword \<in> set [''allOf'', ''anyOf'', ''oneOf'']" "json_find schema keyword = Some alternatives"
      for keyword alternatives
    proof -
      from that obtain xs where xs: "alternatives = JArray xs" "\<forall>y \<in> set xs. valid_at (Suc d) y"
        using V(9) [of keyword alternatives] by auto
      then have "returns (fcount (\<lambda>x. matches_schema root (depth + 1) v x) xs)"
        using rec by (intro returns_fcount) blast
      with xs show ?thesis by (auto intro!: returns_case)
    qed
    have ty: "json_find schema ''type'' = Some t \<Longrightarrow> returns (match_type v t)" for t
      by (rule match_type_returns [OF V(3)])
    have en: "json_find schema ''enum'' = Some e \<Longrightarrow> returns (match_enum v e)" for e
      using V(12) [of e] by (cases e) (simp_all add: match_enum_def check_enum_def)
    have rq: "json_find schema ''required'' = Some r \<Longrightarrow> returns (match_required v r)" for r
      by (rule match_required_returns [OF V(6)])
    have pr: "valid_at (Suc d) s" if "(case json_find schema ''properties'' of
        None \<Rightarrow> None | Some properties \<Rightarrow> json_find properties name) = Some s" for name s
    proof -
      from that obtain p where p: "json_find schema ''properties'' = Some p" "json_find p name = Some s"
        by (auto split: option.splits)
      with V(5) [OF p(1)] obtain m where "p = JObject m" by (auto elim: is_object.elims)
      with p V(4) show ?thesis by (auto dest: map_of_SomeD)
    qed
    have ad: "is_object a \<Longrightarrow> json_find schema ''additionalProperties'' = Some a \<Longrightarrow> valid_at (Suc d) a" for a
      using V(7) [of a] by (cases a) simp_all
    have len: "k \<in> {''minLength'', ''maxLength'', ''minItems'', ''maxItems''} \<Longrightarrow>
        returns (match_size schema k p reason)" for k p reason
      by (rule match_size_returns [OF V(14)])
    have bnd: "k \<in> {''minimum'', ''maximum'', ''exclusiveMinimum'', ''exclusiveMaximum''} \<Longrightarrow>
        returns (match_bound schema k p reason)" for k p reason
      by (rule match_bound_returns [OF V(13)])
    have obj: "returns (case v of
          JObject members \<Rightarrow>
            fbind (when_keyword schema ''required'' (match_required v)) (\<lambda>_.
            fcheck (\<lambda>(name, member).
              case (case json_find schema ''properties'' of
                      None \<Rightarrow> None | Some properties \<Rightarrow> json_find properties name) of
                Some member_schema \<Rightarrow>
                  explain (\<lambda>r. ''property '' @ [CHR 0x27] @ name @ [CHR 0x27] @ '': '' @ r)
                    (matches_schema root (depth + 1) member member_schema)
              | None \<Rightarrow>
                  when_keyword schema ''additionalProperties'' (\<lambda>additional.
                    if additional = JBool False
                    then Some (Inl (''additional property '' @ [CHR 0x27] @ name @ [CHR 0x27] @ '' is forbidden''))
                    else if is_object additional
                    then explain (\<lambda>r. ''additional property '' @ [CHR 0x27] @ name @ [CHR 0x27] @ '': '' @ r)
                           (matches_schema root (depth + 1) member additional)
                    else Some (Inr ()))) members)
        | _ \<Rightarrow> Some (Inr ()))"
      using rq rec [OF pr] rec [OF ad]
      by (cases v) (auto split: option.split intro!: returns_fbind returns_fcheck returns_when_keyword)
    have arr: "returns (case v of
          JArray members \<Rightarrow>
            fbind (match_size schema ''minItems'' (\<lambda>b. b \<le> length members) ''array is shorter than minItems'') (\<lambda>_.
            fbind (match_size schema ''maxItems'' (\<lambda>b. length members \<le> b) ''array is longer than maxItems'') (\<lambda>_.
            when_keyword schema ''items'' (\<lambda>items.
              fcheck (\<lambda>member. explain (\<lambda>r. ''array item: '' @ r)
                (matches_schema root (depth + 1) member items)) members)))
        | _ \<Rightarrow> Some (Inr ()))"
      using rec [OF V(8)] len by (cases v) (auto intro!: returns_fbind returns_fcheck returns_when_keyword)
    have str: "returns (case v of JString s \<Rightarrow> match_string schema s | _ \<Rightarrow> Some (Inr ()))"
      using len by (cases v) (auto simp: match_string_def intro!: returns_fbind split: option.split)
    have num: "returns (case as_number v of Some d \<Rightarrow> match_number schema d | None \<Rightarrow> Some (Inr ()))"
      using bnd by (auto simp: match_number_def intro!: returns_fbind split: option.split)
    show ?thesis
      unfolding matches_schema.simps [of root depth v schema] if_not_P [OF False]
      by (intro returns_fbind returns_when_keyword returns_fcheck ref alt ty en obj arr str num)
        (simp_all add: match_const_def)
  qed
qed


section \<open>The schema properties\<close>

text \<open>What acceptance means for an object.\<close>

lemma matches_schema_accepts:
  assumes "matches_schema root depth (JObject members) schema = Some (Inr ())"
  shows "depth \<le> 32"
    and "json_find schema ''required'' = Some (JArray names) \<Longrightarrow> JString n \<in> set names \<Longrightarrow>
           json_find (JObject members) n \<noteq> None"
    and "(n, x) \<in> set members \<Longrightarrow> json_find schema ''properties'' = Some properties \<Longrightarrow>
           json_find properties n = Some s \<Longrightarrow> matches_schema root (depth + 1) x s = Some (Inr ())"
    and "(n, x) \<in> set members \<Longrightarrow> json_find schema ''additionalProperties'' = Some (JBool False) \<Longrightarrow>
           \<exists>properties. json_find schema ''properties'' = Some properties \<and> json_find properties n \<noteq> None"
    and "json_find schema ''type'' = Some (JString t) \<Longrightarrow> t = ''object''"
proof -
  show "depth \<le> 32"
    using assms by (auto simp: matches_schema.simps [of root depth] split: if_splits)
  then have d: "\<not> 32 < depth" by simp
  note a = assms [unfolded matches_schema.simps [of root depth "JObject members" schema] if_not_P [OF d]
      fbind_Inr_iff json.case when_keyword_Inr fcheck_Inr ex_simps simp_thms]
  note ty = a [THEN conjunct2, THEN conjunct2, THEN conjunct1]
  note ob = a [THEN conjunct2, THEN conjunct2, THEN conjunct2, THEN conjunct2, THEN conjunct2, THEN conjunct1]
  show "json_find schema ''required'' = Some (JArray names) \<Longrightarrow> JString n \<in> set names \<Longrightarrow>
      json_find (JObject members) n \<noteq> None"
    using ob by (fastforce simp: match_required_def)
  show "(n, x) \<in> set members \<Longrightarrow> json_find schema ''properties'' = Some properties \<Longrightarrow>
      json_find properties n = Some s \<Longrightarrow> matches_schema root (depth + 1) x s = Some (Inr ())"
    using ob by fastforce
  show "(n, x) \<in> set members \<Longrightarrow> json_find schema ''additionalProperties'' = Some (JBool False) \<Longrightarrow>
      \<exists>properties. json_find schema ''properties'' = Some properties \<and> json_find properties n \<noteq> None"
    using ob by (fastforce split: option.splits)
  show "json_find schema ''type'' = Some (JString t) \<Longrightarrow> t = ''object''"
    using ty by (auto simp: match_type_def type_matches_def split: if_splits)
qed

end
