(* ===== verification/Json_Roundtrip.thy ===== *)
theory Json_Roundtrip
  imports Json_Sound
begin

text \<open>
  What the writer prints, the parser reads back: \<open>read_value\<close> is the induction over values,
  with the state after the text of a value (\<open>after\<close>) and a continuation that cannot extend
  a number (\<open>stops\<close>).  The properties of src/util/json.cpp stand at the end.

  Doubles are left out of the round trip: \<open>print_double\<close> writes 17 significant digits,
  and that \<open>strtod\<close> reads the same binary64 value back is a theorem about decimal
  conversion, not about this code.
\<close>

section \<open>Escaped strings read back\<close>

lemma advance_advance [simp]: "advance n (advance m s) = advance (m + n) s"
  by (simp add: advance_def add.commute)

lemma advance_0 [simp]: "advance 0 s = s"
  by (simp add: advance_def)

lemma hex_value_digit: "n < 16 \<Longrightarrow> hex_value (hex_digit n) = Some n"
proof -
  have "list_all (\<lambda>k. hex_value (hex_digit k) = Some k) [0..<16]" by code_simp
  then show "n < 16 \<Longrightarrow> hex_value (hex_digit n) = Some n" by (simp add: list_all_iff)
qed

lemma hex_value_0: "hex_value (CHR ''0'') = Some 0"
  using hex_value_digit [of 0] by (simp add: hex_digit_def)

lemma parse_hex4_control:
  assumes "rest s = [CHR ''0'', CHR ''0'', hex_digit h, hex_digit l] @ t" "h < 16" "l < 16"
  shows "parse_hex4 s = Inr (16 * h + l, advance 4 s)"
  using assms
  by (simp add: parse_hex4_def numeral_Bit0 numeral_eq_Suc hex_value_0 hex_value_digit push_bit_eq_mult)


text \<open>The character facts a byte below 32 needs.\<close>

lemma byte_nibbles: "drop_bit 4 (byte c) = byte c div 16" "byte c AND 0x0F = byte c mod 16"
  by (simp_all add: drop_bit_eq_div payload_and)

lemma escape_byte_cases:
  obtains (plain) "escape_byte c = [c]" "c \<noteq> CHR 0x22" "c \<noteq> CHR 0x5C" "\<not> byte c < 0x20"
  | (short) e where "escape_byte c = [CHR 0x5C, e]" "simple_escape e = Some c"
  | (control) "byte c < 0x20" "escape_byte c =
       [CHR 0x5C, CHR ''u'', CHR ''0'', CHR ''0'', hex_digit (byte c div 16), hex_digit (byte c mod 16)]"
  unfolding escape_byte_def byte_nibbles
  by (cases "c = CHR 0x22"; cases "c = CHR 0x5C"; cases "c = CHR 0x08"; cases "c = CHR 0x0C";
      cases "c = CHR 0x0A"; cases "c = CHR 0x0D"; cases "c = CHR 0x09"; cases "byte c < 0x20")
    (auto simp: simple_escape_def)

lemma bs_not_control [simp]: "\<not> byte (CHR 0x5C) < 0x20"
  by (simp add: byte_def)

lemma string_unit_escape:
  assumes "rest s = escape_byte c @ t"
  shows "string_unit s = Inr ([c], advance (length (escape_byte c)) s)"
    and "\<not> next_is (\<lambda>c. c = CHR 0x22) s"
proof -
  show "string_unit s = Inr ([c], advance (length (escape_byte c)) s)"
  proof (cases c rule: escape_byte_cases)
    case plain
    with assms show ?thesis by (simp add: string_unit_def)
  next
    case (short e)
    with assms show ?thesis by (simp add: string_unit_def Let_def)
  next
    case control
    have "parse_hex4 (advance 2 s) = Inr (16 * (byte c div 16) + byte c mod 16, advance 4 (advance 2 s))"
      using assms control by (intro parse_hex4_control [where t = t]) simp_all
    then have h: "parse_hex4 (advance 2 s) = Inr (byte c, advance 6 s)" by simp
    have two: "2 = Suc (Suc 0)" and six: "6 = Suc (Suc (Suc (Suc (Suc (Suc 0)))))" by simp_all
    note h [unfolded two six]
    moreover have "append_utf8 (byte c) = [c]" using control(1) by (simp add: append_utf8_def)
    moreover have "simple_escape (CHR ''u'') = None" by (simp add: simple_escape_def)
    ultimately show ?thesis
      using assms control by (simp add: string_unit_def Let_def parse_unicode_escape_def)
  qed
  show "\<not> next_is (\<lambda>c. c = CHR 0x22) s"
    using assms by (cases c rule: escape_byte_cases) (auto simp: next_is_def)
qed

lemma escape_simps [simp]: "escape [] = []" "escape (c # u) = escape_byte c @ escape u"
  by (simp_all add: escape_def)

lemma string_loop_escape:
  "rest s = escape u @ CHR 0x22 # t \<Longrightarrow> is_valid_utf8 (out @ u) \<Longrightarrow>
   length (out @ u) \<le> max_string_bytes lim \<Longrightarrow>
   string_loop lim out s = Inr (out @ u, advance (Suc (length (escape u))) s)"
proof (induction u arbitrary: out s)
  case Nil
  then show ?case by (simp add: string_loop.simps [of lim out s] next_is_def)
next
  case (Cons c u)
  let ?s1 = "advance (length (escape_byte c)) s"
  from Cons.prems(1) have r: "rest s = escape_byte c @ (escape u @ CHR 0x22 # t)" by simp
  have "string_loop lim (out @ [c]) ?s1 = Inr ((out @ [c]) @ u, advance (Suc (length (escape u))) ?s1)"
    using Cons.prems by (intro Cons.IH) simp_all
  then show ?case
    using string_unit_escape [OF r] Cons.prems(3)
    by (simp add: string_loop.simps [of lim out s])
qed

lemma parse_string_quote:
  assumes "rest s = quote u @ t" "is_valid_utf8 u" "length u \<le> max_string_bytes lim"
  shows "parse_string lim s = Inr (u, advance (length (quote u)) s)"
  using assms string_loop_escape [of "advance 1 s" u t "[]" lim]
  by (simp add: parse_string_def quote_def)

section \<open>Integers read back\<close>

lemma digit_0: "digit 0 = CHR ''0''"
proof -
  have "byte (CHR ''0'') = 48" by (simp add: byte_def)
  then show ?thesis using chr_byte [of "CHR ''0''"] by (simp add: digit_def)
qed

text \<open>What may follow a number: nothing that continues it.\<close>

definition stops :: "string \<Rightarrow> bool" where
  "stops t \<longleftrightarrow> (case t of [] \<Rightarrow> True | c # _ \<Rightarrow> c \<in> {CHR '','', CHR '']'', CHR ''}''})"

lemma stops_simps [simp]:
  "stops []" "stops (CHR '','' # t)" "stops (CHR '']'' # t)" "stops (CHR ''}'' # t)"
  by (simp_all add: stops_def)

lemma stops_cases:
  assumes "stops t"
  shows "takeWhile is_digit t = []" "\<not> starts_with t ''.''" "\<not> starts_with t ''e''" "\<not> starts_with t ''E''"
  using assms by (auto simp: stops_def is_digit_def byte_def split: list.splits)

lemma takeWhile_digits: "\<forall>c \<in> set ds. is_digit c \<Longrightarrow> stops t \<Longrightarrow> takeWhile is_digit (ds @ t) = ds"
  by (simp add: takeWhile_append2 stops_cases(1))

lemma decimal_head:
  obtains (zero) "n = 0" "decimal n = ''0''"
  | (pos) c ds where "n > 0" "decimal n = c # ds" "is_digit19 c" "\<forall>x \<in> set ds. is_digit x" "is_digit c"
      "c \<noteq> CHR ''0''" "c \<noteq> CHR ''-''"
proof (cases "n = 0")
  case True
  then show ?thesis using zero by (simp add: digit_0)
next
  case False
  then obtain c ds where d: "decimal n = c # ds" by (cases "decimal n") auto
  have dig: "\<forall>x \<in> set (c # ds). is_digit x" using decimal_digits [of n] d by simp
  have "c \<noteq> CHR ''0''" using decimal_hd [of n] False d by (simp add: digit_0)
  moreover have "c \<noteq> CHR ''-''" using dig by (auto simp: is_digit_def byte_def)
  moreover have "is_digit19 c"
  proof -
    have "48 \<le> byte c" "byte c \<le> 57" using dig by (auto simp: is_digit_def)
    moreover have "byte c \<noteq> 48" using \<open>c \<noteq> CHR ''0''\<close> by (metis chr_byte digit_0 digit_def add_0_right)
    ultimately show ?thesis by (simp add: is_digit19_def less_eq_char_def byte_def)
  qed
  ultimately show ?thesis using pos [of c ds] False d dig by simp
qed

lemma from_chars_decimal_int:
  assumes "in_int64 i"
  shows "from_chars_int64 (decimal_int i) = (ErrcOk i, [])"
proof -
  have tw: "takeWhile is_digit (decimal k) = decimal k" "dropWhile is_digit (decimal k) = []" for k
    using decimal_digits [of k] by (auto simp: takeWhile_eq_all_conv dropWhile_eq_Nil_conv)
  have "\<not> starts_with (decimal k) ''-''" for k
    by (cases k rule: decimal_head) auto
  then show ?thesis
    using assms by (auto simp: from_chars_int64_def decimal_int_def Let_def tw decimal_digits bspec [OF decimal_digits])
qed

lemma parse_natural:
  assumes "rest s = decimal n @ t" "stops t"
  shows "number_integer_part s = Inr (advance (length (decimal n)) s)"
proof (cases n rule: decimal_head)
  case zero
  have "\<not> next_is is_digit (advance 1 s)"
    using assms zero stops_cases(1) [of t] by (auto simp: next_is_def split: list.splits if_splits)
  with zero assms show ?thesis by (simp add: number_integer_part_def consume_def)
next
  case (pos c ds)
  have "takeWhile is_digit (rest s) = c # ds"
    using takeWhile_digits [of "c # ds" t] assms pos by simp
  with pos assms show ?thesis
    by (simp add: number_integer_part_def consume_def next_is_def skip_digits_def)
qed

lemma stops_fraction:
  assumes "rest s = t" "stops t"
  shows "number_fraction s = Inr (True, s)" "number_exponent s = Inr (True, s)"
  using assms by (auto simp: number_fraction_def number_exponent_def consume_def next_is_def stops_def
      split: list.splits)

lemma parse_number_decimal_int:
  assumes "rest s = decimal_int i @ t" "stops t" "in_int64 i"
  shows "parse_number s = Inr (JInt i, advance (length (decimal_int i)) s)"
proof -
  define s0 where "s0 = (case consume (CHR ''-'') s of Some s' \<Rightarrow> s' | None \<Rightarrow> s)"
  define n where "n = nat \<bar>i\<bar>"
  have s0: "rest s0 = decimal n @ t" "advance (length (decimal n)) s0 = advance (length (decimal_int i)) s"
  proof -
    have "consume (CHR ''-'') s = (if i < 0 then Some (advance 1 s) else None)"
      using assms(1) by (cases "nat i" rule: decimal_head) (auto simp: decimal_int_def consume_def)
    then show "rest s0 = decimal n @ t" "advance (length (decimal n)) s0 = advance (length (decimal_int i)) s"
      using assms(1) by (auto simp: s0_def n_def decimal_int_def)
  qed
  define s1 where "s1 = advance (length (decimal_int i)) s"
  have s1: "rest s1 = t" using assms(1) by (simp add: s1_def)
  have "number_integer_part s0 = Inr s1"
    using parse_natural [OF s0(1) assms(2)] s0(2) by (simp add: s1_def)
  moreover have "rest s0 \<noteq> []" using s0(1) by simp
  moreover have "take (position s1 - position s) (rest s) = decimal_int i"
    using assms(1) by (simp add: s1_def)
  moreover have "number_value True (decimal_int i) s1 = Inr (JInt i)"
    using from_chars_decimal_int [OF assms(3)] by (simp add: number_value_def)
  ultimately show ?thesis
    using stops_fraction [OF s1 assms(2)]
    by (simp add: parse_number_def Let_def s0_def [symmetric] s1_def [symmetric])
qed


section \<open>Values read back\<close>

fun no_doubles :: "json \<Rightarrow> bool" where
  "no_doubles (JDouble d) = False"
| "no_doubles (JArray a) = list_all no_doubles a"
| "no_doubles (JObject m) = list_all (\<lambda>(k, v). no_doubles v) m"
| "no_doubles _ = True"

text \<open>The state after the text \<open>u\<close> of a value with \<open>n\<close> nodes has been read.\<close>

definition after :: "string \<Rightarrow> nat \<Rightarrow> pstate \<Rightarrow> pstate" where
  "after u n s = (advance (length u) s)\<lparr>values_seen := values_seen s + n\<rparr>"

lemma after_fields [simp]:
  "rest (after u n s) = drop (length u) (rest s)"
  "position (after u n s) = position s + length u"
  "values_seen (after u n s) = values_seen s + n"
  by (simp_all add: after_def)

lemma pstate_eqI:
  "rest s = rest (s' :: pstate) \<Longrightarrow> position s = position s' \<Longrightarrow> values_seen s = values_seen s' \<Longrightarrow> s = s'"
  by (cases s; cases s') simp

lemma values_seen_update_fields [simp]:
  "rest (s\<lparr>values_seen := n\<rparr>) = rest s" "position (s\<lparr>values_seen := n\<rparr>) = position s"
  by (cases s; simp)+

text \<open>The answer of a fuelled run that did not run out is the value with the state after its text.\<close>

definition reads :: "(json \<times> pstate) fueled \<Rightarrow> json \<Rightarrow> string \<Rightarrow> nat \<Rightarrow> pstate \<Rightarrow> bool" where
  "reads r v u n s \<longleftrightarrow> r = None \<or> r = Some (Inr (v, after u n s))"

lemma skip_whitespace_id: "rest s = c # t \<Longrightarrow> \<not> is_space c \<Longrightarrow> skip_whitespace s = s"
  by (simp add: skip_whitespace_def)

lemma skip_whitespace_stops: "stops (rest s) \<Longrightarrow> skip_whitespace s = s"
  by (auto simp: skip_whitespace_def stops_def is_space_def split: list.splits)

lemma stringify_head: "\<exists>c u. stringify v = c # u \<and> \<not> is_space c \<and> c \<noteq> CHR '']''" if "no_doubles v"
proof (cases v)
  case (JInt i)
  have "\<exists>c u. decimal k = c # u \<and> \<not> is_space c \<and> c \<noteq> CHR '']''" for k
    by (cases k rule: decimal_head) (auto simp: is_space_def is_digit_def byte_def)
  then show ?thesis by (auto simp: JInt decimal_int_def is_space_def)
qed (use that in \<open>auto simp: quote_def is_space_def\<close>)

lemma read_array_items:
  assumes IH: "\<And>x fuel depth s t. x \<in> set items \<Longrightarrow> rest s = stringify x @ t \<Longrightarrow> stops t \<Longrightarrow>
      depth + json_depth x \<le> max_depth lim \<Longrightarrow> values_seen s + json_count x \<le> max_values lim \<Longrightarrow>
      reads (parse_value fuel lim depth s) x (stringify x) (json_count x) s"
    and nd: "list_all no_doubles items" "items \<noteq> []"
    and lim: "\<forall>x \<in> set items. depth + json_depth x \<le> max_depth lim"
      "values_seen s + sum_list (map json_count items) \<le> max_values lim"
    and r: "rest s = comma_join (map stringify items) @ CHR '']'' # t"
  shows "reads (parse_array_items fuel lim depth acc s) (JArray (acc @ items))
     (comma_join (map stringify items) @ '']'') (sum_list (map json_count items)) s"
  using IH nd lim r
proof (induction items arbitrary: fuel acc s)
  case Nil
  then show ?case by simp
next
  case (Cons x xs)
  show ?case
  proof (cases fuel)
    case 0
    then show ?thesis by (simp add: reads_def)
  next
    case (Suc f)
    define w where "w = (if xs = [] then CHR '']'' # t
        else CHR '','' # comma_join (map stringify xs) @ CHR '']'' # t)"
    have r: "rest s = stringify x @ w"
      using Cons.prems(6) by (cases xs) (auto simp: w_def)
    have "reads (parse_value f lim depth s) x (stringify x) (json_count x) s"
      using Cons.prems(4,5) r by (intro Cons.prems(1) [where t = w]) (auto simp: w_def)
    then consider "parse_value f lim depth s = None"
      | "parse_value f lim depth s = Some (Inr (x, after (stringify x) (json_count x) s))"
      unfolding reads_def by (elim disjE) simp_all
    then show ?thesis
    proof cases
      case 1
      with Suc show ?thesis by (simp add: reads_def)
    next
      case 2
      let ?s1 = "after (stringify x) (json_count x) s"
      have r1: "rest ?s1 = w" using r by simp
      have skip: "skip_whitespace ?s1 = ?s1"
        by (rule skip_whitespace_stops) (simp only: r1, simp add: w_def)
      show ?thesis
      proof (cases xs)
        case Nil
        then have "consume (CHR '']'') ?s1 = Some (advance 1 ?s1)" using r1 by (simp add: consume_def w_def)
        moreover have "advance 1 ?s1 = after (stringify x @ '']'') (json_count x) s"
          by (rule pstate_eqI) (simp_all add: add.commute)
        ultimately show ?thesis using 2 Suc skip Nil by (simp add: reads_def)
      next
        case (Cons y ys)
        then have ne: "xs \<noteq> []" by simp
        have c: "consume (CHR '']'') ?s1 = None" "consume (CHR '','') ?s1 = Some (advance 1 ?s1)"
          using r1 ne by (simp_all add: consume_def w_def)
        let ?s2 = "advance 1 ?s1"
        have r2: "rest ?s2 = comma_join (map stringify xs) @ CHR '']'' # t"
          using r ne by (simp add: w_def)
        have hd: "\<exists>c u. rest ?s2 = c # u \<and> \<not> is_space c"
          using r2 Cons Cons.prems(2) stringify_head [of y] by (cases ys) auto
        have skip2: "skip_whitespace ?s2 = ?s2" using hd skip_whitespace_id by blast
        have "reads (parse_array_items f lim depth (acc @ [x]) ?s2) (JArray ((acc @ [x]) @ xs))
            (comma_join (map stringify xs) @ '']'') (sum_list (map json_count xs)) ?s2"
          using Cons.prems(1-5) ne r2 by (intro Cons.IH) auto
        moreover have "after (comma_join (map stringify xs) @ '']'') (sum_list (map json_count xs)) ?s2 =
            after (comma_join (map stringify (x # xs)) @ '']'') (sum_list (map json_count (x # xs))) s"
          using Cons by (intro pstate_eqI) (simp_all add: ac_simps)
        ultimately show ?thesis using 2 Suc skip skip2 c by (simp add: reads_def)
      qed
    qed
  qed
qed


definition member_text :: "string \<times> json \<Rightarrow> string" where
  "member_text kv = quote (fst kv) @ '':'' @ stringify (snd kv)"

lemma member_text_pair: "member_text (k, x) = quote k @ '':'' @ stringify x"
  by (simp add: member_text_def)

lemma quote_head: "quote k @ u = CHR 0x22 # escape k @ CHR 0x22 # u"
  by (simp add: quote_def)

lemma read_members:
  assumes IH: "\<And>k x fuel depth s t. (k, x) \<in> set items \<Longrightarrow> rest s = stringify x @ t \<Longrightarrow> stops t \<Longrightarrow>
      depth + json_depth x \<le> max_depth lim \<Longrightarrow> values_seen s + json_count x \<le> max_values lim \<Longrightarrow>
      reads (parse_value fuel lim depth s) x (stringify x) (json_count x) s"
    and nd: "list_all (\<lambda>(k, v). no_doubles v) items" "items \<noteq> []"
    and keys: "\<forall>(k, x) \<in> set items. is_valid_utf8 k \<and> length k \<le> max_string_bytes lim"
    and sorted: "sorted_keys (acc @ items)"
    and lim: "\<forall>(k, x) \<in> set items. depth + json_depth x \<le> max_depth lim"
      "values_seen s + sum_list (map (\<lambda>(k, x). json_count x) items) \<le> max_values lim"
    and r: "rest s = comma_join (map member_text items) @ CHR ''}'' # t"
  shows "reads (parse_members fuel lim depth acc s) (JObject (acc @ items))
     (comma_join (map member_text items) @ ''}'') (sum_list (map (\<lambda>(k, x). json_count x) items)) s"
  using IH nd keys sorted lim r
proof (induction items arbitrary: fuel acc s)
  case Nil
  then show ?case by simp
next
  case (Cons kx xs)
  obtain k x where kx: "kx = (k, x)" by (cases kx)
  show ?case
  proof (cases fuel)
    case 0
    then show ?thesis by (simp add: reads_def)
  next
    case (Suc f)
    define w where "w = (if xs = [] then CHR ''}'' # t
        else CHR '','' # comma_join (map member_text xs) @ CHR ''}'' # t)"
    have stops: "stops w" by (simp add: w_def)
    have r: "rest s = quote k @ CHR '':'' # stringify x @ w"
      using Cons.prems(8) by (cases xs) (auto simp: w_def kx member_text_pair)
    have key: "next_is (\<lambda>c. c = CHR 0x22) s"
      "parse_string lim s = Inr (k, advance (length (quote k)) s)"
      using r Cons.prems(4) parse_string_quote [OF r, of lim] by (auto simp: kx next_is_def quote_def)
    let ?s1 = "advance (length (quote k)) s" and ?s3 = "advance (Suc (length (quote k))) s"
    have r1: "rest ?s1 = CHR '':'' # stringify x @ w" using r by simp
    have r3: "rest ?s3 = stringify x @ w" using r by simp
    have colon: "skip_whitespace ?s1 = ?s1" "consume (CHR '':'') ?s1 = Some ?s3"
      using r1 skip_whitespace_id [OF r1] by (simp_all add: consume_def is_space_def)
    have nd: "no_doubles x" using Cons.prems(2) by (simp add: kx)
    have skip3: "skip_whitespace ?s3 = ?s3"
      using stringify_head [OF nd] r3 skip_whitespace_id [of ?s3] by (metis append_Cons)
    let ?s4 = "after (stringify x) (json_count x) ?s3"
    have "reads (parse_value f lim depth ?s3) x (stringify x) (json_count x) ?s3"
      using Cons.prems(6,7) r3 stops by (intro Cons.prems(1) [where t = w]) (auto simp: kx)
    then consider "parse_value f lim depth ?s3 = None"
      | "parse_value f lim depth ?s3 = Some (Inr (x, ?s4))"
      unfolding reads_def by (elim disjE) simp_all
    then show ?thesis
    proof cases
      case 1
      with Suc key colon skip3 show ?thesis by (simp add: reads_def)
    next
      case 2
      have ins: "map_emplace k x acc = Some (acc @ [(k, x)])"
        using Cons.prems(5) by (intro map_emplace_snoc) (auto simp: kx sorted_keys_def sorted_wrt_append)
      have r4: "rest ?s4 = w" using r by (simp add: after_def)
      have skip: "skip_whitespace ?s4 = ?s4"
        by (rule skip_whitespace_stops) (simp only: r4 stops)
      note step = Suc key colon skip3 2 ins skip
      show ?thesis
      proof (cases xs)
        case Nil
        then have "consume (CHR ''}'') ?s4 = Some (advance 1 ?s4)" using r4 by (simp add: consume_def w_def)
        moreover have "advance 1 ?s4 = after (member_text (k, x) @ ''}'') (json_count x) s"
          by (rule pstate_eqI) (simp_all add: ac_simps member_text_pair)
        ultimately show ?thesis using step Nil by (simp add: reads_def kx)
      next
        case (Cons y ys)
        then have ne: "xs \<noteq> []" by simp
        let ?s5 = "advance 1 ?s4"
        have c: "consume (CHR ''}'') ?s4 = None" "consume (CHR '','') ?s4 = Some ?s5"
          using r4 ne by (simp_all add: consume_def w_def)
        have r5: "rest ?s5 = comma_join (map member_text xs) @ CHR ''}'' # t"
          unfolding advance_fields r4 by (simp add: w_def ne)
        have hd: "\<exists>c u. rest ?s5 = c # u \<and> \<not> is_space c"
          unfolding r5 using Cons by (cases ys) (simp_all add: member_text_def quote_def is_space_def)
        have skip5: "skip_whitespace ?s5 = ?s5" using hd skip_whitespace_id by blast
        have "reads (parse_members f lim depth (acc @ [(k, x)]) ?s5) (JObject ((acc @ [(k, x)]) @ xs))
            (comma_join (map member_text xs) @ ''}'') (sum_list (map (\<lambda>(k, x). json_count x) xs)) ?s5"
          by (rule Cons.IH) (use Cons.prems(2-7) ne r5 in \<open>auto simp: kx intro: Cons.prems(1)\<close>)
        moreover have "after (comma_join (map member_text xs) @ ''}'')
              (sum_list (map (\<lambda>(k, x). json_count x) xs)) ?s5 =
            after (comma_join (map member_text (kx # xs)) @ ''}'')
              (sum_list (map (\<lambda>(k, x). json_count x) (kx # xs))) s"
          using Cons by (intro pstate_eqI) (simp_all add: ac_simps kx member_text_pair)
        ultimately show ?thesis using step c skip5 by (simp add: reads_def kx)
      qed
    qed
  qed
qed


lemma stringify_object: "stringify (JObject m) = ''{'' @ comma_join (map member_text m) @ ''}''"
proof -
  have "member_text = (\<lambda>(k, v). quote k @ '':'' @ stringify v)"
    by (auto simp: fun_eq_iff member_text_pair)
  then show ?thesis by simp
qed


lemma json_count_pos: "0 < json_count v"
  by (cases v) auto

lemma after_leaf: "advance (length u) (s\<lparr>values_seen := Suc (values_seen s)\<rparr>) = after u (Suc 0) s"
  by (rule pstate_eqI) simp_all

lemma after_bracket:
  "after u n (advance (Suc 0) (s\<lparr>values_seen := Suc (values_seen s)\<rparr>)) = after (c # u) (Suc n) s"
  by (rule pstate_eqI) simp_all

lemma decimal_int_head:
  "\<exists>c u. decimal_int i = c # u \<and> (c = CHR ''-'' \<or> is_digit c)"
proof -
  have "\<exists>c u. decimal k = c # u \<and> is_digit c" for k
    by (cases k rule: decimal_head) (auto simp: is_digit_def byte_def)
  then show ?thesis by (cases "i < 0") (simp add: decimal_int_def, metis decimal_int_def)
qed

lemma parse_value_step:
  assumes "depth \<le> max_depth lim" "values_seen s + 1 \<le> max_values lim"
  shows "parse_value (Suc fuel) lim depth s =
    (let s1 = s\<lparr>values_seen := Suc (values_seen s)\<rparr>
     in case rest s of
          [] \<Rightarrow> Some (Inl (json_error ''unexpected end of input'' s1))
        | c # _ \<Rightarrow>
            if c = CHR ''n'' then Some (parse_literal ''null'' JNull s1)
            else if c = CHR ''t'' then Some (parse_literal ''true'' (JBool True) s1)
            else if c = CHR ''f'' then Some (parse_literal ''false'' (JBool False) s1)
            else if c = CHR 0x22
            then Some (rbind (parse_string lim s1) (\<lambda>(t, s2). Inr (JString t, s2)))
            else if c = CHR ''['' then
              (let s2 = skip_whitespace (advance 1 s1)
               in case consume (CHR '']'') s2 of
                    Some s3 \<Rightarrow> Some (Inr (JArray [], s3))
                  | None \<Rightarrow> parse_array_items fuel lim (depth + 1) [] s2)
            else if c = CHR ''{'' then
              (let s2 = skip_whitespace (advance 1 s1)
               in case consume (CHR ''}'') s2 of
                    Some s3 \<Rightarrow> Some (Inr (JObject [], s3))
                  | None \<Rightarrow> parse_members fuel lim (depth + 1) [] s2)
            else if c = CHR ''-'' \<or> is_digit c then Some (parse_number s1)
            else Some (Inl (json_error ''unexpected character'' s1)))"
  using assms by (simp add: Let_def)

lemma read_value:
  assumes "json_ok v" "no_doubles v" "strings_le (max_string_bytes lim) v"
    and "rest s = stringify v @ t" "stops t"
    and "depth + json_depth v \<le> max_depth lim" "values_seen s + json_count v \<le> max_values lim"
  shows "reads (parse_value fuel lim depth s) v (stringify v) (json_count v) s"
  using assms
proof (induction v arbitrary: fuel depth s t)
  case (JArray items)
  show ?case
  proof (cases fuel)
    case (Suc f)
    note step = parse_value_step [of depth lim s f]
    let ?s2 = "advance 1 (s\<lparr>values_seen := Suc (values_seen s)\<rparr>)"
    have lim: "depth \<le> max_depth lim" "values_seen s + 1 \<le> max_values lim"
      using JArray.prems(6,7) by auto
    have dep: "\<forall>x \<in> set items. depth + 1 + json_depth x \<le> max_depth lim"
      using JArray.prems(6) json_depth_bound(1) [OF lim(1), of items] by simp
    have r2: "rest ?s2 = comma_join (map stringify items) @ CHR '']'' # t"
      using JArray.prems(4) by simp
    show ?thesis
    proof (cases "items = []")
      case True
      with JArray.prems(4) have "skip_whitespace ?s2 = ?s2" "consume (CHR '']'') ?s2 = Some (advance 1 ?s2)"
        by (auto intro: skip_whitespace_id simp: is_space_def consume_def)
      then show ?thesis
        using step [OF lim] True JArray.prems(4) Suc
        by (auto simp: reads_def Let_def intro!: pstate_eqI)
    next
      case False
      then obtain x xs where x: "items = x # xs" by (cases items) auto
      have "no_doubles x" using JArray.prems(2) x by simp
      then obtain c u where c: "stringify x = c # u" "\<not> is_space c" "c \<noteq> CHR '']''"
        using stringify_head by blast
      have h: "rest ?s2 = c # drop 1 (rest ?s2)"
        unfolding r2 using x c(1) by (cases xs) simp_all
      have "skip_whitespace ?s2 = ?s2" "consume (CHR '']'') ?s2 = None"
        using skip_whitespace_id [OF h c(2)] h c(3) by (auto simp: consume_None)
      moreover have "reads (parse_array_items f lim (depth + 1) [] ?s2) (JArray ([] @ items))
          (comma_join (map stringify items) @ '']'') (sum_list (map json_count items)) ?s2"
      proof (rule read_array_items [where t = t])
        fix x fuel' depth' t' and s' :: pstate
        assume "x \<in> set items" "rest s' = stringify x @ t'" "stops t'"
          "depth' + json_depth x \<le> max_depth lim" "values_seen s' + json_count x \<le> max_values lim"
        then show "reads (parse_value fuel' lim depth' s') x (stringify x) (json_count x) s'"
          using JArray.prems(1-3) by (intro JArray.IH) (auto simp: list_all_iff)
      qed (use JArray.prems dep r2 False in auto)
      ultimately show ?thesis
        using step [OF lim] JArray.prems(4) Suc
        by (simp add: reads_def Let_def after_bracket [where c = "CHR ''[''"])
    qed
  qed (simp add: reads_def)
next
  case (JObject members)
  show ?case
  proof (cases fuel)
    case (Suc f)
    note step = parse_value_step [of depth lim s f]
    let ?s2 = "advance 1 (s\<lparr>values_seen := Suc (values_seen s)\<rparr>)"
    have lim: "depth \<le> max_depth lim" "values_seen s + 1 \<le> max_values lim"
      using JObject.prems(6,7) by auto
    have dep: "\<forall>(k, x) \<in> set members. depth + 1 + json_depth x \<le> max_depth lim"
      using JObject.prems(6) json_depth_bound(2) [OF lim(1), of members] by auto
    note r = JObject.prems(4) [unfolded stringify_object]
    have r2: "rest ?s2 = comma_join (map member_text members) @ CHR ''}'' # t"
      using r by simp
    show ?thesis
    proof (cases "members = []")
      case True
      with JObject.prems(4) have "skip_whitespace ?s2 = ?s2" "consume (CHR ''}'') ?s2 = Some (advance 1 ?s2)"
        by (auto intro: skip_whitespace_id simp: is_space_def consume_def)
      then show ?thesis
        using step [OF lim] True JObject.prems(4) Suc
        by (auto simp: reads_def Let_def intro!: pstate_eqI)
    next
      case False
      then obtain x xs where x: "members = x # xs" by (cases members) auto
      have h: "rest ?s2 = CHR 0x22 # drop 1 (rest ?s2)"
        unfolding r2 using x by (cases xs) (simp_all add: member_text_def quote_def)
      have "skip_whitespace ?s2 = ?s2" "consume (CHR ''}'') ?s2 = None"
        using skip_whitespace_id [OF h] h by (auto simp: consume_None is_space_def)
      moreover have "reads (parse_members f lim (depth + 1) [] ?s2) (JObject ([] @ members))
          (comma_join (map member_text members) @ ''}'') (sum_list (map (\<lambda>(k, x). json_count x) members)) ?s2"
      proof (rule read_members [where t = t])
        fix k x fuel' depth' t' and s' :: pstate
        assume "(k, x) \<in> set members" "rest s' = stringify x @ t'" "stops t'"
          "depth' + json_depth x \<le> max_depth lim" "values_seen s' + json_count x \<le> max_values lim"
        then show "reads (parse_value fuel' lim depth' s') x (stringify x) (json_count x) s'"
          using JObject.prems(1-3) by (intro JObject.IH) (auto simp: list_all_iff)
      qed (use JObject.prems dep r2 False in \<open>auto simp: list_all_iff\<close>)
      ultimately show ?thesis
        unfolding stringify_object using step [OF lim] r Suc
        by (simp add: reads_def Let_def after_bracket [where c = "CHR ''{''"] del: stringify.simps)
    qed
  qed (simp add: reads_def)
next
  case (JInt i)
  obtain c u where c: "decimal_int i = c # u" "c = CHR ''-'' \<or> is_digit c"
    using decimal_int_head by blast
  then have "c \<notin> set ''ntf[{'' \<and> c \<noteq> CHR 0x22" by (auto simp: is_digit_def byte_def)
  moreover have "parse_number (s\<lparr>values_seen := Suc (values_seen s)\<rparr>) =
      Inr (JInt i, advance (length (decimal_int i)) (s\<lparr>values_seen := Suc (values_seen s)\<rparr>))"
    using JInt.prems by (intro parse_number_decimal_int [where t = t]) simp_all
  ultimately show ?case
    using JInt.prems c
    by (cases fuel) (simp_all add: reads_def parse_value_step Let_def after_leaf)
next
  case (JString u)
  have "parse_string lim (s\<lparr>values_seen := Suc (values_seen s)\<rparr>) =
      Inr (u, advance (length (quote u)) (s\<lparr>values_seen := Suc (values_seen s)\<rparr>))"
    using JString.prems by (intro parse_string_quote [where t = t]) simp_all
  moreover have "\<exists>w. rest s = CHR 0x22 # w" using JString.prems by (simp add: quote_def)
  ultimately show ?case
    using JString.prems
    by (cases fuel) (auto simp add: reads_def parse_value_step Let_def after_leaf)
next
  case (JBool b)
  then show ?case
    using after_leaf [of "''true''" s] after_leaf [of "''false''" s]
    by (cases fuel; cases b) (simp_all add: reads_def parse_value_step Let_def parse_literal_def)
next
  case JNull
  then show ?case
    using after_leaf [of "''null''" s]
    by (cases fuel) (simp_all add: reads_def parse_value_step Let_def parse_literal_def)
qed simp


section \<open>Errors\<close>

definition data_loss :: "'a result \<Rightarrow> bool" where
  "data_loss r \<longleftrightarrow> (case r of Inl e \<Rightarrow> code e = KDataLoss | Inr _ \<Rightarrow> True)"

lemma data_loss_simps [simp]:
  "data_loss (Inr v)" "data_loss (Inl (json_error msg s))"
  by (simp_all add: data_loss_def json_error_def)

lemma data_loss_rbind: "data_loss r \<Longrightarrow> (\<And>v. data_loss (f v)) \<Longrightarrow> data_loss (rbind r f)"
  by (cases r) (auto simp: data_loss_def)

lemma data_loss_if: "data_loss a \<Longrightarrow> data_loss b \<Longrightarrow> data_loss (if p then a else b)"
  by simp

lemma data_loss_hex: "data_loss (hex_loop n v s)"
  by (induction n v s rule: hex_loop.induct) (auto split: list.splits option.splits)

lemma data_loss_unit: "data_loss (string_unit s)"
proof -
  have h: "data_loss (parse_hex4 s)" for s by (simp add: parse_hex4_def data_loss_hex)
  have "data_loss (parse_unicode_escape s)" for s
    by (auto simp: parse_unicode_escape_def intro!: data_loss_rbind h)
  then show ?thesis
    by (auto simp: string_unit_def Let_def intro!: data_loss_rbind split: list.splits option.splits)
qed

lemma data_loss_string: "data_loss (string_loop lim out s)"
proof (induction lim out s rule: string_loop.induct)
  case (1 lim out s)
  show ?case
  proof (cases "string_unit s")
    case (Inl e)
    then show ?thesis
      using data_loss_unit [of s] by (auto simp: string_loop.simps [of lim out s] Let_def)
  next
    case (Inr w)
    then show ?thesis
      using 1 [OF _ Inr] by (cases w) (auto simp: string_loop.simps [of lim out s] Let_def)
  qed
qed

lemma data_loss_number: "data_loss (parse_number s)"
proof -
  have v: "data_loss (number_value b tok s)" for b tok s
    by (auto simp: number_value_def Let_def split: prod.splits errc.splits list.splits)
  have "data_loss (number_integer_part s)" "data_loss (number_fraction s)" "data_loss (number_exponent s)" for s
    by (auto simp: number_integer_part_def number_fraction_def number_exponent_def Let_def split: option.splits)
  then show ?thesis
    by (auto simp: parse_number_def Let_def v intro!: data_loss_rbind)
qed

definition fueled_loss :: "'a fueled \<Rightarrow> bool" where
  "fueled_loss r \<longleftrightarrow> (case r of None \<Rightarrow> True | Some x \<Rightarrow> data_loss x)"

lemma fueled_loss_simps [simp]: "fueled_loss None" "fueled_loss (Some x) = data_loss x"
  by (simp_all add: fueled_loss_def)

lemma fueled_loss_fbind:
  "fueled_loss r \<Longrightarrow> (\<And>v. r = Some (Inr v) \<Longrightarrow> fueled_loss (f v)) \<Longrightarrow> fueled_loss (fbind r f)"
  by (auto simp: fbind_def data_loss_def split: option.splits sum.splits)

lemma parse_errors:
  "fueled_loss (parse_value fuel lim depth s)"
  "fueled_loss (parse_array_items fuel lim depth array s)"
  "fueled_loss (parse_members fuel lim depth object s)"
proof (induction fuel arbitrary: depth s array object)
  case (Suc fuel)
  {
    case 1
    have lit: "data_loss (parse_literal l v s)" for l v s by (simp add: parse_literal_def)
    have str: "data_loss (rbind (parse_string lim s) (\<lambda>(t, s2). Inr (JString t, s2)))" for s
      by (auto simp: parse_string_def data_loss_string intro!: data_loss_rbind)
    show ?case
      by (cases "rest s") (simp_all add: Let_def data_loss_number lit str Suc split: option.split)
  next
    case 2
    show ?case by (auto simp: Let_def Suc intro!: fueled_loss_fbind split: option.splits)
  next
    case 3
    have str: "data_loss (parse_string lim s)" for s
      by (simp add: parse_string_def data_loss_string)
    show ?case by (auto simp: Let_def Suc str intro!: fueled_loss_fbind split: option.splits)
  }
qed simp_all

lemma parse_run_errors: "fueled_loss (parse_run fuel lim input)"
  by (auto simp: parse_run_def Let_def parse_errors intro!: fueled_loss_fbind)

section \<open>The whole document\<close>

lemma parse_run_stringify:
  assumes "within lim v" "no_doubles v"
  shows "parse_run (parse_fuel (stringify v)) lim (stringify v) = Some (Inr v)"
proof -
  define s where "s = \<lparr>rest = stringify v, position = 0, values_seen = 0\<rparr>"
  have s: "rest s = stringify v @ []" "values_seen s = 0" by (simp_all add: s_def)
  have "skip_whitespace s = s"
    using stringify_head [OF assms(2)] s skip_whitespace_id [of s] by auto
  moreover have "reads (parse_value (parse_fuel (stringify v)) lim 0 s) v (stringify v) (json_count v) s"
    using assms s by (intro read_value [where t = "[]"]) (auto simp: within_def)
  moreover have "skip_whitespace (after (stringify v) n s) = after (stringify v) n s" for n
    using s by (intro skip_whitespace_stops) simp
  ultimately have "parse_run (parse_fuel (stringify v)) lim (stringify v) \<in> {None, Some (Inr v)}"
    using s by (auto simp: parse_run_def s_def [symmetric] reads_def)
  then show ?thesis
    using parse_run_terminates [of "stringify v" "parse_fuel (stringify v)" lim] by simp
qed

lemma document_limit_le: "document_limit lim \<le> 2 * max_string_bytes lim"
  unfolding document_limit_def using mod_less_eq_dividend [of "max_string_bytes lim * 2" "2 ^ 64"] by simp

lemma json_parse_reads_back:
  "within lim v \<Longrightarrow> no_doubles v \<Longrightarrow> length (stringify v) \<le> document_limit lim \<Longrightarrow>
   json_parse (stringify v) lim = Inr v"
  by (simp add: json_parse_def parse_run_stringify)

lemma json_parse_run:
  "length input \<le> document_limit lim \<Longrightarrow>
   parse_run (parse_fuel input) lim input = Some (json_parse input lim)"
  using parse_run_terminates [of input "parse_fuel input" lim] by (auto simp: json_parse_def)

definition sample_value :: json where
  "sample_value = JObject [(''a'', JArray [JInt (-7), JNull]), (''b'', JString [CHR 0x22, CHR 0x0A])]"

definition sample_limits :: json_limits where
  "sample_limits = \<lparr>max_depth = 2, max_values = 5, max_string_bytes = 40\<rparr>"

lemma sample_facts:
  "within sample_limits sample_value" "no_doubles sample_value"
  "length (stringify sample_value) \<le> document_limit sample_limits"
proof -
  have "length (stringify sample_value) \<le> 80" by code_simp
  then show "length (stringify sample_value) \<le> document_limit sample_limits"
    by (simp add: document_limit_def sample_limits_def del: stringify.simps)
qed code_simp+

text \<open>
  C9. Round trip: a value that contains no floating-point number and respects the parser's limits
  (int64 integers, valid UTF-8 strings, strictly sorted object keys, depth, node count, string
  length), and whose serialisation is within the document limit, is what parsing that serialisation
  gives back.  Doubles are excluded because they are not read back as doubles: 1.0 is written as 1.
\<close>

theorem json_parse_stringify:
  assumes "within lim v" "no_doubles v" "length (stringify v) \<le> document_limit lim"
  shows "json_parse (stringify v) lim = Inr v"
  using assms by (rule json_parse_reads_back)

lemma json_parse_stringify_witness:
  "json_parse (stringify sample_value) sample_limits = Inr sample_value"
  by (rule json_parse_stringify [OF sample_facts])

text \<open>
  C10. Every value the parser returns is well formed (integers within int64, finite doubles,
  valid UTF-8 strings and keys, object keys strictly sorted and so distinct), nests at most
  \<open>max_depth\<close> deep, has at most \<open>max_values\<close> nodes, and no string or key of it is longer than
  \<open>max_string_bytes\<close>; and the document was at most twice that long.
\<close>

theorem json_parse_respects_limits:
  assumes "json_parse input lim = Inr v"
  shows "json_ok v \<and> json_depth v \<le> max_depth lim \<and> json_count v \<le> max_values lim \<and>
    strings_le (max_string_bytes lim) v \<and> length input \<le> 2 * max_string_bytes lim"
  using json_parse_within [OF assms] assms le_trans [OF _ document_limit_le]
  by (auto simp: within_def json_parse_def split: if_splits)

lemma json_parse_respects_limits_witness:
  "json_depth sample_value \<le> 2 \<and> json_count sample_value \<le> 5"
  using json_parse_respects_limits [OF json_parse_reads_back [OF sample_facts]]
  by (simp add: sample_limits_def)

text \<open>
  C11. The parser terminates with an answer on every input: the fuel \<open>json_parse\<close> gives is
  enough, more fuel is too, and an error it returns is always DATA_LOSS.
\<close>

theorem json_parse_total:
  "parse_run (parse_fuel input + n) lim input \<noteq> None \<and>
   (case json_parse input lim of Inl e \<Rightarrow> code e = KDataLoss | Inr v \<Rightarrow> True)"
proof -
  have "data_loss (json_parse input lim)"
  proof (cases "length input \<le> document_limit lim")
    case True
    then show ?thesis
      using parse_run_errors [of "parse_fuel input" lim input] by (simp add: json_parse_run)
  qed (simp add: json_parse_def data_loss_def)
  then show ?thesis
    using parse_run_terminates [of input "parse_fuel input + n" lim] by (simp add: data_loss_def)
qed

end
