(* ===== verification/Tool_Calls.thy ===== *)
theory Tool_Calls
  imports Tool_Schema Json_Roundtrip
begin

text \<open>
  \<open>ValidateToolDefinitions\<close> and \<open>ValidateGeneratedToolCalls\<close> of
  src/runtime/tool_call_parser.cpp, on the data of include/gem16/chat.h: a request's tools are
  checked before generation, the calls the model emitted after it.  The second has the extra
  outcome \<open>None\<close>, the exception a misused accessor of the schema matcher would throw.
\<close>

record tool_definition =
  tool_name :: string
  tool_description :: string
  parameters_json :: string
  tool_strict :: bool

record tool_call =
  call_id :: string
  call_name :: string
  arguments_json :: string

datatype choice_mode = ChoiceAuto | ChoiceNone | ChoiceRequired | ChoiceFunction

record tool_choice =
  choice_mode :: choice_mode
  function_name :: string

definition parse_error :: "string \<Rightarrow> status" where
  "parse_error msg = Status KDataLoss msg"

definition tool_limits :: json_limits where
  "tool_limits = \<lparr>max_depth = 32, max_values = 10000, max_string_bytes = 1024 * 1024\<rparr>"

definition quoted :: "string \<Rightarrow> string" where
  "quoted s = CHR 0x27 # s @ [CHR 0x27]"

section \<open>Tool definitions\<close>

definition check_root_type :: "tool_definition \<Rightarrow> json \<Rightarrow> unit result" where
  "check_root_type tool schema =
     rguard (json_find schema ''type'' = Some (JString ''object''))
       (invalid_tool (''tool '' @ quoted (tool_name tool) @ '' parameters must have root type object''))"

definition tool_step :: "string list \<Rightarrow> tool_definition \<Rightarrow> string list result" where
  "tool_step names tool =
     (if \<not> is_protocol_name (tool_name tool)
      then Inl (Status KUnsupported (''tool name '' @ quoted (tool_name tool) @
             '' must contain 1..64 ASCII letters, digits, or underscores''))
      else if tool_name tool \<in> set names
      then Inl (invalid_tool (''tool names must be unique: '' @ tool_name tool))
      else case json_parse (parameters_json tool) tool_limits of
        Inl e \<Rightarrow> Inl (invalid_tool (''tool '' @ quoted (tool_name tool) @
                  '' parameters are invalid JSON: '' @ message e))
      | Inr schema \<Rightarrow>
          rbind (validate_schema (tool_strict tool) (''tool '' @ quoted (tool_name tool) @ '' parameters'')
                   0 schema) (\<lambda>_.
          rbind (check_root_type tool schema) (\<lambda>_. Inr (tool_name tool # names))))"

definition validate_tool_definitions :: "tool_definition list \<Rightarrow> unit result" where
  "validate_tool_definitions tools = rbind (rfold tool_step [] tools) (\<lambda>_. Inr ())"

section \<open>Generated calls\<close>

definition find_tool :: "tool_definition list \<Rightarrow> string \<Rightarrow> tool_definition option" where
  "find_tool tools name = find (\<lambda>tool. tool_name tool = name) tools"

definition check_arguments :: "tool_definition \<Rightarrow> tool_call \<Rightarrow> json \<Rightarrow> (status + unit) option" where
  "check_arguments tool call arguments =
     (if \<not> tool_strict tool then Some (Inr ())
      else case json_parse (parameters_json tool) tool_limits of
        Inl e \<Rightarrow> Some (Inl (Status KInternal ''validated strict tool schema cannot be reparsed''))
      | Inr schema \<Rightarrow>
          (case matches_schema schema 0 arguments schema of
             None \<Rightarrow> None
           | Some (Inl reason) \<Rightarrow>
               Some (Inl (parse_error (''strict tool '' @ quoted (call_name call) @
                  '' arguments violate its schema: '' @ reason)))
           | Some (Inr _) \<Rightarrow> Some (Inr ())))"

text \<open>One turn of the loop over the calls; the accumulator is the set of identifiers seen.\<close>

definition call_step :: "tool_definition list \<Rightarrow> tool_choice \<Rightarrow> string list \<Rightarrow> tool_call \<Rightarrow>
    (status + string list) option" where
  "call_step tools choice ids call =
     (if call_id call = [] \<or> call_id call \<in> set ids
      then Some (Inl (parse_error ''model emitted an empty or duplicate tool-call ID''))
      else case find_tool tools (call_name call) of
        None \<Rightarrow> Some (Inl (parse_error (''model emitted undeclared tool '' @ quoted (call_name call))))
      | Some tool \<Rightarrow>
          if choice_mode choice = ChoiceFunction \<and> call_name call \<noteq> function_name choice
          then Some (Inl (parse_error ''model emitted a tool other than the selected function''))
          else (case json_parse (arguments_json call) tool_limits of
              Inr (JObject members) \<Rightarrow>
                fbind (check_arguments tool call (JObject members)) (\<lambda>_. Some (Inr (call_id call # ids)))
            | _ \<Rightarrow> Some (Inl (parse_error (''model emitted non-object arguments for tool '' @
                     quoted (call_name call))))))"

fun call_loop :: "tool_definition list \<Rightarrow> tool_choice \<Rightarrow> string list \<Rightarrow> tool_call list \<Rightarrow>
    (status + unit) option" where
  "call_loop tools choice ids [] = Some (Inr ())"
| "call_loop tools choice ids (call # calls) =
     fbind (call_step tools choice ids call) (\<lambda>ids'. call_loop tools choice ids' calls)"

definition validate_generated_calls :: "tool_definition list \<Rightarrow> tool_choice \<Rightarrow> tool_call list \<Rightarrow>
    (status + unit) option" where
  "validate_generated_calls tools choice calls =
     (if choice_mode choice = ChoiceNone \<and> calls \<noteq> []
      then Some (Inl (parse_error ''model emitted a tool call while tool_choice is none''))
      else call_loop tools choice [] calls)"

section \<open>What the definitions guarantee\<close>

lemma tool_step_Inr:
  assumes "tool_step names tool = Inr names'"
  shows "names' = tool_name tool # names" "tool_name tool \<notin> set names" "is_protocol_name (tool_name tool)"
    and "\<exists>schema. json_parse (parameters_json tool) tool_limits = Inr schema \<and> valid_at 0 schema \<and>
           json_find schema ''type'' = Some (JString ''object'')"
  using assms
  by (auto simp: tool_step_def check_root_type_def rbind_Inr_iff valid_at_def split: if_splits sum.splits)

definition tool_ok :: "tool_definition \<Rightarrow> bool" where
  "tool_ok tool \<longleftrightarrow> is_protocol_name (tool_name tool) \<and>
     (\<exists>schema. json_parse (parameters_json tool) tool_limits = Inr schema \<and> valid_at 0 schema \<and>
        json_find schema ''type'' = Some (JString ''object''))"

lemma tool_loop:
  "rfold tool_step names tools = Inr names' \<Longrightarrow> distinct names \<Longrightarrow>
   names' = rev (map tool_name tools) @ names \<and> distinct names' \<and> (\<forall>tool \<in> set tools. tool_ok tool)"
proof (induction tools arbitrary: names)
  case (Cons tool tools)
  from Cons.prems(1) obtain n where n: "tool_step names tool = Inr n" "rfold tool_step n tools = Inr names'"
    by (auto simp: rbind_Inr_iff)
  note s = tool_step_Inr [OF n(1)]
  have "distinct n" using s(1,2) Cons.prems(2) by simp
  note IH = Cons.IH [OF n(2) this]
  have "tool_ok tool" using s(3,4) by (simp add: tool_ok_def)
  then have "\<forall>t \<in> set (tool # tools). tool_ok t" using IH by simp
  moreover have "names' = rev (map tool_name (tool # tools)) @ names" using IH s(1) by simp
  ultimately show ?case using IH by blast
qed simp

lemma definitions_ok:
  assumes "validate_tool_definitions tools = Inr ()"
  shows "distinct (map tool_name tools)" "\<forall>tool \<in> set tools. tool_ok tool"
proof -
  from assms obtain names where r: "rfold tool_step [] tools = Inr names"
    by (auto simp: validate_tool_definitions_def rbind_Inr_iff)
  have "distinct (rev (map tool_name tools))" "\<forall>tool \<in> set tools. tool_ok tool"
    using tool_loop [OF r] by auto
  then show "distinct (map tool_name tools)" "\<forall>tool \<in> set tools. tool_ok tool" by auto
qed

lemma call_loop_returns:
  assumes "\<forall>tool \<in> set tools. tool_ok tool"
  shows "returns (call_loop tools choice ids calls)"
proof (induction calls arbitrary: ids)
  case (Cons call calls)
  have "returns (check_arguments tool call v)" if "find_tool tools (call_name call) = Some tool" for tool v
  proof -
    from that have "tool_ok tool"
      using assms by (auto simp: find_tool_def find_Some_iff)
    then obtain schema where "json_parse (parameters_json tool) tool_limits = Inr schema" "valid_at 0 schema"
      by (auto simp: tool_ok_def)
    then show ?thesis
      using matches_schema_answers [of 0 schema 0 schema 0 v]
      by (auto simp: check_arguments_def returns_def split: sum.splits)
  qed
  then have "returns (call_step tools choice ids call)"
    by (auto simp: call_step_def intro!: returns_fbind split: option.splits sum.splits json.splits)
  with Cons.IH show ?case by (auto intro!: returns_fbind)
qed simp

definition call_ok :: "tool_definition list \<Rightarrow> tool_choice \<Rightarrow> tool_call \<Rightarrow> bool" where
  "call_ok tools choice call \<longleftrightarrow>
     (\<exists>tool members. find_tool tools (call_name call) = Some tool \<and>
        (choice_mode choice = ChoiceFunction \<longrightarrow> call_name call = function_name choice) \<and>
        json_parse (arguments_json call) tool_limits = Inr (JObject members) \<and>
        (tool_strict tool \<longrightarrow>
          (\<exists>schema. json_parse (parameters_json tool) tool_limits = Inr schema \<and>
             matches_schema schema 0 (JObject members) schema = Some (Inr ()))))"

lemma call_step_Inr:
  "call_step tools choice ids call = Some (Inr ids') \<longleftrightarrow>
   ids' = call_id call # ids \<and> call_id call \<noteq> [] \<and> call_id call \<notin> set ids \<and> call_ok tools choice call"
  by (auto simp: call_step_def call_ok_def check_arguments_def fbind_Inr_iff
      split: option.splits sum.splits json.splits if_splits)

lemma call_loop_Inr:
  "call_loop tools choice ids calls = Some (Inr ()) \<longleftrightarrow>
   distinct (map call_id calls) \<and> set (map call_id calls) \<inter> set ids = {} \<and>
   (\<forall>call \<in> set calls. call_id call \<noteq> [] \<and> call_ok tools choice call)"
proof (induction calls arbitrary: ids)
  case (Cons call calls)
  show ?case by (auto simp: fbind_Inr_iff call_step_Inr Cons.IH)
qed simp

section \<open>A concrete tool\<close>

definition sample_schema :: json where
  "sample_schema = JObject [
     (''additionalProperties'', JBool False),
     (''properties'', JObject [(''n'', JObject [(''minimum'', JInt 1), (''type'', JString ''integer'')])]),
     (''required'', JArray [JString ''n'']),
     (''type'', JString ''object'')]"

definition sample_arguments :: json where
  "sample_arguments = JObject [(''n'', JInt 5)]"

definition sample_tool :: tool_definition where
  "sample_tool = \<lparr>tool_name = ''get'', tool_description = [], parameters_json = stringify sample_schema,
     tool_strict = True\<rparr>"

definition sample_call :: tool_call where
  "sample_call = \<lparr>call_id = ''call_1'', call_name = ''get'', arguments_json = stringify sample_arguments\<rparr>"

definition sample_choice :: tool_choice where
  "sample_choice = \<lparr>choice_mode = ChoiceAuto, function_name = []\<rparr>"

text \<open>The limits of this file admit every value that stays within small ones.\<close>

lemma small_document:
  assumes "within \<lparr>max_depth = 8, max_values = 64, max_string_bytes = 64\<rparr> v" "no_doubles v"
    and "length (stringify v) \<le> 500"
  shows "json_parse (stringify v) tool_limits = Inr v"
  using assms strings_le_mono [of 64 v "1024 * 1024"]
  by (intro json_parse_reads_back) (auto simp: within_def tool_limits_def document_limit_def)

lemma sample_documents:
  "json_parse (stringify sample_schema) tool_limits = Inr sample_schema"
  "json_parse (stringify sample_arguments) tool_limits = Inr sample_arguments"
  by (rule small_document; code_simp)+

lemma sample_bound:
  "is_finite (double_of_int 1)" "\<not> double_less (double_of_int 5) (double_of_int 1)"
  by (simp_all add: double_of_int_def round_ratio_def binary_exponent_def scaled_def round_div_def
      bit_length.simps Let_def)

lemma sample_schema_valid: "validate_schema True path 0 sample_schema = Inr ()"
  by (simp add: sample_schema_def validate_schema.simps on_keyword_def check_keywords_def
      supported_keywords_def check_type_def check_text_def check_required_def required_step_def
      check_reference_def check_enum_def check_bound_def check_length_def is_schema_type_def
      is_protocol_name_def name_character_def rguard_def less_eq_char_def sample_bound)


lemma sample_matches: "matches_schema sample_schema 0 sample_arguments sample_schema = Some (Inr ())"
proof -
  have "matches_schema r (Suc 0) (JInt 5) (JObject [(''minimum'', JInt 1), (''type'', JString ''integer'')]) =
      Some (Inr ())" for r
    by (simp add: matches_schema.simps when_keyword_def match_type_def type_matches_def match_number_def
        match_bound_def sample_bound require_that_def rguard_def)
  then show ?thesis
    by (simp add: sample_schema_def sample_arguments_def matches_schema.simps [of _ 0] when_keyword_def
        match_type_def type_matches_def match_required_def require_that_def explain_def rguard_def)
qed

lemma sample_tool_valid: "validate_tool_definitions [sample_tool] = Inr ()"
proof -
  have "json_find sample_schema ''type'' = Some (JString ''object'')" by (simp add: sample_schema_def)
  then show ?thesis
    by (simp add: validate_tool_definitions_def tool_step_def sample_tool_def sample_documents
        sample_schema_valid check_root_type_def is_protocol_name_def name_character_def less_eq_char_def
        rguard_def)
qed

lemma sample_call_accepted:
  "validate_generated_calls [sample_tool] sample_choice [sample_call] = Some (Inr ())"
proof -
  obtain m where m: "sample_arguments = JObject m" by (simp add: sample_arguments_def)
  have "find_tool [sample_tool] (call_name sample_call) = Some sample_tool"
    "json_parse (arguments_json sample_call) tool_limits = Inr sample_arguments"
    "json_parse (parameters_json sample_tool) tool_limits = Inr sample_schema"
    by (simp_all add: find_tool_def sample_tool_def sample_call_def sample_documents)
  moreover have "choice_mode sample_choice \<noteq> ChoiceFunction" by (simp add: sample_choice_def)
  ultimately have "call_ok [sample_tool] sample_choice sample_call"
    using sample_matches unfolding call_ok_def m by blast
  moreover have "call_id sample_call \<noteq> []" "choice_mode sample_choice \<noteq> ChoiceNone"
    by (simp_all add: sample_call_def sample_choice_def)
  ultimately show ?thesis
    by (simp add: validate_generated_calls_def call_loop_Inr del: call_loop.simps)
qed

section \<open>The properties\<close>

text \<open>
  C16. Tools that passed \<open>ValidateToolDefinitions\<close> never make \<open>ValidateGeneratedToolCalls\<close> throw:
  on every list of calls, whatever the model wrote, it returns a status.  (The strict matcher
  uses \<open>std::get\<close> on schema parts without testing them; the validator and the recursion
  limit make every such access safe, also through \<open>$ref\<close>, \<open>items\<close> and \<open>additionalProperties\<close>.)
\<close>

theorem validated_tools_never_throw:
  assumes "validate_tool_definitions tools = Inr ()"
  shows "\<exists>r. validate_generated_calls tools choice calls = Some r"
  using call_loop_returns [OF definitions_ok(2) [OF assms], of choice "[]" calls]
  by (auto simp: validate_generated_calls_def returns_def)

lemma validated_tools_never_throw_witness:
  "\<exists>r. validate_generated_calls [sample_tool] sample_choice [sample_call, sample_call] = Some r"
  by (rule validated_tools_never_throw [OF sample_tool_valid])

text \<open>
  C17. The calls are accepted exactly when none is emitted under tool choice none, their
  identifiers are distinct and non-empty, and each names a declared tool (the selected one
  when a function is forced), carries an object as arguments, and matches the schema of its
  tool when that is strict.
\<close>

theorem validate_generated_calls_iff:
  "validate_generated_calls tools choice calls = Some (Inr ()) \<longleftrightarrow>
   (choice_mode choice = ChoiceNone \<longrightarrow> calls = []) \<and> distinct (map call_id calls) \<and>
   (\<forall>call \<in> set calls. call_id call \<noteq> [] \<and> call_ok tools choice call)"
  by (auto simp: validate_generated_calls_def call_loop_Inr)

lemma validate_generated_calls_iff_witness:
  "call_ok [sample_tool] sample_choice sample_call \<and>
   validate_generated_calls [sample_tool] sample_choice [sample_call, sample_call] \<noteq> Some (Inr ())"
  using validate_generated_calls_iff [of "[sample_tool]" sample_choice "[sample_call]"]
    validate_generated_calls_iff [of "[sample_tool]" sample_choice "[sample_call, sample_call]"]
  by (simp add: sample_call_accepted)

text \<open>
  The arguments of an accepted call to a strict tool whose schema forbids additional
  properties are an object that has every required key and no undeclared one, and every
  value matches the schema of its key.
\<close>

theorem strict_arguments_closed:
  assumes "validate_generated_calls tools choice calls = Some (Inr ())" "call \<in> set calls"
    and "find_tool tools (call_name call) = Some tool" "tool_strict tool"
    and "json_parse (parameters_json tool) tool_limits = Inr schema"
    and "json_find schema ''additionalProperties'' = Some (JBool False)"
    and "json_find schema ''properties'' = Some properties"
  shows "\<exists>members. json_parse (arguments_json call) tool_limits = Inr (JObject members) \<and>
     (\<forall>(n, x) \<in> set members. \<exists>s. json_find properties n = Some s \<and>
        matches_schema schema 1 x s = Some (Inr ())) \<and>
     (\<forall>names n. json_find schema ''required'' = Some (JArray names) \<and> JString n \<in> set names \<longrightarrow>
        json_find (JObject members) n \<noteq> None)"
proof -
  from assms(1,2) have "call_ok tools choice call"
    by (auto simp: validate_generated_calls_def call_loop_Inr split: if_splits)
  with assms(3-5) obtain members where m: "json_parse (arguments_json call) tool_limits = Inr (JObject members)"
      "matches_schema schema 0 (JObject members) schema = Some (Inr ())"
    by (auto simp: call_ok_def)
  note a = matches_schema_accepts [OF m(2)]
  have "\<exists>s. json_find properties n = Some s \<and> matches_schema schema 1 x s = Some (Inr ())"
    if "(n, x) \<in> set members" for n x
    using a(3,4) [OF that] assms(6,7) by auto
  with m(1) a(2) show ?thesis by blast
qed

lemma strict_arguments_closed_witness:
  "\<exists>members. json_parse (arguments_json sample_call) tool_limits = Inr (JObject members) \<and>
     (\<forall>(n, x) \<in> set members. \<exists>s. json_find (JObject [(''n'', JObject [(''minimum'', JInt 1), (''type'', JString ''integer'')])]) n = Some s \<and>
        matches_schema sample_schema 1 x s = Some (Inr ())) \<and>
     (\<forall>names n. json_find sample_schema ''required'' = Some (JArray names) \<and> JString n \<in> set names \<longrightarrow>
        json_find (JObject members) n \<noteq> None)"
  by (rule strict_arguments_closed [OF sample_call_accepted, of sample_call sample_tool])
    (simp_all add: find_tool_def sample_tool_def sample_call_def sample_documents,
     simp_all add: sample_schema_def)

end
