(* ===== verification/Tool_Format.thy ===== *)
theory Tool_Format
  imports Tool_Calls
begin

text \<open>
  How src/model/tokenizer.cpp writes tool declarations, calls and responses in the Gemma prompt
  syntax: \<open>FormatToolArgument\<close>, \<open>FormatToolObject\<close>, \<open>FormatRequired\<close>,
  \<open>FormatSchemaProperties\<close>, \<open>FormatToolParameters\<close>, \<open>FormatToolDefinition\<close>, \<open>FormatToolCall\<close>
  and \<open>FormatToolResponse\<close>.
\<close>

section \<open>Markers\<close>

definition quote_mark :: string where
  "quote_mark = [CHR ''<'', CHR ''|'', CHR 0x22, CHR ''|'', CHR ''>'']"

definition tool_open :: string where "tool_open = ''<|tool_call>''"

definition call_prefix :: string where "call_prefix = ''call:''"

definition tool_close :: string where "tool_close = ''<tool_call|>''"

definition marked :: "string \<Rightarrow> string" where
  "marked s = quote_mark @ s @ quote_mark"

text \<open>\<open>std::toupper\<close> in the C locale.\<close>

definition to_upper :: "char \<Rightarrow> char" where
  "to_upper c = (if CHR ''a'' \<le> c \<and> c \<le> CHR ''z'' then chr (byte c - 32) else c)"

definition upper :: "string \<Rightarrow> string" where
  "upper s = map to_upper s"

section \<open>Values\<close>

text \<open>
  A result per element, the first error of which is the error of the loop: the loops that
  format every element and return on the first failure.
\<close>

fun rmap :: "('a \<Rightarrow> 'e + 'b) \<Rightarrow> 'a list \<Rightarrow> 'e + 'b list" where
  "rmap f [] = Inr []"
| "rmap f (x # xs) = rbind (f x) (\<lambda>y. rbind (rmap f xs) (\<lambda>ys. Inr (y # ys)))"

lemma rmap_cong [fundef_cong]:
  "xs = ys \<Longrightarrow> (\<And>x. x \<in> set ys \<Longrightarrow> f x = g x) \<Longrightarrow> rmap f xs = rmap g ys"
  by (induction ys arbitrary: xs) auto

lemma rmap_Inr: "(\<And>x. x \<in> set xs \<Longrightarrow> f x = Inr (g x)) \<Longrightarrow> rmap f xs = Inr (map g xs)"
  by (induction xs) auto

text \<open>\<open>std::to_chars\<close> into a buffer of 64 bytes.\<close>

definition format_double :: "binary64 \<Rightarrow> string result" where
  "format_double d =
     (let t = to_chars_double d
      in if 64 < length t then Inl (Status KDataLoss ''tool schema contains an unformattable number'')
         else Inr t)"

fun format_tool_argument :: "bool \<Rightarrow> json \<Rightarrow> string result" where
  "format_tool_argument escape_keys JNull = Inr ''null''"
| "format_tool_argument escape_keys (JBool b) = Inr (if b then ''true'' else ''false'')"
| "format_tool_argument escape_keys (JString s) = Inr (marked s)"
| "format_tool_argument escape_keys (JInt i) = Inr (decimal_int i)"
| "format_tool_argument escape_keys (JDouble d) = format_double d"
| "format_tool_argument escape_keys (JObject m) =
     rbind (rmap (\<lambda>(key, v). rbind (format_tool_argument escape_keys v) (\<lambda>formatted.
        Inr ((if escape_keys then marked key else key) @ '':'' @ formatted))) m) (\<lambda>members.
     Inr (''{'' @ comma_join members @ ''}''))"
| "format_tool_argument escape_keys (JArray items) =
     rbind (rmap (format_tool_argument escape_keys) items) (\<lambda>formatted.
     Inr (''['' @ comma_join formatted @ '']''))"

definition format_tool_object :: "bool \<Rightarrow> (string \<times> json) list \<Rightarrow> string result" where
  "format_tool_object escape_keys m = format_tool_argument escape_keys (JObject m)"

section \<open>Schemas\<close>

definition invalid_argument :: "string \<Rightarrow> status" where
  "invalid_argument msg = Status KInvalidArgument msg"

definition format_required :: "json \<Rightarrow> string result" where
  "format_required required =
     (case required of
        JArray items \<Rightarrow>
          rbind (rmap (\<lambda>item. case item of
             JString s \<Rightarrow> Inr (marked s)
           | _ \<Rightarrow> Inl (invalid_argument ''tool parameter required entries must be strings'')) items) (\<lambda>names.
          Inr (''required:['' @ comma_join names @ '']''))
      | _ \<Rightarrow> Inl (invalid_argument ''tool parameter required must be an array''))"

text \<open>
  The fields of one property are collected in order and joined with commas (\<open>append_field\<close>);
  each step returns the fields it adds.
\<close>

definition field_description :: "json \<Rightarrow> string list" where
  "field_description property =
     (case json_find property ''description'' of
        Some (JString d) \<Rightarrow> if d \<noteq> [] then [''description:'' @ marked d] else []
      | _ \<Rightarrow> [])"

definition field_enum :: "json \<Rightarrow> string list result" where
  "field_enum property =
     (case json_find property ''enum'' of
        None \<Rightarrow> Inr []
      | Some e \<Rightarrow> rbind (format_tool_argument True e) (\<lambda>f. Inr [''enum:'' @ f]))"

definition field_nullable :: "json \<Rightarrow> string list" where
  "field_nullable property =
     (if json_find property ''nullable'' = Some (JBool True) then [''nullable:true''] else [])"

definition field_required :: "json \<Rightarrow> string list result" where
  "field_required property =
     (case json_find property ''required'' of
        Some (JArray (x # xs)) \<Rightarrow> rbind (format_required (JArray (x # xs))) (\<lambda>r. Inr [r])
      | _ \<Rightarrow> Inr [])"

definition other_fields :: "string list \<Rightarrow> (string \<times> json) list \<Rightarrow> string list result" where
  "other_fields handled members =
     rmap (\<lambda>(key, v). rbind (format_tool_argument True v) (\<lambda>f. Inr (key @ '':'' @ f)))
       (filter (\<lambda>(key, v). key \<notin> set handled) members)"

text \<open>
  The parts of a property that hold nested properties take the recursive call as an argument;
  the congruence rule says that it is only made on smaller objects.
\<close>

definition item_field :: "((string \<times> json) list \<Rightarrow> string result) \<Rightarrow> string \<times> json \<Rightarrow> string result" where
  "item_field nested_text item = (case item of (key, v) \<Rightarrow>
     rbind (if key = ''properties'' then
              (case v of
                 JObject nested \<Rightarrow> rbind (nested_text nested) (\<lambda>n. Inr (''{'' @ n @ ''}''))
               | _ \<Rightarrow> Inl (invalid_argument ''array item properties must be an object''))
            else if key = ''required'' then
              rbind (format_required v) (\<lambda>r. Inr (drop (length ''required:'') r))
            else (case v of
                JString s \<Rightarrow> if key = ''type'' then Inr (marked (upper s)) else format_tool_argument True v
              | _ \<Rightarrow> format_tool_argument True v))
       (\<lambda>f. Inr (key @ '':'' @ f)))"

definition field_items :: "((string \<times> json) list \<Rightarrow> string result) \<Rightarrow> string \<Rightarrow> json \<Rightarrow> string list result" where
  "field_items nested_text upper_type property =
     (case json_find property ''items'' of
        Some (JObject (item # items)) \<Rightarrow>
          if upper_type = ''ARRAY'' then
            rbind (rmap (item_field nested_text) (item # items)) (\<lambda>fs.
            Inr [''items:{'' @ comma_join fs @ ''}''])
          else Inr []
      | _ \<Rightarrow> Inr [])"

definition field_object :: "((string \<times> json) list \<Rightarrow> string result) \<Rightarrow> string \<Rightarrow> json \<Rightarrow> string list result" where
  "field_object nested_text upper_type property =
     (if upper_type = ''OBJECT'' then
        rbind (case json_find property ''properties'' of
            Some (JObject nested) \<Rightarrow>
              rbind (nested_text nested) (\<lambda>n. Inr [''properties:{'' @ n @ ''}''])
          | _ \<Rightarrow> Inr []) (\<lambda>ps.
        rbind (field_required property) (\<lambda>rs. Inr (ps @ rs)))
      else Inr [])"

definition property_text :: "((string \<times> json) list \<Rightarrow> string result) \<Rightarrow> string \<times> json \<Rightarrow> string result" where
  "property_text nested_text entry = (case entry of (name, property) \<Rightarrow>
     case property of
       JObject members \<Rightarrow>
         (case json_find property ''type'' of
            Some (JString type) \<Rightarrow>
              let upper_type = upper type in
              rbind (field_enum property) (\<lambda>enum.
              rbind (field_items nested_text upper_type property) (\<lambda>items.
              rbind (field_object nested_text upper_type property) (\<lambda>object.
              rbind (other_fields [''description'', ''enum'', ''items'', ''nullable'', ''properties'',
                  ''required'', ''type''] members) (\<lambda>others.
              Inr (name @ '':{'' @ comma_join (field_description property @ enum @ items @
                field_nullable property @ object @ others @ [''type:'' @ marked upper_type]) @ ''}'')))))
          | _ \<Rightarrow> Inl (invalid_argument ''each tool property requires a string type''))
     | _ \<Rightarrow> Inl (invalid_argument ''each tool property must be an object''))"

lemma map_of_size: "map_of m k = Some v \<Longrightarrow> size v < size (JObject m)"
  by (induction m) (auto split: if_splits)

lemma json_find_size: "json_find v k = Some w \<Longrightarrow> size w < size v"
  using map_of_size by (cases v) auto

lemma member_size: "(k, v) \<in> set m \<Longrightarrow> size v < size (JObject m)"
  by (induction m) auto

lemma item_field_cong:
  assumes "\<And>nested. snd item = JObject nested \<Longrightarrow> f nested = g nested"
  shows "item_field f item = item_field g item"
  using assms by (auto simp: item_field_def split: prod.split json.split)

lemma field_items_cong:
  assumes "\<And>nested. size (JObject nested) < size property \<Longrightarrow> f nested = g nested"
  shows "field_items f upper_type property = field_items g upper_type property"
proof -
  have "rmap (item_field f) items = rmap (item_field g) items"
    if "json_find property ''items'' = Some (JObject items)" for items
  proof (rule rmap_cong [OF refl], rule item_field_cong)
    fix item nested assume "item \<in> set items" "snd item = JObject nested"
    then have "size (JObject nested) < size (JObject items)" by (metis member_size prod.collapse)
    then show "f nested = g nested"
      using json_find_size [OF that] assms by (meson order.strict_trans)
  qed
  then show ?thesis by (auto simp: field_items_def split: option.split json.split list.split)
qed

lemma property_text_cong [fundef_cong]:
  assumes "entry = entry'"
    and "\<And>nested. size (JObject nested) < size (snd entry') \<Longrightarrow> f nested = g nested"
  shows "property_text f entry = property_text g entry'"
proof -
  have "field_object f t (snd entry') = field_object g t (snd entry')" for t
    using assms(2) json_find_size [of "snd entry'" "''properties''"]
    by (auto simp: field_object_def split: option.split json.split)
  with assms field_items_cong [of "snd entry'" f g] show ?thesis
    by (auto simp: property_text_def split: prod.split json.split option.split)
qed

function format_schema_properties :: "(string \<times> json) list \<Rightarrow> string result" where
  "format_schema_properties properties =
     rbind (rmap (property_text format_schema_properties) properties) (\<lambda>texts.
     Inr (comma_join texts))"
  by pat_completeness auto
termination
proof (relation "measure (\<lambda>m. size (JObject m))")
  fix properties nested :: "(string \<times> json) list" and entry
  assume "entry \<in> set properties" "size (JObject nested) < size (snd entry)"
  then show "(nested, properties) \<in> measure (\<lambda>m. size (JObject m))"
    using member_size [of "fst entry" "snd entry" properties] by simp
qed simp

declare format_schema_properties.simps [simp del]

definition format_tool_parameters :: "json \<Rightarrow> string result" where
  "format_tool_parameters parameters =
     (case parameters of
        JObject members \<Rightarrow>
          (case json_find parameters ''type'' of
             Some (JString type) \<Rightarrow>
               rbind (case json_find parameters ''properties'' of
                   Some (JObject (p # ps)) \<Rightarrow>
                     rbind (format_schema_properties (p # ps)) (\<lambda>f. Inr [''properties:{'' @ f @ ''}''])
                 | _ \<Rightarrow> Inr []) (\<lambda>properties.
               rbind (field_required parameters) (\<lambda>required.
               rbind (other_fields [''properties'', ''required'', ''type''] members) (\<lambda>others.
               Inr (''parameters:{'' @ concat (map (\<lambda>f. f @ '','') (properties @ required @ others)) @
                 ''type:'' @ marked (upper type) @ ''}''))))
           | _ \<Rightarrow> Inl (invalid_argument ''tool parameters require a string type''))
      | _ \<Rightarrow> Inl (invalid_argument ''tool parameters must be a JSON object''))"

section \<open>Declarations, calls and responses\<close>

definition format_tool_definition :: "string \<Rightarrow> string \<Rightarrow> string \<Rightarrow> string result" where
  "format_tool_definition name description parameters =
     (if name = [] then Inl (invalid_argument ''tool name must not be empty'')
      else case json_parse parameters tool_limits of
        Inl e \<Rightarrow> Inl (invalid_argument (''tool parameters are not valid JSON: '' @ message e))
      | Inr v \<Rightarrow>
          rbind (format_tool_parameters v) (\<lambda>formatted.
          Inr (''<|tool>declaration:'' @ name @ ''{description:'' @ marked description @ '','' @
            formatted @ ''}<tool|>'')))"

definition format_tool_call :: "string \<Rightarrow> string \<Rightarrow> string result" where
  "format_tool_call name arguments =
     (case json_parse arguments tool_limits of
        Inr (JObject m) \<Rightarrow>
          rbind (format_tool_object False m) (\<lambda>formatted.
          Inr (tool_open @ call_prefix @ name @ formatted @ tool_close))
      | _ \<Rightarrow> Inl (invalid_argument ''tool call arguments must be a JSON object''))"

definition format_tool_response :: "string \<Rightarrow> string \<Rightarrow> string" where
  "format_tool_response name output =
     ''<|tool_response>response:'' @ name @ ''{value:'' @ marked output @ ''}<tool_response|>''"

end
