(* ===== verification/Tool_Dsl.thy ===== *)
theory Tool_Dsl
  imports Tool_Format
begin

text \<open>
  \<open>ArgumentDslParser\<close> of src/runtime/tool_call_parser.cpp: it reads the arguments the model
  wrote in the Gemma syntax and returns them as JSON text.  The state is the input still to
  read.  The three recursive functions take fuel as the JSON parser does; \<open>dsl_parse\<close> gives
  \<open>2 * length + 2\<close> units, and \<open>dsl_terminates\<close> shows that this is enough.
\<close>

definition dsl_error :: "string \<Rightarrow> status" where
  "dsl_error msg = Status KDataLoss (''Gemma tool arguments contain '' @ msg)"

definition dsl_string :: "string \<Rightarrow> (string \<times> string) result" where
  "dsl_string input =
     (let body = drop (length quote_mark) input
      in case find_sub quote_mark body of
           None \<Rightarrow> Inl (dsl_error ''an unterminated string'')
         | Some close \<Rightarrow> Inr (quote (take close body), drop (close + length quote_mark) body))"

definition ends_literal :: "char \<Rightarrow> bool" where
  "ends_literal c \<longleftrightarrow> c = CHR '','' \<or> c = CHR ''}'' \<or> c = CHR '']''"

definition dsl_literal :: "string \<Rightarrow> (string \<times> string) result" where
  "dsl_literal input =
     (let literal = takeWhile (\<lambda>c. \<not> ends_literal c) input;
          left = dropWhile (\<lambda>c. \<not> ends_literal c) input
      in if literal = [] then Inl (dsl_error ''an empty value'')
         else if literal = ''true'' \<or> literal = ''false'' \<or> literal = ''null'' then Inr (literal, left)
         else if from_chars_double literal \<noteq> (FloatOk, []) then Inl (dsl_error ''an unsupported literal'')
         else Inr (literal, left))"

function (sequential) dsl_value :: "nat \<Rightarrow> string \<Rightarrow> (string \<times> string) fueled"
and dsl_members :: "nat \<Rightarrow> string \<Rightarrow> bool \<Rightarrow> string \<Rightarrow> (string \<times> string) fueled"
and dsl_items :: "nat \<Rightarrow> string \<Rightarrow> bool \<Rightarrow> string \<Rightarrow> (string \<times> string) fueled" where
  "dsl_value 0 input = None"
| "dsl_value (Suc fuel) input =
     (case input of
        [] \<Rightarrow> Some (Inl (dsl_error ''an incomplete value''))
      | c # t \<Rightarrow>
          if starts_with input quote_mark then Some (dsl_string input)
          else if c = CHR ''{'' then dsl_members fuel ''{'' True t
          else if c = CHR ''['' then dsl_items fuel ''['' True t
          else Some (dsl_literal input))"
| "dsl_members 0 out first input = None"
| "dsl_members (Suc fuel) out first input =
     (case input of
        [] \<Rightarrow> Some (Inl (dsl_error ''an unterminated object''))
      | c # t \<Rightarrow>
          if c = CHR ''}'' then Some (Inr (out @ ''}'', t))
          else
            let key = takeWhile (\<lambda>x. is_alnum x \<or> x = CHR ''_'') input;
                left = drop (length key) input
            in if key = [] \<or> \<not> starts_with left '':''
               then Some (Inl (dsl_error ''an invalid object key''))
               else
                 fbind (dsl_value fuel (drop 1 left)) (\<lambda>(v, left').
                   let out' = out @ (if first then [] else '','') @ quote key @ '':'' @ v
                   in if starts_with left' '','' then dsl_members fuel out' False (drop 1 left')
                      else if starts_with left' ''}'' then dsl_members fuel out' False left'
                      else Some (Inl (dsl_error ''an unterminated object''))))"
| "dsl_items 0 out first input = None"
| "dsl_items (Suc fuel) out first input =
     (case input of
        [] \<Rightarrow> Some (Inl (dsl_error ''an unterminated array''))
      | c # t \<Rightarrow>
          if c = CHR '']'' then Some (Inr (out @ '']'', t))
          else
            fbind (dsl_value fuel input) (\<lambda>(v, left).
              let out' = out @ (if first then [] else '','') @ v
              in if starts_with left '','' then dsl_items fuel out' False (drop 1 left)
                 else if starts_with left '']'' then dsl_items fuel out' False left
                 else Some (Inl (dsl_error ''an unterminated array''))))"
  by pat_completeness auto
termination
  by (relation "measure (case_sum fst (case_sum fst fst))") auto

definition dsl_fuel :: "string \<Rightarrow> nat" where
  "dsl_fuel input = 2 * length input + 2"

definition dsl_run :: "nat \<Rightarrow> string \<Rightarrow> string fueled" where
  "dsl_run fuel input =
     fbind (dsl_value fuel input) (\<lambda>(v, left).
       if left \<noteq> [] then Some (Inl (dsl_error ''trailing data'')) else Some (Inr v))"

definition dsl_parse :: "string \<Rightarrow> string result" where
  "dsl_parse input =
     (case dsl_run (dsl_fuel input) input of
        Some r \<Rightarrow> r
      | None \<Rightarrow> Inl (Status KInternal ''out of fuel''))"

section \<open>Termination\<close>

text \<open>
  A value consumes input.  A turn of a loop consumes some too, or is the last one: after a value
  that stands before the closing bracket the next turn only closes.
\<close>

lemma dsl_literal_shorter: "dsl_literal input = Inr (v, left) \<Longrightarrow> length left < length input"
proof -
  assume "dsl_literal input = Inr (v, left)"
  then have "left = dropWhile (\<lambda>c. \<not> ends_literal c) input" "takeWhile (\<lambda>c. \<not> ends_literal c) input \<noteq> []"
    by (auto simp: dsl_literal_def Let_def split: if_splits)
  moreover have "length input = length (takeWhile (\<lambda>c. \<not> ends_literal c) input) +
      length (dropWhile (\<lambda>c. \<not> ends_literal c) input)"
    by (metis length_append takeWhile_dropWhile_id)
  ultimately show ?thesis by simp
qed

lemma dsl_string_shorter:
  "dsl_string input = Inr (v, left) \<Longrightarrow> input \<noteq> [] \<Longrightarrow> length left < length input"
  by (cases input) (auto simp: dsl_string_def Let_def quote_mark_def split: option.splits)

lemma dsl_shorter:
  "dsl_value fuel input = Some (Inr (v, left)) \<Longrightarrow> length left < length input"
  "dsl_members fuel out first input = Some (Inr (v, left)) \<Longrightarrow> length left < length input"
  "dsl_items fuel out first input = Some (Inr (v, left)) \<Longrightarrow> length left < length input"
proof (induction fuel arbitrary: input out first v left)
  case (Suc fuel)
  {
    case 1
    then show ?case
      using Suc(2) [of "''{''" True "tl input"] Suc(3) [of "''[''" True "tl input"]
      by (auto split: list.splits if_splits dest: dsl_literal_shorter dsl_string_shorter)
  next
    case 2
    then obtain c t where i: "input = c # t" by (cases input) auto
    define key where "key = takeWhile (\<lambda>x. is_alnum x \<or> x = CHR ''_'') input"
    show ?case
    proof (cases "c = CHR ''}''")
      case False
      with 2 i obtain w l out' where "dsl_value fuel (drop 1 (drop (length key) input)) = Some (Inr (w, l))"
        "dsl_members fuel out' False (drop 1 l) = Some (Inr (v, left)) \<or>
         dsl_members fuel out' False l = Some (Inr (v, left))"
        by (auto simp: fbind_Inr_iff Let_def key_def split: if_splits)
      with Suc(1) [of _ w l] Suc(2) have "length left < length (drop 1 (drop (length key) input))"
        by fastforce
      then show ?thesis by simp
    qed (use 2 i in auto)
  next
    case 3
    then obtain c t where i: "input = c # t" by (cases input) auto
    show ?case
    proof (cases "c = CHR '']''")
      case False
      with 3 i obtain w l out' where "dsl_value fuel input = Some (Inr (w, l))"
        "dsl_items fuel out' False (drop 1 l) = Some (Inr (v, left)) \<or>
         dsl_items fuel out' False l = Some (Inr (v, left))"
        by (auto simp: fbind_Inr_iff Let_def split: if_splits)
      with Suc(1) [of _ w l] Suc(3) show ?thesis by fastforce
    qed (use 3 i in auto)
  }
qed simp_all

lemma dsl_terminates:
  "2 * length input + 1 \<le> fuel \<Longrightarrow> returns (dsl_value fuel input)"
  "2 * length input + 2 \<le> fuel \<Longrightarrow> returns (dsl_members fuel out first input)"
  "2 * length input + 2 \<le> fuel \<Longrightarrow> returns (dsl_items fuel out first input)"
proof (induction fuel arbitrary: input out first)
  case (Suc fuel)
  {
    case 1
    then show ?case
      using Suc(2) [of "tl input" "''{''" True] Suc(3) [of "tl input" "''[''" True]
      by (cases input) auto
  next
    case 2
    show ?case
    proof (cases input)
      case (Cons c t)
      define left where "left = drop (length (takeWhile (\<lambda>x. is_alnum x \<or> x = CHR ''_'') input)) input"
      have len: "length (drop 1 left) < length input" using Cons by (simp add: left_def)
      then have v: "returns (dsl_value fuel (drop 1 left))" using 2 by (intro Suc(1)) simp
      have rec: "returns (dsl_members fuel out' False l)" "returns (dsl_members fuel out' False (drop 1 l))"
        if "dsl_value fuel (drop 1 left) = Some (Inr (w, l))" for w l out'
        using dsl_shorter(1) [OF that] len 2 by (intro Suc(2); simp)+
      show ?thesis
        unfolding Cons dsl_members.simps list.case Let_def unfolding Cons [symmetric] left_def [symmetric]
        using v rec by (auto intro!: returns_fbind)
    qed simp
  next
    case 3
    show ?case
    proof (cases input)
      case (Cons c t)
      have v: "returns (dsl_value fuel input)" using 3 by (intro Suc(1)) simp
      have rec: "returns (dsl_items fuel out' False l)" "returns (dsl_items fuel out' False (drop 1 l))"
        if "dsl_value fuel input = Some (Inr (w, l))" for w l out'
        using dsl_shorter(1) [OF that] 3 by (intro Suc(3); simp)+
      show ?thesis
        unfolding Cons dsl_items.simps list.case Let_def unfolding Cons [symmetric]
        using v rec by (auto intro!: returns_fbind)
    qed simp
  }
qed simp_all

lemma dsl_run_answers: "dsl_fuel input \<le> fuel \<Longrightarrow> dsl_run fuel input \<noteq> None"
  using dsl_terminates(1) [of input fuel] by (auto simp: dsl_run_def dsl_fuel_def returns_def fbind_None_iff)

section \<open>The formatter's text reads back\<close>

definition dsl_key :: "string \<Rightarrow> bool" where
  "dsl_key k \<longleftrightarrow> k \<noteq> [] \<and> list_all (\<lambda>c. is_alnum c \<or> c = CHR ''_'') k"

text \<open>Values the tool syntax can carry: plain keys, strings without the quote marker.\<close>

fun dsl_safe :: "json \<Rightarrow> bool" where
  "dsl_safe (JString s) = (find_sub quote_mark s = None)"
| "dsl_safe (JArray items) = list_all dsl_safe items"
| "dsl_safe (JObject m) = list_all (\<lambda>(k, v). dsl_key k \<and> dsl_safe v) m"
| "dsl_safe (JInt i) = in_int64 i"
| "dsl_safe (JDouble d) = False"
| "dsl_safe _ = True"

fun dsl_text :: "json \<Rightarrow> string" where
  "dsl_text JNull = ''null''"
| "dsl_text (JBool b) = (if b then ''true'' else ''false'')"
| "dsl_text (JInt i) = decimal_int i"
| "dsl_text (JDouble d) = to_chars_double d"
| "dsl_text (JString s) = marked s"
| "dsl_text (JArray items) = ''['' @ comma_join (map dsl_text items) @ '']''"
| "dsl_text (JObject m) = ''{'' @ comma_join (map (\<lambda>(k, v). k @ '':'' @ dsl_text v) m) @ ''}''"

lemma format_dsl_text: "dsl_safe v \<Longrightarrow> format_tool_argument False v = Inr (dsl_text v)"
proof (induction v)
  case (JArray items)
  have "rmap (format_tool_argument False) items = Inr (map dsl_text items)"
    using JArray by (intro rmap_Inr) (auto simp: list_all_iff)
  then show ?case by simp
next
  case (JObject m)
  have "rmap (\<lambda>(key, v). rbind (format_tool_argument False v) (\<lambda>formatted.
        Inr ((if False then marked key else key) @ '':'' @ formatted))) m =
      Inr (map (\<lambda>(k, v). k @ '':'' @ dsl_text v) m)"
    using JObject by (intro rmap_Inr) (fastforce simp: list_all_iff)
  then show ?case by simp
qed simp_all

text \<open>What may follow a value.\<close>

definition dsl_stops :: "string \<Rightarrow> bool" where
  "dsl_stops t \<longleftrightarrow> (case t of [] \<Rightarrow> True | c # _ \<Rightarrow> ends_literal c)"

lemma dsl_stops_simps [simp]:
  "dsl_stops []" "dsl_stops (CHR '','' # t)" "dsl_stops (CHR '']'' # t)" "dsl_stops (CHR ''}'' # t)"
  by (simp_all add: dsl_stops_def ends_literal_def)

lemma takeWhile_literal:
  assumes "\<forall>c \<in> set l. \<not> ends_literal c" "dsl_stops t"
  shows "takeWhile (\<lambda>c. \<not> ends_literal c) (l @ t) = l" "dropWhile (\<lambda>c. \<not> ends_literal c) (l @ t) = t"
  using assms by (auto simp: dsl_stops_def takeWhile_append2 dropWhile_append2 split: list.splits)

lemma strtod_decimal_int:
  assumes "in_int64 i"
  shows "\<exists>s m e. strtod (decimal_int i) = Finite s m e \<and> (m = 0 \<longleftrightarrow> i = 0)"
proof -
  have dig: "takeWhile is_digit (decimal k) = decimal k" "dropWhile is_digit (decimal k) = []" for k
    using decimal_digits [of k] by (auto simp: takeWhile_eq_all_conv dropWhile_eq_Nil_conv)
  have "\<not> starts_with (decimal k) ''-''" for k
    by (cases k rule: decimal_head) auto
  then have "read_decimal (decimal_int i) =
      \<lparr>negative = i < 0, significand = nat \<bar>i\<bar>, exponent10 = 0\<rparr>"
    by (auto simp: read_decimal_def decimal_int_def split_fraction_def dig exponent_value_def Let_def)
  then have "strtod (decimal_int i) = round_ratio (i < 0) (nat \<bar>i\<bar>) 1"
    by (simp add: strtod_def double_of_token_def)
  moreover have "nat \<bar>i\<bar> < 2 ^ 64"
    using assms by (auto simp: in_int64_def int64_min_def int64_max_def)
  ultimately show ?thesis using round_ratio_integer [of "nat \<bar>i\<bar>" "i < 0"] by auto
qed

lemma from_chars_double_integer:
  assumes "in_int64 i"
  shows "from_chars_double (decimal_int i) = (FloatOk, [])"
proof -
  have dig: "takeWhile is_digit (decimal k) = decimal k" "dropWhile is_digit (decimal k) = []" for k
    using decimal_digits [of k] by (auto simp: takeWhile_eq_all_conv dropWhile_eq_Nil_conv)
  have m: "\<not> starts_with (decimal k) ''-''" for k
    by (cases k rule: decimal_head) auto
  define body where "body = (if starts_with (decimal_int i) ''-'' then drop 1 (decimal_int i) else decimal_int i)"
  have body: "body = decimal (nat \<bar>i\<bar>)" by (simp add: body_def decimal_int_def m)
  obtain s w e where "strtod (decimal_int i) = Finite s w e" "w = 0 \<longleftrightarrow> i = 0"
    using strtod_decimal_int [OF assms] by blast
  then show ?thesis
    by (auto simp: from_chars_double_def body_def [symmetric] body split_fraction_def dig scan_exponent_def)
qed

lemma decimal_int_characters: "c \<in> set (decimal_int i) \<Longrightarrow> c = CHR ''-'' \<or> is_digit c"
  using decimal_digits by (auto simp: decimal_int_def split: if_splits)

lemma dsl_read_literal:
  assumes "l \<noteq> []" "\<forall>c \<in> set l. \<not> ends_literal c" "dsl_stops t"
    and "l \<in> {''true'', ''false'', ''null''} \<or> from_chars_double l = (FloatOk, [])"
  shows "dsl_literal (l @ t) = Inr (l, t)"
  using assms takeWhile_literal [OF assms(2,3)] by (auto simp: dsl_literal_def Let_def)

lemma dsl_read_int:
  assumes "in_int64 i" "dsl_stops t"
  shows "dsl_literal (decimal_int i @ t) = Inr (decimal_int i, t)"
proof (rule dsl_read_literal)
  show "\<forall>c \<in> set (decimal_int i). \<not> ends_literal c"
    using decimal_int_characters by (fastforce simp: ends_literal_def is_digit_def byte_def)
qed (use assms from_chars_double_integer in \<open>auto simp: decimal_int_def\<close>)

lemma dsl_read_string:
  assumes "find_sub quote_mark s = None"
  shows "dsl_string (marked s @ t) = Inr (quote s, t)"
proof -
  have "find_sub quote_mark (s @ quote_mark @ t) = Some (length s)"
    by (rule find_sub_behind [OF assms, of "CHR ''<''" "tl quote_mark"]) (simp_all add: quote_mark_def)
  then show ?thesis by (simp add: dsl_string_def marked_def)
qed

text \<open>A fuelled run that answers has read the text of the value.\<close>

definition dsl_reads :: "(string \<times> string) fueled \<Rightarrow> string \<Rightarrow> string \<Rightarrow> bool" where
  "dsl_reads r out t \<longleftrightarrow> r = None \<or> r = Some (Inr (out, t))"

definition joined :: "bool \<Rightarrow> string list \<Rightarrow> string" where
  "joined first xs = (if first \<or> xs = [] then [] else '','') @ comma_join xs"

lemma joined_Cons: "joined first (x # xs) = (if first then [] else '','') @ x @ joined False xs"
  by (cases xs) (simp_all add: joined_def)

lemma dsl_text_head: "dsl_safe v \<Longrightarrow> \<exists>c u. dsl_text v = c # u \<and> c \<noteq> CHR '']''"
proof (cases v)
  case (JInt i)
  obtain c u where "decimal_int i = c # u" "c = CHR ''-'' \<or> is_digit c" using decimal_int_head by blast
  then show ?thesis by (auto simp: JInt is_digit_def byte_def)
qed (simp_all add: marked_def quote_mark_def)

lemma dsl_read_items:
  assumes "\<And>x fuel t. x \<in> set items \<Longrightarrow> dsl_stops t \<Longrightarrow> dsl_reads (dsl_value fuel (dsl_text x @ t)) (stringify x) t"
    and "\<forall>x \<in> set items. dsl_safe x"
  shows "dsl_reads (dsl_items fuel out first (comma_join (map dsl_text items) @ CHR '']'' # t))
    (out @ joined first (map stringify items) @ '']'') t"
  using assms
proof (induction items arbitrary: fuel out first)
  case Nil
  show ?case by (cases fuel) (simp_all add: dsl_reads_def joined_def)
next
  case (Cons x xs)
  show ?case
  proof (cases fuel)
    case (Suc f)
    define w where "w = joined False (map dsl_text xs) @ CHR '']'' # t"
    have inp: "comma_join (map dsl_text (x # xs)) @ CHR '']'' # t = dsl_text x @ w"
      using joined_Cons [of True "dsl_text x" "map dsl_text xs"] by (simp add: w_def joined_def)
    have st: "dsl_stops w" by (cases xs) (simp_all add: w_def joined_def)
    obtain c u where c: "dsl_text x = c # u" "c \<noteq> CHR '']''" using dsl_text_head [of x] Cons.prems(2) by auto
    have "dsl_reads (dsl_value f (dsl_text x @ w)) (stringify x) w"
      using Cons.prems(1) st by simp
    then consider "dsl_value f (dsl_text x @ w) = None"
      | "dsl_value f (dsl_text x @ w) = Some (Inr (stringify x, w))"
      unfolding dsl_reads_def by (elim disjE) simp_all
    then show ?thesis
    proof cases
      case 1
      then show ?thesis unfolding inp using Suc c by (simp add: dsl_reads_def)
    next
      case 2
      define out' where "out' = out @ (if first then [] else '','') @ stringify x"
      have "dsl_reads (dsl_items f out' False (comma_join (map dsl_text xs) @ CHR '']'' # t))
          (out' @ joined False (map stringify xs) @ '']'') t"
        using Cons.prems by (intro Cons.IH) auto
      moreover have "dsl_items (Suc f) out first (dsl_text x @ w) =
          dsl_items f out' False (comma_join (map dsl_text xs) @ CHR '']'' # t)"
        using 2 c by (cases xs) (simp_all add: w_def joined_def out'_def)
      moreover have "out' @ joined False (map stringify xs) @ z = out @ joined first (map stringify (x # xs)) @ z" for z
        by (simp add: out'_def joined_Cons)
      ultimately show ?thesis unfolding inp Suc by (simp del: dsl_items.simps)
    qed
  qed (simp add: dsl_reads_def)
qed


definition dsl_member :: "string \<times> json \<Rightarrow> string" where
  "dsl_member kv = fst kv @ '':'' @ dsl_text (snd kv)"

lemma dsl_text_object: "dsl_text (JObject m) = ''{'' @ comma_join (map dsl_member m) @ ''}''"
proof -
  have "dsl_member = (\<lambda>(k, v). k @ '':'' @ dsl_text v)"
    by (auto simp: fun_eq_iff dsl_member_def)
  then show ?thesis by simp
qed

lemma dsl_key_end: "dsl_key k \<Longrightarrow> takeWhile (\<lambda>c. is_alnum c \<or> c = CHR ''_'') (k @ CHR '':'' # u) = k"
  by (simp add: dsl_key_def list_all_iff takeWhile_append2 is_alnum_def less_eq_char_def)

lemma dsl_key_head: "dsl_key k \<Longrightarrow> \<exists>c u. k = c # u \<and> c \<noteq> CHR ''}''"
  by (cases k) (auto simp: dsl_key_def is_alnum_def less_eq_char_def)

lemma dsl_read_members:
  assumes "\<And>k x fuel t. (k, x) \<in> set items \<Longrightarrow> dsl_stops t \<Longrightarrow> dsl_reads (dsl_value fuel (dsl_text x @ t)) (stringify x) t"
    and "\<forall>(k, x) \<in> set items. dsl_key k"
  shows "dsl_reads (dsl_members fuel out first (comma_join (map dsl_member items) @ CHR ''}'' # t))
    (out @ joined first (map member_text items) @ ''}'') t"
  using assms
proof (induction items arbitrary: fuel out first)
  case Nil
  show ?case by (cases fuel) (simp_all add: dsl_reads_def joined_def)
next
  case (Cons kx xs)
  obtain k x where kx: "kx = (k, x)" by (cases kx)
  show ?case
  proof (cases fuel)
    case (Suc f)
    define w where "w = joined False (map dsl_member xs) @ CHR ''}'' # t"
    have inp: "comma_join (map dsl_member (kx # xs)) @ CHR ''}'' # t = k @ CHR '':'' # dsl_text x @ w"
      using joined_Cons [of True "dsl_member kx" "map dsl_member xs"]
      by (simp add: w_def joined_def kx dsl_member_def)
    have st: "dsl_stops w" by (cases xs) (simp_all add: w_def joined_def)
    have key: "dsl_key k" using Cons.prems(2) by (simp add: kx)
    note k = dsl_key_end [OF key]
    obtain c u where c: "k = c # u" "c \<noteq> CHR ''}''" using dsl_key_head [OF key] by auto
    have step: "dsl_members (Suc f) out first (k @ CHR '':'' # v) =
        fbind (dsl_value f v) (\<lambda>(v, left').
          let out' = out @ (if first then [] else '','') @ quote k @ '':'' @ v
          in if starts_with left' '','' then dsl_members f out' False (drop 1 left')
             else if starts_with left' ''}'' then dsl_members f out' False left'
             else Some (Inl (dsl_error ''an unterminated object'')))" for v
      using k [of v] c by (simp add: Let_def)
    have "dsl_reads (dsl_value f (dsl_text x @ w)) (stringify x) w"
      using Cons.prems(1) st by (auto simp: kx)
    then consider "dsl_value f (dsl_text x @ w) = None"
      | "dsl_value f (dsl_text x @ w) = Some (Inr (stringify x, w))"
      unfolding dsl_reads_def by (elim disjE) simp_all
    then show ?thesis
    proof cases
      case 1
      then show ?thesis unfolding inp Suc step by (simp add: dsl_reads_def)
    next
      case 2
      define out' where "out' = out @ (if first then [] else '','') @ quote k @ '':'' @ stringify x"
      have "dsl_reads (dsl_members f out' False (comma_join (map dsl_member xs) @ CHR ''}'' # t))
          (out' @ joined False (map member_text xs) @ ''}'') t"
        using Cons.prems by (intro Cons.IH) auto
      moreover have "dsl_members (Suc f) out first (k @ CHR '':'' # dsl_text x @ w) =
          dsl_members f out' False (comma_join (map dsl_member xs) @ CHR ''}'' # t)"
        unfolding step 2 by (cases xs) (simp_all add: w_def joined_def out'_def Let_def)
      moreover have "out' @ joined False (map member_text xs) @ z = out @ joined first (map member_text (kx # xs)) @ z" for z
        by (simp add: out'_def joined_Cons kx member_text_pair)
      ultimately show ?thesis unfolding inp Suc by (simp del: dsl_members.simps)
    qed
  qed (simp add: dsl_reads_def)
qed

lemma not_quote_mark: "c \<noteq> CHR ''<'' \<Longrightarrow> \<not> starts_with (c # t) quote_mark"
  by (simp add: quote_mark_def)

lemma dsl_read_value:
  assumes "dsl_safe v" "dsl_stops t"
  shows "dsl_reads (dsl_value fuel (dsl_text v @ t)) (stringify v) t"
  using assms
proof (induction v arbitrary: fuel t)
  case (JArray items)
  have "dsl_reads (dsl_items f ''['' True (comma_join (map dsl_text items) @ CHR '']'' # t))
      (''['' @ joined True (map stringify items) @ '']'') t" for f
    using JArray by (intro dsl_read_items) (auto simp: list_all_iff)
  then show ?case
    by (cases fuel) (simp_all add: dsl_reads_def joined_def not_quote_mark)
next
  case (JObject m)
  have "dsl_reads (dsl_members f ''{'' True (comma_join (map dsl_member m) @ CHR ''}'' # t))
      (''{'' @ joined True (map member_text m) @ ''}'') t" for f
    using JObject by (intro dsl_read_members) (fastforce simp: list_all_iff)+
  then show ?case
    unfolding dsl_text_object stringify_object
    by (cases fuel) (simp_all add: dsl_reads_def joined_def not_quote_mark)
next
  case (JString s)
  then have "dsl_string (marked s @ t) = Inr (quote s, t)" by (intro dsl_read_string) simp
  moreover have "starts_with (marked s @ t) quote_mark" by (simp add: marked_def)
  moreover have "marked s @ t \<noteq> []" by (simp add: marked_def quote_mark_def)
  ultimately show ?case
    by (cases fuel) (auto simp: dsl_reads_def split: list.split)
next
  case (JInt i)
  obtain c u where c: "decimal_int i = c # u" "c = CHR ''-'' \<or> is_digit c" using decimal_int_head by blast
  then have "c \<noteq> CHR ''<'' \<and> c \<noteq> CHR ''{'' \<and> c \<noteq> CHR ''[''" by (auto simp: is_digit_def byte_def)
  moreover have "dsl_literal (decimal_int i @ t) = Inr (decimal_int i, t)"
    using JInt by (intro dsl_read_int) simp_all
  ultimately show ?case
    using c(1) by (cases fuel) (simp_all add: dsl_reads_def not_quote_mark)
next
  case (JBool b)
  have "dsl_literal (''true'' @ t) = Inr (''true'', t)" "dsl_literal (''false'' @ t) = Inr (''false'', t)"
    using JBool by (intro dsl_read_literal; simp add: ends_literal_def)+
  then show ?case
    by (cases fuel; cases b) (simp_all add: dsl_reads_def not_quote_mark)
next
  case JNull
  have "dsl_literal (''null'' @ t) = Inr (''null'', t)"
    using JNull by (intro dsl_read_literal; simp add: ends_literal_def)
  then show ?case
    by (cases fuel) (simp_all add: dsl_reads_def not_quote_mark)
qed simp

lemma dsl_parse_text:
  assumes "dsl_safe v"
  shows "dsl_parse (dsl_text v) = Inr (stringify v)"
proof -
  have "dsl_reads (dsl_value (dsl_fuel (dsl_text v)) (dsl_text v)) (stringify v) []"
    using dsl_read_value [OF assms, of "[]"] by simp
  then show ?thesis
    using dsl_run_answers [of "dsl_text v" "dsl_fuel (dsl_text v)"]
    by (auto simp: dsl_parse_def dsl_run_def dsl_reads_def)
qed

end
