(* ===== verification/Chunked.thy ===== *)
theory Chunked
  imports Prelude
begin

text \<open>
  The interface of an incremental parser: a client feeds it chunks, it answers with outputs and
  its next state.  The law is that a chunk may be cut anywhere: feeding both pieces gives the
  outputs of the whole, up to a normal form of output lists (adjacent pieces of text joined).
  From it: any division of a text into chunks has the same effect.
\<close>

definition run_then :: "'e + ('o list \<times> 'p) \<Rightarrow> ('p \<Rightarrow> 'e + ('o list \<times> 'p)) \<Rightarrow> 'e + ('o list \<times> 'p)" where
  "run_then r f = rbind r (\<lambda>(out, p). rbind (f p) (\<lambda>(out', p'). Inr (out @ out', p')))"

definition run_norm :: "('o list \<Rightarrow> 'o list) \<Rightarrow> 'e + ('o list \<times> 'p) \<Rightarrow> 'e + ('o list \<times> 'p)" where
  "run_norm norm r = rbind r (\<lambda>(out, p). Inr (norm out, p))"

lemma run_norm_simps [simp]:
  "run_norm norm (Inl e) = Inl e"
  "run_norm norm (Inr (out, p)) = Inr (norm out, p)"
  by (simp_all add: run_norm_def)

lemma run_then_simps [simp]:
  "run_then (Inl e) f = Inl e"
  "run_then (Inr ([], p)) f = f p"
  by (cases "f p"; auto simp: run_then_def)+

lemma run_then_assoc: "run_then (run_then r f) g = run_then r (\<lambda>p. run_then (f p) g)"
  by (auto simp: run_then_def rbind_def split: sum.splits)

lemma run_then_unit: "run_then r (\<lambda>p. Inr ([], p)) = r"
  by (auto simp: run_then_def rbind_def split: sum.splits)

text \<open>The effect of outputs before a run.\<close>

definition emit :: "'o list \<Rightarrow> 'e + ('o list \<times> 'p) \<Rightarrow> 'e + ('o list \<times> 'p)" where
  "emit out r = rbind r (\<lambda>(out', p). Inr (out @ out', p))"

lemma emit_simps [simp]:
  "emit out (Inl e) = Inl e"
  "emit out (Inr (out', p)) = Inr (out @ out', p)"
  "emit [] r = r"
  by (simp_all add: emit_def, cases r) auto

lemma emit_cong [fundef_cong]: "out = out' \<Longrightarrow> r = r' \<Longrightarrow> emit out r = emit out' r'"
  by simp

lemma emit_emit: "emit a (emit b r) = emit (a @ b) r"
  by (cases r) auto

lemma run_then_emit: "run_then (emit out r) f = emit out (run_then r f)"
  by (auto simp: run_then_def emit_def rbind_def split: sum.splits)

lemma run_then_Inr: "run_then (Inr (out, p)) f = emit out (f p)"
  by (simp add: run_then_def emit_def)

locale chunked =
  fixes feed :: "'p \<Rightarrow> 'c list \<Rightarrow> 'e + ('o list \<times> 'p)"
    and norm :: "'o list \<Rightarrow> 'o list"
  assumes norm_context: "norm ys = norm zs \<Longrightarrow> norm (xs @ ys) = norm (xs @ zs)"
    and feed_split: "run_norm norm (feed p (a @ b)) = run_norm norm (run_then (feed p a) (\<lambda>q. feed q b))"
begin

fun feed_all :: "'p \<Rightarrow> 'c list list \<Rightarrow> 'e + ('o list \<times> 'p)" where
  "feed_all p [] = Inr ([], p)"
| "feed_all p (c # cs) = run_then (feed p c) (\<lambda>q. feed_all q cs)"

lemma emit_context: "run_norm norm r = run_norm norm s \<Longrightarrow> run_norm norm (emit out r) = run_norm norm (emit out s)"
  by (cases r; cases s) (auto intro: norm_context)

lemma then_context:
  assumes "\<And>q. run_norm norm (f q) = run_norm norm (g q)"
  shows "run_norm norm (run_then r f) = run_norm norm (run_then r g)"
proof (cases r)
  case (Inr x)
  then show ?thesis
    by (cases x) (simp add: run_then_Inr emit_context [OF assms])
qed simp

lemma feed_all_concat:
  "cs \<noteq> [] \<Longrightarrow> run_norm norm (feed_all p cs) = run_norm norm (feed p (concat cs))"
proof (induction cs arbitrary: p)
  case (Cons c cs)
  show ?case
  proof (cases "cs = []")
    case True
    then show ?thesis by (simp add: run_then_unit)
  next
    case False
    have "run_norm norm (feed_all p (c # cs)) = run_norm norm (run_then (feed p c) (\<lambda>q. feed q (concat cs)))"
      using Cons.IH [OF False] by (auto intro: then_context)
    then show ?thesis using feed_split [of p c "concat cs"] by simp
  qed
qed simp

text \<open>The result does not depend on how the text was cut.\<close>

lemma chunking_irrelevant:
  "cs \<noteq> [] \<Longrightarrow> ds \<noteq> [] \<Longrightarrow> concat cs = concat ds \<Longrightarrow>
   run_norm norm (feed_all p cs) = run_norm norm (feed_all p ds)"
  by (simp add: feed_all_concat)

end

end
