(* ===== verification/Tool_Parser.thy ===== *)
theory Tool_Parser
  imports Tool_Dsl Chunked
begin

text \<open>
  \<open>GemmaToolCallParser\<close> of src/runtime/tool_call_parser.{h,cpp}: the incremental parser that
  splits the model's text into visible text and tool calls.  \<open>consume_loop\<close> is the loop of
  \<open>Consume\<close>, \<open>push\<close> is \<open>Push\<close>.  An error leaves the parser in a state nobody reads
  (\<open>ChatSession\<close> returns the status and drops the parser), so the model has none then.
\<close>

section \<open>State and events\<close>

datatype parser_state = StText | StName | StArguments

datatype event_kind =
    EvToken | EvTextDelta | EvReasoningDelta | EvToolCallStart | EvToolCallArgumentsDelta | EvToolCallEnd

record generation_event =
  kind :: event_kind
  token_id :: nat
  text_delta :: string
  tool_call_id :: string
  event_tool_name :: string

definition text_event :: "string \<Rightarrow> generation_event" where
  "text_event t =
     \<lparr>kind = EvTextDelta, token_id = 0, text_delta = t, tool_call_id = [], event_tool_name = []\<rparr>"

definition start_event :: "string \<Rightarrow> string \<Rightarrow> generation_event" where
  "start_event i n =
     \<lparr>kind = EvToolCallStart, token_id = 0, text_delta = [], tool_call_id = i, event_tool_name = n\<rparr>"

definition arguments_event :: "string \<Rightarrow> string \<Rightarrow> string \<Rightarrow> generation_event" where
  "arguments_event t i n =
     \<lparr>kind = EvToolCallArgumentsDelta, token_id = 0, text_delta = t, tool_call_id = i, event_tool_name = n\<rparr>"

definition end_event :: "string \<Rightarrow> string \<Rightarrow> generation_event" where
  "end_event i n =
     \<lparr>kind = EvToolCallEnd, token_id = 0, text_delta = [], tool_call_id = i, event_tool_name = n\<rparr>"

definition text_events :: "string \<Rightarrow> generation_event list" where
  "text_events t = (if t = [] then [] else [text_event t])"

record tool_parser =
  parser_state :: parser_state
  pending :: string
  visible_text :: string
  current_name :: string
  current_arguments :: string
  current_id :: string
  tool_calls :: "tool_call list"

definition new_parser :: tool_parser where
  "new_parser = \<lparr>parser_state = StText, pending = [], visible_text = [], current_name = [],
     current_arguments = [], current_id = [], tool_calls = []\<rparr>"

section \<open>Operations\<close>

text \<open>The longest suffix of the text that is a proper prefix of the marker.\<close>

definition retained_prefix_suffix :: "string \<Rightarrow> string \<Rightarrow> nat" where
  "retained_prefix_suffix v marker =
     (case find (\<lambda>n. drop (length v - n) v = take n marker)
        (rev [1..<Suc (min (length v) (length marker - 1))]) of
        None \<Rightarrow> 0 | Some n \<Rightarrow> n)"

definition next_id :: "tool_parser \<Rightarrow> string" where
  "next_id p = ''call_'' @ decimal (length (tool_calls p) + 1)"

definition is_name_byte :: "char \<Rightarrow> bool" where
  "is_name_byte c \<longleftrightarrow> is_alnum c \<or> c = CHR ''_''"

function consume_loop :: "bool \<Rightarrow> tool_parser \<Rightarrow> (generation_event list \<times> tool_parser) result" where
  "consume_loop final p =
     (case parser_state p of
        StText \<Rightarrow>
          (case find_sub tool_open (pending p) of
             Some open \<Rightarrow>
               let t = take open (pending p)
               in emit (text_events t) (consume_loop final
                    (p\<lparr>visible_text := visible_text p @ t, parser_state := StName,
                       pending := drop (open + length tool_open) (pending p)\<rparr>))
           | None \<Rightarrow>
               let retained = (if final then 0 else retained_prefix_suffix (pending p) tool_open);
                   emitted = length (pending p) - retained;
                   t = take emitted (pending p)
               in Inr (text_events t, p\<lparr>visible_text := visible_text p @ t,
                    pending := drop emitted (pending p)\<rparr>))
      | StName \<Rightarrow>
          if length (pending p) < length call_prefix then
            (if \<not> starts_with call_prefix (pending p)
             then Inl (parse_error ''Gemma tool call is missing the call: prefix'')
             else Inr ([], p))
          else if \<not> starts_with (pending p) call_prefix
          then Inl (parse_error ''Gemma tool call is missing the call: prefix'')
          else (case find_sub ''{'' (drop (length call_prefix) (pending p)) of
              None \<Rightarrow> Inr ([], p)
            | Some n \<Rightarrow>
                let name = take n (drop (length call_prefix) (pending p))
                in if name = [] then Inl (parse_error ''Gemma tool call has an empty function name'')
                   else if \<not> list_all is_name_byte name
                   then Inl (parse_error ''Gemma tool call has an invalid function name'')
                   else
                     emit [start_event (next_id p) name] (consume_loop final
                       (p\<lparr>current_name := name, current_id := next_id p, current_arguments := ''{'',
                          parser_state := StArguments,
                          pending := drop (length call_prefix + n + 1) (pending p)\<rparr>)))
      | StArguments \<Rightarrow>
          (case find_sub tool_close (pending p) of
             None \<Rightarrow>
               let kept = length (pending p) - retained_prefix_suffix (pending p) tool_close
               in Inr ([], p\<lparr>current_arguments := current_arguments p @ take kept (pending p),
                    pending := drop kept (pending p)\<rparr>)
           | Some close \<Rightarrow>
               rbind (dsl_parse (current_arguments p @ take close (pending p))) (\<lambda>arguments.
               emit [arguments_event arguments (current_id p) (current_name p),
                     end_event (current_id p) (current_name p)]
                 (consume_loop final
                   (p\<lparr>tool_calls := tool_calls p @
                        [\<lparr>call_id = current_id p, call_name = current_name p, arguments_json = arguments\<rparr>],
                      current_name := [], current_arguments := [], current_id := [],
                      parser_state := StText, pending := drop (close + length tool_close) (pending p)\<rparr>)))))"
  by pat_completeness auto
termination
  by (relation "measure (\<lambda>(final, p). length (pending p))")
    (auto simp: tool_open_def tool_close_def call_prefix_def dest: find_sub_Some)

declare consume_loop.simps [simp del]

definition consume_calls :: "bool \<Rightarrow> tool_parser \<Rightarrow> (generation_event list \<times> tool_parser) result" where
  "consume_calls final p =
     rbind (consume_loop final p) (\<lambda>(events, p').
       if final \<and> (parser_state p' \<noteq> StText \<or> pending p' \<noteq> [])
       then Inl (parse_error ''model response ends inside a Gemma tool call marker'')
       else Inr (events, p'))"

definition push :: "tool_parser \<Rightarrow> string \<Rightarrow> bool \<Rightarrow> (generation_event list \<times> tool_parser) result" where
  "push p text final = consume_calls final (p\<lparr>pending := pending p @ text\<rparr>)"

section \<open>Cutting a text at a retained suffix\<close>

lemma find_downto:
  "find P (rev [1..<Suc k]) = Some n \<longleftrightarrow> 1 \<le> n \<and> n \<le> k \<and> P n \<and> (\<forall>i. n < i \<and> i \<le> k \<longrightarrow> \<not> P i)"
  "find P (rev [1..<Suc k]) = None \<longleftrightarrow> (\<forall>i. 1 \<le> i \<and> i \<le> k \<longrightarrow> \<not> P i)"
proof -
  show "find P (rev [1..<Suc k]) = Some n \<longleftrightarrow> 1 \<le> n \<and> n \<le> k \<and> P n \<and> (\<forall>i. n < i \<and> i \<le> k \<longrightarrow> \<not> P i)"
    by (induction k) (auto simp: le_Suc_eq)
  show "find P (rev [1..<Suc k]) = None \<longleftrightarrow> (\<forall>i. 1 \<le> i \<and> i \<le> k \<longrightarrow> \<not> P i)"
    by (induction k) (auto simp: le_Suc_eq)
qed

definition suffix_prefix :: "string \<Rightarrow> string \<Rightarrow> nat \<Rightarrow> bool" where
  "suffix_prefix v m n \<longleftrightarrow> n \<le> length v \<and> n < length m \<and> drop (length v - n) v = take n m"

lemma retained_spec:
  assumes "m \<noteq> []"
  shows "suffix_prefix v m (retained_prefix_suffix v m)"
    and "suffix_prefix v m n \<Longrightarrow> n \<le> retained_prefix_suffix v m"
proof -
  let ?k = "min (length v) (length m - 1)" and ?P = "\<lambda>n. drop (length v - n) v = take n m"
  have k: "i \<le> ?k \<longleftrightarrow> i \<le> length v \<and> i < length m" for i
    using assms by (cases m) auto
  have "(\<forall>i. suffix_prefix v m i \<longrightarrow> i \<le> retained_prefix_suffix v m) \<and>
      suffix_prefix v m (retained_prefix_suffix v m)"
  proof (cases "find ?P (rev [1..<Suc ?k])")
    case None
    then have r: "retained_prefix_suffix v m = 0" by (simp add: retained_prefix_suffix_def)
    have "\<not> suffix_prefix v m i" if "1 \<le> i" for i
      using None that k [of i] unfolding find_downto by (auto simp: suffix_prefix_def)
    moreover have "suffix_prefix v m 0" using assms by (simp add: suffix_prefix_def)
    ultimately show ?thesis using r by (metis One_nat_def Suc_leI bot_nat_0.not_eq_extremum le0)
  next
    case (Some j)
    then have r: "retained_prefix_suffix v m = j" by (simp add: retained_prefix_suffix_def)
    from Some have "j \<le> ?k" "?P j" "\<forall>i. j < i \<and> i \<le> ?k \<longrightarrow> \<not> ?P i"
      unfolding find_downto by auto
    then show ?thesis using k r unfolding suffix_prefix_def by (metis not_le)
  qed
  then show "suffix_prefix v m (retained_prefix_suffix v m)"
    "suffix_prefix v m n \<Longrightarrow> n \<le> retained_prefix_suffix v m" by blast+
qed

lemma retained_unique:
  assumes "m \<noteq> []" "suffix_prefix v m r" "\<And>n. suffix_prefix v m n \<Longrightarrow> n \<le> r"
  shows "retained_prefix_suffix v m = r"
  using assms retained_spec [OF assms(1), of v] by (meson le_antisym)

text \<open>Emitting all but the retained suffix loses no occurrence of the marker.\<close>

lemma find_sub_skip:
  "(\<And>j. j < length t \<Longrightarrow> \<not> starts_with (drop j (t @ u)) m) \<Longrightarrow>
   find_sub m (t @ u) = map_option ((+) (length t)) (find_sub m u)"
proof (induction t)
  case Nil
  show ?case by (cases "find_sub m u") simp_all
next
  case (Cons c t)
  have "find_sub m (t @ u) = map_option ((+) (length t)) (find_sub m u)"
    using Cons.prems [of "Suc _"] by (intro Cons.IH) auto
  moreover have "\<not> starts_with (c # t @ u) m" using Cons.prems [of 0] by simp
  ultimately show ?case by (simp add: option.map_comp o_def)
qed

lemma starts_with_take: "starts_with (s @ t) m \<Longrightarrow> length s \<le> length m \<Longrightarrow> s = take (length s) m"
  by (metis append_eq_append_conv_if append_eq_conv_conj starts_with_iff)

lemma starts_with_shorter: "starts_with (s @ t) m \<Longrightarrow> length m \<le> length s \<Longrightarrow> starts_with s m"
  by (auto simp: starts_with_iff append_eq_append_conv2)

lemma find_sub_append_None:
  assumes "find_sub m v = None" "m \<noteq> []"
    and "v = t @ s" "length s = retained_prefix_suffix v m"
  shows "find_sub m (v @ b) = map_option ((+) (length t)) (find_sub m (s @ b))"
proof -
  have "\<not> starts_with (drop j (v @ b)) m" if j: "j < length t" for j
  proof
    assume sw: "starts_with (drop j (v @ b)) m"
    show False
    proof (cases "j + length m \<le> length v")
      case True
      have "drop j (v @ b) = drop j v @ b" using j assms(3) by simp
      with sw True have "starts_with (drop j v) m"
        using starts_with_shorter [of "drop j v" b m] by simp
      then show False using find_sub_None [OF assms(1)] by blast
    next
      case False
      have "drop j v = take (length (drop j v)) m"
        using sw j assms(3) False by (intro starts_with_take [of _ b]) auto
      then have "suffix_prefix v m (length v - j)"
        using False j assms(3) by (auto simp: suffix_prefix_def)
      then have "length v - j \<le> length s"
        using retained_spec(2) [OF assms(2)] assms(4) by metis
      then show False using j assms(3) by simp
    qed
  qed
  then show ?thesis using find_sub_skip [of t "s @ b" m] assms(3) by simp
qed

lemma retained_append:
  assumes "m \<noteq> []" "v = t @ s" "length s = retained_prefix_suffix v m"
  shows "retained_prefix_suffix (v @ b) m = retained_prefix_suffix (s @ b) m"
proof (rule retained_unique [OF assms(1)])
  note spec = retained_spec [OF assms(1), of "s @ b"]
  show "suffix_prefix (v @ b) m (retained_prefix_suffix (s @ b) m)"
    using spec(1) assms(2) by (auto simp: suffix_prefix_def)
  show "n \<le> retained_prefix_suffix (s @ b) m" if n: "suffix_prefix (v @ b) m n" for n
  proof (cases "n \<le> length (s @ b)")
    case True
    with n assms(2) have "suffix_prefix (s @ b) m n" by (auto simp: suffix_prefix_def)
    then show ?thesis by (rule spec(2))
  next
    case False
    define k where "k = n - length b"
    from n False have k: "k \<le> length v" "k < length m" "length s < k" by (auto simp: suffix_prefix_def k_def)
    have "drop (length v - k) v @ b = take n m"
      using n False by (simp add: suffix_prefix_def k_def)
    then have "starts_with (drop (length v - k) v @ b) (take n m)" by (simp add: starts_with_iff)
    then have "drop (length v - k) v = take k (take n m)"
      using k n starts_with_take [of "drop (length v - k) v" b "take n m"]
      by (auto simp: suffix_prefix_def k_def)
    then have "suffix_prefix v m k" using k by (simp add: suffix_prefix_def k_def)
    then show ?thesis using retained_spec(2) [OF assms(1), of v k] k(3) assms(3) by simp
  qed
qed

lemma find_sub_append_Some:
  assumes "find_sub m v = Some i"
  shows "find_sub m (v @ b) = Some i"
proof (rule find_sub_eqI)
  from find_sub_Some [OF assms] have i: "i + length m \<le> length v" "starts_with (drop i v) m" by simp_all
  then show "starts_with (drop i (v @ b)) m" "i \<le> length (v @ b)"
    by (auto simp: starts_with_iff)
  show "\<not> starts_with (drop j (v @ b)) m" if "j < i" for j
  proof
    assume a: "starts_with (drop j (v @ b)) m"
    have "drop j (v @ b) = drop j v @ b" using i that by simp
    with a i that have "starts_with (drop j v) m"
      using starts_with_shorter [of "drop j v" b m] by simp
    then show False using find_sub_first [OF assms that] by blast
  qed
qed

section \<open>Joining adjacent text\<close>

fun merge_text :: "generation_event list \<Rightarrow> generation_event list" where
  "merge_text [] = []"
| "merge_text (e # es) =
     (case merge_text es of
        [] \<Rightarrow> [e]
      | e' # es' \<Rightarrow>
          if e = text_event (text_delta e) \<and> e' = text_event (text_delta e')
          then text_event (text_delta e @ text_delta e') # es'
          else e # e' # es')"

lemma merge_context: "merge_text ys = merge_text zs \<Longrightarrow> merge_text (xs @ ys) = merge_text (xs @ zs)"
  by (induction xs) auto

lemma text_event_delta [simp]: "text_delta (text_event t) = t"
  by (simp add: text_event_def)

lemma merge_text_events:
  "merge_text (text_events s @ text_events t @ es) = merge_text (text_events (s @ t) @ es)"
  by (cases "merge_text es") (auto simp: text_events_def)


section \<open>The parser does not see how the text was cut\<close>

definition with_more :: "string \<Rightarrow> tool_parser \<Rightarrow> tool_parser" where
  "with_more b p = p\<lparr>pending := pending p @ b\<rparr>"

lemma with_more_simps [simp]:
  "pending (with_more b p) = pending p @ b"
  "parser_state (with_more b p) = parser_state p"
  "visible_text (with_more b p) = visible_text p"
  "current_name (with_more b p) = current_name p"
  "current_arguments (with_more b p) = current_arguments p"
  "current_id (with_more b p) = current_id p"
  "tool_calls (with_more b p) = tool_calls p"
  "next_id (with_more b p) = next_id p"
  by (simp_all add: with_more_def next_id_def)

lemma emit_norm: "run_norm merge_text r = run_norm merge_text s \<Longrightarrow>
   run_norm merge_text (emit out r) = run_norm merge_text (emit out s)"
  by (cases r; cases s) (auto intro: merge_context)

lemma emit_text:
  "run_norm merge_text (emit (text_events s) (emit (text_events t) r)) =
   run_norm merge_text (emit (text_events (s @ t)) r)"
  by (cases r) (auto simp: merge_text_events)

lemma consume_loop_split:
  "run_norm merge_text (consume_loop final (with_more b p)) =
   run_norm merge_text (run_then (consume_loop False p) (\<lambda>q. consume_loop final (with_more b q)))"
proof (induction False p rule: consume_loop.induct)
  case (1 p)
  show ?case
  proof (cases "parser_state p")
    case StText
    show ?thesis
    proof (cases "find_sub tool_open (pending p)")
      case (Some i)
      let ?t = "take i (pending p)"
      let ?p = "p\<lparr>visible_text := visible_text p @ ?t, parser_state := StName,
          pending := drop (i + length tool_open) (pending p)\<rparr>"
      have len: "i + length tool_open \<le> length (pending p)" using find_sub_Some [OF Some] by simp
      have left: "consume_loop final (with_more b p) = emit (text_events ?t) (consume_loop final (with_more b ?p))"
        unfolding consume_loop.simps [of final "with_more b p"]
        using StText find_sub_append_Some [OF Some] len by (simp add: with_more_def Let_def)
      have right: "consume_loop False p = emit (text_events ?t) (consume_loop False ?p)"
        using StText Some by (simp add: consume_loop.simps [of False p] Let_def)
      show ?thesis
        unfolding left right run_then_emit
        by (intro emit_norm "1.hyps"(1) [OF StText Some refl])
    next
      case None
      define k where "k = length (pending p) - retained_prefix_suffix (pending p) tool_open"
      define t s where "t = take k (pending p)" and "s = drop k (pending p)"
      have ne: "tool_open \<noteq> []" by (simp add: tool_open_def)
      have le: "retained_prefix_suffix (pending p) tool_open \<le> length (pending p)"
        using retained_spec(1) [OF ne] by (auto simp: suffix_prefix_def)
      have v: "pending p = t @ s" "length s = retained_prefix_suffix (pending p) tool_open" "length t = k"
        using le by (simp_all add: t_def s_def k_def)
      let ?q = "p\<lparr>visible_text := visible_text p @ t, pending := s\<rparr>"
      have right: "consume_loop False p = Inr (text_events t, ?q)"
        using StText None by (simp add: consume_loop.simps [of False p] Let_def t_def s_def k_def)
      have "run_norm merge_text (consume_loop final (with_more b p)) =
          run_norm merge_text (emit (text_events t) (consume_loop final (with_more b ?q)))"
      proof (cases "find_sub tool_open (s @ b)")
        case (Some i)
        have "find_sub tool_open (pending p @ b) = Some (length t + i)"
          using find_sub_append_None [OF None ne v(1,2), of b] Some by simp
        then show ?thesis
          unfolding consume_loop.simps [of final "with_more b p"] consume_loop.simps [of final "with_more b ?q"]
          using StText Some v(1) by (simp add: Let_def emit_text with_more_def)
      next
        case none: None
        have f: "find_sub tool_open (pending p @ b) = None"
          using find_sub_append_None [OF None ne v(1,2), of b] none by simp
        have rt: "retained_prefix_suffix (pending p @ b) tool_open = retained_prefix_suffix (s @ b) tool_open"
          using retained_append [OF ne v(1,2)] by simp
        define r where "r = (if final then 0 else retained_prefix_suffix (s @ b) tool_open)"
        define kept where "kept = length (s @ b) - r"
        have "r \<le> length (s @ b)"
          using retained_spec(1) [OF ne, of "s @ b"] by (simp add: suffix_prefix_def r_def)
        then have len: "length (pending p @ b) - r = length t + kept"
          using v by (simp add: kept_def)
        have cut: "take (length t + kept) (pending p @ b) = t @ take kept (s @ b)"
          "drop (length t + kept) (pending p @ b) = drop kept (s @ b)" using v(1) by simp_all
        have left: "consume_loop final (with_more b p) = Inr (text_events (t @ take kept (s @ b)),
            p\<lparr>visible_text := visible_text p @ t @ take kept (s @ b), pending := drop kept (s @ b)\<rparr>)"
          unfolding consume_loop.simps [of final "with_more b p"] with_more_simps StText parser_state.case
            f option.case Let_def rt r_def [symmetric] len cut by (simp add: with_more_def)
        have q: "parser_state ?q = StText" "pending ?q = s" using StText by simp_all
        have "consume_loop final (with_more b ?q) = Inr (text_events (take kept (s @ b)),
            p\<lparr>visible_text := visible_text p @ t @ take kept (s @ b), pending := drop kept (s @ b)\<rparr>)"
          unfolding consume_loop.simps [of final "with_more b ?q"] with_more_simps q parser_state.case
            none option.case Let_def r_def [symmetric] kept_def [symmetric] by (simp add: with_more_def)
        then show ?thesis
          unfolding left using merge_text_events [of t _ "[]"] by simp
      qed
      then show ?thesis unfolding right by (simp add: run_then_Inr)
    qed
  next
    case StName
    let ?body = "drop (length call_prefix) (pending p)"
    show ?thesis
    proof (cases "starts_with (pending p) call_prefix")
      case sw: True
      then have len: "length call_prefix \<le> length (pending p)" by (rule starts_with_length)
      have sw': "starts_with (pending p @ b) call_prefix" using sw by (auto simp: starts_with_iff)
      show ?thesis
      proof (cases "find_sub ''{'' ?body")
        case None
        then have "consume_loop False p = Inr ([], p)"
          using StName sw len by (simp add: consume_loop.simps [of False p])
        then show ?thesis by simp
      next
        case (Some n)
        let ?name = "take n ?body"
        let ?p = "p\<lparr>current_name := ?name, current_id := next_id p, current_arguments := ''{'',
            parser_state := StArguments, pending := drop (length call_prefix + n + 1) (pending p)\<rparr>"
        have n: "n + 1 \<le> length ?body" using find_sub_Some [OF Some] by simp
        have f: "find_sub ''{'' (drop (length call_prefix) (pending p @ b)) = Some n"
          using find_sub_append_Some [OF Some, of b] len by simp
        have name: "take n (drop (length call_prefix) (pending p @ b)) = ?name" using len n by simp
        have more: "drop (length call_prefix + n + 1) (pending p @ b) =
            drop (length call_prefix + n + 1) (pending p) @ b" using len n by simp
        have left: "consume_loop final (with_more b p) =
            (if ?name = [] then Inl (parse_error ''Gemma tool call has an empty function name'')
             else if \<not> list_all is_name_byte ?name
             then Inl (parse_error ''Gemma tool call has an invalid function name'')
             else emit [start_event (next_id p) ?name] (consume_loop final (with_more b ?p)))"
          unfolding consume_loop.simps [of final "with_more b p"] with_more_simps StName parser_state.case
            f option.case Let_def name more using sw' len by (simp add: with_more_def)
        have right: "consume_loop False p =
            (if ?name = [] then Inl (parse_error ''Gemma tool call has an empty function name'')
             else if \<not> list_all is_name_byte ?name
             then Inl (parse_error ''Gemma tool call has an invalid function name'')
             else emit [start_event (next_id p) ?name] (consume_loop False ?p))"
          unfolding consume_loop.simps [of False p] using StName sw len Some by (simp add: Let_def)
        show ?thesis
        proof (cases "?name = [] \<or> \<not> list_all is_name_byte ?name")
          case True
          then show ?thesis unfolding left right by auto
        next
          case False
          then have "run_norm merge_text (consume_loop final (with_more b ?p)) =
              run_norm merge_text (run_then (consume_loop False ?p) (\<lambda>q. consume_loop final (with_more b q)))"
            using len sw by (intro "1.hyps"(2) [OF StName _ _ Some refl]) auto
          then have "run_norm merge_text (emit [start_event (next_id p) ?name] (consume_loop final (with_more b ?p))) =
              run_norm merge_text (emit [start_event (next_id p) ?name]
                (run_then (consume_loop False ?p) (\<lambda>q. consume_loop final (with_more b q))))"
            by (rule emit_norm)
          with False show ?thesis unfolding left right by (simp add: run_then_emit)
        qed
      qed
    next
      case no: False
      show ?thesis
      proof (cases "length (pending p) < length call_prefix \<and> starts_with call_prefix (pending p)")
        case True
        then have "consume_loop False p = Inr ([], p)"
          using StName by (simp add: consume_loop.simps [of False p])
        then show ?thesis by simp
      next
        case False
        have bad: "consume_loop False p = Inl (parse_error ''Gemma tool call is missing the call: prefix'')"
          using False no StName by (auto simp: consume_loop.simps [of False p])
        have "\<not> starts_with (pending p @ b) call_prefix"
        proof
          assume a: "starts_with (pending p @ b) call_prefix"
          with no have "length (pending p) < length call_prefix"
            using starts_with_shorter [OF a] by (meson not_le)
          with a have "pending p = take (length (pending p)) call_prefix"
            using starts_with_take [OF a] by simp
          then have "starts_with call_prefix (pending p)" by (metis append_take_drop_id starts_with_append)
          with False \<open>length (pending p) < length call_prefix\<close> show False by simp
        qed
        moreover have "\<not> starts_with call_prefix (pending p @ b)" if "length (pending p @ b) < length call_prefix"
        proof
          assume "starts_with call_prefix (pending p @ b)"
          then have "starts_with call_prefix (pending p)" by (auto simp: starts_with_iff)
          with False that show False by simp
        qed
        ultimately have "consume_loop final (with_more b p) =
            Inl (parse_error ''Gemma tool call is missing the call: prefix'')"
          using StName by (auto simp: consume_loop.simps [of final "with_more b p"])
        with bad show ?thesis by simp
      qed
    qed
  next
    case StArguments
    show ?thesis
    proof (cases "find_sub tool_close (pending p)")
      case (Some i)
      let ?t = "take i (pending p)"
      have len: "i + length tool_close \<le> length (pending p)" using find_sub_Some [OF Some] by simp
      let ?p = "\<lambda>arguments. p\<lparr>tool_calls := tool_calls p @
            [\<lparr>call_id = current_id p, call_name = current_name p, arguments_json = arguments\<rparr>],
          current_name := [], current_arguments := [], current_id := [],
          parser_state := StText, pending := drop (i + length tool_close) (pending p)\<rparr>"
      let ?ev = "\<lambda>arguments. [arguments_event arguments (current_id p) (current_name p),
          end_event (current_id p) (current_name p)]"
      have left: "consume_loop final (with_more b p) = rbind (dsl_parse (current_arguments p @ ?t))
          (\<lambda>arguments. emit (?ev arguments) (consume_loop final (with_more b (?p arguments))))"
        unfolding consume_loop.simps [of final "with_more b p"]
        using StArguments find_sub_append_Some [OF Some] len by (simp add: with_more_def)
      have right: "consume_loop False p = rbind (dsl_parse (current_arguments p @ ?t))
          (\<lambda>arguments. emit (?ev arguments) (consume_loop False (?p arguments)))"
        using StArguments Some by (simp add: consume_loop.simps [of False p])
      show ?thesis
      proof (cases "dsl_parse (current_arguments p @ ?t)")
        case (Inr arguments)
        have "run_norm merge_text (emit (?ev arguments) (consume_loop final (with_more b (?p arguments)))) =
            run_norm merge_text (emit (?ev arguments)
              (run_then (consume_loop False (?p arguments)) (\<lambda>q. consume_loop final (with_more b q))))"
          by (intro emit_norm "1.hyps"(3) [OF StArguments Some Inr])
        then show ?thesis unfolding left right Inr by (simp add: run_then_emit)
      qed (simp add: left right)
    next
      case None
      define k where "k = length (pending p) - retained_prefix_suffix (pending p) tool_close"
      define t s where "t = take k (pending p)" and "s = drop k (pending p)"
      have ne: "tool_close \<noteq> []" by (simp add: tool_close_def)
      have le: "retained_prefix_suffix (pending p) tool_close \<le> length (pending p)"
        using retained_spec(1) [OF ne] by (auto simp: suffix_prefix_def)
      have v: "pending p = t @ s" "length s = retained_prefix_suffix (pending p) tool_close" "length t = k"
        using le by (simp_all add: t_def s_def k_def)
      let ?q = "p\<lparr>current_arguments := current_arguments p @ t, pending := s\<rparr>"
      have right: "consume_loop False p = Inr ([], ?q)"
        using StArguments None by (simp add: consume_loop.simps [of False p] Let_def t_def s_def k_def)
      have "consume_loop final (with_more b p) = consume_loop final (with_more b ?q)"
      proof (cases "find_sub tool_close (s @ b)")
        case (Some i)
        have "find_sub tool_close (pending p @ b) = Some (length t + i)"
          using find_sub_append_None [OF None ne v(1,2), of b] Some by simp
        then show ?thesis
          unfolding consume_loop.simps [of final "with_more b p"] consume_loop.simps [of final "with_more b ?q"]
          using StArguments Some v(1) by (simp add: with_more_def)
      next
        case none: None
        have f: "find_sub tool_close (pending p @ b) = None"
          using find_sub_append_None [OF None ne v(1,2), of b] none by simp
        have rt: "retained_prefix_suffix (pending p @ b) tool_close = retained_prefix_suffix (s @ b) tool_close"
          using retained_append [OF ne v(1,2)] by simp
        define r where "r = retained_prefix_suffix (s @ b) tool_close"
        define kept where "kept = length (s @ b) - r"
        have "r \<le> length (s @ b)"
          using retained_spec(1) [OF ne, of "s @ b"] by (simp add: suffix_prefix_def r_def)
        then have len: "length (pending p @ b) - r = length t + kept"
          using v by (simp add: kept_def)
        have cut: "take (length t + kept) (pending p @ b) = t @ take kept (s @ b)"
          "drop (length t + kept) (pending p @ b) = drop kept (s @ b)" using v(1) by simp_all
        have left: "consume_loop final (with_more b p) = Inr ([],
            p\<lparr>current_arguments := current_arguments p @ t @ take kept (s @ b), pending := drop kept (s @ b)\<rparr>)"
          unfolding consume_loop.simps [of final "with_more b p"] with_more_simps StArguments parser_state.case
            f option.case Let_def rt r_def [symmetric] len cut by (simp add: with_more_def)
        have q: "parser_state ?q = StArguments" "pending ?q = s" using StArguments by simp_all
        have "consume_loop final (with_more b ?q) = Inr ([],
            p\<lparr>current_arguments := current_arguments p @ t @ take kept (s @ b), pending := drop kept (s @ b)\<rparr>)"
          unfolding consume_loop.simps [of final "with_more b ?q"] with_more_simps q parser_state.case
            none option.case Let_def r_def [symmetric] kept_def [symmetric] by (simp add: with_more_def)
        then show ?thesis unfolding left by simp
      qed
      then show ?thesis unfolding right by simp
    qed
  qed
qed

section \<open>Pushing chunks\<close>

definition finish :: "bool \<Rightarrow> (generation_event list \<times> tool_parser) result \<Rightarrow>
    (generation_event list \<times> tool_parser) result" where
  "finish final r = rbind r (\<lambda>(events, p').
     if final \<and> (parser_state p' \<noteq> StText \<or> pending p' \<noteq> [])
     then Inl (parse_error ''model response ends inside a Gemma tool call marker'')
     else Inr (events, p'))"

lemma push_loop: "push p text final = finish final (consume_loop final (with_more text p))"
  by (simp add: push_def consume_calls_def finish_def with_more_def)

lemma finish_False [simp]: "finish False r = r"
  by (cases r) (auto simp: finish_def)

lemma finish_norm: "run_norm norm (finish final r) = finish final (run_norm norm r)"
  by (cases r) (auto simp: finish_def)

lemma finish_then: "finish final (run_then r f) = run_then r (\<lambda>q. finish final (f q))"
  by (auto simp: finish_def run_then_def rbind_def split: sum.splits)

lemma push_split:
  "run_norm merge_text (push p (a @ b) final) =
   run_norm merge_text (run_then (push p a False) (\<lambda>q. push q b final))"
proof -
  have more: "with_more (a @ b) p = with_more b (with_more a p)" by (simp add: with_more_def)
  show ?thesis
    unfolding push_loop more finish_norm consume_loop_split [of final b "with_more a p"]
    by (simp add: finish_norm [symmetric] finish_then)
qed

interpretation gemma: chunked "\<lambda>p text. push p text False" merge_text
proof
  show "merge_text ys = merge_text zs \<Longrightarrow> merge_text (xs @ ys) = merge_text (xs @ zs)" for xs ys zs
    by (rule merge_context)
  show "run_norm merge_text (push p (a @ b) False) =
      run_norm merge_text (run_then (push p a False) (\<lambda>q. push q b False))" for p a b
    by (rule push_split)
qed

section \<open>What the events say\<close>

definition emitted_text :: "generation_event list \<Rightarrow> string" where
  "emitted_text events = concat (map text_delta (filter (\<lambda>e. kind e = EvTextDelta) events))"

definition emitted_calls :: "generation_event list \<Rightarrow> tool_call list" where
  "emitted_calls events =
     map (\<lambda>e. \<lparr>call_id = tool_call_id e, call_name = event_tool_name e, arguments_json = text_delta e\<rparr>)
       (filter (\<lambda>e. kind e = EvToolCallArgumentsDelta) events)"

lemma emitted_simps [simp]:
  "emitted_text [] = []" "emitted_calls [] = []"
  "emitted_text (xs @ ys) = emitted_text xs @ emitted_text ys"
  "emitted_calls (xs @ ys) = emitted_calls xs @ emitted_calls ys"
  "emitted_text (text_events t) = t" "emitted_calls (text_events t) = []"
  "emitted_text (start_event i n # es) = emitted_text es" "emitted_calls (start_event i n # es) = emitted_calls es"
  "emitted_text (end_event i n # es) = emitted_text es" "emitted_calls (end_event i n # es) = emitted_calls es"
  "emitted_text (arguments_event t i n # es) = emitted_text es"
  "emitted_calls (arguments_event t i n # es) =
     \<lparr>call_id = i, call_name = n, arguments_json = t\<rparr> # emitted_calls es"
  by (simp_all add: emitted_text_def emitted_calls_def text_events_def text_event_def start_event_def
      end_event_def arguments_event_def)

definition name_ok :: "string \<Rightarrow> bool" where
  "name_ok n \<longleftrightarrow> n \<noteq> [] \<and> list_all is_name_byte n"

definition numbered :: "tool_call list \<Rightarrow> bool" where
  "numbered calls \<longleftrightarrow> map call_id calls = map (\<lambda>i. ''call_'' @ decimal (Suc i)) [0..<length calls]"

definition parser_ok :: "tool_parser \<Rightarrow> bool" where
  "parser_ok p \<longleftrightarrow> numbered (tool_calls p) \<and> (\<forall>c \<in> set (tool_calls p). name_ok (call_name c)) \<and>
     (parser_state p = StArguments \<longrightarrow> current_id p = next_id p \<and> name_ok (current_name p))"

lemma numbered_distinct: "numbered calls \<Longrightarrow> distinct (map call_id calls)"
  unfolding numbered_def by (auto simp: distinct_map inj_on_def dest: decimal_inj)

lemma emit_Inr: "emit out r = Inr (out', p) \<longleftrightarrow> (\<exists>o2. r = Inr (o2, p) \<and> out' = out @ o2)"
  by (cases r) (auto simp: emit_def)

lemma consume_loop_events:
  "consume_loop final p = Inr (events, p') \<Longrightarrow>
   visible_text p' = visible_text p @ emitted_text events \<and>
   tool_calls p' = tool_calls p @ emitted_calls events \<and> (parser_ok p \<longrightarrow> parser_ok p')"
proof (induction final p arbitrary: events p' rule: consume_loop.induct)
  case (1 final p)
  note step = "1.prems" [unfolded consume_loop.simps [of final p]]
  show ?case
  proof (cases "parser_state p")
    case StText
    show ?thesis
    proof (cases "find_sub tool_open (pending p)")
      case (Some i)
      with step StText obtain es where es: "events = text_events (take i (pending p)) @ es"
          "consume_loop final (p\<lparr>visible_text := visible_text p @ take i (pending p), parser_state := StName,
             pending := drop (i + length tool_open) (pending p)\<rparr>) = Inr (es, p')"
        by (auto simp: Let_def emit_Inr)
      from "1.IH"(1) [OF StText Some refl es(2)] es(1) show ?thesis
        by (auto simp: parser_ok_def)
    next
      case None
      with step StText show ?thesis by (auto simp: Let_def parser_ok_def next_id_def)
    qed
  next
    case StName
    let ?body = "drop (length call_prefix) (pending p)"
    show ?thesis
    proof (cases "length (pending p) < length call_prefix \<or> find_sub ''{'' ?body = None")
      case True
      with step StName show ?thesis by (auto simp: parser_ok_def split: if_splits)
    next
      case False
      then obtain n where n: "find_sub ''{'' ?body = Some n" and len: "\<not> length (pending p) < length call_prefix"
        by auto
      let ?name = "take n ?body"
      from step StName n len obtain es where
          ok: "starts_with (pending p) call_prefix" "?name \<noteq> []" "list_all is_name_byte ?name"
        and es: "events = start_event (next_id p) ?name # es"
          "consume_loop final (p\<lparr>current_name := ?name, current_id := next_id p, current_arguments := ''{'',
             parser_state := StArguments, pending := drop (length call_prefix + n + 1) (pending p)\<rparr>) = Inr (es, p')"
        by (auto simp: Let_def emit_Inr split: if_splits)
      have "\<not> \<not> starts_with (pending p) call_prefix" "\<not> \<not> list_all is_name_byte ?name" using ok by simp_all
      note ih = "1.IH"(2) [OF StName len this(1) n refl ok(2) this(2) es(2)]
      have "name_ok ?name" using ok(2,3) by (simp add: name_ok_def)
      then have "parser_ok p \<Longrightarrow> parser_ok (p\<lparr>current_name := ?name, current_id := next_id p,
          current_arguments := ''{'', parser_state := StArguments,
          pending := drop (length call_prefix + n + 1) (pending p)\<rparr>)"
        by (simp add: parser_ok_def next_id_def)
      with ih show ?thesis by (simp add: es(1))
    qed
  next
    case StArguments
    show ?thesis
    proof (cases "find_sub tool_close (pending p)")
      case None
      with step StArguments show ?thesis by (auto simp: Let_def parser_ok_def next_id_def)
    next
      case (Some i)
      with step StArguments obtain arguments es where
          arguments: "dsl_parse (current_arguments p @ take i (pending p)) = Inr arguments"
        and es: "events = [arguments_event arguments (current_id p) (current_name p),
             end_event (current_id p) (current_name p)] @ es"
          "consume_loop final (p\<lparr>tool_calls := tool_calls p @
               [\<lparr>call_id = current_id p, call_name = current_name p, arguments_json = arguments\<rparr>],
             current_name := [], current_arguments := [], current_id := [],
             parser_state := StText, pending := drop (i + length tool_close) (pending p)\<rparr>) = Inr (es, p')"
        by (auto simp: emit_Inr rbind_Inr_iff)
      from "1.IH"(3) [OF StArguments Some arguments es(2)] es(1) StArguments show ?thesis
        by (auto simp: parser_ok_def next_id_def numbered_def)
    qed
  qed
qed

lemma push_events:
  assumes "push p text final = Inr (events, p')"
  shows "visible_text p' = visible_text p @ emitted_text events"
    and "tool_calls p' = tool_calls p @ emitted_calls events"
    and "parser_ok p \<Longrightarrow> parser_ok p'"
proof -
  from assms have "consume_loop final (with_more text p) = Inr (events, p')"
    by (auto simp: push_loop finish_def rbind_Inr_iff split: if_splits)
  note e = consume_loop_events [OF this]
  have "parser_ok (with_more text p) = parser_ok p" by (simp add: parser_ok_def)
  with e show "visible_text p' = visible_text p @ emitted_text events"
    "tool_calls p' = tool_calls p @ emitted_calls events" "parser_ok p \<Longrightarrow> parser_ok p'" by simp_all
qed

lemma feed_all_events:
  "gemma.feed_all p chunks = Inr (events, p') \<Longrightarrow>
   visible_text p' = visible_text p @ emitted_text events \<and>
   tool_calls p' = tool_calls p @ emitted_calls events \<and> (parser_ok p \<longrightarrow> parser_ok p')"
proof (induction chunks arbitrary: p events)
  case (Cons c cs)
  then obtain e1 q e2 where q: "push p c False = Inr (e1, q)" "gemma.feed_all q cs = Inr (e2, p')"
      "events = e1 @ e2"
    by (auto simp: run_then_def rbind_Inr_iff)
  from push_events [OF q(1)] Cons.IH [OF q(2)] q(3) show ?case by simp
qed simp

lemma new_parser_ok: "parser_ok new_parser"
  by (simp add: parser_ok_def new_parser_def numbered_def)


section \<open>Streams\<close>

text \<open>Chunks pushed one after the other, the last of them with the final flag.\<close>

fun push_all :: "tool_parser \<Rightarrow> string list \<Rightarrow> (generation_event list \<times> tool_parser) result" where
  "push_all p [] = Inr ([], p)"
| "push_all p (c # cs) = run_then (push p c False) (\<lambda>q. push_all q cs)"

definition stream :: "string list \<Rightarrow> string \<Rightarrow> (generation_event list \<times> tool_parser) result" where
  "stream chunks last_chunk = run_then (push_all new_parser chunks) (\<lambda>q. push q last_chunk True)"

lemma push_all_feed: "push_all p cs = gemma.feed_all p cs"
  by (induction cs arbitrary: p) simp_all

lemma push_all_then:
  "run_norm merge_text (run_then (push_all p cs) (\<lambda>q. push q t final)) =
   run_norm merge_text (push p (concat cs @ t) final)"
proof (induction cs arbitrary: p)
  case (Cons c cs)
  have "run_norm merge_text (run_then (push p c False) (\<lambda>q. run_then (push_all q cs) (\<lambda>q. push q t final))) =
      run_norm merge_text (run_then (push p c False) (\<lambda>q. push q (concat cs @ t) final))"
    using Cons.IH by (intro gemma.then_context)
  then show ?case
    using push_split [of p c "concat cs @ t" final] by (simp add: run_then_assoc)
qed simp

section \<open>A formatted call is parsed back\<close>

lemma find_brace: "list_all is_name_byte n \<Longrightarrow> find_sub ''{'' (n @ CHR ''{'' # t) = Some (length n)"
  by (induction n) (auto simp: is_name_byte_def is_alnum_def less_eq_char_def)

lemma find_sub_tail: "find_sub m (c # s) = None \<Longrightarrow> find_sub m s = None"
  by (auto split: if_splits)

lemma consume_call:
  assumes p: "parser_state p = StText" "pending p = pre @ tool_open @ call_prefix @ name @ dsl_text (JObject m) @ tool_close @ t"
    and pre: "find_sub tool_open pre = None" and name: "name_ok name" and safe: "dsl_safe (JObject m)"
    and close: "find_sub tool_close (dsl_text (JObject m)) = None"
  shows "consume_loop final p =
    emit (text_events pre @ [start_event (next_id p) name, arguments_event (stringify (JObject m)) (next_id p) name,
        end_event (next_id p) name])
      (consume_loop final (p\<lparr>visible_text := visible_text p @ pre,
         tool_calls := tool_calls p @ [\<lparr>call_id = next_id p, call_name = name, arguments_json = stringify (JObject m)\<rparr>],
         current_name := [], current_arguments := [], current_id := [], pending := t\<rparr>))"
proof -
  obtain inner where inner: "dsl_text (JObject m) = CHR ''{'' # inner" by simp
  have mark: "tool_open = CHR ''<'' # tl tool_open" "CHR ''<'' \<notin> set (tl tool_open)"
    "tool_close = CHR ''<'' # tl tool_close" "CHR ''<'' \<notin> set (tl tool_close)"
    by (simp_all add: tool_open_def tool_close_def)
  let ?text = "call_prefix @ name @ dsl_text (JObject m) @ tool_close @ t"
  let ?p1 = "p\<lparr>visible_text := visible_text p @ pre, parser_state := StName, pending := ?text\<rparr>"
  let ?p2 = "?p1\<lparr>current_name := name, current_id := next_id p, current_arguments := ''{'',
      parser_state := StArguments, pending := inner @ tool_close @ t\<rparr>"
  have "find_sub tool_open (pending p) = Some (length pre)"
    using find_sub_behind [OF pre mark(1,2)] p(2) by simp
  then have s1: "consume_loop final p = emit (text_events pre) (consume_loop final ?p1)"
    using p by (simp add: consume_loop.simps [of final p] Let_def)
  have "find_sub ''{'' (name @ CHR ''{'' # inner @ tool_close @ t) = Some (length name)"
    using name by (intro find_brace) (simp add: name_ok_def)
  then have s2: "consume_loop final ?p1 = emit [start_event (next_id p) name] (consume_loop final ?p2)"
    unfolding consume_loop.simps [of final ?p1] unfolding inner
    using name by (simp add: Let_def name_ok_def next_id_def)
  have "find_sub tool_close inner = None" using close unfolding inner by (rule find_sub_tail)
  from find_sub_behind [OF this mark(3,4)]
  have "find_sub tool_close (inner @ tool_close @ t) = Some (length inner)" .
  moreover have "dsl_parse (''{'' @ inner) = Inr (stringify (JObject m))"
    using dsl_parse_text [OF safe] inner by simp
  ultimately have s3: "consume_loop final ?p2 =
      emit [arguments_event (stringify (JObject m)) (next_id p) name, end_event (next_id p) name]
        (consume_loop final (?p2\<lparr>tool_calls := tool_calls p @
            [\<lparr>call_id = next_id p, call_name = name, arguments_json = stringify (JObject m)\<rparr>],
          current_name := [], current_arguments := [], current_id := [], parser_state := StText, pending := t\<rparr>))"
    unfolding consume_loop.simps [of final ?p2] by (simp del: stringify.simps)
  have "?p2\<lparr>tool_calls := c, current_name := [], current_arguments := [], current_id := [],
          parser_state := StText, pending := t\<rparr> =
      p\<lparr>visible_text := visible_text p @ pre, tool_calls := c,
         current_name := [], current_arguments := [], current_id := [], pending := t\<rparr>" for c
    using p(1) by (intro tool_parser.equality) simp_all
  then show ?thesis unfolding s1 s2 s3 by (simp add: emit_emit del: stringify.simps)
qed

lemma consume_plain:
  assumes "parser_state p = StText" "find_sub tool_open (pending p) = None"
  shows "consume_loop True p = Inr (text_events (pending p),
    p\<lparr>visible_text := visible_text p @ pending p, pending := []\<rparr>)"
  using assms by (simp add: consume_loop.simps [of True p] Let_def)


section \<open>The properties\<close>

text \<open>
  C14. The answer of the tool-call parser does not depend on how the model's text is cut into
  chunks: two streams with the same text give the same status, the same events once adjacent
  text deltas are joined, and leave the parser in the same state (visible text, calls, pending
  input).  Markers, names and arguments may be split anywhere.
\<close>

theorem stream_chunking_irrelevant:
  assumes "concat chunks @ last_chunk = concat chunks' @ last_chunk'"
  shows "run_norm merge_text (stream chunks last_chunk) = run_norm merge_text (stream chunks' last_chunk')"
  using assms push_all_then [of new_parser chunks last_chunk True]
    push_all_then [of new_parser chunks' last_chunk' True]
  by (simp add: stream_def)

lemma stream_chunking_irrelevant_witness:
  "run_norm merge_text (stream [''Hi <|to'', ''ol_call>ca'', ''ll:f{}<tool''] ''_call|>'') =
   run_norm merge_text (stream [] ''Hi <|tool_call>call:f{}<tool_call|>'')"
  by (rule stream_chunking_irrelevant) simp

text \<open>
  C15. The events of a stream tell everything the parser keeps: the text deltas concatenate to
  the visible text, and the argument events carry, in order, the identifier, name and JSON
  arguments of the recorded calls.  The identifiers are call_1, call_2, ... (so they are
  distinct and not empty), and every name is a non-empty word of letters, digits and
  underscores.
\<close>

theorem stream_events_faithful:
  assumes "stream chunks last_chunk = Inr (events, p)"
  shows "visible_text p = emitted_text events \<and> tool_calls p = emitted_calls events \<and>
    map call_id (tool_calls p) = map (\<lambda>i. ''call_'' @ decimal (Suc i)) [0..<length (tool_calls p)] \<and>
    distinct (map call_id (tool_calls p)) \<and> (\<forall>c \<in> set (tool_calls p). name_ok (call_name c))"
proof -
  from assms obtain e1 q e2 where q: "gemma.feed_all new_parser chunks = Inr (e1, q)"
      "push q last_chunk True = Inr (e2, p)" "events = e1 @ e2"
    by (auto simp: stream_def push_all_feed run_then_def rbind_Inr_iff)
  have "parser_ok p" using feed_all_events [OF q(1)] push_events(3) [OF q(2)] new_parser_ok by blast
  then have n: "numbered (tool_calls p)" "\<forall>c \<in> set (tool_calls p). name_ok (call_name c)"
    by (simp_all add: parser_ok_def)
  have "visible_text p = emitted_text events" "tool_calls p = emitted_calls events"
    using feed_all_events [OF q(1)] push_events(1,2) [OF q(2)] q(3) by (simp_all add: new_parser_def)
  with n numbered_distinct [OF n(1)] show ?thesis unfolding numbered_def by blast
qed

lemma plain_stream: "stream [] ''Hello'' = Inr ([text_event ''Hello''], new_parser\<lparr>visible_text := ''Hello''\<rparr>)"
proof -
  have "consume_loop True (with_more ''Hello'' new_parser) =
      Inr (text_events ''Hello'', new_parser\<lparr>visible_text := ''Hello''\<rparr>)"
    by (subst consume_plain) (simp_all add: with_more_def new_parser_def tool_open_def)
  then show ?thesis by (simp add: stream_def push_loop finish_def text_events_def new_parser_def)
qed

lemma stream_events_faithful_witness:
  "visible_text (new_parser\<lparr>visible_text := ''Hello''\<rparr>) = emitted_text [text_event ''Hello'']"
  using stream_events_faithful [OF plain_stream] by blast

text \<open>
  C13. A tool call that \<open>FormatToolCall\<close> writes into a prompt is read back from the model's
  text, when its arguments are values that the syntax can carry: keys of letters, digits and
  underscores, strings without the quote marker, no floating-point numbers, and no closing marker in
  the written text.  Then, between plain texts and in any chunks, the parser reports exactly one call,
  with the name and with arguments that denote the same JSON object.
\<close>

theorem formatted_call_parses_back:
  assumes "json_parse arguments tool_limits = Inr (JObject m)" "dsl_safe (JObject m)" "name_ok name"
    and "find_sub tool_close (dsl_text (JObject m)) = None"
    and "find_sub tool_open pre = None" "find_sub tool_open post = None"
    and "length (stringify (JObject m)) \<le> 2 * max_string_bytes tool_limits"
  shows "\<exists>call events p. format_tool_call name arguments = Inr call \<and>
    (\<forall>chunks last_chunk. concat chunks @ last_chunk = pre @ call @ post \<longrightarrow>
       run_norm merge_text (stream chunks last_chunk) = Inr (events, p)) \<and>
    visible_text p = pre @ post \<and>
    (\<exists>arguments'. tool_calls p = [\<lparr>call_id = ''call_1'', call_name = name, arguments_json = arguments'\<rparr>] \<and>
       json_parse arguments' tool_limits = Inr (JObject m))"
proof -
  let ?v = "stringify (JObject m)"
  define call where "call = tool_open @ call_prefix @ name @ dsl_text (JObject m) @ tool_close"
  have format: "format_tool_call name arguments = Inr call"
    using assms(1) format_dsl_text [OF assms(2)]
    by (simp add: format_tool_call_def format_tool_object_def call_def
        del: format_tool_argument.simps dsl_text.simps)
  define p0 where "p0 = with_more (pre @ call @ post) new_parser"
  have "parser_state p0 = StText" "pending p0 = pre @ tool_open @ call_prefix @ name @ dsl_text (JObject m) @ tool_close @ post"
    by (simp_all add: p0_def new_parser_def call_def del: dsl_text.simps)
  note c = consume_call [OF this assms(5,3,2,4), of True]
  define calls where "calls = [\<lparr>call_id = next_id p0, call_name = name, arguments_json = ?v\<rparr>]"
  define p where "p = p0\<lparr>visible_text := pre @ post, tool_calls := calls, current_name := [],
     current_arguments := [], current_id := [], pending := []\<rparr>"
  have "\<exists>ev. consume_loop True p0 = Inr (ev, p)"
    using assms(6) unfolding c
    by (simp add: consume_plain p0_def new_parser_def p_def calls_def del: stringify.simps)
  then obtain ev where "push new_parser (pre @ call @ post) True = Inr (ev, p)"
    by (auto simp: push_loop p0_def [symmetric] finish_def p_def)
      (simp_all add: p0_def new_parser_def)
  then have "stream [] (pre @ call @ post) = Inr (ev, p)" by (simp add: stream_def)
  then have one: "run_norm merge_text (stream chunks last_chunk) = Inr (merge_text ev, p)"
    if "concat chunks @ last_chunk = pre @ call @ post" for chunks last_chunk
    using that push_all_then [of new_parser chunks last_chunk True] push_all_then [of new_parser "[]" "pre @ call @ post" True]
    by (simp add: stream_def)
  have "decimal (Suc 0) = ''1''" by code_simp
  then have "next_id p0 = ''call_1''" by (simp add: next_id_def p0_def new_parser_def)
  then have "tool_calls p = [\<lparr>call_id = ''call_1'', call_name = name, arguments_json = ?v\<rparr>]"
    "visible_text p = pre @ post"
    by (simp_all add: p_def calls_def del: stringify.simps)
  moreover have "no_doubles (JObject m)"
  proof -
    have "no_doubles v" if "dsl_safe v" for v
      using that by (induction v) (fastforce simp: list_all_iff)+
    then show ?thesis using assms(2) by blast
  qed
  then have "json_parse ?v tool_limits = Inr (JObject m)"
    using json_parse_reads_back [OF json_parse_within [OF assms(1)]] assms(7)
    by (simp add: document_limit_def tool_limits_def del: stringify.simps)
  ultimately have "tool_calls p = [\<lparr>call_id = ''call_1'', call_name = name, arguments_json = ?v\<rparr>]"
    "visible_text p = pre @ post" "json_parse ?v tool_limits = Inr (JObject m)" by blast+
  with format one show ?thesis by blast
qed


definition sample_object :: "(string \<times> json) list" where
  "sample_object = [(''city'', JString ''Paris''), (''days'', JArray [JInt 3, JNull, JBool True])]"

lemma sample_object_facts:
  "json_parse (stringify (JObject sample_object)) tool_limits = Inr (JObject sample_object)"
  "dsl_safe (JObject sample_object)" "name_ok ''forecast''"
  "find_sub tool_close (dsl_text (JObject sample_object)) = None"
  "find_sub tool_open ''Well: '' = None" "find_sub tool_open [] = None"
  "length (stringify (JObject sample_object)) \<le> 2 * max_string_bytes tool_limits"
proof -
  have l: "length (stringify (JObject sample_object)) \<le> 500" by code_simp
  then show "length (stringify (JObject sample_object)) \<le> 2 * max_string_bytes tool_limits"
    by (simp add: tool_limits_def del: stringify.simps)
  show "json_parse (stringify (JObject sample_object)) tool_limits = Inr (JObject sample_object)"
    by (rule small_document [OF _ _ l]; code_simp)
qed code_simp+

lemma formatted_call_parses_back_witness:
  "\<exists>call events p. format_tool_call ''forecast'' (stringify (JObject sample_object)) = Inr call \<and>
    (\<forall>chunks last_chunk. concat chunks @ last_chunk = ''Well: '' @ call @ [] \<longrightarrow>
       run_norm merge_text (stream chunks last_chunk) = Inr (events, p)) \<and>
    visible_text p = ''Well: '' @ [] \<and>
    (\<exists>arguments'. tool_calls p = [\<lparr>call_id = ''call_1'', call_name = ''forecast'', arguments_json = arguments'\<rparr>] \<and>
       json_parse arguments' tool_limits = Inr (JObject sample_object))"
  by (rule formatted_call_parses_back [OF sample_object_facts])

end
