(* ===== verification/Session_Pool.thy ===== *)
theory Session_Pool
  imports Prelude Transitions
begin

text \<open>
  The session pool of src/server/session_pool.{h,cpp}.  Every function below is one critical
  section or one atomic access of the source; the step relation \<open>pool_step\<close> at the end lets
  the requests of the server interleave them in any order.

  A \<open>std::shared_ptr<SessionEntry>\<close> is a handle (a natural number) into \<open>entries\<close>; a
  \<open>std::weak_ptr\<close> is the handle too, and \<open>lock()\<close> is the test \<open>alive\<close>, which the caller
  supplies: some shared pointer to the entry is left.  The unordered maps are association
  lists in iteration order.  The LRU clock is a natural number (it would wrap after \<open>2\<^sup>6\<^sup>4\<close>
  uses); the metrics are 64-bit words, as their counters wrap.
\<close>

section \<open>State\<close>

record session_entry =
  entry_id :: string
  active_requests :: nat
  cancel_requested :: bool
  last_used :: nat
  active_response_id :: string

record server_metrics =
  requests_total :: "64 word"
  requests_failed :: "64 word"
  active_total :: "64 word"
  sessions_created :: "64 word"
  sessions_evicted :: "64 word"
  cancellations_requested :: "64 word"
  cancellations_observed :: "64 word"
  client_disconnects :: "64 word"
  input_tokens :: "64 word"
  cached_input_tokens :: "64 word"
  cache_write_tokens :: "64 word"
  output_tokens :: "64 word"
  generation_microseconds :: "64 word"
  prompt_microseconds :: "64 word"
  decode_microseconds :: "64 word"
  decode_measured_tokens :: "64 word"
  mtp_proposed_tokens :: "64 word"
  mtp_accepted_tokens :: "64 word"
  mtp_rejected_tokens :: "64 word"
  mtp_verification_groups :: "64 word"
  mtp_d1_groups :: "64 word"
  mtp_d2_groups :: "64 word"
  mtp_d4_groups :: "64 word"
  mtp_ordinary_fallback_tokens :: "64 word"
  last_slot_bytes :: "64 word"

record server_pool =
  max_sessions :: nat
  entries :: "nat \<Rightarrow> session_entry"
  sessions :: "(string \<times> nat) list"
  response_index :: "(string \<times> nat) list"
  pending_sessions :: "string list"
  lru_clock :: nat
  metrics :: server_metrics

definition update_entry :: "nat \<Rightarrow> (session_entry \<Rightarrow> session_entry) \<Rightarrow> server_pool \<Rightarrow> server_pool" where
  "update_entry h f p = p\<lparr>entries := (entries p)(h := f (entries p h))\<rparr>"

definition update_metrics :: "(server_metrics \<Rightarrow> server_metrics) \<Rightarrow> server_pool \<Rightarrow> server_pool" where
  "update_metrics f p = p\<lparr>metrics := f (metrics p)\<rparr>"

text \<open>\<open>last_used.store(lru_clock.fetch_add(1U))\<close>.\<close>

definition touch :: "nat \<Rightarrow> server_pool \<Rightarrow> server_pool" where
  "touch h p = (update_entry h (\<lambda>e. e\<lparr>last_used := lru_clock p\<rparr>) p)\<lparr>lru_clock := lru_clock p + 1\<rparr>"

section \<open>Creating a session\<close>

definition erase_session :: "(nat \<Rightarrow> bool) \<Rightarrow> string \<Rightarrow> server_pool \<Rightarrow> server_pool" where
  "erase_session alive i p =
     (case map_of (sessions p) i of
        None \<Rightarrow> p
      | Some h \<Rightarrow>
          p\<lparr>response_index := filter (\<lambda>(r, x). alive x \<and> x \<noteq> h) (response_index p),
            sessions := filter (\<lambda>(k, x). k \<noteq> i) (sessions p)\<rparr>)"

text \<open>The loop that looks for the least recently used idle session.\<close>

fun find_victim :: "(nat \<Rightarrow> session_entry) \<Rightarrow> (string \<times> nat) option \<Rightarrow> (string \<times> nat) list \<Rightarrow>
    (string \<times> nat) option" where
  "find_victim es victim [] = victim"
| "find_victim es victim ((i, h) # rest) =
     (if active_requests (es h) \<noteq> 0 then find_victim es victim rest
      else case victim of
        None \<Rightarrow> find_victim es (Some (i, h)) rest
      | Some (i', h') \<Rightarrow>
          if last_used (es h) < last_used (es h') then find_victim es (Some (i, h)) rest
          else find_victim es victim rest)"

definition reserve_session :: "(nat \<Rightarrow> bool) \<Rightarrow> string \<Rightarrow> server_pool \<Rightarrow> unit result \<times> server_pool" where
  "reserve_session alive i p =
     (if i \<in> fst ` set (sessions p) \<or> i \<in> set (pending_sessions p)
      then (Inl (Status KInvalidArgument ''session ID is already resident or being created''), p)
      else if max_sessions p \<le> length (sessions p) + length (pending_sessions p) then
        (case find_victim (entries p) None (sessions p) of
           None \<Rightarrow> (Inl (Status KResourceExhausted
                     ''all resident execution slots are active or being created''), p)
         | Some (victim, _) \<Rightarrow>
             let p1 = update_metrics (\<lambda>m. m\<lparr>sessions_evicted := sessions_evicted m + 1\<rparr>)
                        (erase_session alive victim p)
             in (Inr (), p1\<lparr>pending_sessions := i # pending_sessions p1\<rparr>))
      else (Inr (), p\<lparr>pending_sessions := i # pending_sessions p\<rparr>))"

text \<open>\<open>ChatSession::Create\<close> failed: the reservation is dropped.\<close>

definition abandon_session :: "string \<Rightarrow> server_pool \<Rightarrow> server_pool" where
  "abandon_session i p = p\<lparr>pending_sessions := remove1 i (pending_sessions p)\<rparr>"

text \<open>It succeeded: \<open>make_shared<SessionEntry>\<close> at the fresh handle \<open>h\<close>, in use by its creator.\<close>

definition build_entry :: "nat \<Rightarrow> string \<Rightarrow> server_pool \<Rightarrow> server_pool" where
  "build_entry h i p =
     touch h (update_entry h (\<lambda>_. \<lparr>entry_id = i, active_requests = 1, cancel_requested = False,
       last_used = 0, active_response_id = []\<rparr>) p)"

definition publish_session :: "nat \<Rightarrow> server_pool \<Rightarrow> unit result \<times> server_pool" where
  "publish_session h p =
     (let i = entry_id (entries p h);
          p1 = p\<lparr>pending_sessions := remove1 i (pending_sessions p)\<rparr>
      in if i \<notin> set (pending_sessions p) \<or> i \<in> fst ` set (sessions p)
         then (Inl (Status KInternal ''session reservation was lost before publication''), p1)
         else (Inr (), update_metrics (\<lambda>m. m\<lparr>sessions_created := sessions_created m + 1,
                  active_total := active_total m + 1\<rparr>)
                (p1\<lparr>sessions := (i, h) # sessions p1\<rparr>)))"

section \<open>Acquiring and releasing\<close>

definition take_entry :: "nat \<Rightarrow> server_pool \<Rightarrow> server_pool" where
  "take_entry h p =
     update_metrics (\<lambda>m. m\<lparr>active_total := active_total m + 1\<rparr>)
       (touch h (update_entry h (\<lambda>e. e\<lparr>active_requests := active_requests e + 1\<rparr>) p))"

text \<open>The locked part of \<open>AcquireNamedSession\<close>; \<open>Inr None\<close> means "go on to \<open>CreateSession\<close>".\<close>

definition acquire_named :: "string \<Rightarrow> server_pool \<Rightarrow> nat option result \<times> server_pool" where
  "acquire_named i p =
     (case map_of (sessions p) i of
        Some h \<Rightarrow>
          if active_requests (entries p h) \<noteq> 0
          then (Inl (Status KResourceExhausted ''session already has an active request''), p)
          else (Inr (Some h), take_entry h p)
      | None \<Rightarrow> (Inr None, p))"

definition acquire_response :: "(nat \<Rightarrow> bool) \<Rightarrow> string \<Rightarrow> server_pool \<Rightarrow> nat result \<times> server_pool" where
  "acquire_response alive r p =
     (case map_of (response_index p) r of
        None \<Rightarrow> (Inl (Status KNotFound ''previous_response_id is not resident''), p)
      | Some h \<Rightarrow>
          if \<not> alive h
          then (Inl (Status KNotFound ''previous_response_id was evicted''),
                p\<lparr>response_index := filter (\<lambda>(k, _). k \<noteq> r) (response_index p)\<rparr>)
          else if active_requests (entries p h) \<noteq> 0
          then (Inl (Status KResourceExhausted ''response session already has an active request''), p)
          else (Inr h, take_entry h p))"

text \<open>\<open>ReleaseSession\<close> takes no lock: three atomic accesses, one after the other.\<close>

definition release_touch :: "nat \<Rightarrow> server_pool \<Rightarrow> server_pool" where
  "release_touch h p = touch h p"

definition release_drop :: "nat \<Rightarrow> server_pool \<Rightarrow> server_pool" where
  "release_drop h p = update_entry h (\<lambda>e. e\<lparr>active_requests := active_requests e - 1\<rparr>) p"

definition release_count :: "server_pool \<Rightarrow> server_pool" where
  "release_count p = update_metrics (\<lambda>m. m\<lparr>active_total := active_total m - 1\<rparr>) p"

definition discard_session :: "(nat \<Rightarrow> bool) \<Rightarrow> nat \<Rightarrow> server_pool \<Rightarrow> server_pool" where
  "discard_session alive h p = erase_session alive (entry_id (entries p h)) p"

section \<open>Responses\<close>

text \<open>\<open>response_index[response_id] = entry\<close>.\<close>

definition index_response :: "nat \<Rightarrow> string \<Rightarrow> server_pool \<Rightarrow> server_pool" where
  "index_response h r p = p\<lparr>response_index := (r, h) # filter (\<lambda>(k, _). k \<noteq> r) (response_index p)\<rparr>"

definition unindex_response :: "string \<Rightarrow> server_pool \<Rightarrow> server_pool" where
  "unindex_response r p = p\<lparr>response_index := filter (\<lambda>(k, _). k \<noteq> r) (response_index p)\<rparr>"

definition set_active_response :: "nat \<Rightarrow> string \<Rightarrow> server_pool \<Rightarrow> server_pool" where
  "set_active_response h r p = update_entry h (\<lambda>e. e\<lparr>active_response_id := r\<rparr>) p"

definition clear_active_response :: "nat \<Rightarrow> string \<Rightarrow> server_pool \<Rightarrow> server_pool" where
  "clear_active_response h r p =
     update_entry h (\<lambda>e. if active_response_id e = r then e\<lparr>active_response_id := []\<rparr> else e) p"

text \<open>The locked part of \<open>HandleCancelResponse\<close> in src/cli/server_main.cpp.\<close>

definition cancel_response :: "(nat \<Rightarrow> bool) \<Rightarrow> string \<Rightarrow> server_pool \<Rightarrow> bool \<times> server_pool" where
  "cancel_response alive r p =
     (case map_of (response_index p) r of
        None \<Rightarrow> (False, p)
      | Some h \<Rightarrow>
          if alive h \<and> active_response_id (entries p h) = r \<and> active_requests (entries p h) \<noteq> 0
          then (True, update_metrics (\<lambda>m. m\<lparr>cancellations_requested := cancellations_requested m + 1\<rparr>)
                 (update_entry h (\<lambda>e. e\<lparr>cancel_requested := True\<rparr>) p))
          else (False, p))"


section \<open>Interleaving\<close>

text \<open>
  The server with its requests in flight.  \<open>creating\<close> holds the identifiers whose
  \<open>CreateSession\<close> waits for \<open>ChatSession::Create\<close>, \<open>built\<close> the entries constructed and not
  yet published, \<open>leases\<close> the entries a request holds, \<open>releasing\<close> those between the first
  and the second access of \<open>ReleaseSession\<close>, \<open>dropping\<close> the number of requests before its
  third access, and \<open>doomed\<close> the held entries their holder has discarded: the handlers
  discard a session at most once, and use the index only before that.
\<close>

record pool_world =
  pool :: server_pool
  creating :: "string list"
  built :: "nat list"
  leases :: "nat list"
  releasing :: "nat list"
  doomed :: "nat list"
  dropping :: nat
  next_handle :: nat

definition alive :: "pool_world \<Rightarrow> nat \<Rightarrow> bool" where
  "alive w h \<longleftrightarrow> h \<in> snd ` set (sessions (pool w)) \<or> h \<in> set (built w @ leases w @ releasing w)"

inductive pool_step :: "pool_world \<Rightarrow> pool_world \<Rightarrow> bool" where
  reserve: "reserve_session (alive w) i (pool w) = (Inr (), p) \<Longrightarrow>
    pool_step w (w\<lparr>pool := p, creating := i # creating w\<rparr>)"
| refuse: "reserve_session (alive w) i (pool w) = (Inl e, p) \<Longrightarrow> pool_step w (w\<lparr>pool := p\<rparr>)"
| construct_failed: "i \<in> set (creating w) \<Longrightarrow>
    pool_step w (w\<lparr>pool := abandon_session i (pool w), creating := remove1 i (creating w)\<rparr>)"
| constructed: "i \<in> set (creating w) \<Longrightarrow> h = next_handle w \<Longrightarrow>
    pool_step w (w\<lparr>pool := build_entry h i (pool w), creating := remove1 i (creating w),
      built := h # built w, next_handle := Suc h\<rparr>)"
| publish: "h \<in> set (built w) \<Longrightarrow> publish_session h (pool w) = (Inr (), p) \<Longrightarrow>
    pool_step w (w\<lparr>pool := p, built := remove1 h (built w), leases := h # leases w\<rparr>)"
| publish_lost: "h \<in> set (built w) \<Longrightarrow> publish_session h (pool w) = (Inl e, p) \<Longrightarrow>
    pool_step w (w\<lparr>pool := p, built := remove1 h (built w)\<rparr>)"
| acquire: "acquire_named i (pool w) = (Inr (Some h), p) \<Longrightarrow>
    pool_step w (w\<lparr>pool := p, leases := h # leases w\<rparr>)"
| acquire_previous: "acquire_response (alive w) r (pool w) = (Inr h, p) \<Longrightarrow>
    pool_step w (w\<lparr>pool := p, leases := h # leases w\<rparr>)"
| acquire_previous_failed: "acquire_response (alive w) r (pool w) = (Inl e, p) \<Longrightarrow>
    pool_step w (w\<lparr>pool := p\<rparr>)"
| release_1: "h \<in> set (leases w) \<Longrightarrow>
    pool_step w (w\<lparr>pool := release_touch h (pool w), leases := remove1 h (leases w),
      releasing := h # releasing w\<rparr>)"
| release_2: "h \<in> set (releasing w) \<Longrightarrow>
    pool_step w (w\<lparr>pool := release_drop h (pool w), releasing := remove1 h (releasing w),
      doomed := removeAll h (doomed w), dropping := Suc (dropping w)\<rparr>)"
| release_3: "dropping w = Suc n \<Longrightarrow>
    pool_step w (w\<lparr>pool := release_count (pool w), dropping := n\<rparr>)"
| discard: "h \<in> set (leases w) \<Longrightarrow> h \<notin> set (doomed w) \<Longrightarrow>
    pool_step w (w\<lparr>pool := discard_session (alive w) h (pool w), doomed := h # doomed w\<rparr>)"
| index: "h \<in> set (leases w) \<Longrightarrow> h \<notin> set (doomed w) \<Longrightarrow>
    pool_step w (w\<lparr>pool := index_response h r (pool w)\<rparr>)"
| unindex: "pool_step w (w\<lparr>pool := unindex_response r (pool w)\<rparr>)"
| set_active: "h \<in> set (leases w) \<Longrightarrow> pool_step w (w\<lparr>pool := set_active_response h r (pool w)\<rparr>)"
| clear_active: "h \<in> set (leases w) \<Longrightarrow> pool_step w (w\<lparr>pool := clear_active_response h r (pool w)\<rparr>)"
| cancel: "cancel_response (alive w) r (pool w) = (b, p) \<Longrightarrow> pool_step w (w\<lparr>pool := p\<rparr>)"

definition new_metrics :: server_metrics where
  "new_metrics = \<lparr>requests_total = 0, requests_failed = 0, active_total = 0, sessions_created = 0,
     sessions_evicted = 0, cancellations_requested = 0, cancellations_observed = 0,
     client_disconnects = 0, input_tokens = 0, cached_input_tokens = 0, cache_write_tokens = 0,
     output_tokens = 0, generation_microseconds = 0, prompt_microseconds = 0,
     decode_microseconds = 0, decode_measured_tokens = 0, mtp_proposed_tokens = 0,
     mtp_accepted_tokens = 0, mtp_rejected_tokens = 0, mtp_verification_groups = 0,
     mtp_d1_groups = 0, mtp_d2_groups = 0, mtp_d4_groups = 0, mtp_ordinary_fallback_tokens = 0,
     last_slot_bytes = 0\<rparr>"

definition new_entry :: session_entry where
  "new_entry = \<lparr>entry_id = [], active_requests = 0, cancel_requested = False, last_used = 0,
     active_response_id = []\<rparr>"

definition new_pool :: "nat \<Rightarrow> server_pool" where
  "new_pool limit = \<lparr>max_sessions = limit, entries = (\<lambda>_. new_entry), sessions = [],
     response_index = [], pending_sessions = [], lru_clock = 1, metrics = new_metrics\<rparr>"

definition new_world :: "nat \<Rightarrow> pool_world" where
  "new_world limit = \<lparr>pool = new_pool limit, creating = [], built = [], leases = [], releasing = [],
     doomed = [], dropping = 0, next_handle = 0\<rparr>"

definition initial_world :: "pool_world \<Rightarrow> bool" where
  "initial_world w \<longleftrightarrow> w = new_world (max_sessions (pool w))"

section \<open>The invariant\<close>

definition held :: "pool_world \<Rightarrow> nat list" where
  "held w = leases w @ releasing w"

definition capacity_ok :: "server_pool \<Rightarrow> bool" where
  "capacity_ok p \<longleftrightarrow> length (sessions p) + length (pending_sessions p) \<le> max_sessions p"

definition keys_ok :: "server_pool \<Rightarrow> bool" where
  "keys_ok p \<longleftrightarrow> distinct (map fst (sessions p)) \<and> distinct (map snd (sessions p)) \<and>
     distinct (pending_sessions p) \<and> fst ` set (sessions p) \<inter> set (pending_sessions p) = {} \<and>
     (\<forall>(i, h) \<in> set (sessions p). entry_id (entries p h) = i) \<and>
     snd ` set (response_index p) \<subseteq> snd ` set (sessions p)"

definition reservations_ok :: "pool_world \<Rightarrow> bool" where
  "reservations_ok w \<longleftrightarrow>
     distinct (creating w @ map (\<lambda>h. entry_id (entries (pool w) h)) (built w)) \<and>
     set (pending_sessions (pool w)) =
       set (creating w @ map (\<lambda>h. entry_id (entries (pool w) h)) (built w))"

definition handles_ok :: "pool_world \<Rightarrow> bool" where
  "handles_ok w \<longleftrightarrow> distinct (held w @ built w) \<and>
     (\<forall>h \<in> set (held w @ built w) \<union> snd ` set (sessions (pool w)). h < next_handle w) \<and>
     set (built w) \<inter> snd ` set (sessions (pool w)) = {} \<and>
     set (doomed w) \<subseteq> set (held w) \<and>
     (\<forall>h \<in> set (held w). h \<notin> set (doomed w) \<longleftrightarrow> h \<in> snd ` set (sessions (pool w))) \<and>
     (\<forall>h < next_handle w. active_requests (entries (pool w) h) =
        (if h \<in> set (held w @ built w) then 1 else 0))"

definition clock_ok :: "pool_world \<Rightarrow> bool" where
  "clock_ok w \<longleftrightarrow>
     (\<forall>h < next_handle w. last_used (entries (pool w) h) < lru_clock (pool w)) \<and>
     inj_on (\<lambda>h. last_used (entries (pool w) h)) {..<next_handle w}"

definition gauge_ok :: "pool_world \<Rightarrow> bool" where
  "gauge_ok w \<longleftrightarrow> active_total (metrics (pool w)) = of_nat (length (held w) + dropping w)"

definition pool_inv :: "pool_world \<Rightarrow> bool" where
  "pool_inv w \<longleftrightarrow> capacity_ok (pool w) \<and> keys_ok (pool w) \<and> reservations_ok w \<and> handles_ok w \<and>
     clock_ok w \<and> gauge_ok w"

lemma initial_pool_inv: "initial_world w \<Longrightarrow> pool_inv w"
proof -
  assume "initial_world w"
  then obtain n where "w = new_world n" by (auto simp: initial_world_def)
  then show ?thesis
    by (simp add: pool_inv_def capacity_ok_def keys_ok_def reservations_ok_def handles_ok_def clock_ok_def
        gauge_ok_def held_def new_world_def new_pool_def new_metrics_def new_entry_def)
qed

end
