(* ===== verification/Session_Invariant.thy ===== *)
theory Session_Invariant
  imports Session_Pool
begin

text \<open>
  Every step of the session pool keeps the invariant \<open>pool_inv\<close>: one lemma per operation, combined
  in \<open>pool_step_inv\<close>, which interprets \<open>invariant_machine\<close>.  The properties hold in every state
  reachable from an empty pool, whatever the interleaving of the requests.
\<close>

section \<open>Every step keeps the invariant\<close>

lemma update_simps [simp]:
  "max_sessions (update_entry h f p) = max_sessions p" "sessions (update_entry h f p) = sessions p"
  "response_index (update_entry h f p) = response_index p"
  "pending_sessions (update_entry h f p) = pending_sessions p" "lru_clock (update_entry h f p) = lru_clock p"
  "metrics (update_entry h f p) = metrics p"
  "entries (update_entry h f p) = (entries p)(h := f (entries p h))"
  "max_sessions (update_metrics g p) = max_sessions p" "sessions (update_metrics g p) = sessions p"
  "response_index (update_metrics g p) = response_index p"
  "pending_sessions (update_metrics g p) = pending_sessions p" "lru_clock (update_metrics g p) = lru_clock p"
  "metrics (update_metrics g p) = g (metrics p)" "entries (update_metrics g p) = entries p"
  by (simp_all add: update_entry_def update_metrics_def)

lemma touch_simps [simp]:
  "max_sessions (touch h p) = max_sessions p" "sessions (touch h p) = sessions p"
  "response_index (touch h p) = response_index p" "pending_sessions (touch h p) = pending_sessions p"
  "lru_clock (touch h p) = Suc (lru_clock p)" "metrics (touch h p) = metrics p"
  "entries (touch h p) = (entries p)(h := (entries p h)\<lparr>last_used := lru_clock p\<rparr>)"
  by (simp_all add: touch_def)

lemma erase_simps [simp]:
  "max_sessions (erase_session a i p) = max_sessions p" "entries (erase_session a i p) = entries p"
  "pending_sessions (erase_session a i p) = pending_sessions p" "lru_clock (erase_session a i p) = lru_clock p"
  "metrics (erase_session a i p) = metrics p"
  "sessions (erase_session a i p) = filter (\<lambda>(k, x). k \<noteq> i) (sessions p)"
proof -
  have "filter (\<lambda>(k, x). k \<noteq> i) l = l" if "map_of l i = None" for l :: "(string \<times> nat) list"
    using that by (intro filter_True) (force simp: map_of_eq_None_iff)
  then show "sessions (erase_session a i p) = filter (\<lambda>(k, x). k \<noteq> i) (sessions p)"
    by (simp add: erase_session_def split: option.split)
qed (simp_all add: erase_session_def split: option.split)

lemma erase_index_subset: "set (response_index (erase_session a i p)) \<subseteq> set (response_index p)"
  by (auto simp: erase_session_def split: option.split)

lemma erase_index_subset_sessions:
  assumes "keys_ok p"
  shows "snd ` set (response_index (erase_session a i p)) \<subseteq> snd ` set (sessions (erase_session a i p))"
proof
  fix h assume h: "h \<in> snd ` set (response_index (erase_session a i p))"
  then have "h \<in> snd ` set (response_index p)" using erase_index_subset by (metis image_mono subsetD)
  moreover have "snd ` set (response_index p) \<subseteq> snd ` set (sessions p)"
    using assms unfolding keys_ok_def by simp
  ultimately obtain k where k: "(k, h) \<in> set (sessions p)" by (metis imageE prod.collapse subsetD)
  have "k \<noteq> i"
  proof
    assume "k = i"
    then have "map_of (sessions p) i = Some h" using k assms by (simp add: keys_ok_def)
    then show False using h by (auto simp: erase_session_def)
  qed
  with k show "h \<in> snd ` set (sessions (erase_session a i p))" by force
qed

lemma erase_keys_ok: "keys_ok p \<Longrightarrow> keys_ok (erase_session a i p)"
  using erase_index_subset_sessions [of p a i] unfolding keys_ok_def
  by (auto simp: distinct_map_filter)

lemma erase_length:
  "distinct (map fst l) \<Longrightarrow> i \<in> fst ` set l \<Longrightarrow> Suc (length (filter (\<lambda>(k, x). k \<noteq> i) l)) = length l"
proof (induction l)
  case (Cons kx l)
  show ?case
  proof (cases "fst kx = i")
    case True
    then have "i \<notin> fst ` set l" using Cons.prems by auto
    then have "\<forall>y \<in> set l. fst y \<noteq> i" by (metis imageI)
    then have "filter (\<lambda>(k, x). k \<noteq> i) l = l"
      by (intro filter_True) (simp add: split_beta)
    moreover have "filter (\<lambda>(k, x). k \<noteq> i) (kx # l) = filter (\<lambda>(k, x). k \<noteq> i) l"
      using True by (simp add: split_beta)
    ultimately show ?thesis by simp
  next
    case False
    then have "i \<in> fst ` set l" "distinct (map fst l)" using Cons.prems by auto
    with Cons.IH False show ?thesis by (simp add: split_beta)
  qed
qed simp

lemma find_victim_idle:
  "find_victim es v l = Some (i, h) \<Longrightarrow> (\<And>i h. v = Some (i, h) \<Longrightarrow> active_requests (es h) = 0) \<Longrightarrow>
     active_requests (es h) = 0"
  by (induction es v l rule: find_victim.induct) (auto split: if_splits option.splits)

lemma find_victim_member: "find_victim es v l = Some (i, h) \<Longrightarrow> v = Some (i, h) \<or> (i, h) \<in> set l"
proof (induction l arbitrary: v)
  case (Cons x l)
  obtain a b where x: "x = (a, b)" by fastforce
  show ?case
    using Cons.prems Cons.IH [of v] Cons.IH [of "Some x"] unfolding x
    by (cases v) (auto split: if_splits)
qed simp

lemma find_victim_least_start:
  "find_victim es (Some (j, k)) l = Some (i, h) \<Longrightarrow> last_used (es h) \<le> last_used (es k)"
proof (induction l arbitrary: j k)
  case (Cons x l)
  obtain a b where x: "x = (a, b)" by fastforce
  show ?case using Cons.prems Cons.IH [of j k] Cons.IH [of a b] unfolding x
    by (simp split: if_splits)
qed simp

lemma find_victim_least:
  "find_victim es v l = Some (i, h) \<Longrightarrow> (j, k) \<in> set l \<Longrightarrow> active_requests (es k) = 0 \<Longrightarrow>
     last_used (es h) \<le> last_used (es k)"
proof (induction l arbitrary: v)
  case (Cons x l)
  obtain a b where x: "x = (a, b)" by fastforce
  show ?case
  proof (cases "(j, k) = x")
    case True
    then have ab: "a = j" "b = k" using x by auto
    show ?thesis
      using Cons.prems find_victim_least_start [of es j k l i h]
        find_victim_least_start [of es "fst (the v)" "snd (the v)" l i h]
      unfolding x ab by (cases v) (auto split: if_splits)
  next
    case False
    then have "(j, k) \<in> set l" using Cons.prems by simp
    moreover obtain v' where "find_victim es v' l = Some (i, h)"
      using Cons.prems unfolding x by (cases v) (auto split: if_splits)
    ultimately show ?thesis using Cons.IH Cons.prems by blast
  qed
qed simp

lemma find_victim_None:
  "find_victim es v l = None \<longleftrightarrow> v = None \<and> (\<forall>(i, h) \<in> set l. active_requests (es h) \<noteq> 0)"
  by (induction es v l rule: find_victim.induct) (auto split: option.splits)


lemma erase_handles:
  assumes "keys_ok p" "(i, h) \<in> set (sessions p)"
  shows "snd ` set (sessions (erase_session a i p)) = snd ` set (sessions p) - {h}"
proof -
  have k: "distinct (map fst (sessions p))" and s: "distinct (map snd (sessions p))"
    using assms(1) by (simp_all add: keys_ok_def)
  have "k = i \<longleftrightarrow> x = h" if "(k, x) \<in> set (sessions p)" for k x
    using that assms(2) k s
    by (metis (mono_tags, lifting) distinct_map fst_conv inj_onD snd_conv)
  then show ?thesis by force
qed

lemma erase_handles_None:
  "i \<notin> fst ` set (sessions p) \<Longrightarrow> sessions (erase_session a i p) = sessions p"
  by (intro trans [OF erase_simps(6)] filter_True) force

lemma reserve_session_Inr:
  assumes "reserve_session a i p = (Inr u, p')"
  shows "i \<notin> fst ` set (sessions p)" "i \<notin> set (pending_sessions p)"
    and "p' = p\<lparr>pending_sessions := i # pending_sessions p\<rparr> \<and>
           length (sessions p) + length (pending_sessions p) < max_sessions p \<or>
         (\<exists>v h. (v, h) \<in> set (sessions p) \<and> active_requests (entries p h) = 0 \<and>
           (\<forall>(j, k) \<in> set (sessions p). active_requests (entries p k) = 0 \<longrightarrow>
              last_used (entries p h) \<le> last_used (entries p k)) \<and>
           max_sessions p \<le> length (sessions p) + length (pending_sessions p) \<and>
           p' = (update_metrics (\<lambda>m. m\<lparr>sessions_evicted := sessions_evicted m + 1\<rparr>)
                  (erase_session a v p))\<lparr>pending_sessions := i # pending_sessions p\<rparr>)"
proof -
  show "i \<notin> fst ` set (sessions p)" "i \<notin> set (pending_sessions p)"
    using assms by (auto simp: reserve_session_def split: if_splits)
  then show "p' = p\<lparr>pending_sessions := i # pending_sessions p\<rparr> \<and>
           length (sessions p) + length (pending_sessions p) < max_sessions p \<or>
         (\<exists>v h. (v, h) \<in> set (sessions p) \<and> active_requests (entries p h) = 0 \<and>
           (\<forall>(j, k) \<in> set (sessions p). active_requests (entries p k) = 0 \<longrightarrow>
              last_used (entries p h) \<le> last_used (entries p k)) \<and>
           max_sessions p \<le> length (sessions p) + length (pending_sessions p) \<and>
           p' = (update_metrics (\<lambda>m. m\<lparr>sessions_evicted := sessions_evicted m + 1\<rparr>)
                  (erase_session a v p))\<lparr>pending_sessions := i # pending_sessions p\<rparr>)"
  proof (cases "max_sessions p \<le> length (sessions p) + length (pending_sessions p)")
    case True
    obtain v h where f: "find_victim (entries p) None (sessions p) = Some (v, h)"
      using assms True by (auto simp: reserve_session_def split: if_splits option.splits)
    then have "(v, h) \<in> set (sessions p)" "active_requests (entries p h) = 0"
      using find_victim_member find_victim_idle by fastforce+
    moreover have "\<forall>(j, k) \<in> set (sessions p). active_requests (entries p k) = 0 \<longrightarrow>
        last_used (entries p h) \<le> last_used (entries p k)"
      using find_victim_least [OF f] by auto
    moreover have "p' = (update_metrics (\<lambda>m. m\<lparr>sessions_evicted := sessions_evicted m + 1\<rparr>)
                  (erase_session a v p))\<lparr>pending_sessions := i # pending_sessions p\<rparr>"
      using assms True f by (auto simp: reserve_session_def Let_def split: if_splits)
    ultimately show ?thesis using True by blast
  next
    case False
    with assms show ?thesis by (auto simp: reserve_session_def split: if_splits)
  qed
qed

lemma reserve_session_Inl: "reserve_session a i p = (Inl e, p') \<Longrightarrow> p' = p"
  by (auto simp: reserve_session_def Let_def split: if_splits option.splits prod.splits)

lemma inv_frame:
  assumes "pool_inv w" "sessions p = sessions (pool w)" "max_sessions p = max_sessions (pool w)"
    "pending_sessions p = pending_sessions (pool w)" "lru_clock p = lru_clock (pool w)"
    "active_total (metrics p) = active_total (metrics (pool w))"
    "snd ` set (response_index p) \<subseteq> snd ` set (sessions (pool w))"
    "\<And>h. entry_id (entries p h) = entry_id (entries (pool w) h)"
    "\<And>h. active_requests (entries p h) = active_requests (entries (pool w) h)"
    "\<And>h. last_used (entries p h) = last_used (entries (pool w) h)"
  shows "pool_inv (w\<lparr>pool := p\<rparr>)"
proof -
  have "capacity_ok p" using assms(1-4) by (simp add: pool_inv_def capacity_ok_def)
  moreover have "keys_ok p" using assms(1,2,4,7,8) by (simp add: pool_inv_def keys_ok_def)
  moreover have "reservations_ok (w\<lparr>pool := p\<rparr>)"
    using assms(1,4,8) by (simp add: pool_inv_def reservations_ok_def)
  moreover have "handles_ok (w\<lparr>pool := p\<rparr>)"
    using assms(1,2,9) by (simp add: pool_inv_def handles_ok_def held_def)
  moreover have "clock_ok (w\<lparr>pool := p\<rparr>)" using assms(1,5,10) by (simp add: pool_inv_def clock_ok_def)
  moreover have "gauge_ok (w\<lparr>pool := p\<rparr>)" using assms(1,6) by (simp add: pool_inv_def gauge_ok_def held_def)
  ultimately show ?thesis by (simp add: pool_inv_def)
qed

lemma index_resident:
  "pool_inv w \<Longrightarrow> map_of (response_index (pool w)) r = Some h \<Longrightarrow> h \<in> snd ` set (sessions (pool w))"
  unfolding pool_inv_def keys_ok_def by (metis imageI map_of_SomeD snd_conv subsetD)

lemma index_subset: "pool_inv w \<Longrightarrow> snd ` set (response_index (pool w)) \<subseteq> snd ` set (sessions (pool w))"
  by (simp add: pool_inv_def keys_ok_def)

lemma lease_resident:
  "pool_inv w \<Longrightarrow> h \<in> set (held w) \<Longrightarrow> h \<notin> set (doomed w) \<Longrightarrow> h \<in> snd ` set (sessions (pool w))"
  by (simp add: pool_inv_def handles_ok_def)

lemma inv_unindex: "pool_inv w \<Longrightarrow> pool_inv (w\<lparr>pool := unindex_response r (pool w)\<rparr>)"
  by (rule inv_frame) (auto simp: unindex_response_def dest: index_subset)

lemma inv_index:
  "pool_inv w \<Longrightarrow> h \<in> set (leases w) \<Longrightarrow> h \<notin> set (doomed w) \<Longrightarrow>
     pool_inv (w\<lparr>pool := index_response h r (pool w)\<rparr>)"
  using lease_resident [of w h] index_subset [of w]
  by (intro inv_frame) (auto simp: index_response_def held_def)

lemma inv_set_active: "pool_inv w \<Longrightarrow> pool_inv (w\<lparr>pool := set_active_response h r (pool w)\<rparr>)"
  by (rule inv_frame) (auto simp: set_active_response_def dest: index_subset)

lemma inv_clear_active: "pool_inv w \<Longrightarrow> pool_inv (w\<lparr>pool := clear_active_response h r (pool w)\<rparr>)"
  by (rule inv_frame) (auto simp: clear_active_response_def dest: index_subset)

lemma cancel_response_fields:
  assumes "cancel_response a r q = (b, p)"
  shows "sessions p = sessions q" "max_sessions p = max_sessions q" "response_index p = response_index q"
    "pending_sessions p = pending_sessions q" "lru_clock p = lru_clock q"
    "active_total (metrics p) = active_total (metrics q)"
    "entry_id (entries p h) = entry_id (entries q h)"
    "active_requests (entries p h) = active_requests (entries q h)"
    "last_used (entries p h) = last_used (entries q h)"
  using assms by (auto simp: cancel_response_def split: option.splits if_splits)

lemma inv_cancel:
  "pool_inv w \<Longrightarrow> cancel_response a r (pool w) = (b, p) \<Longrightarrow> pool_inv (w\<lparr>pool := p\<rparr>)"
  using index_subset [of w]
  by (intro inv_frame) (simp_all add: cancel_response_fields)

lemma acquire_previous_alive:
  assumes "pool_inv w" "acquire_response (alive w) r (pool w) = (x, p)"
  shows "x = Inl (Status KNotFound ''previous_response_id is not resident'') \<and> p = pool w \<or>
    x = Inl (Status KResourceExhausted ''response session already has an active request'') \<and> p = pool w \<or>
    (\<exists>h. x = Inr h \<and> map_of (response_index (pool w)) r = Some h \<and>
       active_requests (entries (pool w) h) = 0 \<and> p = take_entry h (pool w))"
proof (cases "map_of (response_index (pool w)) r")
  case (Some h)
  then have "alive w h" using index_resident assms(1) by (simp add: alive_def)
  with Some assms(2) show ?thesis by (auto simp: acquire_response_def split: if_splits)
qed (use assms in \<open>auto simp: acquire_response_def\<close>)

lemma entry_id_kept [simp]:
  "entry_id (entries (take_entry h p) x) = entry_id (entries p x)"
  "entry_id (entries (touch h p) x) = entry_id (entries p x)"
  "entry_id (entries (release_touch h p) x) = entry_id (entries p x)"
  "entry_id (entries (release_drop h p) x) = entry_id (entries p x)"
  by (simp_all add: take_entry_def release_touch_def release_drop_def)

lemma release_drop_last_used [simp]: "last_used (entries (release_drop h p) x) = last_used (entries p x)"
  "lru_clock (release_drop h p) = lru_clock p"
  by (simp_all add: release_drop_def)

lemma pending_kept [simp]:
  "pending_sessions (take_entry h p) = pending_sessions p"
  "pending_sessions (release_touch h p) = pending_sessions p"
  "pending_sessions (release_drop h p) = pending_sessions p"
  by (simp_all add: take_entry_def release_touch_def release_drop_def)

lemma inv_take:
  assumes "pool_inv w" "h \<in> snd ` set (sessions (pool w))" "active_requests (entries (pool w) h) = 0"
  shows "pool_inv (w\<lparr>pool := take_entry h (pool w), leases := h # leases w\<rparr>)"
proof -
  have h: "h < next_handle w" using assms unfolding pool_inv_def handles_ok_def by auto
  then have n: "h \<notin> set (held w @ built w)" using assms unfolding pool_inv_def handles_ok_def by auto
  let ?w = "w\<lparr>pool := take_entry h (pool w), leases := h # leases w\<rparr>"
  have "capacity_ok (pool ?w)" "keys_ok (pool ?w)"
    using assms by (auto simp: pool_inv_def capacity_ok_def keys_ok_def take_entry_def split_beta)
  moreover have "reservations_ok ?w"
    using assms(1) by (simp add: pool_inv_def reservations_ok_def)
  moreover have "handles_ok ?w"
    using assms h n unfolding pool_inv_def handles_ok_def by (auto simp: take_entry_def held_def)
  moreover have "clock_ok ?w"
    using assms(1) h unfolding pool_inv_def clock_ok_def inj_on_def
    by (auto simp: take_entry_def less_Suc_eq)
  moreover have "gauge_ok ?w"
    using assms(1) unfolding pool_inv_def gauge_ok_def by (simp add: take_entry_def held_def)
  ultimately show ?thesis by (simp add: pool_inv_def)
qed

lemma inv_release_1:
  assumes "pool_inv w" "h \<in> set (leases w)"
  shows "pool_inv (w\<lparr>pool := release_touch h (pool w), leases := remove1 h (leases w),
      releasing := h # releasing w\<rparr>)"
proof -
  have h: "h < next_handle w" and d: "distinct (leases w)"
    using assms unfolding pool_inv_def handles_ok_def by (auto simp: held_def)
  let ?w = "w\<lparr>pool := release_touch h (pool w), leases := remove1 h (leases w),
      releasing := h # releasing w\<rparr>"
  have e: "set (held ?w) = set (held w)" using assms d by (auto simp: held_def)
  have l: "length (held ?w) = length (held w)" using assms length_pos_if_in_set [of h "leases w"]
    by (auto simp: held_def length_remove1)
  have "capacity_ok (pool ?w)" "keys_ok (pool ?w)"
    using assms by (auto simp: pool_inv_def capacity_ok_def keys_ok_def release_touch_def split_beta)
  moreover have "reservations_ok ?w"
    using assms(1) by (simp add: pool_inv_def reservations_ok_def)
  moreover have "handles_ok ?w"
    using assms h d unfolding pool_inv_def handles_ok_def e
    by (auto simp: release_touch_def held_def)
  moreover have "clock_ok ?w"
    using assms(1) h unfolding pool_inv_def clock_ok_def inj_on_def
    by (auto simp: release_touch_def less_Suc_eq)
  moreover have "gauge_ok ?w"
    using assms(1) unfolding pool_inv_def gauge_ok_def l by (simp add: release_touch_def)
  ultimately show ?thesis by (simp add: pool_inv_def)
qed


lemma inv_release_2:
  assumes "pool_inv w" "h \<in> set (releasing w)"
  shows "pool_inv (w\<lparr>pool := release_drop h (pool w), releasing := remove1 h (releasing w),
      doomed := removeAll h (doomed w), dropping := Suc (dropping w)\<rparr>)"
proof -
  have h: "h < next_handle w" and d: "distinct (releasing w)"
    using assms unfolding pool_inv_def handles_ok_def by (auto simp: held_def)
  let ?w = "w\<lparr>pool := release_drop h (pool w), releasing := remove1 h (releasing w),
      doomed := removeAll h (doomed w), dropping := Suc (dropping w)\<rparr>"
  have "h \<notin> set (leases w)" using assms unfolding pool_inv_def handles_ok_def held_def by auto
  then have e: "set (held ?w) = set (held w) - {h}" using d by (auto simp: held_def)
  have l: "length (held w) = Suc (length (held ?w))"
    using assms length_pos_if_in_set [of h "releasing w"] by (auto simp: held_def length_remove1)
  have "capacity_ok (pool ?w)" "keys_ok (pool ?w)"
    using assms by (auto simp: pool_inv_def capacity_ok_def keys_ok_def release_drop_def split_beta)
  moreover have "reservations_ok ?w"
    using assms(1) by (simp add: pool_inv_def reservations_ok_def)
  moreover have "handles_ok ?w"
    using assms h d unfolding pool_inv_def handles_ok_def
    by (auto simp: release_drop_def held_def)
  moreover have "clock_ok ?w"
    using assms(1) by (simp add: pool_inv_def clock_ok_def)
  moreover have "gauge_ok ?w"
    using assms(1) unfolding pool_inv_def gauge_ok_def l by (simp add: release_drop_def)
  ultimately show ?thesis by (simp add: pool_inv_def)
qed

lemma inv_release_3:
  assumes "pool_inv w" "dropping w = Suc n"
  shows "pool_inv (w\<lparr>pool := release_count (pool w), dropping := n\<rparr>)"
proof -
  let ?w = "w\<lparr>pool := release_count (pool w), dropping := n\<rparr>"
  have "capacity_ok (pool ?w)" "keys_ok (pool ?w)"
    using assms(1) by (simp_all add: pool_inv_def release_count_def capacity_ok_def keys_ok_def del: Int_Un_distrib)
  moreover have "reservations_ok ?w" "handles_ok ?w" "clock_ok ?w"
    using assms(1)
    by (simp_all add: pool_inv_def reservations_ok_def handles_ok_def clock_ok_def held_def release_count_def)
  moreover have "gauge_ok ?w"
    using assms by (simp add: pool_inv_def gauge_ok_def held_def release_count_def)
  ultimately show ?thesis by (simp add: pool_inv_def)
qed

lemma inv_discard:
  assumes "pool_inv w" "h \<in> set (leases w)" "h \<notin> set (doomed w)"
  shows "pool_inv (w\<lparr>pool := discard_session a h (pool w), doomed := h # doomed w\<rparr>)"
proof -
  let ?w = "w\<lparr>pool := discard_session a h (pool w), doomed := h # doomed w\<rparr>"
  have "h \<in> snd ` set (sessions (pool w))" using lease_resident assms by (simp add: held_def)
  then have "(entry_id (entries (pool w) h), h) \<in> set (sessions (pool w))"
    using assms(1) unfolding pool_inv_def keys_ok_def by auto
  then have r: "snd ` set (sessions (pool ?w)) = snd ` set (sessions (pool w)) - {h}"
    using erase_handles assms(1) unfolding pool_inv_def discard_session_def by simp
  have "capacity_ok (pool ?w)"
    using assms(1) unfolding pool_inv_def capacity_ok_def discard_session_def
    by (auto intro: le_trans [OF add_le_mono1 [OF length_filter_le]])
  moreover have "keys_ok (pool ?w)"
    using assms(1) erase_keys_ok by (simp add: pool_inv_def discard_session_def)
  moreover have "reservations_ok ?w"
    using assms(1) by (simp add: pool_inv_def reservations_ok_def discard_session_def)
  moreover have "handles_ok ?w"
    using assms r unfolding pool_inv_def handles_ok_def
    by (auto simp: discard_session_def held_def)
  moreover have "clock_ok ?w" "gauge_ok ?w"
    using assms(1) by (simp_all add: pool_inv_def clock_ok_def gauge_ok_def discard_session_def held_def)
  ultimately show ?thesis by (simp add: pool_inv_def)
qed

lemma inv_construct_failed:
  assumes "pool_inv w" "i \<in> set (creating w)"
  shows "pool_inv (w\<lparr>pool := abandon_session i (pool w), creating := remove1 i (creating w)\<rparr>)"
proof -
  let ?w = "w\<lparr>pool := abandon_session i (pool w), creating := remove1 i (creating w)\<rparr>"
  have "capacity_ok (pool ?w)"
    using assms(1) by (auto simp: pool_inv_def capacity_ok_def abandon_session_def length_remove1)
  moreover have "keys_ok (pool ?w)"
    using assms(1) by (auto simp: pool_inv_def keys_ok_def abandon_session_def)
  moreover have "reservations_ok ?w"
    using assms by (auto simp: pool_inv_def keys_ok_def reservations_ok_def abandon_session_def)
  moreover have "handles_ok ?w" "clock_ok ?w" "gauge_ok ?w"
    using assms(1) by (simp_all add: pool_inv_def handles_ok_def clock_ok_def gauge_ok_def held_def abandon_session_def)
  ultimately show ?thesis by (simp add: pool_inv_def)
qed


lemma map_remove1_distinct:
  "distinct (map f l) \<Longrightarrow> x \<in> set l \<Longrightarrow> map f (remove1 x l) = remove1 (f x) (map f l)"
proof (induction l)
  case (Cons y l)
  show ?case
  proof (cases "x = y")
    case False
    then have "x \<in> set l" using Cons.prems by simp
    then have "f x \<noteq> f y" using Cons.prems by (metis distinct.simps(2) image_eqI list.simps(9) set_map)
    then show ?thesis using Cons False by simp
  qed simp
qed simp

lemma keys_ok_pending:
  "keys_ok q \<Longrightarrow> i \<notin> fst ` set (sessions q) \<Longrightarrow> i \<notin> set (pending_sessions q) \<Longrightarrow>
     keys_ok (q\<lparr>pending_sessions := i # pending_sessions q\<rparr>)"
  by (simp add: keys_ok_def)

lemma keys_ok_fields:
  assumes "keys_ok p" "sessions q = sessions p" "pending_sessions q = pending_sessions p"
    "response_index q = response_index p"
    "\<And>x. x \<in> snd ` set (sessions p) \<Longrightarrow> entry_id (entries q x) = entry_id (entries p x)"
  shows "keys_ok q"
proof -
  have "\<forall>(i, h) \<in> set (sessions p). entry_id (entries q h) = i"
    using assms(1,5) unfolding keys_ok_def by (metis (mono_tags, lifting) case_prodD case_prodI2 image_eqI snd_conv)
  with assms(1-4) show ?thesis by (simp add: keys_ok_def)
qed

lemma inv_reserve:
  assumes "pool_inv w" "reserve_session a i (pool w) = (Inr (), p)"
  shows "pool_inv (w\<lparr>pool := p, creating := i # creating w\<rparr>)"
proof -
  let ?w = "w\<lparr>pool := p, creating := i # creating w\<rparr>"
  have i: "i \<notin> fst ` set (sessions (pool w))" "i \<notin> set (pending_sessions (pool w))"
    using reserve_session_Inr(1,2) [OF assms(2)] by simp_all
  have k: "keys_ok (pool w)" and h: "handles_ok w" and c: "capacity_ok (pool w)"
    using assms(1) by (simp_all add: pool_inv_def)
  have "pending_sessions p = i # pending_sessions (pool w) \<and> entries p = entries (pool w) \<and>
      lru_clock p = lru_clock (pool w) \<and> active_total (metrics p) = active_total (metrics (pool w))"
    using reserve_session_Inr(3) [OF assms(2)] by auto
  then have "reservations_ok ?w" "clock_ok ?w" "gauge_ok ?w" 
    using assms(1) i by (auto simp: pool_inv_def reservations_ok_def clock_ok_def gauge_ok_def held_def)
  moreover from reserve_session_Inr(3) [OF assms(2)]
  have "capacity_ok p \<and> keys_ok p \<and> handles_ok ?w"
  proof (elim disjE conjE exE)
    assume p: "p = (pool w)\<lparr>pending_sessions := i # pending_sessions (pool w)\<rparr>"
      and l: "length (sessions (pool w)) + length (pending_sessions (pool w)) < max_sessions (pool w)"
    have "capacity_ok p" using l p by (simp add: capacity_ok_def)
    moreover have "keys_ok p" using k i p by (simp add: keys_ok_def)
    moreover have "handles_ok ?w" using h p by (simp add: handles_ok_def held_def)
    ultimately show ?thesis by simp
  next
    fix v x
    assume v: "(v, x) \<in> set (sessions (pool w))" "active_requests (entries (pool w) x) = 0"
      and m: "max_sessions (pool w) \<le> length (sessions (pool w)) + length (pending_sessions (pool w))"
      and p: "p = (update_metrics (\<lambda>m. m\<lparr>sessions_evicted := sessions_evicted m + 1\<rparr>)
        (erase_session a v (pool w)))\<lparr>pending_sessions := i # pending_sessions (pool w)\<rparr>"
    have r: "snd ` set (sessions p) = snd ` set (sessions (pool w)) - {x}"
      using erase_handles [OF k v(1)] p by simp
    have "Suc (length (sessions p)) = length (sessions (pool w))"
    proof -
      have "v \<in> fst ` set (sessions (pool w))" using v(1) by (metis fst_conv image_eqI)
      moreover have "distinct (map fst (sessions (pool w)))" using k by (simp add: keys_ok_def)
      ultimately show ?thesis using erase_length [of "sessions (pool w)" v] by (simp add: p)
    qed
    then have "capacity_ok p" using c p by (simp add: capacity_ok_def)
    moreover have "keys_ok p"
    proof -
      let ?q = "update_metrics (\<lambda>m. m\<lparr>sessions_evicted := sessions_evicted m + 1\<rparr>)
          (erase_session a v (pool w))"
      have "keys_ok ?q"
        using erase_keys_ok [OF k] by (rule keys_ok_fields) (simp_all add: update_metrics_def)
      moreover have "i \<notin> fst ` set (sessions ?q)" using i(1) unfolding update_simps erase_simps
        by (metis filter_is_subset image_mono subsetD)
      moreover have "i \<notin> set (pending_sessions ?q)" using i(2) by simp
      ultimately have "keys_ok (?q\<lparr>pending_sessions := i # pending_sessions ?q\<rparr>)" by (rule keys_ok_pending)
      then show "keys_ok p" by (simp add: p)
    qed
    moreover have "x \<notin> set (held w)" using h v unfolding handles_ok_def by force
    with h r p have "handles_ok ?w" unfolding handles_ok_def held_def by auto
    ultimately show ?thesis by simp
  qed
  ultimately show ?thesis by (simp add: pool_inv_def)
qed

lemma inv_constructed:
  assumes "pool_inv w" "i \<in> set (creating w)" "h = next_handle w"
  shows "pool_inv (w\<lparr>pool := build_entry h i (pool w), creating := remove1 i (creating w),
      built := h # built w, next_handle := Suc h\<rparr>)"
proof -
  let ?w = "w\<lparr>pool := build_entry h i (pool w), creating := remove1 i (creating w),
      built := h # built w, next_handle := Suc h\<rparr>"
  have f: "h \<notin> snd ` set (sessions (pool w))" "h \<notin> set (built w)" "h \<notin> set (held w)"
    using assms unfolding pool_inv_def handles_ok_def by auto
  have e: "entry_id (entries (build_entry h i (pool w)) x) =
      (if x = h then i else entry_id (entries (pool w) x))" for x
    by (simp add: build_entry_def)
  have "capacity_ok (pool ?w)"
    using assms(1) by (simp add: pool_inv_def capacity_ok_def build_entry_def)
  moreover have "keys_ok (pool ?w)"
  proof -
    have "keys_ok (pool w)" using assms(1) by (simp add: pool_inv_def)
    then show ?thesis using f(1) by (rule_tac keys_ok_fields) (auto simp: build_entry_def)
  qed
  moreover have m: "map (\<lambda>x. entry_id (entries (pool ?w) x)) (built ?w) =
      i # map (\<lambda>x. entry_id (entries (pool w) x)) (built w)"
    using f by (simp add: e)
  have "pending_sessions (pool ?w) = pending_sessions (pool w)" by (simp add: build_entry_def)
  with assms(1,2) have "reservations_ok ?w"
    unfolding reservations_ok_def m pool_inv_def by auto
  moreover have "handles_ok ?w"
    using assms f unfolding pool_inv_def handles_ok_def
    by (auto simp: build_entry_def held_def less_Suc_eq)
  moreover have "clock_ok ?w"
    using assms unfolding pool_inv_def clock_ok_def inj_on_def
    by (auto simp: build_entry_def less_Suc_eq)
  moreover have "gauge_ok ?w"
    using assms(1) by (simp add: pool_inv_def gauge_ok_def held_def build_entry_def)
  ultimately show ?thesis by (simp add: pool_inv_def)
qed

lemma publish_succeeds:
  assumes "pool_inv w" "h \<in> set (built w)"
  shows "fst (publish_session h (pool w)) = Inr ()"
proof -
  have "entry_id (entries (pool w) h) \<in> set (pending_sessions (pool w))"
    using assms unfolding pool_inv_def reservations_ok_def by auto
  moreover from this have "entry_id (entries (pool w) h) \<notin> fst ` set (sessions (pool w))"
    using assms(1) unfolding pool_inv_def keys_ok_def by blast
  ultimately show ?thesis by (simp add: publish_session_def Let_def)
qed

lemma inv_publish:
  assumes "pool_inv w" "h \<in> set (built w)" "publish_session h (pool w) = (Inr (), p)"
  shows "pool_inv (w\<lparr>pool := p, built := remove1 h (built w), leases := h # leases w\<rparr>)"
proof -
  let ?w = "w\<lparr>pool := p, built := remove1 h (built w), leases := h # leases w\<rparr>"
  define i where "i = entry_id (entries (pool w) h)"
  have i: "i \<in> set (pending_sessions (pool w))" "i \<notin> fst ` set (sessions (pool w))"
    using assms(3) by (auto simp: publish_session_def Let_def i_def split: if_splits)
  have p: "sessions p = (i, h) # sessions (pool w)" "pending_sessions p = remove1 i (pending_sessions (pool w))"
    "entries p = entries (pool w)" "max_sessions p = max_sessions (pool w)" "lru_clock p = lru_clock (pool w)"
    "response_index p = response_index (pool w)"
    "active_total (metrics p) = active_total (metrics (pool w)) + 1"
    using assms(3) by (auto simp: publish_session_def Let_def i_def split: if_splits)
  have f: "h \<notin> snd ` set (sessions (pool w))" "h \<notin> set (held w)" "distinct (built w)" "h < next_handle w"
    using assms unfolding pool_inv_def handles_ok_def by auto
  have "capacity_ok p"
    using assms(1) i p length_pos_if_in_set [OF i(1)]
    unfolding pool_inv_def capacity_ok_def p length_remove1 by (simp, linarith)
  moreover have "keys_ok p"
    using assms(1) i p f i_def by (auto simp: pool_inv_def keys_ok_def)
  moreover have "reservations_ok ?w"
  proof -
    have d: "distinct (creating w @ map (\<lambda>h. entry_id (entries (pool w) h)) (built w))"
      and s: "set (pending_sessions (pool w)) =
        set (creating w @ map (\<lambda>h. entry_id (entries (pool w) h)) (built w))"
      and dp: "distinct (pending_sessions (pool w))"
      using assms(1) by (simp_all add: pool_inv_def reservations_ok_def keys_ok_def)
    have m: "map (\<lambda>h. entry_id (entries (pool w) h)) (remove1 h (built w)) =
        remove1 i (map (\<lambda>h. entry_id (entries (pool w) h)) (built w))"
      using d assms(2) by (simp add: i_def map_remove1_distinct)
    have "i \<notin> set (creating w)" using d assms(2) i_def by auto
    then show ?thesis
      using d s dp by (auto simp: reservations_ok_def m p)
  qed
  moreover have "handles_ok ?w"
    using assms f unfolding pool_inv_def handles_ok_def by (auto simp: p held_def)
  moreover have "clock_ok ?w" "gauge_ok ?w"
    using assms(1) by (simp_all add: pool_inv_def clock_ok_def gauge_ok_def held_def p)
  ultimately show ?thesis by (simp add: pool_inv_def)
qed


lemma pool_step_inv: "pool_step w w' \<Longrightarrow> pool_inv w \<Longrightarrow> pool_inv w'"
proof (induction rule: pool_step.induct)
  case (refuse w i e p)
  then have "p = pool w" by (auto dest: reserve_session_Inl)
  with refuse show ?case by simp
next
  case (publish_lost h w e p)
  then show ?case using publish_succeeds [of w h] by simp
next
  case (acquire i w h p)
  from acquire(1) have "map_of (sessions (pool w)) i = Some h" "active_requests (entries (pool w) h) = 0"
    "p = take_entry h (pool w)"
    by (auto simp: acquire_named_def split: option.splits if_splits)
  then show ?case using acquire inv_take [of w h] by (metis imageI map_of_SomeD snd_conv)
next
  case (acquire_previous w r h p)
  then show ?case
    using acquire_previous_alive [OF acquire_previous(2,1)] index_resident [of w r h] inv_take [of w h] by auto
next
  case (acquire_previous_failed w r e p)
  then show ?case using acquire_previous_alive [OF acquire_previous_failed(2,1)] by auto
qed (simp_all add: inv_reserve inv_construct_failed inv_constructed inv_publish inv_release_1 inv_release_2
    inv_release_3 inv_discard inv_index inv_unindex inv_set_active inv_clear_active inv_cancel)

interpretation pool_machine: invariant_machine initial_world pool_step pool_inv
  by unfold_locales (auto intro: initial_pool_inv pool_step_inv)

section \<open>A concrete run\<close>

text \<open>One session is created, used and released on a server of one slot.\<close>

definition run_reserved :: pool_world where
  "run_reserved = (let w = new_world 1 in
     w\<lparr>pool := snd (reserve_session (alive w) ''a'' (pool w)), creating := [''a'']\<rparr>)"

definition run_built :: pool_world where
  "run_built = run_reserved\<lparr>pool := build_entry 0 ''a'' (pool run_reserved), creating := [],
     built := [0], next_handle := 1\<rparr>"

definition run_leased :: pool_world where
  "run_leased = run_built\<lparr>pool := snd (publish_session 0 (pool run_built)), built := [], leases := [0]\<rparr>"

definition run_idle :: pool_world where
  "run_idle = run_leased\<lparr>pool := release_count (release_drop 0 (release_touch 0 (pool run_leased))),
     leases := []\<rparr>"

lemmas run_defs = new_world_def new_pool_def run_reserved_def run_built_def run_leased_def run_idle_def
  reserve_session_def publish_session_def build_entry_def Let_def
  update_entry_def update_metrics_def touch_def new_entry_def new_metrics_def

lemma reachable_reserved: "reachable initial_world pool_step run_reserved"
proof (rule next_state)
  show "reachable initial_world pool_step (new_world 1)"
    by (rule start) (simp add: initial_world_def new_world_def new_pool_def)
  show "pool_step (new_world 1) run_reserved"
    using reserve [of "new_world 1" "''a''" "pool run_reserved"] by (simp add: run_defs)
qed

lemma reachable_built: "reachable initial_world pool_step run_built"
  by (rule next_state [OF reachable_reserved])
    (use constructed [of "''a''" run_reserved 0] in \<open>simp add: run_built_def, simp add: run_reserved_def new_world_def\<close>)

lemma reachable_leased: "reachable initial_world pool_step run_leased"
  by (rule next_state [OF reachable_built])
    (use publish [of 0 run_built "pool run_leased"] in \<open>simp add: run_defs\<close>)

lemma reachable_idle: "reachable initial_world pool_step run_idle"
proof (rule next_state [OF next_state [OF next_state [OF reachable_leased release_1 [of 0]] release_2 [of 0]] ])
  let ?w = "run_leased\<lparr>pool := release_touch 0 (pool run_leased), leases := remove1 0 (leases run_leased),
      releasing := 0 # releasing run_leased\<rparr>"
  let ?v = "?w\<lparr>pool := release_drop 0 (pool ?w), releasing := remove1 0 (releasing ?w),
      doomed := removeAll 0 (doomed ?w), dropping := Suc (dropping ?w)\<rparr>"
  show "pool_step ?v run_idle"
    using release_3 [of ?v 0] by (simp add: run_idle_def) (simp add: run_leased_def run_built_def run_reserved_def new_world_def Let_def)
qed (simp_all add: run_leased_def)

section \<open>Properties\<close>

lemma session_busy:
  assumes "pool_inv w" "(i, h) \<in> set (sessions (pool w))" "0 < active_requests (entries (pool w) h)"
  shows "h \<in> set (held w)"
proof -
  have h: "handles_ok w" using assms(1) by (simp add: pool_inv_def)
  have r: "h \<in> snd ` set (sessions (pool w))" using assms(2) by (metis image_eqI snd_conv)
  have "h \<in> set (held w @ built w)" using h r assms(3) unfolding handles_ok_def by (metis UnI2 less_numeral_extra(3))
  moreover have "h \<notin> set (built w)" using h r unfolding handles_ok_def by blast
  ultimately show ?thesis by simp
qed

text \<open>C18. The pool is never over capacity: in every reachable state the resident sessions and the
  reservations together are at most \<open>max_sessions\<close>, no identifier is resident or reserved twice, and
  every resident session is stored under its own identifier.\<close>

theorem pool_within_capacity:
  assumes "reachable initial_world pool_step w"
  shows "length (sessions (pool w)) + length (pending_sessions (pool w)) \<le> max_sessions (pool w) \<and>
    distinct (map fst (sessions (pool w)) @ pending_sessions (pool w)) \<and>
    list_all (\<lambda>(i, h). entry_id (entries (pool w) h) = i) (sessions (pool w))"
  using pool_machine.reachable_inv [OF assms]
  by (auto simp: pool_inv_def capacity_ok_def keys_ok_def list_all_iff)

theorem pool_within_capacity_witness:
  "length (sessions (pool run_leased)) + length (pending_sessions (pool run_leased)) \<le> 1"
  using pool_within_capacity [OF reachable_leased] by (simp add: run_defs)

text \<open>C19. A session serves one request at a time: no entry is held by two requests, a held entry has
  exactly one active request and a resident entry nobody holds has none, and the session of a
  request stays resident until that request discards it, so eviction never takes a session in use.\<close>

theorem session_use_exclusive:
  assumes "reachable initial_world pool_step w"
  shows "distinct (held w) \<and>
    list_all (\<lambda>h. active_requests (entries (pool w) h) = 1) (held w) \<and>
    list_all (\<lambda>(i, h). h \<in> set (held w) \<or> active_requests (entries (pool w) h) = 0) (sessions (pool w)) \<and>
    list_all (\<lambda>h. h \<in> set (doomed w) \<or> h \<in> snd ` set (sessions (pool w))) (held w)"
proof -
  have h: "handles_ok w" using pool_machine.reachable_inv [OF assms] by (simp add: pool_inv_def)
  have "active_requests (entries (pool w) x) = (if x \<in> set (held w @ built w) then 1 else 0)"
    if "x \<in> set (held w @ built w) \<union> snd ` set (sessions (pool w))" for x
    using h that unfolding handles_ok_def by blast
  moreover have "h \<in> set (held w)" if "(i, h) \<in> set (sessions (pool w))" "h \<in> set (held w @ built w)" for i h
  proof -
    have "h \<in> snd ` set (sessions (pool w))" using that(1) by (metis image_eqI snd_conv)
    then have "h \<notin> set (built w)" using h unfolding handles_ok_def by blast
    with that(2) show ?thesis by simp
  qed
  ultimately have "list_all (\<lambda>(i, h). h \<in> set (held w) \<or> active_requests (entries (pool w) h) = 0) (sessions (pool w))"
    "list_all (\<lambda>h. active_requests (entries (pool w) h) = 1) (held w)"
    unfolding list_all_iff by force+
  moreover have "list_all (\<lambda>h. h \<in> set (doomed w) \<or> h \<in> snd ` set (sessions (pool w))) (held w)"
    using h unfolding handles_ok_def list_all_iff by blast
  moreover have "distinct (held w)" using h unfolding handles_ok_def by simp
  ultimately show ?thesis by simp
qed

theorem session_use_exclusive_witness: "active_requests (entries (pool run_leased) 0) = 1"
  using session_use_exclusive [OF reachable_leased] by (simp add: held_def run_leased_def)

text \<open>C20. Making room for a new session only ever removes one session, the least recently used of the
  idle ones, and only when the pool is full: it is held by no request, every other idle session was
  used strictly later, all other sessions stay, and no response identifier is left pointing at it.\<close>

theorem eviction_takes_idle_lru:
  assumes "reachable initial_world pool_step w"
    and "reserve_session (alive w) i (pool w) = (Inr (), p)"
    and "(j, h) \<in> set (sessions (pool w))" "(j, h) \<notin> set (sessions p)"
  shows "length (sessions (pool w)) + length (pending_sessions (pool w)) = max_sessions (pool w) \<and>
    h \<notin> set (held w) \<and>
    (\<forall>(k, x) \<in> set (sessions (pool w)). (k, x) \<noteq> (j, h) \<longrightarrow>
       (k, x) \<in> set (sessions p) \<and>
       (active_requests (entries (pool w) x) = 0 \<longrightarrow>
          last_used (entries (pool w) h) < last_used (entries (pool w) x))) \<and>
    h \<notin> snd ` set (response_index p)"
proof -
  have inv: "pool_inv w" using pool_machine.reachable_inv [OF assms(1)] .
  then have k: "keys_ok (pool w)" and c: "capacity_ok (pool w)" and ho: "handles_ok w" and cl: "clock_ok w"
    by (simp_all add: pool_inv_def)
  obtain v x where v: "(v, x) \<in> set (sessions (pool w))" "active_requests (entries (pool w) x) = 0"
    and least: "\<forall>(j, k) \<in> set (sessions (pool w)). active_requests (entries (pool w) k) = 0 \<longrightarrow>
        last_used (entries (pool w) x) \<le> last_used (entries (pool w) k)"
    and m: "max_sessions (pool w) \<le> length (sessions (pool w)) + length (pending_sessions (pool w))"
    and p: "p = (update_metrics (\<lambda>m. m\<lparr>sessions_evicted := sessions_evicted m + 1\<rparr>)
        (erase_session (alive w) v (pool w)))\<lparr>pending_sessions := i # pending_sessions (pool w)\<rparr>"
    using reserve_session_Inr(3) [OF assms(2)] assms(3,4) by (elim disjE conjE exE) simp_all
  have s: "sessions p = filter (\<lambda>(k, x). k \<noteq> v) (sessions (pool w))" by (simp add: p)
  have "j = v" using assms(3,4) s by auto
  have dk: "distinct (map fst (sessions (pool w)))" "distinct (map snd (sessions (pool w)))"
    using k unfolding keys_ok_def by simp_all
  have hx: "h = x" using v(1) assms(3) \<open>j = v\<close> eq_key_imp_eq_value [OF dk(1)] by blast
  have lt: "x < next_handle w" "\<And>k y. (k, y) \<in> set (sessions (pool w)) \<Longrightarrow> y < next_handle w"
  proof -
    have b: "\<forall>h \<in> snd ` set (sessions (pool w)). h < next_handle w" using ho unfolding handles_ok_def by blast
    then show "y < next_handle w" if "(k, y) \<in> set (sessions (pool w))" for k y
      using that by (metis image_eqI snd_conv)
    with v(1) show "x < next_handle w" by blast
  qed
  have "x \<notin> set (held w)"
  proof
    assume "x \<in> set (held w)"
    then have "active_requests (entries (pool w) x) = 1" using ho lt(1) unfolding handles_ok_def by simp
    with v(2) show False by simp
  qed
  moreover have "x \<notin> snd ` set (response_index p)"
    using erase_index_subset_sessions [OF k, of "alive w" v] erase_handles [OF k v(1)] by (auto simp: p)
  moreover have "(k, y) \<in> set (sessions p) \<and> (active_requests (entries (pool w) y) = 0 \<longrightarrow>
       last_used (entries (pool w) x) < last_used (entries (pool w) y))"
    if y: "(k, y) \<in> set (sessions (pool w))" "(k, y) \<noteq> (v, x)" for k y
  proof -
    have "k \<noteq> v" using y v(1) eq_key_imp_eq_value [OF dk(1), of v y x] by auto
    moreover have "y \<noteq> x"
      using y(1) v(1) \<open>k \<noteq> v\<close> dk(2) by (metis distinct_map inj_onD snd_conv fst_conv)
    moreover have "last_used (entries (pool w) x) \<noteq> last_used (entries (pool w) y)"
      using cl lt(1) lt(2) [OF y(1)] \<open>y \<noteq> x\<close> unfolding clock_ok_def inj_on_def by blast
    moreover have "active_requests (entries (pool w) y) = 0 \<longrightarrow>
        last_used (entries (pool w) x) \<le> last_used (entries (pool w) y)" using bspec [OF least y(1)] by simp
    ultimately show ?thesis using y(1) s by (auto simp: le_less)
  qed
  ultimately show ?thesis using c m unfolding capacity_ok_def hx \<open>j = v\<close> by (intro conjI ballI) auto
qed

theorem eviction_takes_idle_lru_witness:
  "0 \<notin> snd ` set (response_index (snd (reserve_session (alive run_idle) ''b'' (pool run_idle))))"
proof -
  have "reserve_session (alive run_idle) ''b'' (pool run_idle) =
      (Inr (), snd (reserve_session (alive run_idle) ''b'' (pool run_idle)))"
    by (simp add: run_defs erase_session_def release_touch_def release_drop_def release_count_def)
  from eviction_takes_idle_lru [OF reachable_idle this, of "''a''" 0] show ?thesis
    by (simp add: run_defs erase_session_def release_touch_def release_drop_def release_count_def)
qed

text \<open>C21. Two error branches are never taken: a constructed session finds its reservation when it is
  published, and a response identifier in the index never belongs to an evicted session.\<close>

theorem reservations_and_index_sound:
  assumes "reachable initial_world pool_step w"
  shows "list_all (\<lambda>h. fst (publish_session h (pool w)) = Inr ()) (built w) \<and>
    fst (acquire_response (alive w) r (pool w)) \<noteq> Inl (Status KNotFound ''previous_response_id was evicted'')"
proof -
  have inv: "pool_inv w" using pool_machine.reachable_inv [OF assms] .
  then show ?thesis
    using publish_succeeds [OF inv] acquire_previous_alive [OF inv, of r]
    by (cases "acquire_response (alive w) r (pool w)") (auto simp: list_all_iff)
qed

theorem reservations_and_index_sound_witness: "fst (publish_session 0 (pool run_built)) = Inr ()"
  using reservations_and_index_sound [OF reachable_built] by (simp add: run_built_def)

text \<open>C22. A new session is admitted whenever fewer requests are in flight than \<open>max_sessions\<close>: whatever
  is resident, if the requests holding a session and those creating one are fewer than the limit, the
  reservation of an identifier that is neither resident nor reserved succeeds.\<close>

theorem reserve_admits_below_limit:
  assumes "reachable initial_world pool_step w"
    and "length (held w) + length (creating w) + length (built w) < max_sessions (pool w)"
    and "i \<notin> fst ` set (sessions (pool w))" "i \<notin> set (pending_sessions (pool w))"
  shows "fst (reserve_session (alive w) i (pool w)) = Inr ()"
proof -
  have inv: "pool_inv w" using pool_machine.reachable_inv [OF assms(1)] .
  have pend: "length (pending_sessions (pool w)) = length (creating w) + length (built w)"
  proof -
    have "card (set (pending_sessions (pool w))) =
        card (set (creating w @ map (\<lambda>h. entry_id (entries (pool w) h)) (built w)))"
      using inv by (simp only: pool_inv_def reservations_ok_def)
    moreover have "distinct (pending_sessions (pool w))" using inv by (simp add: pool_inv_def keys_ok_def)
    moreover have "distinct (creating w @ map (\<lambda>h. entry_id (entries (pool w) h)) (built w))"
      using inv by (simp only: pool_inv_def reservations_ok_def)
    ultimately show ?thesis by (metis distinct_card length_append length_map)
  qed
  have "find_victim (entries (pool w)) None (sessions (pool w)) \<noteq> None"
    if full: "max_sessions (pool w) \<le> length (sessions (pool w)) + length (pending_sessions (pool w))"
  proof
    assume "find_victim (entries (pool w)) None (sessions (pool w)) = None"
    then have "snd ` set (sessions (pool w)) \<subseteq> set (held w)"
      using session_busy [OF inv] by (auto simp: find_victim_None)
    then have "card (snd ` set (sessions (pool w))) \<le> length (held w)"
      by (metis List.finite_set card_length card_mono le_trans)
    moreover have "card (snd ` set (sessions (pool w))) = length (sessions (pool w))"
      using inv unfolding pool_inv_def keys_ok_def by (metis distinct_card length_map set_map)
    ultimately show False using full pend assms(2) by simp
  qed
  then show ?thesis using assms(3,4)
    by (auto simp: reserve_session_def Let_def split: option.split)
qed

theorem reserve_admits_below_limit_witness:
  "fst (reserve_session (alive run_idle) ''b'' (pool run_idle)) = Inr ()"
  by (rule reserve_admits_below_limit [OF reachable_idle])
    (simp_all add: run_defs held_def release_touch_def release_drop_def release_count_def)

text \<open>The \<open>gem16_active_requests\<close> gauge counts the requests that hold a session or have yet to take
  the last step of releasing it, modulo \<open>2\<^sup>6\<^sup>4\<close>; it is back at zero when no request is in flight.\<close>

theorem active_gauge_exact:
  assumes "reachable initial_world pool_step w"
  shows "unat (active_total (metrics (pool w))) = (length (held w) + dropping w) mod 2 ^ 64"
proof -
  have "active_total (metrics (pool w)) = of_nat (length (held w) + dropping w)"
    using pool_machine.reachable_inv [OF assms] unfolding pool_inv_def gauge_ok_def by blast
  then show ?thesis by (simp only: unat_of_nat len_of_numeral_defs) simp
qed

theorem active_gauge_exact_witness: "unat (active_total (metrics (pool run_idle))) = 0"
  using active_gauge_exact [OF reachable_idle] by (simp add: held_def run_defs)

end
