(* ===== verification/Chat_Types.thy ===== *)
theory Chat_Types
  imports Tool_Calls Binary64
begin

text \<open>
  The data of include/gem16/{chat,audio,image,engine,sampling}.h that the server and the chat
  session exchange: messages, generation requests, generation results.  Floats appear only as
  samples and pixels that the host code copies, so they are kept as their bit patterns; doubles
  are \<open>binary64\<close> values.  Counters of type \<open>std::uint64_t\<close> are 64-bit words, list lengths and
  identifiers of tokens natural numbers.
\<close>

record audio_waveform =
  samples :: "32 word list"
  sample_rate :: nat

record vision_image =
  patches :: "32 word list"
  positions :: "int list"
  patch_count :: nat
  source_width :: nat
  source_height :: nat
  processed_width :: nat
  processed_height :: nat
  soft_token_budget :: nat
  source_fingerprint :: nat

definition default_vision_image :: vision_image where
  "default_vision_image = \<lparr>patches = [], positions = [], patch_count = 0, source_width = 0,
     source_height = 0, processed_width = 0, processed_height = 0, soft_token_budget = 280,
     source_fingerprint = 0\<rparr>"

record tool_result =
  result_call_id :: string
  result_output :: string

text \<open>
  \<open>GenerationContentPart\<close> is a kind with one field per kind; its factories set the field of
  their kind and leave the others at their defaults.
\<close>

datatype content_part =
    TextPart string
  | AudioPart audio_waveform
  | ImagePart vision_image
  | ToolCallPart tool_call
  | ToolResultPart tool_result

record generation_message =
  role :: string
  content :: "content_part list"

definition text_message :: "string \<Rightarrow> string \<Rightarrow> generation_message" where
  "text_message r t = \<lparr>role = r, content = [TextPart t]\<rparr>"

datatype thinking_effort = ThinkOff | ThinkSmall | ThinkMedium | ThinkHigh

record generation_request =
  messages :: "generation_message list"
  max_generated_tokens :: "nat option"
  thinking :: thinking_effort
  request_tools :: "tool_definition list"
  request_tool_choice :: tool_choice
  parallel_tool_calls :: bool

definition default_tool_choice :: tool_choice where
  "default_tool_choice = \<lparr>choice_mode = ChoiceAuto, function_name = []\<rparr>"

definition default_generation_request :: generation_request where
  "default_generation_request = \<lparr>messages = [], max_generated_tokens = None, thinking = ThinkMedium,
     request_tools = [], request_tool_choice = default_tool_choice, parallel_tool_calls = True\<rparr>"

datatype finish_reason = FinishStop | FinishLength | FinishToolCalls

fun finish_reason_name :: "finish_reason \<Rightarrow> string" where
  "finish_reason_name FinishStop = ''stop''"
| "finish_reason_name FinishLength = ''length''"
| "finish_reason_name FinishToolCalls = ''tool_calls''"

datatype kv_cache_mode = CheckpointFp8 | Bf16Correctness

record sampling_options =
  sampling_enabled :: bool
  temperature :: "32 word"
  top_p :: "32 word"
  min_p :: "32 word"
  top_k :: nat
  repetition_penalty :: "32 word"
  sampling_seed :: nat

record inference_result =
  output_token_ids :: "nat list"
  teacher_forced_token_ids :: "nat list"
  mtp_proposed_token_ids :: "nat list"
  stop_token_id :: nat
  model_load_milliseconds :: binary64
  prompt_milliseconds :: binary64
  decode_milliseconds :: binary64
  decode_tokens_per_second :: binary64
  weight_arena_bytes :: "64 word"
  assistant_source_bytes :: "64 word"
  assistant_weight_arena_bytes :: "64 word"
  assistant_device_memory_delta_bytes :: "64 word"
  assistant_tensor_count :: "64 word"
  assistant_workspace_bytes :: "64 word"
  proposed_tokens :: "64 word"
  accepted_tokens :: "64 word"
  rejected_tokens :: "64 word"
  verification_groups :: "64 word"
  target_forwards :: "64 word"
  target_batches :: "64 word"
  d1_groups :: "64 word"
  d2_groups :: "64 word"
  d4_groups :: "64 word"
  ordinary_fallback_tokens :: "64 word"
  reasoning_tokens :: "64 word"
  reasoning_budget_tokens :: "64 word"
  reasoning_ordinary_target_tokens :: "64 word"
  prompt_cached_tokens :: "64 word"
  prompt_cache_write_tokens :: "64 word"
  mtp_draft_tokens :: nat
  kv_cache_bytes :: "64 word"
  workspace_bytes :: "64 word"
  decode_graph_device_bytes :: "64 word"
  prefill_chunk_tokens :: "64 word"
  max_context_tokens :: "64 word"
  fallback_count :: "64 word"
  logits_dump_steps :: "64 word"
  teacher_forced_matches :: "64 word"
  state_dump_position :: "64 word"
  result_kv_cache_mode :: kv_cache_mode
  result_sampling :: sampling_options
  packed_weight_source_layout_direct :: bool
  assistant_loaded :: bool
  mtp_enabled :: bool
  mtp_adaptive :: bool
  mtp_fixed_d2_graph :: bool
  mtp_gpu_chained :: bool
  reasoning_enabled :: bool
  reasoning_budget_forced :: bool
  token_loop_allocations :: bool
  benchmark_qualified :: bool
  stopped :: bool
  teacher_forcing :: bool
  decode_graphs :: bool
  logits_dumped :: bool
  state_dumped :: bool

record generation_response =
  assistant_content :: string
  assistant_text :: string
  reasoning_text :: string
  response_calls :: "tool_call list"
  prompt_token_ids :: "nat list"
  response_finish :: finish_reason
  inference :: inference_result

definition default_sampling :: sampling_options where
  "default_sampling = \<lparr>sampling_enabled = False, temperature = 0x3F800000, top_p = 0x3F800000,
     min_p = 0, top_k = 0, repetition_penalty = 0x3F800000, sampling_seed = 0\<rparr>"

definition default_inference :: inference_result where
  "default_inference = \<lparr>
    output_token_ids = [], teacher_forced_token_ids = [], mtp_proposed_token_ids = [],
    stop_token_id = 0, model_load_milliseconds = Finite False 0 (- 1074),
    prompt_milliseconds = Finite False 0 (- 1074), decode_milliseconds = Finite False 0 (- 1074),
    decode_tokens_per_second = Finite False 0 (- 1074), weight_arena_bytes = 0,
    assistant_source_bytes = 0, assistant_weight_arena_bytes = 0,
    assistant_device_memory_delta_bytes = 0, assistant_tensor_count = 0, assistant_workspace_bytes = 0,
    proposed_tokens = 0, accepted_tokens = 0, rejected_tokens = 0, verification_groups = 0,
    target_forwards = 0, target_batches = 0, d1_groups = 0, d2_groups = 0, d4_groups = 0,
    ordinary_fallback_tokens = 0, reasoning_tokens = 0, reasoning_budget_tokens = 0,
    reasoning_ordinary_target_tokens = 0, prompt_cached_tokens = 0, prompt_cache_write_tokens = 0,
    mtp_draft_tokens = 0, kv_cache_bytes = 0, workspace_bytes = 0, decode_graph_device_bytes = 0,
    prefill_chunk_tokens = 0, max_context_tokens = 0, fallback_count = 0, logits_dump_steps = 0,
    teacher_forced_matches = 0, state_dump_position = 0, result_kv_cache_mode = CheckpointFp8,
    result_sampling = default_sampling, packed_weight_source_layout_direct = False,
    assistant_loaded = False, mtp_enabled = False, mtp_adaptive = False, mtp_fixed_d2_graph = False,
    mtp_gpu_chained = False, reasoning_enabled = False, reasoning_budget_forced = False,
    token_loop_allocations = False, benchmark_qualified = False, stopped = False,
    teacher_forcing = False, decode_graphs = False, logits_dumped = False, state_dumped = False\<rparr>"

definition default_response :: generation_response where
  "default_response = \<lparr>assistant_content = [], assistant_text = [], reasoning_text = [], response_calls = [],
     prompt_token_ids = [], response_finish = FinishLength, inference = default_inference\<rparr>"

end
