(* ===== verification/Openai_Request.thy ===== *)
theory Openai_Request
  imports Chat_Types
begin

text \<open>
  The request side of src/server/openai_chat.cpp: the bodies of /v1/chat/completions and
  /v1/responses become generation requests.  The audio and image decoders are parameters:
  \<open>load_audio bytes source\<close> is \<open>LoadAudioBytes\<close>, \<open>load_image bytes source budget upscale\<close> is
  \<open>LoadVisionImageBytes\<close>; both end in third-party codecs.
\<close>

section \<open>Fields\<close>

definition invalid :: "string \<Rightarrow> status" where
  "invalid msg = Status KInvalidArgument msg"

definition unsupported :: "string \<Rightarrow> status" where
  "unsupported msg = Status KUnsupported msg"

definition reject_unknown_fields :: "(string \<times> json) list \<Rightarrow> string list \<Rightarrow> string \<Rightarrow> unit result" where
  "reject_unknown_fields obj allowed ctxt =
     rcheck (\<lambda>(name, v). rguard (name \<in> set allowed)
       (unsupported (ctxt @ '' field '' @ quoted name @ '' is not supported''))) obj"

definition required_string :: "(string \<times> json) list \<Rightarrow> string \<Rightarrow> string result" where
  "required_string obj name =
     (case map_of obj name of
        Some (JString s) \<Rightarrow> Inr s
      | _ \<Rightarrow> Inl (invalid (quoted name @ '' must be a string'')))"

text \<open>A field that must be an object: its members, or the error.\<close>

definition required_object :: "json option \<Rightarrow> status \<Rightarrow> (string \<times> json) list result" where
  "required_object field e = (case field of Some (JObject m) \<Rightarrow> Inr m | _ \<Rightarrow> Inl e)"

text \<open>An optional boolean field; \<open>dflt\<close> is the value it has when absent.\<close>

definition optional_bool :: "json option \<Rightarrow> bool \<Rightarrow> string \<Rightarrow> bool result" where
  "optional_bool field dflt msg =
     (case field of None \<Rightarrow> Inr dflt | Some (JBool b) \<Rightarrow> Inr b | Some _ \<Rightarrow> Inl (invalid msg))"

section \<open>Base 64\<close>

definition base64_value :: "char \<Rightarrow> int" where
  "base64_value c =
     (let n = int (byte c)
      in if 65 \<le> n \<and> n \<le> 90 then n - 65
         else if 97 \<le> n \<and> n \<le> 122 then n - 97 + 26
         else if 48 \<le> n \<and> n \<le> 57 then n - 48 + 52
         else if c = CHR ''+'' then 62
         else if c = CHR ''/'' then 63
         else - 1)"

definition base64_bits :: "int \<Rightarrow> int \<Rightarrow> int \<Rightarrow> int \<Rightarrow> 32 word" where
  "base64_bits a b c d =
     push_bit 18 (word_of_int a) OR push_bit 12 (word_of_int b) OR push_bit 6 (word_of_int c) OR word_of_int d"

text \<open>\<open>static_cast<std::uint8_t>(bits >> n)\<close>.\<close>

definition bits_byte :: "nat \<Rightarrow> 32 word \<Rightarrow> char" where
  "bits_byte n bits = chr (unat (drop_bit n bits) mod 256)"

fun base64_groups :: "string \<Rightarrow> string result" where
  "base64_groups (q0 # q1 # q2 # q3 # more_text) =
     (let pad2 = q2 = CHR ''=''; pad3 = q3 = CHR ''=''
      in if more_text \<noteq> [] \<and> (pad2 \<or> pad3) \<or> pad2 \<and> \<not> pad3
         then Inl (invalid ''base64 media payload has invalid padding'')
         else
           let a = base64_value q0; b = base64_value q1;
               c = (if pad2 then 0 else base64_value q2);
               d = (if pad3 then 0 else base64_value q3)
           in if a < 0 \<or> b < 0 \<or> c < 0 \<or> d < 0
              then Inl (invalid ''base64 media payload contains an invalid character'')
              else
                let bits = base64_bits a b c d
                in rbind (base64_groups more_text) (\<lambda>decoded.
                     Inr ([bits_byte 16 bits] @ (if pad2 then [] else [bits_byte 8 bits]) @
                          (if pad3 then [] else [bits_byte 0 bits]) @ decoded)))"
| "base64_groups _ = Inr []"

definition decode_base64 :: "string \<Rightarrow> string result" where
  "decode_base64 encoded =
     (if encoded = [] \<or> 16 * 1024 * 1024 < length encoded \<or> length encoded mod 4 \<noteq> 0
      then Inl (invalid ''base64 media payload has an invalid bounded length'')
      else base64_groups encoded)"

section \<open>Media\<close>

record pending_image =
  part_index :: nat
  encoded_image :: string
  source_name :: string

record parsed_message =
  parsed :: generation_message
  images :: "pending_image list"

type_synonym audio_loader = "string \<Rightarrow> string \<Rightarrow> audio_waveform result"
type_synonym image_loader = "string \<Rightarrow> string \<Rightarrow> nat \<Rightarrow> bool \<Rightarrow> vision_image result"

definition data_prefix :: string where
  "data_prefix = ''data:image/''"

text \<open>The payload of an inline image: both adapters have this code, with another first message.\<close>

definition image_payload :: "string \<Rightarrow> string \<Rightarrow> string result" where
  "image_payload not_inline url =
     (if \<not> starts_with url data_prefix then Inl (unsupported not_inline)
      else case find_sub '';base64,'' url of
        None \<Rightarrow> Inl (invalid ''image data URL must use a supported base64 MIME type'')
      | Some separator \<Rightarrow>
          if separator \<le> length data_prefix
          then Inl (invalid ''image data URL must use a supported base64 MIME type'')
          else if take (separator - length data_prefix) (drop (length data_prefix) url)
                    \<notin> {''png'', ''jpeg'', ''jpg'', ''bmp''}
          then Inl (unsupported ''image data URL must be PNG, JPEG, or BMP'')
          else decode_base64 (drop (separator + 8) url))"

definition audio_payload :: "audio_loader \<Rightarrow> string \<Rightarrow> string \<Rightarrow> json option \<Rightarrow> audio_waveform result" where
  "audio_payload load_audio ctxt source field =
     rbind (required_object field (invalid ''input_audio content requires an input_audio object'')) (\<lambda>m.
     rbind (reject_unknown_fields m [''data'', ''format''] ctxt) (\<lambda>_.
     rbind (required_string m ''data'') (\<lambda>data.
     rbind (required_string m ''format'') (\<lambda>format.
     rbind (rguard (format \<in> {''wav'', ''mp3'', ''flac''})
              (unsupported ''input_audio format must be wav, mp3, or flac'')) (\<lambda>_.
     rbind (decode_base64 data) (\<lambda>encoded. load_audio encoded source))))))"

section \<open>Messages\<close>

definition add_part :: "content_part \<Rightarrow> parsed_message \<Rightarrow> parsed_message" where
  "add_part part p = p\<lparr>parsed := (parsed p)\<lparr>content := content (parsed p) @ [part]\<rparr>\<rparr>"

definition add_image :: "string \<Rightarrow> string \<Rightarrow> parsed_message \<Rightarrow> parsed_message" where
  "add_image bytes source p =
     (add_part (ImagePart default_vision_image) p)\<lparr>images := images p @
        [\<lparr>part_index = length (content (parsed p)), encoded_image = bytes, source_name = source\<rparr>]\<rparr>"

definition as_members :: "json \<Rightarrow> string \<Rightarrow> (string \<times> json) list result" where
  "as_members v msg = required_object (Some v) (invalid msg)"

definition message_part :: "audio_loader \<Rightarrow> parsed_message \<Rightarrow> json \<Rightarrow> parsed_message result" where
  "message_part load_audio p part =
     rbind (as_members part ''message content part must be an object'') (\<lambda>m.
     rbind (required_string m ''type'') (\<lambda>type.
       if type \<in> {''text'', ''input_text''} then
         rbind (reject_unknown_fields m [''type'', ''text''] ''text content part'') (\<lambda>_.
         rbind (required_string m ''text'') (\<lambda>text. Inr (add_part (TextPart text) p)))
       else if type = ''image_url'' then
         rbind (reject_unknown_fields m [''type'', ''image_url''] ''image content part'') (\<lambda>_.
         rbind (required_object (map_of m ''image_url'')
                  (invalid ''image_url content requires an image_url object'')) (\<lambda>image_url.
         rbind (reject_unknown_fields image_url [''url''] ''image_url'') (\<lambda>_.
         rbind (required_string image_url ''url'') (\<lambda>url.
         rbind (image_payload ''image_url currently requires an inline data URL'' url) (\<lambda>encoded.
           Inr (add_image encoded ''OpenAI image data URL'' p))))))
       else if type = ''input_audio'' then
         rbind (reject_unknown_fields m [''type'', ''input_audio''] ''audio content part'') (\<lambda>_.
         rbind (audio_payload load_audio ''input_audio'' ''OpenAI input_audio'' (map_of m ''input_audio'')) (\<lambda>audio.
           Inr (add_part (AudioPart audio) p)))
       else Inl (unsupported ''message content part type is unsupported'')))"

definition message_call :: "parsed_message \<Rightarrow> json \<Rightarrow> parsed_message result" where
  "message_call p v =
     rbind (as_members v ''tool call must be an object'') (\<lambda>m.
     rbind (reject_unknown_fields m [''id'', ''type'', ''function''] ''tool call'') (\<lambda>_.
     rbind (required_string m ''type'') (\<lambda>type.
     rbind (rguard (type = ''function'') (unsupported ''only function tool calls are supported'')) (\<lambda>_.
     rbind (required_string m ''id'') (\<lambda>i.
     rbind (required_object (map_of m ''function'') (invalid ''tool call function must be an object'')) (\<lambda>f.
     rbind (reject_unknown_fields f [''name'', ''arguments''] ''tool call function'') (\<lambda>_.
     rbind (required_string f ''name'') (\<lambda>name.
     rbind (required_string f ''arguments'') (\<lambda>arguments.
       Inr (add_part (ToolCallPart \<lparr>call_id = i, call_name = name, arguments_json = arguments\<rparr>) p))))))))))"

definition message_fields :: "string \<Rightarrow> (string \<times> json) list \<Rightarrow> unit result" where
  "message_fields r m =
     (if r = ''tool'' then reject_unknown_fields m [''role'', ''content'', ''tool_call_id''] ''tool message''
      else if r = ''assistant''
      then reject_unknown_fields m [''role'', ''content'', ''tool_calls''] ''assistant message''
      else reject_unknown_fields m [''role'', ''content''] ''message'')"

definition tool_message :: "(string \<times> json) list \<Rightarrow> parsed_message result" where
  "tool_message m =
     rbind (required_string m ''tool_call_id'') (\<lambda>i.
       case map_of m ''content'' of
         Some (JString s) \<Rightarrow>
           Inr \<lparr>parsed = \<lparr>role = ''tool'',
                  content = [ToolResultPart \<lparr>result_call_id = i, result_output = s\<rparr>]\<rparr>, images = []\<rparr>
       | _ \<Rightarrow> Inl (invalid ''tool message content must be a string''))"

definition message_content :: "audio_loader \<Rightarrow> parsed_message \<Rightarrow> json option \<Rightarrow> parsed_message result" where
  "message_content load_audio p field =
     (case field of
        Some (JString s) \<Rightarrow> Inr (add_part (TextPart s) p)
      | Some (JArray parts) \<Rightarrow> rfold (message_part load_audio) p parts
      | Some JNull \<Rightarrow> Inr p
      | None \<Rightarrow> Inr p
      | Some _ \<Rightarrow> Inl (invalid ''message content must be a string, array, or null''))"

definition message_calls :: "parsed_message \<Rightarrow> json option \<Rightarrow> parsed_message result" where
  "message_calls p field =
     (case field of
        None \<Rightarrow> Inr p
      | Some (JArray calls) \<Rightarrow>
          if role (parsed p) \<noteq> ''assistant''
          then Inl (invalid ''tool_calls must be an array on an assistant message'')
          else rfold message_call p calls
      | Some _ \<Rightarrow> Inl (invalid ''tool_calls must be an array on an assistant message''))"

definition effective_role :: "string \<Rightarrow> string" where
  "effective_role r = (if r = ''developer'' then ''system'' else r)"

definition parse_message :: "audio_loader \<Rightarrow> json \<Rightarrow> parsed_message result" where
  "parse_message load_audio v =
     rbind (as_members v ''each message must be an object'') (\<lambda>m.
     rbind (required_string m ''role'') (\<lambda>r0. let r = effective_role r0 in
     rbind (rguard (r \<in> {''system'', ''user'', ''assistant'', ''tool''})
              (invalid ''message role is unsupported'')) (\<lambda>_.
     rbind (message_fields r m) (\<lambda>_.
       if r = ''tool'' then tool_message m
       else
         rbind (message_content load_audio \<lparr>parsed = \<lparr>role = r, content = []\<rparr>, images = []\<rparr>
                  (map_of m ''content'')) (\<lambda>p.
         rbind (message_calls p (map_of m ''tool_calls'')) (\<lambda>q.
         rbind (rguard (content (parsed q) \<noteq> []) (invalid ''message must contain text or tool calls'')) (\<lambda>_.
           Inr q)))))))"

section \<open>Tools\<close>

definition empty_parameters :: string where
  "empty_parameters = [CHR ''{'', CHR 0x22] @ ''type'' @ [CHR 0x22, CHR '':'', CHR 0x22] @ ''object'' @
     [CHR 0x22, CHR '','', CHR 0x22] @ ''properties'' @ [CHR 0x22] @ '':{}}''"

text \<open>The members of a function that both adapters read the same way.\<close>

definition tool_members :: "(string \<times> json) list \<Rightarrow> tool_definition result" where
  "tool_members m =
     rbind (required_string m ''name'') (\<lambda>name.
     rbind (case map_of m ''description'' of
              None \<Rightarrow> Inr [] | Some (JString s) \<Rightarrow> Inr s
            | Some _ \<Rightarrow> Inl (invalid ''tool description must be a string'')) (\<lambda>description.
     rbind (case map_of m ''parameters'' of
              None \<Rightarrow> Inr empty_parameters
            | Some (JObject ps) \<Rightarrow> Inr (stringify (JObject ps))
            | Some _ \<Rightarrow> Inl (invalid ''tool parameters must be an object'')) (\<lambda>parameters.
     rbind (optional_bool (map_of m ''strict'') False ''tool strict must be a boolean'') (\<lambda>strict.
       Inr \<lparr>tool_name = name, tool_description = description, parameters_json = parameters,
            tool_strict = strict\<rparr>))))"

definition parse_tool :: "json \<Rightarrow> tool_definition result" where
  "parse_tool v =
     rbind (as_members v ''each tool must be an object'') (\<lambda>m.
     rbind (reject_unknown_fields m [''type'', ''function''] ''tool'') (\<lambda>_.
     rbind (required_string m ''type'') (\<lambda>type.
     rbind (rguard (type = ''function'') (invalid ''only function tools are supported'')) (\<lambda>_.
     rbind (required_object (map_of m ''function'') (invalid ''tool function must be an object'')) (\<lambda>f.
     rbind (reject_unknown_fields f [''name'', ''description'', ''parameters'', ''strict''] ''tool function'') (\<lambda>_.
       tool_members f))))))"

definition parse_responses_tool :: "json \<Rightarrow> tool_definition result" where
  "parse_responses_tool v =
     rbind (as_members v ''each tool must be an object'') (\<lambda>m.
     rbind (reject_unknown_fields m [''type'', ''name'', ''description'', ''parameters'', ''strict'']
              ''Responses tool'') (\<lambda>_.
     rbind (required_string m ''type'') (\<lambda>type.
     rbind (rguard (type = ''function'') (unsupported ''only function tools are supported'')) (\<lambda>_.
       tool_members m))))"

definition named_choice :: "string \<Rightarrow> tool_choice" where
  "named_choice name = \<lparr>choice_mode = ChoiceFunction, function_name = name\<rparr>"

definition choice_word :: "string \<Rightarrow> tool_choice result" where
  "choice_word s =
     (if s = ''auto'' then Inr default_tool_choice
      else if s = ''none'' then Inr (default_tool_choice\<lparr>choice_mode := ChoiceNone\<rparr>)
      else if s = ''required'' then Inr (default_tool_choice\<lparr>choice_mode := ChoiceRequired\<rparr>)
      else Inl (invalid ''tool_choice string must be auto, none, or required''))"

definition parse_tool_choice :: "json \<Rightarrow> tool_choice result" where
  "parse_tool_choice v =
     (case v of
        JString s \<Rightarrow> choice_word s
      | JObject m \<Rightarrow>
          rbind (reject_unknown_fields m [''type'', ''function''] ''tool_choice'') (\<lambda>_.
          rbind (rguard (map_of m ''type'' \<in> {None, Some (JString ''function'')})
                   (unsupported ''only function tool_choice is supported'')) (\<lambda>_.
          rbind (required_object (map_of m ''function'')
                   (invalid ''named tool_choice requires a function object'')) (\<lambda>f.
          rbind (reject_unknown_fields f [''name''] ''tool_choice function'') (\<lambda>_.
          rbind (required_string f ''name'') (\<lambda>name. Inr (named_choice name))))))
      | _ \<Rightarrow> Inl (invalid ''tool_choice must be a string or object''))"

definition parse_responses_tool_choice :: "json \<Rightarrow> tool_choice result" where
  "parse_responses_tool_choice v =
     (case v of
        JString s \<Rightarrow> parse_tool_choice v
      | JObject m \<Rightarrow>
          rbind (reject_unknown_fields m [''type'', ''name''] ''Responses tool_choice'') (\<lambda>_.
          rbind (required_string m ''type'') (\<lambda>type.
          rbind (rguard (type = ''function'') (unsupported ''only function tool_choice is supported'')) (\<lambda>_.
          rbind (required_string m ''name'') (\<lambda>name. Inr (named_choice name)))))
      | _ \<Rightarrow> Inl (invalid ''tool_choice must be a string or object''))"

section \<open>Responses messages\<close>

definition parse_responses_image :: "(string \<times> json) list \<Rightarrow> string result" where
  "parse_responses_image m =
     rbind (reject_unknown_fields m [''type'', ''image_url''] ''Responses input_image'') (\<lambda>_.
     rbind (required_string m ''image_url'') (\<lambda>url.
       image_payload ''input_image currently requires an inline data URL'' url))"

definition responses_part :: "audio_loader \<Rightarrow> parsed_message \<Rightarrow> json \<Rightarrow> parsed_message result" where
  "responses_part load_audio p part =
     rbind (as_members part ''message content part must be an object'') (\<lambda>m.
     rbind (required_string m ''type'') (\<lambda>type.
       if type \<in> {''input_text'', ''output_text''} then
         rbind (reject_unknown_fields m [''type'', ''text''] ''Responses text content'') (\<lambda>_.
         rbind (required_string m ''text'') (\<lambda>text. Inr (add_part (TextPart text) p)))
       else if type = ''input_image'' then
         rbind (parse_responses_image m) (\<lambda>encoded.
           Inr (add_image encoded ''Responses input_image data URL'' p))
       else if type = ''input_audio'' then
         rbind (reject_unknown_fields m [''type'', ''input_audio''] ''Responses audio content'') (\<lambda>_.
         rbind (audio_payload load_audio ''Responses input_audio'' ''Responses input_audio''
                  (map_of m ''input_audio'')) (\<lambda>audio.
           Inr (add_part (AudioPart audio) p)))
       else Inl (unsupported ''Responses message content type is unsupported'')))"

definition parse_responses_message :: "audio_loader \<Rightarrow> json \<Rightarrow> parsed_message result" where
  "parse_responses_message load_audio v =
     rbind (as_members v ''each input item must be an object'') (\<lambda>m.
     rbind (required_string m ''role'') (\<lambda>r0. let r = effective_role r0;
         empty = \<lparr>parsed = \<lparr>role = r, content = []\<rparr>, images = []\<rparr> in
     rbind (rguard (r \<in> {''system'', ''user'', ''assistant''})
              (invalid ''Responses message role is unsupported'')) (\<lambda>_.
     rbind (reject_unknown_fields m [''type'', ''role'', ''content''] ''Responses message'') (\<lambda>_.
       case map_of m ''content'' of
         None \<Rightarrow> Inl (invalid ''message content is required'')
       | Some (JString s) \<Rightarrow> Inr (add_part (TextPart s) empty)
       | Some (JArray parts) \<Rightarrow>
           if parts = [] then Inl (invalid ''message content must be a string or non-empty array'')
           else rfold (responses_part load_audio) empty parts
       | Some _ \<Rightarrow> Inl (invalid ''message content must be a string or non-empty array'')))))"

text \<open>The text of a \<open>function_call_output\<close>: a string or an array of text parts.\<close>

definition output_part :: "string \<Rightarrow> json \<Rightarrow> string result" where
  "output_part out part =
     rbind (as_members part ''function output content must be an object'') (\<lambda>m.
     rbind (required_string m ''type'') (\<lambda>type.
     rbind (rguard (type = ''input_text'') (unsupported ''only text function outputs are supported'')) (\<lambda>_.
     rbind (reject_unknown_fields m [''type'', ''text''] ''function output content'') (\<lambda>_.
     rbind (required_string m ''text'') (\<lambda>text. Inr (out @ text))))))"

definition function_output :: "json option \<Rightarrow> string result" where
  "function_output field =
     (case field of
        None \<Rightarrow> Inl (invalid ''function_call_output requires output'')
      | Some (JString s) \<Rightarrow> Inr s
      | Some (JArray parts) \<Rightarrow> rfold output_part [] parts
      | Some _ \<Rightarrow> Inl (invalid ''function output must be a string or content array''))"

definition item_type :: "(string \<times> json) list \<Rightarrow> string" where
  "item_type m = (case map_of m ''type'' of Some (JString s) \<Rightarrow> s | _ \<Rightarrow> ''message'')"

definition input_item :: "audio_loader \<Rightarrow> json \<Rightarrow> parsed_message result" where
  "input_item load_audio item =
     rbind (as_members item ''each input item must be an object'') (\<lambda>m.
       if item_type m = ''message'' then parse_responses_message load_audio item
       else if item_type m = ''function_call'' then
         rbind (reject_unknown_fields m [''type'', ''call_id'', ''name'', ''arguments'']
                  ''Responses function_call'') (\<lambda>_.
         rbind (required_string m ''call_id'') (\<lambda>i.
         rbind (required_string m ''name'') (\<lambda>name.
         rbind (required_string m ''arguments'') (\<lambda>arguments.
           Inr \<lparr>parsed = \<lparr>role = ''assistant'', content = [ToolCallPart
                  \<lparr>call_id = i, call_name = name, arguments_json = arguments\<rparr>]\<rparr>, images = []\<rparr>))))
       else if item_type m = ''function_call_output'' then
         rbind (reject_unknown_fields m [''type'', ''call_id'', ''output'']
                  ''Responses function_call_output'') (\<lambda>_.
         rbind (required_string m ''call_id'') (\<lambda>i.
         rbind (function_output (map_of m ''output'')) (\<lambda>text.
           Inr \<lparr>parsed = \<lparr>role = ''tool'', content = [ToolResultPart
                  \<lparr>result_call_id = i, result_output = text\<rparr>]\<rparr>, images = []\<rparr>)))
       else Inl (unsupported ''Responses input item type is unsupported''))"

section \<open>Images\<close>

record located_image =
  message_index :: nat
  pending :: pending_image

record collected =
  collected_messages :: "generation_message list"
  collected_images :: "located_image list"

text \<open>The loops over the messages: a parsed message is appended and its images located in it.\<close>

definition collect :: "(json \<Rightarrow> parsed_message result) \<Rightarrow> collected \<Rightarrow> json \<Rightarrow> collected result" where
  "collect parse acc v =
     rbind (parse v) (\<lambda>p. Inr
       \<lparr>collected_messages = collected_messages acc @ [parsed p],
        collected_images = collected_images acc @
          map (\<lambda>i. \<lparr>message_index = length (collected_messages acc), pending = i\<rparr>) (images p)\<rparr>)"

definition maximum_soft_tokens :: nat where
  "maximum_soft_tokens = 280"

definition automatic_soft_token_budget :: "nat \<Rightarrow> nat \<Rightarrow> nat \<Rightarrow> nat" where
  "automatic_soft_token_budget context_tokens reserved image_count =
     (if image_count = 0 then maximum_soft_tokens
      else
        let available = (if reserved < context_tokens then context_tokens - reserved else image_count)
        in max 1 (min (available div image_count) maximum_soft_tokens))"

definition audio_tokens :: "generation_message list \<Rightarrow> nat" where
  "audio_tokens ms =
     sum_list (map (\<lambda>part. case part of AudioPart a \<Rightarrow> (length (samples a) + 639) div 640 | _ \<Rightarrow> 0)
       (concat (map content ms)))"

definition image_budget :: "nat \<Rightarrow> generation_message list \<Rightarrow> located_image list \<Rightarrow> nat" where
  "image_budget context_tokens ms imgs =
     automatic_soft_token_budget context_tokens
       (min 128 (context_tokens div 4) + audio_tokens ms + 64 + length imgs * 2) (length imgs)"

definition place_image :: "image_loader \<Rightarrow> nat \<Rightarrow> generation_message list \<Rightarrow> located_image \<Rightarrow>
    generation_message list result" where
  "place_image load_image budget ms l =
     rbind (load_image (encoded_image (pending l)) (source_name (pending l)) budget False) (\<lambda>image.
       let m = ms ! message_index l
       in Inr (ms[message_index l := m\<lparr>content := (content m)[part_index (pending l) := ImagePart image]\<rparr>]))"

definition load_images :: "image_loader \<Rightarrow> nat \<Rightarrow> located_image list \<Rightarrow> generation_request \<Rightarrow>
    generation_request result" where
  "load_images load_image context_tokens imgs r =
     rbind (rfold (place_image load_image (image_budget context_tokens (messages r) imgs)) (messages r) imgs)
       (\<lambda>ms. Inr (r\<lparr>messages := ms\<rparr>))"

section \<open>Shared request fields\<close>

definition request_limits :: json_limits where
  "request_limits = \<lparr>max_depth = 64, max_values = 1000000, max_string_bytes = 16 * 1024 * 1024\<rparr>"

definition request_object :: "string \<Rightarrow> (string \<times> json) list result" where
  "request_object body =
     rbind (rguard (length body \<le> 16 * 1024 * 1024) (invalid ''request body exceeds 16 MiB'')) (\<lambda>_.
     rbind (json_parse body request_limits) (\<lambda>root. as_members root ''request body must be an object''))"

definition token_limit :: "json option \<Rightarrow> string \<Rightarrow> nat option result" where
  "token_limit field msg =
     (case field of
        None \<Rightarrow> Inr None
      | Some (JInt i) \<Rightarrow> if i \<le> 0 then Inl (invalid msg) else Inr (Some (nat i))
      | Some _ \<Rightarrow> Inl (invalid msg))"

definition effort_word :: "string \<Rightarrow> string \<Rightarrow> thinking_effort result" where
  "effort_word s msg =
     (if s = ''none'' then Inr ThinkOff
      else if s = ''low'' then Inr ThinkSmall
      else if s = ''medium'' then Inr ThinkMedium
      else if s = ''high'' then Inr ThinkHigh
      else Inl (invalid msg))"

definition tool_list :: "(json \<Rightarrow> tool_definition result) \<Rightarrow> json option \<Rightarrow> tool_definition list result" where
  "tool_list parse field =
     (case field of
        None \<Rightarrow> Inr []
      | Some (JArray vs) \<Rightarrow> rfold (\<lambda>ts v. rbind (parse v) (\<lambda>t. Inr (ts @ [t]))) [] vs
      | Some _ \<Rightarrow> Inl (invalid ''tools must be an array''))"

section \<open>Chat Completions\<close>

record chat_request =
  chat_model :: string
  generation :: generation_request
  stream :: bool
  include_usage :: bool

definition chat_fields :: "string list" where
  "chat_fields = [''model'', ''messages'', ''max_completion_tokens'', ''max_tokens'', ''stream'',
     ''stream_options'', ''reasoning_effort'', ''tools'', ''tool_choice'', ''parallel_tool_calls'', ''n'']"

definition chat_messages :: "audio_loader \<Rightarrow> json option \<Rightarrow> collected result" where
  "chat_messages load_audio field =
     (case field of
        Some (JArray vs) \<Rightarrow>
          if vs = [] then Inl (invalid (quoted ''messages'' @ '' must be a non-empty array''))
          else rfold (collect (parse_message load_audio)) \<lparr>collected_messages = [], collected_images = []\<rparr> vs
      | _ \<Rightarrow> Inl (invalid (quoted ''messages'' @ '' must be a non-empty array'')))"

definition chat_token_limit :: "(string \<times> json) list \<Rightarrow> nat option result" where
  "chat_token_limit m =
     token_limit (case map_of m ''max_completion_tokens'' of None \<Rightarrow> map_of m ''max_tokens'' | Some v \<Rightarrow> Some v)
       ''max completion tokens must be a positive integer''"

definition chat_stream_options :: "json option \<Rightarrow> bool result" where
  "chat_stream_options field =
     (case field of
        None \<Rightarrow> Inr False
      | Some (JObject m) \<Rightarrow>
          rbind (reject_unknown_fields m [''include_usage''] ''stream_options'') (\<lambda>_.
            optional_bool (map_of m ''include_usage'') False ''include_usage must be a boolean'')
      | Some _ \<Rightarrow> Inl (invalid ''stream_options must be an object''))"

definition chat_effort :: "json option \<Rightarrow> thinking_effort result" where
  "chat_effort field =
     (case field of
        None \<Rightarrow> Inr ThinkMedium
      | Some (JString s) \<Rightarrow> effort_word s ''reasoning_effort must be none, low, medium, or high''
      | Some _ \<Rightarrow> Inl (invalid ''reasoning_effort must be a string''))"

definition choice_field :: "(json \<Rightarrow> tool_choice result) \<Rightarrow> json option \<Rightarrow> tool_choice result" where
  "choice_field parse field = (case field of None \<Rightarrow> Inr default_tool_choice | Some v \<Rightarrow> parse v)"

definition parse_chat_request :: "audio_loader \<Rightarrow> image_loader \<Rightarrow> nat \<Rightarrow> string \<Rightarrow> chat_request result" where
  "parse_chat_request load_audio load_image context_tokens body =
     rbind (request_object body) (\<lambda>m.
     rbind (reject_unknown_fields m chat_fields ''Chat Completions request'') (\<lambda>_.
     rbind (required_string m ''model'') (\<lambda>model.
     rbind (chat_messages load_audio (map_of m ''messages'')) (\<lambda>c.
     rbind (chat_token_limit m) (\<lambda>limit.
     rbind (optional_bool (map_of m ''stream'') False ''stream must be a boolean'') (\<lambda>streamed.
     rbind (chat_stream_options (map_of m ''stream_options'')) (\<lambda>usage.
     rbind (chat_effort (map_of m ''reasoning_effort'')) (\<lambda>effort.
     rbind (tool_list parse_tool (map_of m ''tools'')) (\<lambda>tools.
     rbind (choice_field parse_tool_choice (map_of m ''tool_choice'')) (\<lambda>choice.
     rbind (optional_bool (map_of m ''parallel_tool_calls'') True
              ''parallel_tool_calls must be a boolean'') (\<lambda>parallel.
     rbind (rguard (map_of m ''n'' \<in> {None, Some (JInt 1)}) (unsupported ''only n=1 is supported'')) (\<lambda>_.
     rbind (validate_tool_definitions tools) (\<lambda>_.
     rbind (load_images load_image context_tokens (collected_images c)
              \<lparr>messages = collected_messages c, max_generated_tokens = limit, thinking = effort,
               request_tools = tools, request_tool_choice = choice, parallel_tool_calls = parallel\<rparr>) (\<lambda>g.
       Inr \<lparr>chat_model = model, generation = g, stream = streamed, include_usage = usage\<rparr>))))))))))))))"

section \<open>Responses\<close>

record responses_request =
  responses_model :: string
  responses_generation :: generation_request
  previous_response_id :: "string option"
  instructions :: "string option"
  responses_stream :: bool
  store :: bool
  tools_present :: bool
  tool_choice_present :: bool

definition responses_fields :: "string list" where
  "responses_fields = [''model'', ''input'', ''instructions'', ''max_output_tokens'', ''stream'', ''store'',
     ''reasoning'', ''tools'', ''tool_choice'', ''parallel_tool_calls'', ''previous_response_id'']"

definition previous_field :: "json option \<Rightarrow> string option result" where
  "previous_field field =
     (case field of
        None \<Rightarrow> Inr None
      | Some JNull \<Rightarrow> Inr None
      | Some (JString s) \<Rightarrow>
          if s = [] then Inl (invalid ''previous_response_id must be a non-empty string or null'')
          else Inr (Some s)
      | Some _ \<Rightarrow> Inl (invalid ''previous_response_id must be a non-empty string or null''))"

definition instructions_field :: "string option \<Rightarrow> json option \<Rightarrow> string option result" where
  "instructions_field previous field =
     (case field of
        None \<Rightarrow> Inr None
      | Some JNull \<Rightarrow> Inr None
      | Some (JString s) \<Rightarrow>
          if previous \<noteq> None then Inl (unsupported
            ''changing instructions on a resident previous_response_id chain is not yet supported'')
          else Inr (Some s)
      | Some _ \<Rightarrow> Inl (invalid ''instructions must be a string or null''))"

definition instruction_messages :: "string option \<Rightarrow> generation_message list" where
  "instruction_messages ins = (case ins of None \<Rightarrow> [] | Some s \<Rightarrow> [text_message ''system'' s])"

definition input_messages :: "audio_loader \<Rightarrow> generation_message list \<Rightarrow> json option \<Rightarrow> collected result" where
  "input_messages load_audio before field =
     (case field of
        None \<Rightarrow> Inl (invalid (quoted ''input'' @ '' is required''))
      | Some (JString s) \<Rightarrow>
          Inr \<lparr>collected_messages = before @ [text_message ''user'' s], collected_images = []\<rparr>
      | Some (JArray items) \<Rightarrow>
          if items = [] then Inl (invalid (quoted ''input'' @ '' must be a string or non-empty array''))
          else rfold (collect (input_item load_audio))
                 \<lparr>collected_messages = before, collected_images = []\<rparr> items
      | Some _ \<Rightarrow> Inl (invalid (quoted ''input'' @ '' must be a string or non-empty array'')))"

definition reasoning_field :: "json option \<Rightarrow> thinking_effort result" where
  "reasoning_field field =
     (case field of
        None \<Rightarrow> Inr ThinkMedium
      | Some (JObject m) \<Rightarrow>
          rbind (reject_unknown_fields m [''effort''] ''reasoning'') (\<lambda>_.
            case map_of m ''effort'' of
              None \<Rightarrow> Inr ThinkMedium
            | Some JNull \<Rightarrow> Inr ThinkMedium
            | Some (JString s) \<Rightarrow> effort_word s ''reasoning.effort must be none, low, medium, or high''
            | Some _ \<Rightarrow> Inl (invalid ''reasoning.effort must be a string''))
      | Some _ \<Rightarrow> Inl (invalid ''reasoning must be an object''))"

definition parse_responses_request :: "audio_loader \<Rightarrow> image_loader \<Rightarrow> nat \<Rightarrow> string \<Rightarrow> responses_request result" where
  "parse_responses_request load_audio load_image context_tokens body =
     rbind (request_object body) (\<lambda>m.
     rbind (reject_unknown_fields m responses_fields ''Responses request'') (\<lambda>_.
     rbind (required_string m ''model'') (\<lambda>model.
     rbind (previous_field (map_of m ''previous_response_id'')) (\<lambda>previous.
     rbind (instructions_field previous (map_of m ''instructions'')) (\<lambda>ins.
     rbind (input_messages load_audio (instruction_messages ins) (map_of m ''input'')) (\<lambda>c.
     rbind (token_limit (map_of m ''max_output_tokens'') ''max_output_tokens must be a positive integer'') (\<lambda>limit.
     rbind (optional_bool (map_of m ''stream'') False ''stream must be a boolean'') (\<lambda>streamed.
     rbind (optional_bool (map_of m ''store'') True ''store must be a boolean'') (\<lambda>stored.
     rbind (rguard stored (unsupported
              ''the resident Responses chain currently requires store=true'')) (\<lambda>_.
     rbind (reasoning_field (map_of m ''reasoning'')) (\<lambda>effort.
     rbind (tool_list parse_responses_tool (map_of m ''tools'')) (\<lambda>tools.
     rbind (choice_field parse_responses_tool_choice (map_of m ''tool_choice'')) (\<lambda>choice.
     rbind (optional_bool (map_of m ''parallel_tool_calls'') True
              ''parallel_tool_calls must be a boolean'') (\<lambda>parallel.
     rbind (validate_tool_definitions tools) (\<lambda>_.
     rbind (load_images load_image context_tokens (collected_images c)
              \<lparr>messages = collected_messages c, max_generated_tokens = limit, thinking = effort,
               request_tools = tools, request_tool_choice = choice, parallel_tool_calls = parallel\<rparr>) (\<lambda>g.
       Inr \<lparr>responses_model = model, responses_generation = g, previous_response_id = previous,
            instructions = ins, responses_stream = streamed, store = stored,
            tools_present = map_of m ''tools'' \<noteq> None,
            tool_choice_present = map_of m ''tool_choice'' \<noteq> None\<rparr>))))))))))))))))"

section \<open>Base 64 round trip\<close>

text \<open>The encoder of RFC 4648, as the reference.\<close>

definition base64_char :: "nat \<Rightarrow> char" where
  "base64_char n = ''ABCDEFGHIJKLMNOPQRSTUVWXYZabcdefghijklmnopqrstuvwxyz0123456789+/'' ! n"

fun base64_encode :: "string \<Rightarrow> string" where
  "base64_encode [] = []"
| "base64_encode [x] = [base64_char (byte x div 4), base64_char (byte x mod 4 * 16), CHR ''='', CHR ''='']"
| "base64_encode [x, y] = [base64_char (byte x div 4), base64_char (byte x mod 4 * 16 + byte y div 16),
     base64_char (byte y mod 16 * 4), CHR ''='']"
| "base64_encode (x # y # z # more_bytes) = [base64_char (byte x div 4),
     base64_char (byte x mod 4 * 16 + byte y div 16), base64_char (byte y mod 16 * 4 + byte z div 64),
     base64_char (byte z mod 64)] @ base64_encode more_bytes"

lemma upt_64: "[0..<64] = 0 # 1 # [2..<64]"
  by (simp add: upt_conv_Cons numeral_2_eq_2)

lemma base64_char_table: "list_all (\<lambda>n. base64_value (base64_char n) = int n \<and> base64_char n \<noteq> CHR ''='') [0..<64]"
  by (simp add: upt_64 base64_char_def base64_value_def byte_def Let_def upt_rec_numeral)

lemma base64_value_char [simp]:
  "n < 64 \<Longrightarrow> base64_value (base64_char n) = int n" "n < 64 \<Longrightarrow> base64_char n \<noteq> CHR ''=''"
  using base64_char_table by (auto simp: list_all_iff)

lemma or_push_bit: "y < 2 ^ k \<Longrightarrow> push_bit k x OR y = x * 2 ^ k + (y :: nat)"
proof -
  assume "y < 2 ^ k"
  then have t: "take_bit k y = y" by (simp add: take_bit_nat_eq_self)
  have "push_bit k x AND take_bit k y = 0"
    by (rule bit_eqI) (auto simp: bit_simps)
  then have "push_bit k x AND y = 0" by (simp add: t)
  then show ?thesis using disjunctive_add_eq_or [of "push_bit k x" y] by (simp add: push_bit_eq_mult)
qed

lemma base64_bits_nat:
  assumes "a < 64" "b < 64" "c < 64" "d < 64"
  shows "base64_bits (int a) (int b) (int c) (int d) = of_nat (a * 2 ^ 18 + b * 2 ^ 12 + c * 2 ^ 6 + d)"
proof -
  have 1: "push_bit 6 c OR d = c * 64 + d" using or_push_bit [of d 6 c] assms by simp
  have 2: "push_bit 12 b OR (c * 64 + d) = b * 4096 + (c * 64 + d)" using or_push_bit [of "c * 64 + d" 12 b] assms by simp
  have 3: "push_bit 18 a OR (b * 4096 + (c * 64 + d)) = a * 262144 + (b * 4096 + (c * 64 + d))"
    using or_push_bit [of "b * 4096 + (c * 64 + d)" 18 a] assms by simp
  have "base64_bits (int a) (int b) (int c) (int d) =
      of_nat (push_bit 18 a OR (push_bit 12 b OR (push_bit 6 c OR d)))"
    by (simp only: base64_bits_def of_nat_or_eq of_nat_push_bit or.assoc of_int_of_nat_eq)
  then show ?thesis unfolding 1 2 3 by simp
qed

lemma bits_byte_nat:
  assumes "n < 2 ^ 32"
  shows "bits_byte k (of_nat n) = chr (n div 2 ^ k mod 256)"
proof -
  have "unat (of_nat n :: 32 word) = n" using assms by (simp add: unat_of_nat)
  then show ?thesis unfolding bits_byte_def unat_drop_bit_eq by (simp add: drop_bit_eq_div)
qed

lemma base64_value_pad [simp]: "base64_value (CHR ''='') = - 1"
  by (simp add: base64_value_def byte_def Let_def)

text \<open>One group of four characters, whole or with one or two pads at the end.\<close>

lemma base64_group:
  assumes "a < 64" "b < 64" "c < 64" "d < 64" "n = a * 2 ^ 18 + b * 2 ^ 12 + c * 2 ^ 6 + d"
  shows "base64_groups (base64_char a # base64_char b # base64_char c # base64_char d # t) =
      rbind (base64_groups t) (\<lambda>u. Inr (chr (n div 2 ^ 16 mod 256) # chr (n div 2 ^ 8 mod 256) # chr (n mod 256) # u))"
proof -
  have "n < 2 ^ 32" using assms by simp
  moreover have "base64_bits (int a) (int b) (int c) (int d) = of_nat n"
    using base64_bits_nat [OF assms(1-4)] assms(5) by (simp only:)
  ultimately show ?thesis
    using bits_byte_nat [of n 16] bits_byte_nat [of n 8] bits_byte_nat [of n 0]
    by (simp add: assms(1-4) Let_def)
qed

lemma base64_group_pad:
  assumes "a < 64" "b < 64" "c < 64" "n = a * 2 ^ 18 + b * 2 ^ 12 + c * 2 ^ 6"
  shows "base64_groups [base64_char a, base64_char b, base64_char c, CHR ''=''] =
      Inr [chr (n div 2 ^ 16 mod 256), chr (n div 2 ^ 8 mod 256)]"
    and "c = 0 \<Longrightarrow> base64_groups [base64_char a, base64_char b, CHR ''='', CHR ''=''] = Inr [chr (n div 2 ^ 16 mod 256)]"
proof -
  have n: "n < 2 ^ 32" using assms by simp
  have b: "base64_bits (int a) (int b) (int c) 0 = of_nat n"
    using base64_bits_nat [of a b c 0] assms by simp
  show "base64_groups [base64_char a, base64_char b, base64_char c, CHR ''=''] =
      Inr [chr (n div 2 ^ 16 mod 256), chr (n div 2 ^ 8 mod 256)]"
    using bits_byte_nat [OF n, of 16] bits_byte_nat [OF n, of 8] by (simp add: assms(1-3) Let_def b)
  show "base64_groups [base64_char a, base64_char b, CHR ''='', CHR ''=''] = Inr [chr (n div 2 ^ 16 mod 256)]" if "c = 0"
    using bits_byte_nat [OF n, of 16] b that by (simp add: assms(1-3) Let_def)
qed

lemma regroup:
  "q * 2 ^ 18 + (r * 16 + s) * 2 ^ 12 + (t * 4 + u) * 2 ^ 6 + v =
     (q * 4 + r) * 65536 + (s * 16 + t) * 256 + (u * 64 + (v :: nat))"
  by simp

lemma three_bytes:
  fixes x y z :: nat
  assumes "x < 256" "y < 256" "z < 256" "n = x * 65536 + y * 256 + z"
  shows "n div 2 ^ 16 mod 256 = x" "n div 2 ^ 8 mod 256 = y" "n mod 256 = z"
proof -
  have n: "n = z + (y + x * 256) * 256" using assms(4) by simp
  have 1: "n div 256 = y + x * 256" using assms(3) unfolding n by simp
  have "n div 2 ^ 16 = n div 256 div 256" by (simp add: div_mult2_eq [symmetric])
  then show "n div 2 ^ 16 mod 256 = x" using 1 assms(1,2) by simp
  show "n div 2 ^ 8 mod 256 = y" using 1 assms(2) by simp
  show "n mod 256 = z" using assms(3) unfolding n by (simp only: mod_mult_self1 mod_less)
qed

lemma sextets:
  fixes x y z :: nat
  assumes "x < 256" "y < 256" "z < 256"
  shows "x div 4 < 64" "x mod 4 * 16 + y div 16 < 64" "y mod 16 * 4 + z div 64 < 64"
proof -
  have "x div 4 < 64" "y div 16 < 16" "z div 64 < 4" using assms by (auto intro: less_mult_imp_div_less)
  moreover have "x mod 4 < 4" "y mod 16 < 16" by simp_all
  ultimately show "x div 4 < 64" "x mod 4 * 16 + y div 16 < 64" "y mod 16 * 4 + z div 64 < 64" by linarith+
qed

lemma base64_groups_encode: "base64_groups (base64_encode bs) = Inr bs"
proof (induction bs rule: base64_encode.induct)
  case (2 x)
  have x: "byte x < 256" by simp
  define n where "n = byte x div 4 * 2 ^ 18 + byte x mod 4 * 16 * 2 ^ 12 + 0 * 2 ^ 6"
  have "n = byte x * 65536"
  proof -
    have "n = (byte x div 4 * 4 + byte x mod 4) * 65536" unfolding n_def by (simp only: distrib_right) simp
    then show ?thesis by (simp only: div_mult_mod_eq)
  qed
  then have "n div 2 ^ 16 mod 256 = byte x" using x by simp
  with base64_group_pad(2) [OF _ _ _ n_def] x show ?case by simp
next
  case (3 x y)
  have x: "byte x < 256" "byte y < 256" by simp_all
  define n where "n = byte x div 4 * 2 ^ 18 + (byte x mod 4 * 16 + byte y div 16) * 2 ^ 12 + byte y mod 16 * 4 * 2 ^ 6"
  have "n = byte x * 65536 + byte y * 256"
    using regroup [of "byte x div 4" "byte x mod 4" "byte y div 16" "byte y mod 16" 0 0]
    unfolding n_def by (simp only: div_mult_mod_eq) simp
  then have "n div 2 ^ 16 mod 256 = byte x" "n div 2 ^ 8 mod 256 = byte y" using x by simp_all
  with base64_group_pad(1) [OF _ _ _ n_def] x show ?case by simp
next
  case (4 x y z bs)
  have x: "byte x < 256" "byte y < 256" "byte z < 256" by simp_all
  define n where "n = byte x div 4 * 2 ^ 18 + (byte x mod 4 * 16 + byte y div 16) * 2 ^ 12 +
      (byte y mod 16 * 4 + byte z div 64) * 2 ^ 6 + byte z mod 64"
  have "n = byte x * 65536 + byte y * 256 + byte z"
    using regroup [of "byte x div 4" "byte x mod 4" "byte y div 16" "byte y mod 16" "byte z div 64" "byte z mod 64"]
    unfolding n_def by (simp only: div_mult_mod_eq)
  note bytes = three_bytes [OF x this]
  have "byte x div 4 < 64" "byte x mod 4 * 16 + byte y div 16 < 64"
    "byte y mod 16 * 4 + byte z div 64 < 64" "byte z mod 64 < 64"
    using sextets [OF x] by simp_all
  from base64_group [OF this n_def, of "base64_encode bs"] bytes 4 show ?case
    by (simp del: base64_groups.simps)
qed simp

lemma length_base64_encode: "length (base64_encode bs) = (length bs + 2) div 3 * 4"
  by (induction bs rule: base64_encode.induct) (simp_all, presburger)

text \<open>C23. A media payload in standard base 64 decodes to exactly the bytes that were encoded, whatever
  they are, up to the 12 MiB that fit the bound on the encoded length.\<close>

theorem decode_base64_encode:
  assumes "bs \<noteq> []" "length bs \<le> 12 * 1024 * 1024"
  shows "decode_base64 (base64_encode bs) = Inr bs"
proof -
  have "base64_encode bs \<noteq> []" using assms(1) by (cases bs rule: base64_encode.cases) simp_all
  moreover have "length (base64_encode bs) \<le> 16 * 1024 * 1024"
    using assms(2) unfolding length_base64_encode by simp
  ultimately show ?thesis
    using base64_groups_encode [of bs] by (simp add: decode_base64_def length_base64_encode)
qed

lemma decode_base64_encode_witness: "decode_base64 (base64_encode ''RIFF'') = Inr ''RIFF''"
  by (rule decode_base64_encode) simp_all

end
