(* ===== verification/Request_Checks.thy ===== *)
theory Request_Checks
  imports Openai_Request
begin

text \<open>
  What an accepted request of either adapter is known to satisfy: the roles and contents of its
  messages, its limits and tools, and that every image in it came out of the image decoder.
\<close>

section \<open>Messages\<close>

text \<open>Every image part of a parsed message is one of the images waiting to be decoded.\<close>

definition images_pending :: "parsed_message \<Rightarrow> bool" where
  "images_pending p \<longleftrightarrow> (\<forall>k < length (content (parsed p)). \<forall>im.
     content (parsed p) ! k = ImagePart im \<longrightarrow> k \<in> part_index ` set (images p))"

lemma images_pending_start [intro]: "content (parsed p) = [] \<Longrightarrow> images_pending p"
  by (simp add: images_pending_def)

lemma images_pending_add:
  "images_pending p \<Longrightarrow> (\<And>im. part \<noteq> ImagePart im) \<Longrightarrow> images_pending (add_part part p)"
  by (auto simp: images_pending_def add_part_def nth_append less_Suc_eq)

lemma images_pending_image: "images_pending p \<Longrightarrow> images_pending (add_image b src p)"
  by (auto simp: images_pending_def add_image_def add_part_def nth_append less_Suc_eq)

lemma add_part_role [simp]: "role (parsed (add_part part p)) = role (parsed p)"
  "role (parsed (add_image b src p)) = role (parsed p)"
  by (simp_all add: add_part_def add_image_def)

lemma add_part_content [simp]: "content (parsed (add_part part p)) \<noteq> []"
  "content (parsed (add_image b src p)) \<noteq> []"
  by (simp_all add: add_part_def add_image_def)

text \<open>The steps of the content loops only append parts.\<close>

definition extends_message :: "parsed_message \<Rightarrow> parsed_message \<Rightarrow> bool" where
  "extends_message p q \<longleftrightarrow> (images_pending p \<longrightarrow> images_pending q) \<and> role (parsed q) = role (parsed p) \<and>
     content (parsed q) \<noteq> []"

lemma extends_part [simp]:
  "extends_message p (add_part (TextPart t) p)" "extends_message p (add_part (AudioPart a) p)"
  "extends_message p (add_part (ToolCallPart c) p)" "extends_message p (add_image b src p)"
  by (simp_all add: extends_message_def images_pending_add images_pending_image)

lemma message_part_extends: "message_part la p v = Inr q \<Longrightarrow> extends_message p q"
  unfolding message_part_def rbind_Inr_iff by (elim exE conjE) (simp add: rbind_Inr_iff split: if_split_asm, safe, simp_all)

lemma responses_part_extends: "responses_part la p v = Inr q \<Longrightarrow> extends_message p q"
  unfolding responses_part_def rbind_Inr_iff by (elim exE conjE) (simp add: rbind_Inr_iff split: if_split_asm, safe, simp_all)

lemma message_call_extends: "message_call p v = Inr q \<Longrightarrow> extends_message p q"
  unfolding message_call_def rbind_Inr_iff by (elim exE conjE) (simp, safe, simp_all)

definition kept_message :: "parsed_message \<Rightarrow> parsed_message \<Rightarrow> bool" where
  "kept_message p q \<longleftrightarrow> images_pending q \<and> role (parsed q) = role (parsed p)"

lemma rfold_kept:
  assumes "rfold f p vs = Inr q" "images_pending p" "\<And>u v w. f u v = Inr w \<Longrightarrow> extends_message u w"
  shows "kept_message p q"
  by (rule rfold_invariant [OF assms(1), where P = "kept_message p"])
    (use assms(2) in \<open>auto simp: kept_message_def extends_message_def dest!: assms(3)\<close>)

lemma rfold_extends:
  assumes "rfold f p vs = Inr q" "vs \<noteq> []" "\<And>u v w. f u v = Inr w \<Longrightarrow> extends_message u w"
  shows "content (parsed q) \<noteq> []"
proof -
  from assms(2) obtain v where v: "vs = butlast vs @ [v]" by (metis append_butlast_last_id)
  then have "rfold f p (butlast vs @ [v]) = Inr q" using assms(1) by simp
  then obtain u where "f u v = Inr q" by (auto simp: rfold_append rbind_Inr_iff)
  then show ?thesis using assms(3) by (auto simp: extends_message_def)
qed

definition message_roles :: "string set" where
  "message_roles = {''system'', ''user'', ''assistant'', ''tool''}"

definition good_message :: "parsed_message \<Rightarrow> bool" where
  "good_message p \<longleftrightarrow> images_pending p \<and> role (parsed p) \<in> message_roles \<and> content (parsed p) \<noteq> []"

lemma message_content_kept:
  "message_content la p field = Inr q \<Longrightarrow> images_pending p \<Longrightarrow> kept_message p q"
  by (auto simp: message_content_def kept_message_def split: option.splits json.splits
      intro: images_pending_add rfold_kept [unfolded kept_message_def, rotated 2, OF message_part_extends]
      dest: rfold_kept [OF _ _ message_part_extends, unfolded kept_message_def])

lemma message_calls_kept:
  "message_calls p field = Inr q \<Longrightarrow> images_pending p \<Longrightarrow> kept_message p q"
  by (auto simp: message_calls_def kept_message_def split: option.splits json.splits if_splits
      dest: rfold_kept [OF _ _ message_call_extends, unfolded kept_message_def])

lemma start_kept: "kept_message \<lparr>parsed = \<lparr>role = r, content = []\<rparr>, images = []\<rparr> q \<Longrightarrow>
    images_pending q \<and> role (parsed q) = r"
  by (simp add: kept_message_def)

lemma tool_message_good:
  assumes "tool_message m = Inr p"
  shows "good_message p"
proof -
  obtain i s where "map_of m ''content'' = Some (JString s)"
    "p = \<lparr>parsed = \<lparr>role = ''tool'', content = [ToolResultPart \<lparr>result_call_id = i, result_output = s\<rparr>]\<rparr>, images = []\<rparr>"
    using assms unfolding tool_message_def rbind_Inr_iff by (elim exE conjE) (simp split: option.split_asm json.split_asm, metis)
  then show ?thesis by (simp add: good_message_def images_pending_def message_roles_def)
qed

lemma parse_message_good: 
  assumes "parse_message la v = Inr p"
  shows "good_message p"
proof -
  obtain m r0 where r: "effective_role r0 \<in> message_roles"
    and body: "(if effective_role r0 = ''tool'' then tool_message m
       else
         rbind (message_content la \<lparr>parsed = \<lparr>role = effective_role r0, content = []\<rparr>, images = []\<rparr>
                  (map_of m ''content'')) (\<lambda>p.
         rbind (message_calls p (map_of m ''tool_calls'')) (\<lambda>q.
         rbind (rguard (content (parsed q) \<noteq> []) (invalid ''message must contain text or tool calls'')) (\<lambda>_.
           Inr q)))) = Inr p"
    using assms unfolding parse_message_def Let_def rbind_Inr_iff message_roles_def by auto
  show ?thesis
  proof (cases "effective_role r0 = ''tool''")
    case True
    with body show ?thesis by (simp add: tool_message_good)
  next
    case False
    with body obtain q where
      q: "message_content la \<lparr>parsed = \<lparr>role = effective_role r0, content = []\<rparr>, images = []\<rparr>
             (map_of m ''content'') = Inr q"
        "message_calls q (map_of m ''tool_calls'') = Inr p" "content (parsed p) \<noteq> []"
      by (auto simp: rbind_Inr_iff)
    have "images_pending \<lparr>parsed = \<lparr>role = effective_role r0, content = []\<rparr>, images = []\<rparr>"
      by (simp add: images_pending_def)
    from message_content_kept [OF q(1) this] have 1: "images_pending q \<and> role (parsed q) = effective_role r0"
      by (rule start_kept)
    then have "kept_message q p" using message_calls_kept q(2) by blast
    with 1 q(3) r show ?thesis by (simp add: kept_message_def good_message_def)
  qed
qed

lemma parse_responses_message_good:
  assumes "parse_responses_message la v = Inr p"
  shows "good_message p"
proof -
  obtain m r0 where r: "effective_role r0 \<in> message_roles"
    and body: "(case map_of m ''content'' of
         None \<Rightarrow> Inl (invalid ''message content is required'')
       | Some (JString s) \<Rightarrow> Inr (add_part (TextPart s) \<lparr>parsed = \<lparr>role = effective_role r0, content = []\<rparr>, images = []\<rparr>)
       | Some (JArray parts) \<Rightarrow>
           if parts = [] then Inl (invalid ''message content must be a string or non-empty array'')
           else rfold (responses_part la) \<lparr>parsed = \<lparr>role = effective_role r0, content = []\<rparr>, images = []\<rparr> parts
       | Some _ \<Rightarrow> Inl (invalid ''message content must be a string or non-empty array'')) = Inr p"
    using assms unfolding parse_responses_message_def Let_def rbind_Inr_iff message_roles_def by auto
  let ?e = "\<lparr>parsed = \<lparr>role = effective_role r0, content = []\<rparr>, images = []\<rparr>"
  have e: "images_pending ?e" by (simp add: images_pending_def)
  consider s where "p = add_part (TextPart s) ?e"
    | parts where "parts \<noteq> []" "rfold (responses_part la) ?e parts = Inr p"
    using body by (auto split: option.splits json.splits if_splits)
  then show ?thesis
  proof cases
    case 1
    with r e show ?thesis by (simp add: good_message_def images_pending_add)
  next
    case 2
    from rfold_kept [OF 2(2) e] responses_part_extends have "kept_message ?e p" by blast
    moreover from rfold_extends [OF 2(2,1)] responses_part_extends have "content (parsed p) \<noteq> []" by blast
    ultimately show ?thesis using r by (simp add: kept_message_def good_message_def)
  qed
qed

lemma input_item_good:
  assumes "input_item la v = Inr p"
  shows "good_message p"
proof -
  consider "parse_responses_message la v = Inr p"
    | c where "p = \<lparr>parsed = \<lparr>role = ''assistant'', content = [ToolCallPart c]\<rparr>, images = []\<rparr>"
    | c where "p = \<lparr>parsed = \<lparr>role = ''tool'', content = [ToolResultPart c]\<rparr>, images = []\<rparr>"
    using assms by (auto simp: input_item_def rbind_Inr_iff split: if_splits)
  then show ?thesis
    by cases (rule parse_responses_message_good, assumption,
      simp_all add: good_message_def images_pending_def message_roles_def)
qed

section \<open>Images\<close>

text \<open>What is known of the messages while the images are being decoded: an image part is decoded
  already or among those to come.\<close>

definition decoded :: "image_loader \<Rightarrow> vision_image \<Rightarrow> bool" where
  "decoded li im \<longleftrightarrow> (\<exists>bytes source budget.
     li bytes source budget False = Inr im \<and> 1 \<le> budget \<and> budget \<le> maximum_soft_tokens)"

definition located :: "located_image \<Rightarrow> nat \<times> nat" where
  "located l = (message_index l, part_index (pending l))"

definition images_covered :: "image_loader \<Rightarrow> generation_message list \<Rightarrow> located_image list \<Rightarrow> bool" where
  "images_covered li ms todo \<longleftrightarrow> (\<forall>j < length ms. \<forall>k < length (content (ms ! j)). \<forall>im.
     content (ms ! j) ! k = ImagePart im \<longrightarrow> decoded li im \<or> (j, k) \<in> located ` set todo)"

definition message_ok :: "generation_message \<Rightarrow> bool" where
  "message_ok m \<longleftrightarrow> role m \<in> message_roles \<and> content m \<noteq> []"

lemma collect_covered:
  assumes "collect parse acc v = Inr acc'" "\<And>p. parse v = Inr p \<Longrightarrow> good_message p"
    "images_covered li (collected_messages acc) (collected_images acc)"
    "\<forall>m \<in> set (collected_messages acc). message_ok m"
  shows "images_covered li (collected_messages acc') (collected_images acc')"
    and "\<forall>m \<in> set (collected_messages acc'). message_ok m"
    and "collected_messages acc' \<noteq> []"
proof -
  obtain p where p: "parse v = Inr p" and acc': "acc' =
       \<lparr>collected_messages = collected_messages acc @ [parsed p],
        collected_images = collected_images acc @
          map (\<lambda>i. \<lparr>message_index = length (collected_messages acc), pending = i\<rparr>) (images p)\<rparr>"
    using assms(1) by (auto simp: collect_def rbind_Inr_iff)
  have g: "good_message p" using assms(2) p by simp
  then show "\<forall>m \<in> set (collected_messages acc'). message_ok m"
    using assms(4) by (simp add: acc' message_ok_def good_message_def)
  show "collected_messages acc' \<noteq> []" by (simp add: acc')
  show "images_covered li (collected_messages acc') (collected_images acc')"
    unfolding images_covered_def
  proof (intro allI impI)
    fix j k im
    assume j: "j < length (collected_messages acc')" and k: "k < length (content (collected_messages acc' ! j))"
      and im: "content (collected_messages acc' ! j) ! k = ImagePart im"
    show "decoded li im \<or> (j, k) \<in> located ` set (collected_images acc')"
    proof (cases "j < length (collected_messages acc)")
      case True
      then have "decoded li im \<or> (j, k) \<in> located ` set (collected_images acc)"
        using assms(3) k im unfolding images_covered_def acc' by (simp add: nth_append)
      then show ?thesis unfolding acc' by auto
    next
      case False
      then have jl: "j = length (collected_messages acc)" using j acc' by simp
      then have "k \<in> part_index ` set (images p)"
        using g k im unfolding good_message_def images_pending_def acc' by simp
      then show ?thesis unfolding acc' jl by (force simp: located_def)
    qed
  qed
qed

lemma place_image_covered:
  assumes "place_image li budget ms l = Inr ms'" "images_covered li ms (l # todo)"
    "1 \<le> budget" "budget \<le> maximum_soft_tokens"
  shows "images_covered li ms' todo"
proof -
  let ?a = "message_index l" and ?b = "part_index (pending l)"
  obtain image where i: "li (encoded_image (pending l)) (source_name (pending l)) budget False = Inr image"
    and ms': "ms' = ms[?a := (ms ! ?a)\<lparr>content := (content (ms ! ?a))[?b := ImagePart image]\<rparr>]"
    using assms(1) by (auto simp: place_image_def rbind_Inr_iff Let_def)
  have d: "decoded li image" using i assms(3,4) unfolding decoded_def by blast
  show ?thesis unfolding images_covered_def
  proof (intro allI impI)
    fix j k im
    assume j: "j < length ms'" and k: "k < length (content (ms' ! j))" and im: "content (ms' ! j) ! k = ImagePart im"
    show "decoded li im \<or> (j, k) \<in> located ` set todo"
    proof (cases "j = ?a \<and> k = ?b")
      case True
      then have "im = image" using j k im unfolding ms' by simp
      with d show ?thesis by simp
    next
      case False
      then have "j < length ms" "k < length (content (ms ! j))" "content (ms ! j) ! k = ImagePart im"
        using j k im unfolding ms' by (cases "j = ?a", auto)+
      then have "decoded li im \<or> (j, k) \<in> located ` set (l # todo)"
        using assms(2) unfolding images_covered_def by blast
      then show ?thesis using False by (auto simp: located_def)
    qed
  qed
qed

lemma place_image_ok:
  assumes "place_image li budget ms l = Inr ms'" "\<forall>m \<in> set ms. message_ok m"
  shows "\<forall>m \<in> set ms'. message_ok m" "length ms' = length ms"
proof -
  let ?a = "message_index l"
  obtain image where ms': "ms' = ms[?a := (ms ! ?a)\<lparr>content := (content (ms ! ?a))[part_index (pending l) := ImagePart image]\<rparr>]"
    using assms(1) by (auto simp: place_image_def rbind_Inr_iff Let_def)
  then show "length ms' = length ms" by simp
  show "\<forall>m \<in> set ms'. message_ok m"
  proof (cases "?a < length ms")
    case True
    then have "message_ok (ms ! ?a)" using assms(2) by simp
    then show ?thesis using assms(2) set_update_subset_insert [of ms ?a] unfolding ms' message_ok_def by fastforce
  next
    case False
    then show ?thesis using assms(2) unfolding ms' by (simp add: list_update_beyond)
  qed
qed

lemma soft_token_budget_bounds:
  "1 \<le> automatic_soft_token_budget n r c" "automatic_soft_token_budget n r c \<le> maximum_soft_tokens"
  by (auto simp: automatic_soft_token_budget_def maximum_soft_tokens_def Let_def)

lemma place_images:
  assumes "rfold (place_image li budget) ms todo = Inr ms'" "images_covered li ms todo"
    "\<forall>m \<in> set ms. message_ok m" "1 \<le> budget" "budget \<le> maximum_soft_tokens"
  shows "images_covered li ms' [] \<and> (\<forall>m \<in> set ms'. message_ok m) \<and> length ms' = length ms"
  using assms
proof (induction todo arbitrary: ms)
  case (Cons l todo)
  obtain u where u: "place_image li budget ms l = Inr u" "rfold (place_image li budget) u todo = Inr ms'"
    using Cons.prems(1) by (auto simp: rbind_Inr_iff)
  show ?case
    using Cons.IH [OF u(2) place_image_covered [OF u(1) Cons.prems(2,4,5)] place_image_ok(1) [OF u(1) Cons.prems(3)]
        Cons.prems(4,5)] place_image_ok(2) [OF u(1) Cons.prems(3)] by simp
qed simp

lemma covered_all_decoded:
  assumes "images_covered li ms []" "m \<in> set ms" "ImagePart im \<in> set (content m)"
  shows "decoded li im"
  using assms unfolding images_covered_def by (metis empty_iff image_empty in_set_conv_nth list.set(1))

lemma load_images_decoded:
  assumes "load_images li n imgs g = Inr g'" "images_covered li (messages g) imgs"
    "\<forall>m \<in> set (messages g). message_ok m"
  shows "\<forall>m \<in> set (messages g'). message_ok m \<and> (\<forall>im. ImagePart im \<in> set (content m) \<longrightarrow> decoded li im)"
    and "length (messages g') = length (messages g)"
    and "max_generated_tokens g' = max_generated_tokens g" "request_tools g' = request_tools g"
proof -
  obtain ms where ms: "rfold (place_image li (image_budget n (messages g) imgs)) (messages g) imgs = Inr ms"
    and g': "g' = g\<lparr>messages := ms\<rparr>"
    using assms(1) by (auto simp: load_images_def rbind_Inr_iff)
  have p: "images_covered li ms [] \<and> (\<forall>m \<in> set ms. message_ok m) \<and> length ms = length (messages g)"
    using place_images [OF ms assms(2,3)] soft_token_budget_bounds unfolding image_budget_def by blast
  then show "\<forall>m \<in> set (messages g'). message_ok m \<and> (\<forall>im. ImagePart im \<in> set (content m) \<longrightarrow> decoded li im)"
    using covered_all_decoded unfolding g' by simp blast
  show "length (messages g') = length (messages g)" "max_generated_tokens g' = max_generated_tokens g"
    "request_tools g' = request_tools g" using p by (simp_all add: g')
qed

lemma collect_all:
  assumes "rfold (collect parse) acc vs = Inr acc'" "\<And>v p. parse v = Inr p \<Longrightarrow> good_message p"
    "images_covered li (collected_messages acc) (collected_images acc)"
    "\<forall>m \<in> set (collected_messages acc). message_ok m"
  shows "images_covered li (collected_messages acc') (collected_images acc') \<and>
    (\<forall>m \<in> set (collected_messages acc'). message_ok m) \<and> (vs \<noteq> [] \<longrightarrow> collected_messages acc' \<noteq> [])"
  using assms(1,3,4)
proof (induction vs arbitrary: acc)
  case (Cons v vs)
  obtain u where u: "collect parse acc v = Inr u" "rfold (collect parse) u vs = Inr acc'"
    using Cons.prems(1) by (auto simp: rbind_Inr_iff)
  note c = collect_covered [OF u(1) assms(2) Cons.prems(2,3)]
  show ?case using Cons.IH [OF u(2) c(1,2)] c(3) u(2) by (cases vs) auto
qed simp

section \<open>Accepted requests\<close>

lemma token_limit_pos: "token_limit field msg = Inr l \<Longrightarrow> l \<noteq> Some 0"
  by (auto simp: token_limit_def split: option.splits json.splits if_splits)

lemma chat_messages_good:
  assumes "chat_messages la field = Inr c"
  shows "images_covered li (collected_messages c) (collected_images c) \<and>
    (\<forall>m \<in> set (collected_messages c). message_ok m) \<and> collected_messages c \<noteq> []"
proof -
  obtain vs where vs: "vs \<noteq> []"
    "rfold (collect (parse_message la)) \<lparr>collected_messages = [], collected_images = []\<rparr> vs = Inr c"
    using assms unfolding chat_messages_def by (simp split: option.split_asm json.split_asm if_split_asm)
  from collect_all [OF vs(2) parse_message_good] vs(1) show ?thesis by (simp add: images_covered_def)
qed

lemma input_messages_good:
  assumes "input_messages la (instruction_messages ins) field = Inr c"
  shows "images_covered li (collected_messages c) (collected_images c) \<and>
    (\<forall>m \<in> set (collected_messages c). message_ok m) \<and> collected_messages c \<noteq> []"
proof -
  have b: "images_covered li (instruction_messages ins @ [text_message ''user'' t]) []"
    "images_covered li (instruction_messages ins) []"
    "\<forall>m \<in> set (instruction_messages ins @ [text_message ''user'' t]). message_ok m" for t
    by (auto simp: images_covered_def instruction_messages_def text_message_def message_ok_def message_roles_def
        less_Suc_eq split: option.splits)
  consider t where "c = \<lparr>collected_messages = instruction_messages ins @ [text_message ''user'' t], collected_images = []\<rparr>"
    | vs where "vs \<noteq> []" "rfold (collect (input_item la))
        \<lparr>collected_messages = instruction_messages ins, collected_images = []\<rparr> vs = Inr c"
    using assms unfolding input_messages_def by (simp split: option.split_asm json.split_asm if_split_asm) metis
  then show ?thesis
  proof cases
    case (1 t)
    then show ?thesis using b by simp
  next
    case (2 vs)
    from collect_all [OF 2(2) input_item_good] 2(1) b(2,3) show ?thesis by simp
  qed
qed

text \<open>C24. An accepted Chat Completions request is well formed: it has messages, each with a known role
  and at least one content part; every image part of them was decoded by the image decoder with a
  soft-token budget between 1 and 280, so no placeholder is left; a token limit is positive; and its
  tools passed validation.\<close>

theorem chat_request_well_formed:
  assumes "parse_chat_request la li n body = Inr r"
  shows "messages (generation r) \<noteq> [] \<and>
    list_all (\<lambda>m. role m \<in> message_roles \<and> content m \<noteq> [] \<and>
      (\<forall>im. ImagePart im \<in> set (content m) \<longrightarrow> decoded li im)) (messages (generation r)) \<and>
    max_generated_tokens (generation r) \<noteq> Some 0 \<and>
    validate_tool_definitions (request_tools (generation r)) = Inr ()"
proof -
  obtain c m limit effort tools choice parallel where
    c: "chat_messages la (map_of m ''messages'') = Inr c" and l: "chat_token_limit m = Inr limit"
    and t: "validate_tool_definitions tools = Inr ()"
    and g: "load_images li n (collected_images c)
              \<lparr>messages = collected_messages c, max_generated_tokens = limit, thinking = effort,
               request_tools = tools, request_tool_choice = choice, parallel_tool_calls = parallel\<rparr> = Inr (generation r)"
    using assms unfolding parse_chat_request_def rbind_Inr_iff by auto
  from chat_messages_good [OF c] have
    cg: "images_covered li (collected_messages c) (collected_images c)"
      "\<forall>m \<in> set (collected_messages c). message_ok m" "collected_messages c \<noteq> []" by simp_all
  have lp: "limit \<noteq> Some 0" using l token_limit_pos unfolding chat_token_limit_def by blast
  note d = load_images_decoded [OF g, simplified, OF cg(1,2)]
  have "list_all (\<lambda>m. role m \<in> message_roles \<and> content m \<noteq> [] \<and>
      (\<forall>im. ImagePart im \<in> set (content m) \<longrightarrow> decoded li im)) (messages (generation r))"
    using d(1) unfolding list_all_iff message_ok_def by blast
  moreover have "messages (generation r) \<noteq> []" using d(2) cg(3) by (metis length_0_conv)
  ultimately show ?thesis using d(3,4) lp t by simp
qed

definition sample_part :: json where
  "sample_part = JObject [(''image_url'', JObject [(''url'', JString ''data:image/png;base64,QUJD'')]),
     (''type'', JString ''image_url'')]"

definition sample_chat :: json where
  "sample_chat = JObject [(''messages'', JArray [JObject [(''content'', JArray [sample_part]),
     (''role'', JString ''user'')]]), (''model'', JString ''gemma'')]"

definition sample_audio_loader :: audio_loader where
  "sample_audio_loader bytes source = Inl (unsupported source)"

definition sample_image_loader :: image_loader where
  "sample_image_loader bytes source budget upscale = Inr (default_vision_image\<lparr>soft_token_budget := budget\<rparr>)"

lemma request_reads:
  assumes "json_ok v" "json_depth v \<le> 9" "json_count v \<le> 99" "strings_le 99 v" "no_doubles v"
    "length (stringify v) \<le> 999"
  shows "json_parse (stringify v) request_limits = Inr v"
  using assms strings_le_mono [of 99 v "16 * 1024 * 1024"]
  by (intro json_parse_reads_back) (simp_all add: within_def request_limits_def document_limit_def)

lemma sample_chat_reads: "request_object (stringify sample_chat) =
    (case sample_chat of JObject m \<Rightarrow> Inr m | _ \<Rightarrow> Inr [])"
proof -
  have "length (stringify sample_chat) \<le> 999" by code_simp
  moreover from this have "json_parse (stringify sample_chat) request_limits = Inr sample_chat"
    by (intro request_reads) code_simp+
  ultimately show ?thesis
    by (simp add: request_object_def rguard_def as_members_def required_object_def sample_chat_def)
qed

lemma sample_payload: "decode_base64 ''QUJD'' = Inr ''ABC''"
proof -
  have "base64_encode ''ABC'' = ''QUJD''" by (simp add: base64_char_def byte_def)
  from base64_groups_encode [of "''ABC''", unfolded this] have "base64_groups ''QUJD'' = Inr ''ABC''" .
  then show ?thesis by (simp add: decode_base64_def)
qed

lemma sample_image_payload: "image_payload e ''data:image/png;base64,QUJD'' = Inr ''ABC''"
proof -
  let ?u = "''data:image/png;base64,QUJD''"
  have "starts_with ?u data_prefix" "find_sub '';base64,'' ?u = Some 14" "length data_prefix = 11"
    "take (14 - 11) (drop 11 ?u) = ''png''" "drop (14 + 8) ?u = ''QUJD''"
    by code_simp+
  then show ?thesis unfolding image_payload_def by (simp add: sample_payload)
qed

lemma sample_chat_accepted:
  "\<exists>r. parse_chat_request sample_audio_loader sample_image_loader 4096 (stringify sample_chat) = Inr r \<and>
     messages (generation r) = [\<lparr>role = ''user'', content = [ImagePart default_vision_image]\<rparr>]"
  by (simp add: parse_chat_request_def sample_chat_reads)
    (simp add: sample_chat_def sample_part_def reject_unknown_fields_def chat_fields_def required_string_def
    chat_messages_def collect_def parse_message_def as_members_def required_object_def effective_role_def
    message_fields_def message_content_def message_part_def rguard_def Let_def sample_image_payload
    add_image_def add_part_def message_calls_def chat_token_limit_def token_limit_def optional_bool_def
    chat_stream_options_def chat_effort_def tool_list_def choice_field_def validate_tool_definitions_def
    load_images_def place_image_def image_budget_def automatic_soft_token_budget_def audio_tokens_def
    maximum_soft_tokens_def sample_image_loader_def default_vision_image_def)

lemma chat_request_well_formed_witness: "decoded sample_image_loader default_vision_image"
proof -
  obtain r where r: "parse_chat_request sample_audio_loader sample_image_loader 4096 (stringify sample_chat) = Inr r"
    "messages (generation r) = [\<lparr>role = ''user'', content = [ImagePart default_vision_image]\<rparr>]"
    using sample_chat_accepted by blast
  from chat_request_well_formed [OF r(1)] r show ?thesis by simp
qed

text \<open>C25. An accepted Responses request is well formed in the same sense; besides, it asks for the
  response to be stored, its previous response identifier is not empty, and it does not change the
  instructions of the chain it continues.\<close>

theorem responses_request_well_formed:
  assumes "parse_responses_request la li n body = Inr r"
  shows "messages (responses_generation r) \<noteq> [] \<and>
    list_all (\<lambda>m. role m \<in> message_roles \<and> content m \<noteq> [] \<and>
      (\<forall>im. ImagePart im \<in> set (content m) \<longrightarrow> decoded li im)) (messages (responses_generation r)) \<and>
    max_generated_tokens (responses_generation r) \<noteq> Some 0 \<and>
    validate_tool_definitions (request_tools (responses_generation r)) = Inr () \<and>
    store r \<and> previous_response_id r \<noteq> Some [] \<and> (previous_response_id r = None \<or> instructions r = None)"
proof -
  obtain c m limit effort tools choice parallel previous ins where
    p: "previous_field (map_of m ''previous_response_id'') = Inr previous" and
    i: "instructions_field previous (map_of m ''instructions'') = Inr ins" and
    c: "input_messages la (instruction_messages ins) (map_of m ''input'') = Inr c" and
    l: "token_limit (map_of m ''max_output_tokens'') ''max_output_tokens must be a positive integer'' = Inr limit"
    and t: "validate_tool_definitions tools = Inr ()"
    and g: "load_images li n (collected_images c)
              \<lparr>messages = collected_messages c, max_generated_tokens = limit, thinking = effort,
               request_tools = tools, request_tool_choice = choice, parallel_tool_calls = parallel\<rparr> =
              Inr (responses_generation r)"
    and r: "previous_response_id r = previous" "instructions r = ins" "store r"
    using assms unfolding parse_responses_request_def rbind_Inr_iff by auto
  from input_messages_good [OF c] have
    cg: "images_covered li (collected_messages c) (collected_images c)"
      "\<forall>m \<in> set (collected_messages c). message_ok m" "collected_messages c \<noteq> []" by simp_all
  have lp: "limit \<noteq> Some 0" using l token_limit_pos by blast
  have "previous \<noteq> Some []" using p unfolding previous_field_def
    by (auto split: option.split_asm json.split_asm if_split_asm)
  moreover have "previous = None \<or> ins = None" using i unfolding instructions_field_def
    by (auto split: option.split_asm json.split_asm if_split_asm)
  moreover note d = load_images_decoded [OF g, simplified, OF cg(1,2)]
  have "list_all (\<lambda>m. role m \<in> message_roles \<and> content m \<noteq> [] \<and>
      (\<forall>im. ImagePart im \<in> set (content m) \<longrightarrow> decoded li im)) (messages (responses_generation r))"
    using d(1) unfolding list_all_iff message_ok_def by blast
  moreover have "messages (responses_generation r) \<noteq> []" using d(2) cg(3) by (metis length_0_conv)
  ultimately show ?thesis using d(3,4) lp t r by simp
qed

definition sample_responses :: json where
  "sample_responses = JObject [(''input'', JString ''hi''), (''instructions'', JString ''be brief''),
     (''model'', JString ''gemma'')]"

lemma sample_responses_reads: "request_object (stringify sample_responses) =
    (case sample_responses of JObject m \<Rightarrow> Inr m | _ \<Rightarrow> Inr [])"
proof -
  have "length (stringify sample_responses) \<le> 999" by code_simp
  moreover from this have "json_parse (stringify sample_responses) request_limits = Inr sample_responses"
    by (intro request_reads) code_simp+
  ultimately show ?thesis
    by (simp add: request_object_def rguard_def as_members_def required_object_def sample_responses_def)
qed

lemma sample_responses_accepted:
  "\<exists>r. parse_responses_request sample_audio_loader sample_image_loader 4096 (stringify sample_responses) = Inr r \<and>
     messages (responses_generation r) = [text_message ''system'' ''be brief'', text_message ''user'' ''hi'']"
  by (simp add: parse_responses_request_def sample_responses_reads)
    (simp add: sample_responses_def reject_unknown_fields_def responses_fields_def required_string_def
    previous_field_def instructions_field_def instruction_messages_def input_messages_def reasoning_field_def
    rguard_def token_limit_def optional_bool_def tool_list_def choice_field_def validate_tool_definitions_def
    load_images_def)

lemma responses_request_well_formed_witness:
  "\<exists>r. parse_responses_request sample_audio_loader sample_image_loader 4096 (stringify sample_responses) = Inr r \<and>
     store r \<and> previous_response_id r \<noteq> Some []"
  using sample_responses_accepted responses_request_well_formed by metis

end
