(* ===== verification/Responses_Chain.thy ===== *)
theory Responses_Chain
  imports Openai_Request
begin

text \<open>
  The resident Responses chain of a session (\<open>ResponsesChain\<close>, \<open>PrepareResponsesRequest\<close> and
  \<open>CommitResponsesRequest\<close> of src/server/session_pool.{h,cpp}): the conversation the server
  keeps so that a follow-up request only sends what is new.
\<close>

record responses_chain =
  latest_response_id :: string
  chain_messages :: "generation_message list"
  chain_tools :: "tool_definition list"
  chain_tool_choice :: tool_choice
  initialized :: bool

definition new_chain :: responses_chain where
  "new_chain = \<lparr>latest_response_id = [], chain_messages = [], chain_tools = [],
     chain_tool_choice = default_tool_choice, initialized = False\<rparr>"

definition update_generation ::
    "(generation_request \<Rightarrow> generation_request) \<Rightarrow> responses_request \<Rightarrow> responses_request" where
  "update_generation f r = r\<lparr>responses_generation := f (responses_generation r)\<rparr>"

text \<open>The request is updated in place: an error leaves what was assigned before it.\<close>

definition prepare_responses_request ::
    "responses_chain \<Rightarrow> responses_request \<Rightarrow> unit result \<times> responses_request" where
  "prepare_responses_request chain request =
     (case previous_response_id request of
        None \<Rightarrow>
          (if initialized chain
           then (Inl (Status KInvalidArgument ''response session already has a root''), request)
           else (Inr (), request))
      | Some previous \<Rightarrow>
          if \<not> initialized chain \<or> previous \<noteq> latest_response_id chain
          then (Inl (Status KNotFound ''previous_response_id is not the latest resident response''), request)
          else if tools_present request \<and> request_tools (responses_generation request) \<noteq> chain_tools chain
          then (Inl (Status KInvalidArgument ''tools must remain identical on a resident response chain''), request)
          else
            let r1 = (if tools_present request then request
                      else update_generation (\<lambda>g. g\<lparr>request_tools := chain_tools chain\<rparr>) request)
            in if tool_choice_present r1 \<and>
                  request_tool_choice (responses_generation r1) \<noteq> chain_tool_choice chain
               then (Inl (Status KInvalidArgument
                       ''tool_choice must remain identical on a resident response chain''), r1)
               else
                 let r2 = (if tool_choice_present r1 then r1
                           else update_generation (\<lambda>g. g\<lparr>request_tool_choice := chain_tool_choice chain\<rparr>) r1)
                 in (Inr (), update_generation (\<lambda>g. g\<lparr>messages := chain_messages chain @ messages g\<rparr>) r2))"

definition assistant_message :: "generation_response \<Rightarrow> generation_message" where
  "assistant_message response =
     \<lparr>role = ''assistant'',
      content = (if assistant_text response \<noteq> [] \<or> response_calls response = []
                 then [TextPart (assistant_text response)] else []) @
        map ToolCallPart (response_calls response)\<rparr>"

definition commit_responses_request ::
    "responses_chain \<Rightarrow> responses_request \<Rightarrow> generation_response \<Rightarrow> string \<Rightarrow> responses_chain" where
  "commit_responses_request chain request response response_id =
     chain\<lparr>chain_messages := messages (responses_generation request) @ [assistant_message response],
       chain_tools := request_tools (responses_generation request),
       chain_tool_choice := request_tool_choice (responses_generation request),
       latest_response_id := response_id,
       initialized := True\<rparr>"

section \<open>Turns\<close>

text \<open>A turn of a conversation: a request is prepared, answered and committed.\<close>

record turn =
  asked :: responses_request
  answered :: generation_response
  answer_id :: string

definition take_turn :: "responses_chain \<Rightarrow> turn \<Rightarrow> responses_chain result" where
  "take_turn chain t =
     (case prepare_responses_request chain (asked t) of
        (Inl e, r) \<Rightarrow> Inl e
      | (Inr _, r) \<Rightarrow> Inr (commit_responses_request chain r (answered t) (answer_id t)))"

definition turn_text :: "turn \<Rightarrow> generation_message list" where
  "turn_text t = messages (responses_generation (asked t)) @ [assistant_message (answered t)]"

lemma take_turn_first:
  assumes "take_turn c t = Inr c'" "\<not> initialized c"
  shows "previous_response_id (asked t) = None \<and> chain_messages c' = turn_text t \<and>
    chain_tools c' = request_tools (responses_generation (asked t)) \<and>
    chain_tool_choice c' = request_tool_choice (responses_generation (asked t)) \<and>
    latest_response_id c' = answer_id t \<and> initialized c'"
proof (cases "previous_response_id (asked t)")
  case None
  then have "c' = commit_responses_request c (asked t) (answered t) (answer_id t)"
    using assms by (simp add: take_turn_def prepare_responses_request_def)
  with None show ?thesis by (simp add: commit_responses_request_def turn_text_def)
next
  case (Some p)
  with assms show ?thesis by (simp add: take_turn_def prepare_responses_request_def)
qed

lemma take_turn_next:
  assumes "take_turn c t = Inr c'" "initialized c"
  shows "previous_response_id (asked t) = Some (latest_response_id c) \<and>
    chain_messages c' = chain_messages c @ turn_text t \<and>
    chain_tools c' = chain_tools c \<and> chain_tool_choice c' = chain_tool_choice c \<and>
    latest_response_id c' = answer_id t \<and> initialized c'"
proof (cases "previous_response_id (asked t)")
  case None
  with assms show ?thesis by (simp add: take_turn_def prepare_responses_request_def)
next
  case (Some p)
  then show ?thesis
  proof (cases "prepare_responses_request c (asked t)")
    case (Pair r q)
    with assms(1) have r: "r = Inr ()" "c' = commit_responses_request c q (answered t) (answer_id t)"
      by (simp_all add: take_turn_def split: sum.split_asm)
    have "previous_response_id (asked t) = Some (latest_response_id c) \<and>
        messages (responses_generation q) = chain_messages c @ messages (responses_generation (asked t)) \<and>
        request_tools (responses_generation q) = chain_tools c \<and>
        request_tool_choice (responses_generation q) = chain_tool_choice c"
      using Pair Some assms(2) unfolding r prepare_responses_request_def
      by (simp add: update_generation_def Let_def split: if_split_asm, safe, simp_all)
    then show ?thesis by (simp add: r commit_responses_request_def turn_text_def)
  qed
qed

text \<open>C26. The resident chain is the transcript: after any number of turns that all succeeded, the first
  request had no previous response and each later one named the response just before it, the chain
  holds every message of every turn in order, each answer after its request, and the tools and the
  tool choice are those of the first request.\<close>

theorem responses_chain_transcript:
  assumes "rfold take_turn new_chain (t # ts) = Inr c"
  shows "map (\<lambda>u. previous_response_id (asked u)) (t # ts) = None # map (\<lambda>u. Some (answer_id u)) (butlast (t # ts)) \<and>
    chain_messages c = concat (map turn_text (t # ts)) \<and>
    chain_tools c = request_tools (responses_generation (asked t)) \<and>
    chain_tool_choice c = request_tool_choice (responses_generation (asked t)) \<and>
    latest_response_id c = answer_id (last (t # ts))"
proof -
  obtain d where d: "take_turn new_chain t = Inr d" "rfold take_turn d ts = Inr c"
    using assms by (auto simp: rbind_Inr_iff)
  note first = take_turn_first [OF d(1)]
  have "map (\<lambda>u. previous_response_id (asked u)) ts = map (\<lambda>u. Some (answer_id u)) (butlast (s # ts)) \<and>
      chain_messages c = chain_messages d @ concat (map turn_text ts) \<and> chain_tools c = chain_tools d \<and>
      chain_tool_choice c = chain_tool_choice d \<and> latest_response_id c = answer_id (last (s # ts))"
    if "initialized d" "latest_response_id d = answer_id s" for s
    using d(2) that
  proof (induction ts arbitrary: d s)
    case (Cons u us)
    obtain e where e: "take_turn d u = Inr e" "rfold take_turn e us = Inr c"
      using Cons.prems(1) by (auto simp: rbind_Inr_iff)
    note n = take_turn_next [OF e(1) Cons.prems(2)]
    show ?case using Cons.IH [OF e(2), of u] n Cons.prems(3) by simp
  qed simp
  with first show ?thesis by (simp add: new_chain_def)
qed

text \<open>A follow-up request that is not the continuation of the latest response, or that changes the
  tools or the tool choice, is refused; one that repeats or omits them is accepted.\<close>

theorem prepare_responses_request_iff:
  assumes "initialized c"
  shows "fst (prepare_responses_request c r) = Inr () \<longleftrightarrow>
    previous_response_id r = Some (latest_response_id c) \<and>
    (tools_present r \<longrightarrow> request_tools (responses_generation r) = chain_tools c) \<and>
    (tool_choice_present r \<longrightarrow> request_tool_choice (responses_generation r) = chain_tool_choice c)"
proof (cases "previous_response_id r")
  case None
  with assms show ?thesis by (simp add: prepare_responses_request_def)
next
  case (Some previous)
  with assms show ?thesis by (simp add: prepare_responses_request_def update_generation_def Let_def)
qed

section \<open>A conversation of two turns\<close>

definition sample_request :: "string option \<Rightarrow> string \<Rightarrow> responses_request" where
  "sample_request previous text = \<lparr>responses_model = ''gemma'',
     responses_generation = default_generation_request\<lparr>messages := [text_message ''user'' text]\<rparr>,
     previous_response_id = previous, instructions = None, responses_stream = False, store = True,
     tools_present = False, tool_choice_present = False\<rparr>"

definition sample_turn :: "string option \<Rightarrow> string \<Rightarrow> string \<Rightarrow> string \<Rightarrow> turn" where
  "sample_turn previous text reply i = \<lparr>asked = sample_request previous text,
     answered = default_response\<lparr>assistant_text := reply\<rparr>, answer_id = i\<rparr>"

definition sample_turns :: "turn list" where
  "sample_turns = [sample_turn None ''hello'' ''hi'' ''r1'', sample_turn (Some ''r1'') ''more'' ''ok'' ''r2'']"

lemma responses_chain_transcript_witness:
  "\<exists>c. rfold take_turn new_chain sample_turns = Inr c \<and>
     chain_messages c = [text_message ''user'' ''hello'', text_message ''assistant'' ''hi'',
       text_message ''user'' ''more'', text_message ''assistant'' ''ok'']"
proof -
  have "\<exists>c. rfold take_turn new_chain sample_turns = Inr c"
    by (simp add: sample_turns_def sample_turn_def sample_request_def take_turn_def new_chain_def
        prepare_responses_request_def commit_responses_request_def update_generation_def Let_def
        default_generation_request_def)
  then obtain c where c: "rfold take_turn new_chain sample_turns = Inr c" by blast
  have "chain_messages c = concat (map turn_text sample_turns)"
    using responses_chain_transcript [OF c [unfolded sample_turns_def]] by (simp only: sample_turns_def)
  with c show ?thesis
    by (intro exI [of _ c]) (simp add: sample_turns_def sample_turn_def sample_request_def turn_text_def assistant_message_def text_message_def
        default_generation_request_def default_response_def)
qed

lemma prepare_responses_request_iff_witness:
  "fst (prepare_responses_request (new_chain\<lparr>latest_response_id := ''r1'', initialized := True\<rparr>)
     (sample_request (Some ''r0'') ''more'')) \<noteq> Inr ()"
  by (subst prepare_responses_request_iff) (simp_all add: sample_request_def)

end
