(* ===== verification/Server_Metrics.thy ===== *)
theory Server_Metrics
  imports Chat_Types Session_Pool Json_Roundtrip
begin

text \<open>
  The identifiers and the metrics of the server: src/server/secure_id.cpp, and \<open>MakeChatIdentity\<close>,
  \<open>MakeResponsesIdentity\<close>, \<open>RecordGeneration\<close> and \<open>MetricsText\<close> of src/server/session_pool.cpp.
  The random generator of the operating system is a list of replies, one per call; the clock is a
  number.
\<close>

section \<open>Identifiers\<close>

datatype random_reply = Received string | Interrupted | RandomFailed

definition random_bytes :: nat where
  "random_bytes = 16"

text \<open>
  \<open>FillRandom\<close> on Linux: the bytes so far, the replies to come.  \<open>None\<close> when the replies run out,
  which is the loop still waiting.  A reply has at most the bytes that were asked for.
\<close>

fun fill_random :: "string \<Rightarrow> random_reply list \<Rightarrow> string result option" where
  "fill_random filled replies =
     (if random_bytes \<le> length filled then Some (Inr filled)
      else case replies of
        [] \<Rightarrow> None
      | Interrupted # later \<Rightarrow> fill_random filled later
      | RandomFailed # later \<Rightarrow> Some (Inl (Status KInternal ''Linux system random generator failed''))
      | Received bytes # later \<Rightarrow>
          if bytes = []
          then Some (Inl (Status KInternal ''Linux system random generator returned no data''))
          else fill_random (filled @ bytes) later)"

declare fill_random.simps [simp del]

definition hex_byte :: "char \<Rightarrow> string" where
  "hex_byte c = [hex_digit (drop_bit 4 (byte c)), hex_digit (byte c AND 0x0F)]"

definition make_secure_id :: "random_reply list \<Rightarrow> string \<Rightarrow> string result option" where
  "make_secure_id replies prefix =
     fbind (fill_random [] replies) (\<lambda>bytes. Some (Inr (prefix @ concat (map hex_byte bytes))))"

record response_identity =
  identity_id :: string
  identity_model :: string
  created :: int
  completed :: "int option"

definition make_identity :: "string \<Rightarrow> random_reply list \<Rightarrow> string \<Rightarrow> int \<Rightarrow> response_identity result option" where
  "make_identity prefix replies model now =
     fbind (make_secure_id replies prefix) (\<lambda>i.
       Some (Inr \<lparr>identity_id = i, identity_model = model, created = now, completed = None\<rparr>))"

definition make_chat_identity :: "random_reply list \<Rightarrow> string \<Rightarrow> int \<Rightarrow> response_identity result option" where
  "make_chat_identity = make_identity ''chatcmpl-gem16-''"

definition make_responses_identity :: "random_reply list \<Rightarrow> string \<Rightarrow> int \<Rightarrow> response_identity result option" where
  "make_responses_identity = make_identity ''resp_gem16_''"

text \<open>The replies the kernel can give: never later bytes than were asked for.\<close>

fun replies_fit :: "nat \<Rightarrow> random_reply list \<Rightarrow> bool" where
  "replies_fit n [] = True"
| "replies_fit n (Received bytes # later) \<longleftrightarrow> length bytes \<le> n \<and> replies_fit (n - length bytes) later"
| "replies_fit n (reply # later) = replies_fit n later"

lemma fill_random_length:
  "fill_random filled replies = Some (Inr bytes) \<Longrightarrow> length filled \<le> random_bytes \<Longrightarrow>
   replies_fit (random_bytes - length filled) replies \<Longrightarrow> length bytes = random_bytes"
proof (induction filled replies rule: fill_random.induct)
  case (1 filled replies)
  show ?case
  proof (cases "random_bytes \<le> length filled")
    case True
    with "1.prems" show ?thesis by (simp add: fill_random.simps)
  next
    case False
    with "1.prems"(1) obtain reply later where r: "replies = reply # later" by (cases replies) (auto simp: fill_random.simps)
    show ?thesis
    proof (cases reply)
      case (Received b)
      then have "b \<noteq> []" "fill_random (filled @ b) later = Some (Inr bytes)"
        using "1.prems"(1) False r by (auto simp: fill_random.simps [of filled] split: if_splits)
      moreover have "length b \<le> random_bytes - length filled"
        "replies_fit (random_bytes - length filled - length b) later" using "1.prems"(3) r Received by simp_all
      ultimately show ?thesis using "1.IH"(1) [OF False r Received] False by simp
    next
      case Interrupted
      then have "fill_random filled later = Some (Inr bytes)"
        using "1.prems"(1) False r by (simp add: fill_random.simps [of filled])
      then show ?thesis using "1.IH"(2) [OF False r Interrupted] "1.prems"(2,3) r Interrupted by simp
    next
      case RandomFailed
      then show ?thesis using "1.prems"(1) False r by (simp add: fill_random.simps [of filled])
    qed
  qed
qed

lemma hex_digit_eq: "m < 16 \<Longrightarrow> n < 16 \<Longrightarrow> hex_digit m = hex_digit n \<longleftrightarrow> m = n"
  by (metis hex_value_digit option.inject)

lemma hex_byte_inject: "hex_byte c = hex_byte d \<longleftrightarrow> c = d"
proof
  assume "hex_byte c = hex_byte d"
  then have "byte c div 16 = byte d div 16" "byte c mod 16 = byte d mod 16"
    using hex_digit_eq by (auto simp: hex_byte_def byte_nibbles less_mult_imp_div_less)
  then have "byte c = byte d" by (metis div_mult_mod_eq)
  then show "c = d" by simp
qed simp

lemma hex_byte_length [simp]: "length (hex_byte c) = 2"
  by (simp add: hex_byte_def)

lemma hex_text_inject:
  "length u = length v \<Longrightarrow> concat (map hex_byte u) = concat (map hex_byte v) \<Longrightarrow> u = v"
  by (induction u v rule: list_induct2) (auto simp: hex_byte_inject append_eq_append_conv)

text \<open>An identifier is the prefix and 32 hexadecimal digits that determine the 16 random bytes: two
  runs give the same identifier exactly when the generator gave the same bytes.\<close>

theorem secure_id_injective:
  assumes "make_secure_id r prefix = Some (Inr i)" "make_secure_id s prefix = Some (Inr j)"
    and "replies_fit random_bytes r" "replies_fit random_bytes s"
  shows "length i = length prefix + 32 \<and> starts_with i prefix \<and>
    (i = j \<longleftrightarrow> fill_random [] r = fill_random [] s)"
proof -
  obtain b where b: "fill_random [] r = Some (Inr b)" "i = prefix @ concat (map hex_byte b)"
    using assms(1) by (auto simp: make_secure_id_def fbind_Inr_iff)
  obtain c where c: "fill_random [] s = Some (Inr c)" "j = prefix @ concat (map hex_byte c)"
    using assms(2) by (auto simp: make_secure_id_def fbind_Inr_iff)
  have l: "length b = 16" "length c = 16"
    using fill_random_length [OF b(1)] fill_random_length [OF c(1)] assms(3,4) by (simp_all add: random_bytes_def)
  have "length (concat (map hex_byte u)) = 2 * length u" for u
    by (induction u) (simp_all add: hex_byte_def)
  then show ?thesis using b c l hex_text_inject [of b c] by auto
qed

lemma secure_id_injective_witness:
  "\<exists>i. make_secure_id [Interrupted, Received ''0123456789abcdef''] ''resp_'' = Some (Inr i) \<and> length i = 37"
proof -
  let ?r = "[Interrupted, Received ''0123456789abcdef'']"
  obtain i where i: "make_secure_id ?r ''resp_'' = Some (Inr i)"
    by (simp add: make_secure_id_def fill_random.simps random_bytes_def)
  then show ?thesis using secure_id_injective [OF i i] by (simp add: random_bytes_def)
qed

section \<open>Metrics\<close>

text \<open>\<open>std::max(0.0, x) * 1000.0\<close>, rounded, and its conversion to \<open>std::uint64_t\<close>: undefined
  (\<open>None\<close>) when the truncated value does not fit.\<close>

fun times_1000 :: "binary64 \<Rightarrow> binary64" where
  "times_1000 (Infinite s) = Infinite s"
| "times_1000 (Finite s m e) =
     (if 0 \<le> e then round_ratio s (m * 1000 * 2 ^ nat e) 1 else round_ratio s (m * 1000) (2 ^ nat (- e)))"

fun truncate_uint64 :: "binary64 \<Rightarrow> 64 word option" where
  "truncate_uint64 (Infinite s) = None"
| "truncate_uint64 (Finite s m e) =
     (let n = (if 0 \<le> e then m * 2 ^ nat e else m div 2 ^ nat (- e))
      in if s \<and> n \<noteq> 0 \<or> 2 ^ 64 \<le> n then None else Some (of_nat n))"

definition double_zero :: binary64 where
  "double_zero = Finite False 0 (- 1074)"

definition microseconds :: "binary64 \<Rightarrow> 64 word option" where
  "microseconds ms = truncate_uint64 (times_1000 (if double_less double_zero ms then ms else double_zero))"

text \<open>\<open>RecordGeneration\<close>; \<open>elapsed\<close> is the duration in microseconds.\<close>

definition record_generation :: "generation_response \<Rightarrow> 64 word \<Rightarrow> server_metrics \<Rightarrow> server_metrics option" where
  "record_generation response elapsed m =
     (let inf = inference response;
          generated = length (output_token_ids inf)
      in case (microseconds (prompt_milliseconds inf), microseconds (decode_milliseconds inf)) of
        (Some prompt_us, Some decode_us) \<Rightarrow> Some (m\<lparr>
          input_tokens := input_tokens m + of_nat (length (prompt_token_ids response)),
          cached_input_tokens := cached_input_tokens m + prompt_cached_tokens inf,
          cache_write_tokens := cache_write_tokens m + prompt_cache_write_tokens inf,
          output_tokens := output_tokens m + of_nat generated,
          generation_microseconds := generation_microseconds m + elapsed,
          prompt_microseconds := prompt_microseconds m + prompt_us,
          decode_microseconds := decode_microseconds m + decode_us,
          decode_measured_tokens := decode_measured_tokens m + of_nat (if generated = 0 then 0 else generated - 1),
          mtp_proposed_tokens := mtp_proposed_tokens m + proposed_tokens inf,
          mtp_accepted_tokens := mtp_accepted_tokens m + accepted_tokens inf,
          mtp_rejected_tokens := mtp_rejected_tokens m + rejected_tokens inf,
          mtp_verification_groups := mtp_verification_groups m + verification_groups inf,
          mtp_d1_groups := mtp_d1_groups m + d1_groups inf,
          mtp_d2_groups := mtp_d2_groups m + d2_groups inf,
          mtp_d4_groups := mtp_d4_groups m + d4_groups inf,
          mtp_ordinary_fallback_tokens := mtp_ordinary_fallback_tokens m + ordinary_fallback_tokens inf,
          last_slot_bytes := kv_cache_bytes inf + workspace_bytes inf + assistant_workspace_bytes inf +
            decode_graph_device_bytes inf\<rparr>)
      | _ \<Rightarrow> None)"

text \<open>The fixed numbers of the server that \<open>MetricsText\<close> prints beside the counters.\<close>

record server_plan =
  weight_bytes :: "64 word"
  assistant_weight_bytes :: "64 word"
  planned_slot_device_bytes :: "64 word"
  configured_slot_device_bytes :: "64 word"
  device_total_bytes :: "64 word"
  device_safety_margin_bytes :: "64 word"

definition metric :: "string \<Rightarrow> 64 word \<Rightarrow> string" where
  "metric name v = name @ '' '' @ decimal (unat v) @ [CHR 0x0A]"

definition metric_kind :: "string \<Rightarrow> string \<Rightarrow> string" where
  "metric_kind name kind = ''# TYPE '' @ name @ '' '' @ kind @ [CHR 0x0A]"

definition counter_metrics :: "server_metrics \<Rightarrow> (string \<times> 64 word) list" where
  "counter_metrics m =
     [(''gem16_sessions_created_total'', sessions_created m),
      (''gem16_sessions_evicted_total'', sessions_evicted m),
      (''gem16_cancellations_requested_total'', cancellations_requested m),
      (''gem16_cancellations_observed_total'', cancellations_observed m),
      (''gem16_client_disconnects_total'', client_disconnects m),
      (''gem16_input_tokens_total'', input_tokens m),
      (''gem16_cached_input_tokens_total'', cached_input_tokens m),
      (''gem16_cache_write_tokens_total'', cache_write_tokens m),
      (''gem16_output_tokens_total'', output_tokens m),
      (''gem16_generation_microseconds_total'', generation_microseconds m),
      (''gem16_prompt_microseconds_total'', prompt_microseconds m),
      (''gem16_decode_microseconds_total'', decode_microseconds m),
      (''gem16_decode_measured_tokens_total'', decode_measured_tokens m),
      (''gem16_mtp_proposed_tokens_total'', mtp_proposed_tokens m),
      (''gem16_mtp_accepted_tokens_total'', mtp_accepted_tokens m),
      (''gem16_mtp_rejected_tokens_total'', mtp_rejected_tokens m),
      (''gem16_mtp_verification_groups_total'', mtp_verification_groups m),
      (''gem16_mtp_d1_groups_total'', mtp_d1_groups m),
      (''gem16_mtp_d2_groups_total'', mtp_d2_groups m),
      (''gem16_mtp_d4_groups_total'', mtp_d4_groups m),
      (''gem16_mtp_ordinary_fallback_tokens_total'', mtp_ordinary_fallback_tokens m)]"

definition memory_metrics :: "server_plan \<Rightarrow> nat \<Rightarrow> (string \<times> 64 word) list" where
  "memory_metrics plan resident =
     [(''gem16_model_weight_bytes'', weight_bytes plan),
      (''gem16_assistant_weight_bytes'', assistant_weight_bytes plan),
      (''gem16_execution_slot_planned_bytes'', planned_slot_device_bytes plan),
      (''gem16_configured_execution_slot_bytes'', configured_slot_device_bytes plan),
      (''gem16_resident_execution_slot_bytes'', of_nat resident * planned_slot_device_bytes plan),
      (''gem16_device_total_bytes'', device_total_bytes plan),
      (''gem16_device_safety_margin_bytes'', device_safety_margin_bytes plan)]"

definition metrics_text :: "server_plan \<Rightarrow> server_pool \<Rightarrow> string" where
  "metrics_text plan p =
     (let m = metrics p; resident = length (sessions p); waiting = length (pending_sessions p)
      in metric_kind ''gem16_requests_total'' ''counter'' @
         metric ''gem16_requests_total'' (requests_total m) @
         metric_kind ''gem16_requests_failed_total'' ''counter'' @
         metric ''gem16_requests_failed_total'' (requests_failed m) @
         metric_kind ''gem16_active_requests'' ''gauge'' @
         metric ''gem16_active_requests'' (active_total m) @
         metric_kind ''gem16_resident_sessions'' ''gauge'' @
         metric ''gem16_resident_sessions'' (of_nat resident) @
         metric_kind ''gem16_pending_session_creations'' ''gauge'' @
         metric ''gem16_pending_session_creations'' (of_nat waiting) @
         metric ''gem16_session_limit'' (of_nat (max_sessions p)) @
         concat (map (\<lambda>(name, v). metric name v) (counter_metrics m)) @
         concat (map (\<lambda>(name, v). metric name v) (memory_metrics plan resident)) @
         metric ''gem16_last_execution_slot_bytes'' (last_slot_bytes m))"

section \<open>Generations only add to the counters\<close>

lemma record_generation_keeps:
  "record_generation response elapsed m = Some m' \<Longrightarrow>
     active_total m' = active_total m \<and> sessions_created m' = sessions_created m \<and>
     sessions_evicted m' = sessions_evicted m"
  by (auto simp: record_generation_def Let_def split: option.splits)

end
