(* ===== verification/Sse_Chunk.thy ===== *)
theory Sse_Chunk
  imports Json_Roundtrip
begin

text \<open>
  \<open>SseChunkBuilder\<close> of src/server/sse_chunk.h: a server-sent event written as one HTTP chunk into
  storage of a fixed size.  The chunk header is written last, backwards from the payload, into a
  prefix kept free for it.  The builder refines the specification \<open>spec_append\<close>: the text written
  so far, or nothing once it would have been too long.
\<close>

section \<open>The builder\<close>

record sse_builder =
  storage :: string
  used :: nat
  failed :: bool

definition prefix_bytes :: nat where
  "prefix_bytes = 2 * 8 + 2"

definition suffix_bytes :: nat where
  "suffix_bytes = 4"

definition new_builder :: "nat \<Rightarrow> sse_builder" where
  "new_builder payload_capacity =
     \<lparr>storage = replicate (prefix_bytes + payload_capacity + suffix_bytes) (CHR 0x00),
      used = prefix_bytes, failed = False\<rparr>"

text \<open>The loop \<open>for (byte : value) storage_[size_++] = byte\<close>.\<close>

fun write_bytes :: "string \<Rightarrow> sse_builder \<Rightarrow> sse_builder" where
  "write_bytes [] b = b"
| "write_bytes (c # v) b = write_bytes v (b\<lparr>storage := (storage b)[used b := c], used := used b + 1\<rparr>)"

definition append_text :: "string \<Rightarrow> sse_builder \<Rightarrow> bool \<times> sse_builder" where
  "append_text v b =
     (if failed b \<or> length (storage b) - used b < length v then (False, b\<lparr>failed := True\<rparr>)
      else (True, write_bytes v b))"

definition append_char :: "char \<Rightarrow> sse_builder \<Rightarrow> bool \<times> sse_builder" where
  "append_char c b =
     (if failed b \<or> used b = length (storage b) then (False, b\<lparr>failed := True\<rparr>)
      else (True, b\<lparr>storage := (storage b)[used b := c], used := used b + 1\<rparr>))"

definition reset_builder :: "sse_builder \<Rightarrow> sse_builder" where
  "reset_builder b = snd (append_text ''data: '' (b\<lparr>used := prefix_bytes, failed := False\<rparr>))"

text \<open>\<open>a && b\<close> on operations of the builder.\<close>

definition and_then :: "(sse_builder \<Rightarrow> bool \<times> sse_builder) \<Rightarrow> (sse_builder \<Rightarrow> bool \<times> sse_builder) \<Rightarrow>
    sse_builder \<Rightarrow> bool \<times> sse_builder" where
  "and_then f g b = (case f b of (ok, b') \<Rightarrow> if ok then g b' else (False, b'))"

definition append_unsigned :: "nat \<Rightarrow> sse_builder \<Rightarrow> bool \<times> sse_builder" where
  "append_unsigned n = append_text (decimal n)"

definition append_signed :: "int \<Rightarrow> sse_builder \<Rightarrow> bool \<times> sse_builder" where
  "append_signed i = append_text (decimal_int i)"

definition append_escaped_byte :: "char \<Rightarrow> sse_builder \<Rightarrow> bool \<times> sse_builder" where
  "append_escaped_byte c =
     (if c = CHR 0x22 then append_text [CHR 0x5C, CHR 0x22]
      else if c = CHR 0x5C then append_text [CHR 0x5C, CHR 0x5C]
      else if c = CHR 0x08 then append_text [CHR 0x5C, CHR ''b'']
      else if c = CHR 0x0C then append_text [CHR 0x5C, CHR ''f'']
      else if c = CHR 0x0A then append_text [CHR 0x5C, CHR ''n'']
      else if c = CHR 0x0D then append_text [CHR 0x5C, CHR ''r'']
      else if c = CHR 0x09 then append_text [CHR 0x5C, CHR ''t'']
      else if byte c < 0x20
      then append_text [CHR 0x5C, CHR ''u'', CHR ''0'', CHR ''0'',
             hex_digit (drop_bit 4 (byte c)), hex_digit (byte c AND 0x0F)]
      else append_char c)"

fun append_json_escaped :: "string \<Rightarrow> sse_builder \<Rightarrow> bool \<times> sse_builder" where
  "append_json_escaped [] b = (True, b)"
| "append_json_escaped (c # v) b = and_then (append_escaped_byte c) (append_json_escaped v) b"

definition append_json_string :: "string \<Rightarrow> sse_builder \<Rightarrow> bool \<times> sse_builder" where
  "append_json_string v =
     and_then (append_char (CHR 0x22)) (and_then (append_json_escaped v) (append_char (CHR 0x22)))"

definition append_json_string_prefixed :: "string \<Rightarrow> string \<Rightarrow> sse_builder \<Rightarrow> bool \<times> sse_builder" where
  "append_json_string_prefixed prefix v =
     and_then (append_char (CHR 0x22)) (and_then (append_json_escaped prefix)
       (and_then (append_json_escaped v) (append_char (CHR 0x22))))"

text \<open>\<open>std::to_chars(.., value, 16)\<close>.\<close>

fun hexadecimal :: "nat \<Rightarrow> string" where
  "hexadecimal n = (if n < 16 then [hex_digit n] else hexadecimal (n div 16) @ [hex_digit (n mod 16)])"

declare hexadecimal.simps [simp del]

definition crlf :: string where
  "crlf = [CHR 0x0D, CHR 0x0A]"

text \<open>Writing the header backwards and taking the span from its first byte.\<close>

definition write_header :: "string \<Rightarrow> sse_builder \<Rightarrow> string \<times> sse_builder" where
  "write_header digits b =
     (let start = prefix_bytes - (length digits + 2);
          st = foldl (\<lambda>s i. s[start + i := digits ! i]) (storage b) [0..<length digits];
          st1 = st[start + length digits := CHR 0x0D];
          st2 = st1[start + length digits + 1 := CHR 0x0A]
      in (take (used b - start) (drop start st2), b\<lparr>storage := st2\<rparr>))"

definition finish_chunk :: "sse_builder \<Rightarrow> string \<times> sse_builder" where
  "finish_chunk b =
     (case append_text [CHR 0x0A, CHR 0x0A] b of
        (False, b1) \<Rightarrow> ([], b1)
      | (True, b1) \<Rightarrow>
          case append_text crlf b1 of
            (False, b2) \<Rightarrow> ([], b2)
          | (True, b2) \<Rightarrow> write_header (hexadecimal (used b1 - prefix_bytes)) b2)"

definition payload :: "sse_builder \<Rightarrow> string" where
  "payload b = (if failed b then [] else take (used b - prefix_bytes) (drop prefix_bytes (storage b)))"

definition builder_capacity :: "sse_builder \<Rightarrow> nat" where
  "builder_capacity b = length (storage b) - prefix_bytes - suffix_bytes"

definition final_http_chunk :: string where
  "final_http_chunk = ''0'' @ crlf @ crlf"

section \<open>The specification\<close>

text \<open>The text so far, at most \<open>limit\<close> bytes of it; \<open>None\<close> once more were asked for.\<close>

fun spec_append :: "nat \<Rightarrow> string \<Rightarrow> string option \<Rightarrow> string option" where
  "spec_append limit v None = None"
| "spec_append limit v (Some s) = (if length (s @ v) \<le> limit then Some (s @ v) else None)"

definition builder_ok :: "sse_builder \<Rightarrow> bool" where
  "builder_ok b \<longleftrightarrow> prefix_bytes \<le> used b \<and> used b \<le> length (storage b)"

definition builder_limit :: "sse_builder \<Rightarrow> nat" where
  "builder_limit b = length (storage b) - prefix_bytes"

definition text_of :: "sse_builder \<Rightarrow> string option" where
  "text_of b = (if failed b then None else Some (take (used b - prefix_bytes) (drop prefix_bytes (storage b))))"

text \<open>An operation appends \<open>v\<close>: the refinement relation of one operation.\<close>

definition appends :: "(sse_builder \<Rightarrow> bool \<times> sse_builder) \<Rightarrow> string \<Rightarrow> bool" where
  "appends f v \<longleftrightarrow> (\<forall>b. builder_ok b \<longrightarrow>
     (case f b of (ok, b') \<Rightarrow> builder_ok b' \<and> length (storage b') = length (storage b) \<and>
        text_of b' = spec_append (builder_limit b) v (text_of b) \<and> (failed b \<and> v = [] \<or> ok = (text_of b' \<noteq> None))))"

lemma spec_append_append [simp]: "spec_append n v (spec_append n u s) = spec_append n (u @ v) s"
  by (cases s) auto

lemma write_bytes_fields [simp]:
  "length (storage (write_bytes v b)) = length (storage b)" "used (write_bytes v b) = used b + length v"
  "failed (write_bytes v b) = failed b"
  by (induction v b rule: write_bytes.induct) simp_all

lemma take_update_next: "n < length xs \<Longrightarrow> take (Suc n) (xs[n := c]) = take n xs @ [c]"
  by (simp add: take_Suc_conv_app_nth)

lemma write_bytes_storage:
  "used b + length v \<le> length (storage b) \<Longrightarrow>
   take (used b + length v) (storage (write_bytes v b)) = take (used b) (storage b) @ v"
proof (induction v b rule: write_bytes.induct)
  case (2 c v b)
  then show ?case by (simp add: take_update_next)
qed simp

lemma text_of_ok: "\<not> failed b \<Longrightarrow> text_of b = Some (drop prefix_bytes (take (used b) (storage b)))"
  by (simp add: text_of_def drop_take)

lemma appends_text: "appends (append_text v) v"
  unfolding appends_def
proof (intro allI impI)
  fix b assume ok: "builder_ok b"
  show "case append_text v b of (ok, b') \<Rightarrow> builder_ok b' \<and> length (storage b') = length (storage b) \<and>
        text_of b' = spec_append (builder_limit b) v (text_of b) \<and> (failed b \<and> v = [] \<or> ok = (text_of b' \<noteq> None))"
  proof (cases "failed b \<or> length (storage b) - used b < length v")
    case True
    then have "spec_append (builder_limit b) v (text_of b) = None"
      using ok by (auto simp: text_of_def builder_limit_def builder_ok_def)
    with True ok show ?thesis by (simp add: append_text_def text_of_def builder_ok_def)
  next
    case False
    then have f: "\<not> failed b" "used b + length v \<le> length (storage b)" using ok by (auto simp: builder_ok_def)
    then show ?thesis
      using ok write_bytes_storage [OF f(2)]
      by (auto simp: append_text_def text_of_ok builder_limit_def builder_ok_def)
  qed
qed

lemma append_char_text: "builder_ok b \<Longrightarrow> append_char c b = append_text [c] b"
  by (auto simp: append_char_def append_text_def builder_ok_def)

lemma appends_char: "appends (append_char c) [c]"
  using appends_text [of "[c]"] by (simp add: appends_def append_char_text)

lemma appends_and_then:
  assumes "appends f u" "appends g v"
  shows "appends (and_then f g) (u @ v)"
  unfolding appends_def
proof (intro allI impI)
  fix b assume ok: "builder_ok b"
  obtain r b' where f: "f b = (r, b')" by fastforce
  obtain q b'' where g: "g b' = (q, b'')" by fastforce
  have 1: "builder_ok b'" "length (storage b') = length (storage b)"
    "text_of b' = spec_append (builder_limit b) u (text_of b)" "failed b \<and> u = [] \<or> r = (text_of b' \<noteq> None)"
    using assms(1) ok f unfolding appends_def by (auto dest!: spec [of _ b])
  have 2: "builder_ok b''" "length (storage b'') = length (storage b')"
    "text_of b'' = spec_append (builder_limit b') v (text_of b')" "failed b' \<and> v = [] \<or> q = (text_of b'' \<noteq> None)"
    using assms(2) 1(1) g unfolding appends_def by (auto dest!: spec [of _ b'])
  have l: "builder_limit b' = builder_limit b" using 1(2) by (simp add: builder_limit_def)
  have 3: "text_of b'' = spec_append (builder_limit b) (u @ v) (text_of b)" using 1(3) 2(3) l by simp
  show "case and_then f g b of (ok, b') \<Rightarrow> builder_ok b' \<and> length (storage b') = length (storage b) \<and>
        text_of b' = spec_append (builder_limit b) (u @ v) (text_of b) \<and> (failed b \<and> u @ v = [] \<or> ok = (text_of b' \<noteq> None))"
  proof (cases r)
    case True
    have "failed b' \<and> v = [] \<Longrightarrow> failed b \<and> u @ v = []"
      using 1(3,4) True by (auto simp: text_of_def split: if_splits)
    then show ?thesis using True 1(2) 2 3 f g by (auto simp: and_then_def)
  next
    case False
    have "failed b \<Longrightarrow> text_of b' = None" using 1(3) by (simp add: text_of_def)
    then have "text_of b' = None" using 1(4) False by blast
    moreover from this have "spec_append (builder_limit b) (u @ v) (text_of b) = None"
      using 1(3) spec_append_append [of "builder_limit b" v u "text_of b"] by simp
    ultimately show ?thesis using 1(1,2) f False by (simp add: and_then_def)
  qed
qed

lemma appends_escaped: "appends (append_json_escaped v) (escape v)"
proof (induction v)
  case Nil
  show ?case by (auto simp: appends_def escape_def text_of_def builder_limit_def builder_ok_def)
next
  case (Cons c v)
  have "appends (append_escaped_byte c) (escape_byte c)"
    by (simp add: append_escaped_byte_def escape_byte_def appends_text appends_char)
  from appends_and_then [OF this Cons.IH]
  have "appends (and_then (append_escaped_byte c) (append_json_escaped v)) (escape (c # v))"
    by (simp add: escape_def)
  moreover have "append_json_escaped (c # v) = and_then (append_escaped_byte c) (append_json_escaped v)"
    by (rule ext) simp
  ultimately show ?case by simp
qed

text \<open>C27. The builder refines the bounded text: each operation, the raw text, the numbers and the JSON
  strings (in one or two pieces), keeps the storage and appends exactly its text when the result
  fits in the storage and otherwise fails, for good; it reports which (an empty
  JSON text reports success even on a builder that has failed).\<close>

theorem sse_builder_refines:
  "appends (append_text v) v \<and> appends (append_char c) [c] \<and> appends (append_unsigned n) (decimal n) \<and>
   appends (append_signed i) (decimal_int i) \<and> appends (append_json_string v) (quote v) \<and>
   appends (append_json_string_prefixed u v) (quote (u @ v))"
proof -
  have "appends (append_json_string v) ([CHR 0x22] @ escape v @ [CHR 0x22])"
    unfolding append_json_string_def by (intro appends_and_then appends_char appends_escaped)
  moreover have "appends (append_json_string_prefixed u v) ([CHR 0x22] @ escape u @ escape v @ [CHR 0x22])"
    unfolding append_json_string_prefixed_def by (intro appends_and_then appends_char appends_escaped)
  ultimately show ?thesis
    by (simp add: appends_text appends_char append_unsigned_def append_signed_def quote_def escape_def)
qed

section \<open>Finishing\<close>

text \<open>How a client reads a chunk: the size in hexadecimal, a line end, that many bytes, a line end.\<close>

definition hex_number :: "string \<Rightarrow> nat" where
  "hex_number s = foldl (\<lambda>n c. 16 * n + the (hex_value c)) 0 s"

definition read_chunk :: "string \<Rightarrow> (string \<times> string) option" where
  "read_chunk s =
     (let digits = takeWhile (\<lambda>c. hex_value c \<noteq> None) s;
          n = hex_number digits;
          body = drop (length digits + 2) s
      in if take 2 (drop (length digits) s) = crlf \<and> take 2 (drop n body) = crlf \<and> n \<le> length body
         then Some (take n body, drop (n + 2) body) else None)"

lemma hex_number_snoc: "hex_number (s @ [c]) = 16 * hex_number s + the (hex_value c)"
  by (simp add: hex_number_def)

lemma hexadecimal_number: "hex_number (hexadecimal n) = n"
proof (induction n rule: hexadecimal.induct)
  case (1 n)
  show ?case
  proof (cases "n < 16")
    case True
    then show ?thesis by (simp add: hexadecimal.simps [of n] hex_number_def hex_value_digit)
  next
    case False
    have "hexadecimal n = hexadecimal (n div 16) @ [hex_digit (n mod 16)]"
      using False by (simp add: hexadecimal.simps [of n])
    then show ?thesis using 1 [OF False] by (simp add: hex_number_snoc hex_value_digit)
  qed
qed

lemma hexadecimal_digits: "\<forall>c \<in> set (hexadecimal n). hex_value c \<noteq> None"
proof (induction n rule: hexadecimal.induct)
  case (1 n)
  then show ?case by (cases "n < 16") (simp_all add: hexadecimal.simps [of n] hex_value_digit)
qed

lemma hexadecimal_length: "n < 16 ^ k \<Longrightarrow> 0 < k \<Longrightarrow> length (hexadecimal n) \<le> k"
proof (induction k arbitrary: n)
  case (Suc k)
  show ?case
  proof (cases "n < 16")
    case True
    then show ?thesis by (simp add: hexadecimal.simps [of n])
  next
    case False
    have "0 < k" using Suc.prems(1) False by (cases k) simp_all
    moreover have "n div 16 < 16 ^ k" using Suc.prems(1) by (simp add: less_mult_imp_div_less mult.commute)
    ultimately show ?thesis using Suc.IH False by (simp add: hexadecimal.simps [of n])
  qed
qed simp

lemma foldl_updates:
  "a + n \<le> length st \<Longrightarrow> n \<le> length d \<Longrightarrow>
   foldl (\<lambda>s i. s[a + i := d ! i]) st [0..<n] = take a st @ take n d @ drop (a + n) st"
proof (induction n)
  case (Suc n)
  then have "drop (a + n) st = st ! (a + n) # drop (Suc (a + n)) st" by (simp add: Cons_nth_drop_Suc)
  then have "foldl (\<lambda>s i. s[a + i := d ! i]) st [0..<n] = take a st @ take n d @ st ! (a + n) # drop (Suc (a + n)) st"
    using Suc by simp
  then show ?case using Suc.prems by (simp add: take_Suc_conv_app_nth list_update_append)
qed simp

lemma write_header_span:
  assumes "builder_ok b" "length digits \<le> 16"
  shows "fst (write_header digits b) =
    digits @ crlf @ take (used b - prefix_bytes) (drop prefix_bytes (storage b))"
proof -
  define start where "start = prefix_bytes - (length digits + 2)"
  have p: "start + length digits + 2 = prefix_bytes" using assms(2) by (simp add: start_def prefix_bytes_def)
  have l: "prefix_bytes \<le> length (storage b)" "prefix_bytes \<le> used b" using assms(1) by (auto simp: builder_ok_def)
  let ?st = "foldl (\<lambda>s i. s[start + i := digits ! i]) (storage b) [0..<length digits]"
  have st: "?st = take start (storage b) @ digits @ drop (start + length digits) (storage b)"
    using foldl_updates [of start "length digits" "storage b" digits] l p by simp
  have d: "drop (start + length digits) (storage b) =
      storage b ! (start + length digits) # storage b ! (start + length digits + 1) # drop prefix_bytes (storage b)"
    using l(1) p by (simp add: Cons_nth_drop_Suc [symmetric] p [symmetric])
  have ts: "length (take start (storage b)) = start" using l(1) p by simp
  have h: "fst (write_header digits b) = take (used b - start)
      (drop start (?st[start + length digits := CHR 0x0D, start + length digits + 1 := CHR 0x0A]))"
    by (simp add: write_header_def Let_def start_def)
  have "?st[start + length digits := CHR 0x0D, start + length digits + 1 := CHR 0x0A] =
      take start (storage b) @ digits @ crlf @ drop prefix_bytes (storage b)"
    unfolding st d crlf_def using ts by (simp add: list_update_append)
  moreover have "used b - start = length digits + 2 + (used b - prefix_bytes)" using l(2) p by simp
  ultimately show ?thesis
    unfolding h using ts by (simp add: crlf_def)
qed

lemma appends_text_result:
  assumes "builder_ok b" "append_text v b = (ok, b')" "text_of b = Some s"
  shows "builder_ok b'" "length (storage b') = length (storage b)"
    "ok \<longleftrightarrow> length s + length v \<le> builder_limit b" "ok \<Longrightarrow> text_of b' = Some (s @ v)"
proof -
  have "builder_ok b' \<and> length (storage b') = length (storage b) \<and>
      text_of b' = spec_append (builder_limit b) v (Some s) \<and> (failed b \<and> v = [] \<or> ok = (text_of b' \<noteq> None))"
    using appends_text [of v] assms unfolding appends_def by (auto dest!: spec [of _ b])
  moreover have "\<not> failed b" using assms(3) by (auto simp: text_of_def)
  ultimately show "builder_ok b'" "length (storage b') = length (storage b)"
    "ok \<longleftrightarrow> length s + length v \<le> builder_limit b" "ok \<Longrightarrow> text_of b' = Some (s @ v)"
    by (auto split: if_splits)
qed

lemma finish_text:
  assumes ok: "builder_ok b" and s: "text_of b = Some s" and small: "length (storage b) < 2 ^ 64"
  shows "fst (finish_chunk b) =
    (if length s + 4 \<le> builder_limit b
     then hexadecimal (length s + 2) @ crlf @ s @ [CHR 0x0A, CHR 0x0A] @ crlf else [])"
proof -
  obtain ok1 b1 where a1: "append_text [CHR 0x0A, CHR 0x0A] b = (ok1, b1)" by fastforce
  note r1 = appends_text_result [OF ok a1 s]
  show ?thesis
  proof (cases ok1)
    case False
    then show ?thesis using a1 r1(3) by (simp add: finish_chunk_def)
  next
    case True
    obtain ok2 b2 where a2: "append_text crlf b1 = (ok2, b2)" by fastforce
    note r2 = appends_text_result [OF r1(1) a2 r1(4) [OF True]]
    have lim: "builder_limit b1 = builder_limit b" using r1(2) by (simp add: builder_limit_def)
    show ?thesis
    proof (cases ok2)
      case False
      then show ?thesis using a1 a2 True r2(3) lim by (simp add: finish_chunk_def crlf_def)
    next
      case ok2: True
      have u: "used b1 - prefix_bytes = length s + 2"
      proof -
        have "take (used b1 - prefix_bytes) (drop prefix_bytes (storage b1)) = s @ [CHR 0x0A, CHR 0x0A]"
          using r1(4) True by (simp add: text_of_def split: if_splits)
        from arg_cong [OF this, of length] show ?thesis using r1(1) by (simp add: builder_ok_def min_def split: if_splits)
      qed
      have t2: "take (used b2 - prefix_bytes) (drop prefix_bytes (storage b2)) = s @ [CHR 0x0A, CHR 0x0A] @ crlf"
        using r2(4) ok2 by (simp add: text_of_def split: if_splits)
      have "length s + 2 < 2 ^ 64" using r1(3) True small by (simp add: builder_limit_def)
      then have "length (hexadecimal (length s + 2)) \<le> 16" by (intro hexadecimal_length) simp_all
      from write_header_span [OF r2(1) this] show ?thesis
        using a1 a2 True ok2 r2(3) lim u t2 by (simp add: finish_chunk_def crlf_def)
    qed
  qed
qed

text \<open>C28. A finished event is one well-formed HTTP chunk: a client that reads it, whatever follows, gets
  exactly the text that was appended and the blank line that ends the event; when there is no room
  for the line ends, \<open>Finish\<close> returns nothing.\<close>

theorem sse_finish_reads_back:
  assumes "builder_ok b" "text_of b = Some s" "length (storage b) < 2 ^ 64"
  shows "(length s + 4 \<le> builder_limit b \<longrightarrow>
      read_chunk (fst (finish_chunk b) @ following) = Some (s @ [CHR 0x0A, CHR 0x0A], following)) \<and>
    (builder_limit b < length s + 4 \<longrightarrow> fst (finish_chunk b) = [])"
proof (intro conjI impI)
  assume l: "length s + 4 \<le> builder_limit b"
  let ?d = "hexadecimal (length s + 2)"
  have cr: "hex_value (CHR 0x0D) = None" by code_simp
  have "takeWhile (\<lambda>c. hex_value c \<noteq> None) (?d @ CHR 0x0D # t) = ?d" for t
    using hexadecimal_digits cr by (simp add: takeWhile_tail)
  then show "read_chunk (fst (finish_chunk b) @ following) = Some (s @ [CHR 0x0A, CHR 0x0A], following)"
    using l by (simp add: finish_text [OF assms] read_chunk_def Let_def hexadecimal_number crlf_def)
next
  assume "builder_limit b < length s + 4"
  then show "fst (finish_chunk b) = []" by (simp add: finish_text [OF assms])
qed

lemma sse_finish_reads_back_witness:
  "read_chunk (fst (finish_chunk (snd (append_json_string ''hi'' (reset_builder (new_builder 40))))) @ final_http_chunk) =
     Some (''data: '' @ quote ''hi'' @ [CHR 0x0A, CHR 0x0A], final_http_chunk)"
proof -
  let ?b = "snd (append_json_string ''hi'' (reset_builder (new_builder 40)))"
  have "builder_ok ?b" "text_of ?b = Some (''data: '' @ quote ''hi'')" "length (storage ?b) = 62"
    by code_simp+
  moreover from this have "length (''data: '' @ quote ''hi'') + 4 \<le> builder_limit ?b"
    by (simp add: builder_limit_def prefix_bytes_def quote_def escape_def escape_byte_def byte_def)
  ultimately show ?thesis using sse_finish_reads_back [of ?b "''data: '' @ quote ''hi''"] by simp
qed

end
