(* ===== verification/Tokenizer.thy ===== *)
theory Tokenizer
  imports Utf8 Json_Roundtrip
begin

text \<open>
  The byte-fallback BPE tokenizer of src/model/tokenizer.cpp: \<open>Load\<close> on the text of
  tokenizer.json, \<open>Encode\<close> with its merge loop, and the decoders.  Reading the file is a
  parameter.  The unordered maps are association lists with the first entry of a key in force, as
  \<open>emplace\<close> leaves it.
\<close>

section \<open>State\<close>

record merge_rule =
  merge_rank :: nat
  merge_result :: nat

record added_token =
  added_content :: string
  added_id :: nat

record tokenizer =
  vocabulary :: "(string \<times> nat) list"
  tokens :: "string list"
  merges :: "(nat \<times> merge_rule) list"
  added_tokens :: "added_token list"
  special_ids :: "nat list"
  maximum_decoded_bytes :: nat

definition space_marker :: string where
  "space_marker = [chr 0xE2, chr 0x96, chr 0x81]"

text \<open>The key of a pair of 32-bit identifiers.\<close>

definition pair_key :: "nat \<Rightarrow> nat \<Rightarrow> nat" where
  "pair_key left right = push_bit 32 left OR right"

section \<open>Encoding\<close>

definition normalize :: "string \<Rightarrow> string" where
  "normalize s = concat (map (\<lambda>c. if c = CHR '' '' then space_marker else [c]) s)"

definition upper_hex :: "nat \<Rightarrow> char" where
  "upper_hex n = ''0123456789ABCDEF'' ! n"

definition fallback_name :: "char \<Rightarrow> string" where
  "fallback_name c = ''<0x'' @ [upper_hex (byte c div 16), upper_hex (byte c mod 16)] @ ''>''"

definition byte_symbol :: "tokenizer \<Rightarrow> nat list \<Rightarrow> char \<Rightarrow> nat list result" where
  "byte_symbol t symbols c =
     (case map_of (vocabulary t) (fallback_name c) of
        None \<Rightarrow> Inl (Status KDataLoss ''tokenizer byte fallback is incomplete'')
      | Some i \<Rightarrow> Inr (symbols @ [i]))"

definition character_symbols :: "tokenizer \<Rightarrow> nat list \<Rightarrow> string \<Rightarrow> nat list result" where
  "character_symbols t symbols character =
     (case map_of (vocabulary t) character of
        Some i \<Rightarrow> Inr (symbols @ [i])
      | None \<Rightarrow> rfold (byte_symbol t) symbols character)"

text \<open>The pair of lowest rank, the first of them: \<open>best\<close> is the rule and key found so far.\<close>

fun best_pair :: "(nat \<times> merge_rule) list \<Rightarrow> (nat \<times> merge_rule) option \<Rightarrow> nat list \<Rightarrow>
    (nat \<times> merge_rule) option" where
  "best_pair rules best (a # b # more_symbols) =
     (let found = (case map_of rules (pair_key a b) of
            Some rule \<Rightarrow>
              if merge_rank rule < (case best of None \<Rightarrow> 2 ^ 32 - 1 | Some (_, old) \<Rightarrow> merge_rank old)
              then Some (pair_key a b, rule) else best
          | None \<Rightarrow> best)
      in best_pair rules found (b # more_symbols))"
| "best_pair rules best _ = best"

fun merge_pass :: "nat \<Rightarrow> nat \<Rightarrow> nat list \<Rightarrow> nat list" where
  "merge_pass key merged (a # b # more_symbols) =
     (if pair_key a b = key then merged # merge_pass key merged more_symbols
      else a # merge_pass key merged (b # more_symbols))"
| "merge_pass key merged symbols = symbols"

definition occurs_pair :: "nat \<Rightarrow> nat list \<Rightarrow> bool" where
  "occurs_pair key symbols \<longleftrightarrow> (\<exists>i. Suc i < length symbols \<and> pair_key (symbols ! i) (symbols ! Suc i) = key)"

lemma occurs_pair_Cons: "occurs_pair key (a # b # xs) \<longleftrightarrow> pair_key a b = key \<or> occurs_pair key (b # xs)"
proof
  assume "occurs_pair key (a # b # xs)"
  then obtain i where "Suc i < length (a # b # xs)" "pair_key ((a # b # xs) ! i) ((a # b # xs) ! Suc i) = key"
    unfolding occurs_pair_def by blast
  then show "pair_key a b = key \<or> occurs_pair key (b # xs)"
    unfolding occurs_pair_def by (cases i) auto
next
  assume "pair_key a b = key \<or> occurs_pair key (b # xs)"
  then show "occurs_pair key (a # b # xs)"
  proof
    assume "pair_key a b = key"
    then show ?thesis unfolding occurs_pair_def by (intro exI [of _ 0]) simp
  next
    assume "occurs_pair key (b # xs)"
    then obtain i where "Suc i < length (b # xs)" "pair_key ((b # xs) ! i) ((b # xs) ! Suc i) = key"
      unfolding occurs_pair_def by blast
    then show ?thesis unfolding occurs_pair_def by (intro exI [of _ "Suc i"]) simp
  qed
qed

lemma occurs_pair_short [simp]: "\<not> occurs_pair key []" "\<not> occurs_pair key [a]"
  by (simp_all add: occurs_pair_def)

lemma merge_pass_length: "length (merge_pass key merged xs) \<le> length xs"
  by (induction key merged xs rule: merge_pass.induct) (auto intro: le_SucI)

lemma merge_pass_shorter: "occurs_pair key xs \<Longrightarrow> length (merge_pass key merged xs) < length xs"
proof (induction key merged xs rule: merge_pass.induct)
  case (1 key merged a b xs)
  then show ?case using merge_pass_length [of key merged xs] by (auto simp: occurs_pair_Cons)
qed simp_all

lemma best_pair_occurs:
  "best_pair rules best xs = Some (key, rule) \<Longrightarrow>
     best = Some (key, rule) \<or> (occurs_pair key xs \<and> map_of rules key = Some rule)"
proof (induction rules best xs rule: best_pair.induct)
  case (1 rules best a b xs)
  then show ?case
    by (auto simp: Let_def occurs_pair_Cons split: option.splits if_splits)
qed simp_all

function merge_loop :: "(nat \<times> merge_rule) list \<Rightarrow> nat list \<Rightarrow> nat list" where
  "merge_loop rules symbols =
     (case best_pair rules None symbols of
        None \<Rightarrow> symbols
      | Some (key, rule) \<Rightarrow> merge_loop rules (merge_pass key (merge_result rule) symbols))"
  by pat_completeness auto
termination
proof (relation "measure (\<lambda>(rules, symbols). length symbols)")
  fix rules symbols found key rule
  assume "best_pair rules None symbols = Some found" "(key, rule) = found"
  then have "occurs_pair key symbols" using best_pair_occurs [of rules None symbols key rule] by simp
  then show "((rules, merge_pass key (merge_result rule) symbols), rules, symbols)
      \<in> measure (\<lambda>(rules, symbols). length symbols)"
    by (simp add: merge_pass_shorter)
qed simp

declare merge_loop.simps [simp del]

definition encode_ordinary :: "tokenizer \<Rightarrow> string \<Rightarrow> nat list result" where
  "encode_ordinary t ordinary =
     rbind (utf8_characters (normalize ordinary)) (\<lambda>characters.
     rbind (rfold (character_symbols t) [] characters) (\<lambda>symbols. Inr (merge_loop (merges t) symbols)))"

definition append_ordinary :: "tokenizer \<Rightarrow> string \<Rightarrow> nat list \<Rightarrow> nat list result" where
  "append_ordinary t ordinary ids =
     (if ordinary = [] then Inr ids
      else rbind (encode_ordinary t ordinary) (\<lambda>more_ids. Inr (ids @ more_ids)))"

text \<open>
  The scan for added tokens: \<open>ordinary\<close> is the text since the last of them, \<open>left\<close> the text to
  come.  An added token with an empty text would match for ever, so the scan has fuel;
  \<open>None\<close> means that it is still running.
\<close>

fun encode_scan :: "nat \<Rightarrow> tokenizer \<Rightarrow> nat list \<Rightarrow> string \<Rightarrow> string \<Rightarrow> nat list result option" where
  "encode_scan fuel t ids ordinary [] = Some (append_ordinary t ordinary ids)"
| "encode_scan 0 t ids ordinary (c # left) = None"
| "encode_scan (Suc fuel) t ids ordinary (c # left) =
     (case find (\<lambda>a. starts_with (c # left) (added_content a)) (added_tokens t) of
        None \<Rightarrow> encode_scan fuel t ids (ordinary @ [c]) left
      | Some a \<Rightarrow>
          fbind (Some (append_ordinary t ordinary ids)) (\<lambda>ids'.
            encode_scan fuel t (ids' @ [added_id a]) [] (drop (length (added_content a)) (c # left))))"

definition encode :: "tokenizer \<Rightarrow> string \<Rightarrow> nat list result option" where
  "encode t text = encode_scan (length text) t [] [] text"

section \<open>Decoding\<close>

definition parse_byte_fallback :: "string \<Rightarrow> char option" where
  "parse_byte_fallback token =
     (if length token \<noteq> 6 \<or> \<not> starts_with token ''<0x'' \<or> last token \<noteq> CHR ''>'' then None
      else case (hex_value (token ! 3), hex_value (token ! 4)) of
        (Some h, Some l) \<Rightarrow> Some (chr (16 * h + l))
      | _ \<Rightarrow> None)"

text \<open>The loop that replaces every marker by a space.\<close>

function unspace :: "string \<Rightarrow> string" where
  "unspace token =
     (case find_sub space_marker token of
        None \<Rightarrow> token
      | Some i \<Rightarrow> take i token @ '' '' @ unspace (drop (i + length space_marker) token))"
  by pat_completeness auto
termination
proof (relation "measure length")
  fix token i
  assume "find_sub space_marker token = Some i"
  then show "(drop (i + length space_marker) token, token) \<in> measure length"
    using find_sub_Some [of space_marker token i] by (auto simp: space_marker_def intro: diff_less)
qed simp

declare unspace.simps [simp del]

definition known_token :: "tokenizer \<Rightarrow> nat \<Rightarrow> bool" where
  "known_token t i \<longleftrightarrow> i < length (tokens t) \<and> tokens t ! i \<noteq> []"

definition token_bytes :: "tokenizer \<Rightarrow> nat \<Rightarrow> string" where
  "token_bytes t i =
     (let token = tokens t ! i
      in if i \<in> set (special_ids t) then token
         else case parse_byte_fallback token of Some b \<Rightarrow> [b] | None \<Rightarrow> unspace token)"

definition absent_token :: status where
  "absent_token = Status KInvalidArgument ''token ID is absent from tokenizer vocabulary''"

definition decode_step :: "tokenizer \<Rightarrow> bool \<Rightarrow> string \<Rightarrow> nat \<Rightarrow> string result" where
  "decode_step t skip_special out i =
     (if \<not> known_token t i then Inl absent_token
      else if skip_special \<and> i \<in> set (special_ids t) then Inr out
      else Inr (out @ token_bytes t i))"

definition decode :: "tokenizer \<Rightarrow> nat list \<Rightarrow> bool \<Rightarrow> string result" where
  "decode t ids skip_special = rfold (decode_step t skip_special) [] ids"

text \<open>
  \<open>DecodeTokenInto\<close>: the bytes written into a buffer of the given size, and the status.  A piece
  that does not fit is not written at all.
\<close>

definition buffer_append :: "nat \<Rightarrow> string \<Rightarrow> string \<Rightarrow> bool \<times> string" where
  "buffer_append room written bytes =
     (if room - length written < length bytes then (False, written) else (True, written @ bytes))"

definition too_small :: status where
  "too_small = Status KResourceExhausted ''decoded-token buffer is too small''"

function unspace_into :: "nat \<Rightarrow> string \<Rightarrow> string \<Rightarrow> unit result \<times> string" where
  "unspace_into room written token =
     (if token = [] then (Inr (), written)
      else case find_sub space_marker token of
        None \<Rightarrow>
          (case buffer_append room written token of (ok, w) \<Rightarrow> if ok then (Inr (), w) else (Inl too_small, w))
      | Some i \<Rightarrow>
          (case buffer_append room written (take i token) of
             (False, w) \<Rightarrow> (Inl too_small, w)
           | (True, w) \<Rightarrow>
               (case buffer_append room w '' '' of
                  (False, w') \<Rightarrow> (Inl too_small, w')
                | (True, w') \<Rightarrow> unspace_into room w' (drop (i + length space_marker) token))))"
  by pat_completeness auto
termination
proof (relation "measure (\<lambda>(room, written, token). length token)")
  fix room written token i x w y w'
  assume "token \<noteq> []" "find_sub space_marker token = Some i"
  then show "((room, w', drop (i + length space_marker) token), (room :: nat, written, token))
      \<in> measure (\<lambda>(room, written, token). length token)"
    by (simp add: space_marker_def)
qed simp

declare unspace_into.simps [simp del]

definition decode_token_into :: "tokenizer \<Rightarrow> nat \<Rightarrow> bool \<Rightarrow> nat \<Rightarrow> unit result \<times> string" where
  "decode_token_into t i skip_special room =
     (if \<not> known_token t i then (Inl absent_token, [])
      else if skip_special \<and> i \<in> set (special_ids t) then (Inr (), [])
      else
        let token = tokens t ! i
        in if i \<in> set (special_ids t)
           then (case buffer_append room [] token of (ok, w) \<Rightarrow> if ok then (Inr (), w) else (Inl too_small, w))
           else case parse_byte_fallback token of
             Some b \<Rightarrow> if room = 0 then (Inl too_small, []) else (Inr (), [b])
           | None \<Rightarrow> unspace_into room [] token)"

text \<open>\<open>WriteDecodedToken\<close>: the bytes written to a stream; \<open>good\<close> is the stream afterwards.\<close>

definition write_decoded_token :: "tokenizer \<Rightarrow> nat \<Rightarrow> bool \<Rightarrow> bool \<Rightarrow> unit result \<times> string" where
  "write_decoded_token t i skip_special good =
     (if \<not> known_token t i then (Inl absent_token, [])
      else if skip_special \<and> i \<in> set (special_ids t) then (Inr (), [])
      else (if good then Inr () else Inl (Status KIoError ''failed to write decoded token''),
            token_bytes t i))"

section \<open>Loading\<close>

text \<open>A JSON integer that fits \<open>std::uint32_t\<close>.\<close>

definition id_value :: "json option \<Rightarrow> nat option" where
  "id_value v = (case v of Some (JInt i) \<Rightarrow> if 0 \<le> i \<and> i < 2 ^ 32 then Some (nat i) else None | _ \<Rightarrow> None)"

definition maximum_id :: "(string \<times> json) list \<Rightarrow> nat result" where
  "maximum_id vocab =
     rfold (\<lambda>m (token, v). case id_value (Some v) of
         None \<Rightarrow> Inl (Status KDataLoss ''tokenizer vocabulary has an invalid ID'')
       | Some i \<Rightarrow> Inr (max m i)) 0 vocab"

definition vocabulary_step :: "tokenizer \<Rightarrow> string \<times> json \<Rightarrow> tokenizer result" where
  "vocabulary_step t entry =
     (case entry of (token, v) \<Rightarrow>
        let i = (case id_value (Some v) of Some i \<Rightarrow> i | None \<Rightarrow> 0)
        in if tokens t ! i \<noteq> [] then Inl (Status KDataLoss ''tokenizer vocabulary has duplicate IDs'')
           else Inr (t\<lparr>vocabulary := vocabulary t @ [(token, i)], tokens := (tokens t)[i := token],
                  maximum_decoded_bytes := max (maximum_decoded_bytes t) (length token)\<rparr>))"

text \<open>\<open>merges\<close> and the next rank; \<open>emplace\<close> keeps the entry of a key that is there already, but the
  rank is used up.\<close>

definition merge_step :: "tokenizer \<times> nat \<Rightarrow> json \<Rightarrow> (tokenizer \<times> nat) result" where
  "merge_step acc entry =
     (case acc of (t, rank) \<Rightarrow>
      case entry of
        JArray [JString left, JString right] \<Rightarrow>
          (case (map_of (vocabulary t) left, map_of (vocabulary t) right, map_of (vocabulary t) (left @ right)) of
             (Some l, Some r, Some m) \<Rightarrow>
               Inr (if map_of (merges t) (pair_key l r) \<noteq> None then t
                    else t\<lparr>merges := merges t @ [(pair_key l r, \<lparr>merge_rank = rank, merge_result = m\<rparr>)]\<rparr>, rank + 1)
           | _ \<Rightarrow> Inl (Status KDataLoss ''tokenizer merge references an absent vocabulary token''))
      | _ \<Rightarrow> Inl (Status KDataLoss ''tokenizer merge is malformed''))"

definition added_step :: "tokenizer \<Rightarrow> json \<Rightarrow> tokenizer result" where
  "added_step t entry =
     (case (json_find entry ''content'', id_value (json_find entry ''id''), json_find entry ''special'') of
        (Some (JString text), Some i, Some (JBool special)) \<Rightarrow>
          Inr (t\<lparr>added_tokens := added_tokens t @ [\<lparr>added_content = text, added_id = i\<rparr>],
                 special_ids := (if special then i # special_ids t else special_ids t)\<rparr>)
      | _ \<Rightarrow> Inl (Status KDataLoss ''tokenizer added token is malformed''))"

text \<open>Longest first.  \<open>std::sort\<close> leaves the order of equal lengths open; it decides only between
  added tokens with the same text.\<close>

definition sort_added :: "added_token list \<Rightarrow> added_token list" where
  "sort_added as = sort_key (\<lambda>a. - int (length (added_content a))) as"

definition model_parts :: "json \<Rightarrow> ((string \<times> json) list \<times> json list) result" where
  "model_parts root =
     (case json_find root ''model'' of
        Some m \<Rightarrow>
          (case (json_find m ''type'', json_find m ''byte_fallback'', json_find m ''vocab'', json_find m ''merges'') of
             (Some (JString kind), Some (JBool True), Some (JObject vocab), Some (JArray rules)) \<Rightarrow>
               if kind = ''BPE'' then Inr (vocab, rules)
               else Inl (Status KUnsupported ''tokenizer must be a byte-fallback BPE tokenizer'')
           | _ \<Rightarrow> Inl (Status KUnsupported ''tokenizer must be a byte-fallback BPE tokenizer''))
      | None \<Rightarrow> Inl (Status KUnsupported ''tokenizer must be a byte-fallback BPE tokenizer''))"

definition added_parts :: "json \<Rightarrow> json list result" where
  "added_parts root =
     (case json_find root ''added_tokens'' of
        Some (JArray entries) \<Rightarrow> Inr entries
      | _ \<Rightarrow> Inl (Status KDataLoss ''tokenizer has no added_tokens array''))"

definition empty_tokenizer :: "nat \<Rightarrow> tokenizer" where
  "empty_tokenizer n = \<lparr>vocabulary = [], tokens = replicate n [], merges = [], added_tokens = [],
     special_ids = [], maximum_decoded_bytes = 0\<rparr>"

definition build_tokenizer :: "json \<Rightarrow> tokenizer result" where
  "build_tokenizer root =
     rbind (model_parts root) (\<lambda>(vocab, rules).
     rbind (maximum_id vocab) (\<lambda>m.
     rbind (rfold vocabulary_step (empty_tokenizer (m + 1)) vocab) (\<lambda>t1.
     rbind (rfold merge_step (t1, 0) rules) (\<lambda>(t2, rank).
     rbind (added_parts root) (\<lambda>entries.
     rbind (rfold added_step t2 entries) (\<lambda>t3.
       Inr (t3\<lparr>added_tokens := sort_added (added_tokens t3)\<rparr>)))))))"

definition tokenizer_limits :: json_limits where
  "tokenizer_limits = \<lparr>max_depth = 128, max_values = 2000000, max_string_bytes = 256 * 1024 * 1024\<rparr>"

text \<open>\<open>Load\<close>, given the path and what reading the file gives.\<close>

definition load_tokenizer :: "string \<Rightarrow> string result \<Rightarrow> tokenizer result" where
  "load_tokenizer path file =
     rbind file (\<lambda>text.
       case json_parse text tokenizer_limits of
         Inl e \<Rightarrow> Inl (Status (code e) (path @ '': '' @ message e))
       | Inr root \<Rightarrow> build_tokenizer root)"

end
