(* ===== verification/Tokenizer_Load.thy ===== *)
theory Tokenizer_Load
  imports Tokenizer
begin

text \<open>
  What \<open>Tokenizer::Load\<close> guarantees of the tokenizer it returns: the vocabulary and the token table are
  inverse to each other, every token is valid UTF-8 within the recorded length, and every merge rule
  names known tokens and joins their texts.
\<close>

section \<open>Loaded tokenizers are consistent\<close>

definition vocabulary_ok :: "tokenizer \<Rightarrow> bool" where
  "vocabulary_ok t \<longleftrightarrow> (\<forall>(s, i) \<in> set (vocabulary t). s \<noteq> [] \<longrightarrow>
     i < 2 ^ 32 \<and> i < length (tokens t) \<and> tokens t ! i = s)"

definition lengths_ok :: "tokenizer \<Rightarrow> bool" where
  "lengths_ok t \<longleftrightarrow> (\<forall>s \<in> set (tokens t). length s \<le> maximum_decoded_bytes t \<and> is_valid_utf8 s)"

definition rule_ok :: "tokenizer \<Rightarrow> nat \<times> merge_rule \<Rightarrow> bool" where
  "rule_ok t = (\<lambda>(key, rule). \<exists>l r. key = pair_key l r \<and> l < 2 ^ 32 \<and> r < 2 ^ 32 \<and>
     known_token t l \<and> known_token t r \<and> known_token t (merge_result rule) \<and> merge_result rule < 2 ^ 32 \<and>
     tokens t ! merge_result rule = tokens t ! l @ tokens t ! r)"

definition tokenizer_ok :: "tokenizer \<Rightarrow> bool" where
  "tokenizer_ok t \<longleftrightarrow> vocabulary_ok t \<and> lengths_ok t \<and> (\<forall>rule \<in> set (merges t). rule_ok t rule) \<and>
     (\<forall>a \<in> set (added_tokens t). is_valid_utf8 (added_content a) \<and> added_id a < 2 ^ 32)"

lemma id_value_Some: "id_value v = Some i \<Longrightarrow> i < 2 ^ 32"
  by (auto simp: id_value_def split: option.splits json.splits if_splits)

lemma maximum_id_bound:
  assumes "maximum_id vocab = Inr m" "(s, v) \<in> set vocab"
  shows "\<exists>i. id_value (Some v) = Some i \<and> i \<le> m \<and> i < 2 ^ 32"
proof -
  have "(\<forall>(s, v) \<in> set vs. \<exists>i. id_value (Some v) = Some i \<and> i \<le> m) \<and> m0 \<le> m"
    if "rfold (\<lambda>m (token, v). case id_value (Some v) of
         None \<Rightarrow> Inl (Status KDataLoss ''tokenizer vocabulary has an invalid ID'')
       | Some i \<Rightarrow> Inr (max m i)) m0 vs = Inr m" for m0 vs
    using that
  proof (induction vs arbitrary: m0)
    case (Cons x vs)
    obtain s v where x: "x = (s, v)" by fastforce
    with Cons.prems obtain i where i: "id_value (Some v) = Some i"
      "rfold (\<lambda>m (token, v). case id_value (Some v) of
         None \<Rightarrow> Inl (Status KDataLoss ''tokenizer vocabulary has an invalid ID'')
       | Some i \<Rightarrow> Inr (max m i)) (max m0 i) vs = Inr m"
      by (auto split: option.splits)
    from Cons.IH [OF i(2)] i(1) x show ?case by auto
  qed simp
  with assms id_value_Some show ?thesis unfolding maximum_id_def by blast
qed

lemma vocabulary_step_ok:
  assumes "vocabulary_step t (s, v) = Inr t'" "id_value (Some v) = Some i" "i < length (tokens t)"
    and "vocabulary_ok t" "lengths_ok t" "is_valid_utf8 s"
  shows "vocabulary_ok t' \<and> lengths_ok t' \<and> length (tokens t') = length (tokens t) \<and> merges t' = merges t \<and> added_tokens t' = added_tokens t"
proof -
  have e: "tokens t ! i = []" and t': "t' = t\<lparr>vocabulary := vocabulary t @ [(s, i)], tokens := (tokens t)[i := s],
      maximum_decoded_bytes := max (maximum_decoded_bytes t) (length s)\<rparr>"
    using assms(1,2) by (auto simp: vocabulary_step_def split: if_splits)
  have "vocabulary_ok t'"
    using assms(3,4) e id_value_Some [OF assms(2)] unfolding vocabulary_ok_def t' by (auto simp: nth_list_update)
  moreover have "lengths_ok t'"
    using assms(5,6) set_update_subset_insert [of "tokens t" i s] unfolding lengths_ok_def t'
    by (auto simp: le_max_iff_disj)
  ultimately show ?thesis by (simp add: t')
qed

lemma vocabulary_fold_ok:
  assumes "rfold vocabulary_step t vocab = Inr t'" "vocabulary_ok t" "lengths_ok t"
    and "\<forall>(s, v) \<in> set vocab. is_valid_utf8 s \<and> (\<exists>i. id_value (Some v) = Some i \<and> i < length (tokens t))"
  shows "vocabulary_ok t' \<and> lengths_ok t' \<and> merges t' = merges t \<and> added_tokens t' = added_tokens t"
  using assms
proof (induction vocab arbitrary: t)
  case (Cons x vocab)
  obtain s v where x: "x = (s, v)" by fastforce
  from Cons.prems(1) obtain u where u: "vocabulary_step t (s, v) = Inr u" "rfold vocabulary_step u vocab = Inr t'"
    by (auto simp: rbind_Inr_iff x)
  from Cons.prems(4) x obtain i where i: "is_valid_utf8 s" "id_value (Some v) = Some i" "i < length (tokens t)" by auto
  from vocabulary_step_ok [OF u(1) i(2,3) Cons.prems(2,3) i(1)]
  have "vocabulary_ok u" "lengths_ok u" "length (tokens u) = length (tokens t)" "merges u = merges t"
    "added_tokens u = added_tokens t" by simp_all
  with Cons.IH [OF u(2)] Cons.prems(4) show ?case by simp
qed simp

lemma vocabulary_entry: "vocabulary_ok t \<Longrightarrow> (s, i) \<in> set (vocabulary t) \<Longrightarrow> s \<noteq> [] \<Longrightarrow> tokens t ! i = s"
  unfolding vocabulary_ok_def by auto

lemma vocabulary_lookup:
  assumes "vocabulary_ok t" "map_of (vocabulary t) s = Some i" "s \<noteq> []"
  shows "known_token t i" "tokens t ! i = s" "i < 2 ^ 32"
  using assms unfolding vocabulary_ok_def known_token_def by (auto dest!: map_of_SomeD)

lemma merge_step_ok:
  assumes "merge_step (t, n) entry = Inr (t', n')" "tokenizer_ok t" "map_of (vocabulary t) [] = None"
  shows "tokenizer_ok t' \<and> vocabulary t' = vocabulary t"
proof -
  obtain left right l r m where e: "entry = JArray [JString left, JString right]"
    and l: "map_of (vocabulary t) left = Some l" and r: "map_of (vocabulary t) right = Some r"
    and m: "map_of (vocabulary t) (left @ right) = Some m"
    using assms(1) by (auto simp: merge_step_def split: json.splits list.splits option.splits)
  have ne: "left \<noteq> []" "right \<noteq> []" using l r assms(3) by auto
  have v: "vocabulary_ok t" using assms(2) by (simp add: tokenizer_ok_def)
  note ls = vocabulary_lookup [OF v l ne(1)] and rs = vocabulary_lookup [OF v r ne(2)]
  have "left @ right \<noteq> []" using ne by simp
  note ms = vocabulary_lookup [OF v m this]
  have "t' = (if map_of (merges t) (pair_key l r) \<noteq> None then t
     else t\<lparr>merges := merges t @ [(pair_key l r, \<lparr>merge_rank = n, merge_result = m\<rparr>)]\<rparr>)"
    using assms(1) e l r m by (simp add: merge_step_def)
  moreover have "rule_ok t (pair_key l r, \<lparr>merge_rank = n, merge_result = m\<rparr>)"
    unfolding rule_ok_def using ls rs ms by (auto intro: exI [of _ l] exI [of _ r])
  ultimately show ?thesis
    using assms(2) unfolding tokenizer_ok_def vocabulary_ok_def lengths_ok_def rule_ok_def known_token_def by auto
qed

lemma merge_fold_ok:
  assumes "rfold merge_step (t, n) rules = Inr acc" "tokenizer_ok t" "map_of (vocabulary t) [] = None"
  shows "tokenizer_ok (fst acc) \<and> map_of (vocabulary (fst acc)) [] = None"
proof (rule rfold_invariant [where P = "\<lambda>acc. tokenizer_ok (fst acc) \<and> map_of (vocabulary (fst acc)) [] = None", OF assms(1)])
  fix u v :: "tokenizer \<times> nat" and x
  assume "tokenizer_ok (fst u) \<and> map_of (vocabulary (fst u)) [] = None" "merge_step u x = Inr v"
  then show "tokenizer_ok (fst v) \<and> map_of (vocabulary (fst v)) [] = None"
    using merge_step_ok [of "fst u" "snd u" x "fst v" "snd v"] by simp
qed (use assms in simp)

lemma find_ok:
  assumes "json_ok v" "json_find v key = Some x"
  shows "json_ok x"
  using assms by (cases v) (auto simp: list_all_iff dest!: map_of_SomeD)

lemma added_step_ok:
  assumes "added_step t entry = Inr t'" "tokenizer_ok t" "json_ok entry"
  shows "tokenizer_ok t' \<and> vocabulary t' = vocabulary t"
proof -
  obtain s i special where s: "json_find entry ''content'' = Some (JString s)"
    "id_value (json_find entry ''id'') = Some i" "json_find entry ''special'' = Some (JBool special)"
    using assms(1) by (auto simp: added_step_def split: option.splits json.splits)
  from find_ok [OF assms(3) s(1)] id_value_Some [OF s(2)] have a: "is_valid_utf8 s" "i < 2 ^ 32" by simp_all
  have "t' = t\<lparr>added_tokens := added_tokens t @ [\<lparr>added_content = s, added_id = i\<rparr>],
      special_ids := (if special then i # special_ids t else special_ids t)\<rparr>"
    using assms(1) s by (simp add: added_step_def)
  with assms(2) a show ?thesis
    unfolding tokenizer_ok_def vocabulary_ok_def lengths_ok_def rule_ok_def known_token_def by auto
qed

lemma added_fold_ok:
  assumes "rfold added_step t entries = Inr t'" "tokenizer_ok t" "\<forall>e \<in> set entries. json_ok e"
  shows "tokenizer_ok t'"
  using assms by (elim rfold_invariant) (auto dest: added_step_ok)

lemma model_parts_ok:
  assumes "model_parts root = Inr (vocab, rules)" "json_ok root"
  shows "\<forall>(s, v) \<in> set vocab. is_valid_utf8 s"
proof -
  from assms(1) obtain m where m: "json_find root ''model'' = Some m" "json_find m ''vocab'' = Some (JObject vocab)"
    by (auto simp: model_parts_def split: option.splits json.splits bool.splits if_splits)
  from find_ok [OF find_ok [OF assms(2) m(1)] m(2)] show ?thesis by (auto simp: list_all_iff)
qed

lemma added_parts_ok:
  assumes "added_parts root = Inr entries" "json_ok root"
  shows "\<forall>e \<in> set entries. json_ok e"
proof -
  from assms(1) have "json_find root ''added_tokens'' = Some (JArray entries)"
    by (auto simp: added_parts_def split: option.splits json.splits)
  from find_ok [OF assms(2) this] show ?thesis by (auto simp: list_all_iff)
qed

lemma merge_fold_vocabulary:
  assumes "rfold merge_step acc rules = Inr acc'"
  shows "vocabulary (fst acc') = vocabulary (fst acc)"
  by (rule rfold_invariant [OF assms])
    (auto simp: merge_step_def split: prod.splits json.splits list.splits option.splits if_splits)

lemma added_fold_vocabulary:
  assumes "rfold added_step t entries = Inr t'"
  shows "vocabulary t' = vocabulary t"
  by (rule rfold_invariant [OF assms]) (auto simp: added_step_def split: option.splits json.splits)

lemma sort_added_set: "set (sort_added as) = set as"
  by (simp add: sort_added_def)

lemma build_tokenizer_ok:
  assumes "build_tokenizer root = Inr t" "json_ok root" "map_of (vocabulary t) [] = None"
  shows "tokenizer_ok t"
proof -
  from assms(1) obtain vocab rules m t1 t2 rank entries t3 where b: "model_parts root = Inr (vocab, rules)"
    "maximum_id vocab = Inr m" "rfold vocabulary_step (empty_tokenizer (m + 1)) vocab = Inr t1"
    "rfold merge_step (t1, 0) rules = Inr (t2, rank)" "added_parts root = Inr entries"
    "rfold added_step t2 entries = Inr t3" "t = t3\<lparr>added_tokens := sort_added (added_tokens t3)\<rparr>"
    by (auto simp: build_tokenizer_def rbind_Inr_iff)
  have ids: "\<forall>(s, v) \<in> set vocab. is_valid_utf8 s \<and> (\<exists>i. id_value (Some v) = Some i \<and> i < length (tokens (empty_tokenizer (m + 1))))"
  proof (intro ballI)
    fix x assume x: "x \<in> set vocab"
    obtain s v where sv: "x = (s, v)" by fastforce
    with x maximum_id_bound [OF b(2), of s v] obtain i where "id_value (Some v) = Some i" "i \<le> m" by blast
    with x sv model_parts_ok [OF b(1) assms(2)]
    show "case x of (s, v) \<Rightarrow> is_valid_utf8 s \<and> (\<exists>i. id_value (Some v) = Some i \<and> i < length (tokens (empty_tokenizer (m + 1))))"
      by (auto simp: empty_tokenizer_def less_Suc_eq_le)
  qed
  have "vocabulary_ok t1 \<and> lengths_ok t1 \<and> merges t1 = merges (empty_tokenizer (m + 1)) \<and>
      added_tokens t1 = added_tokens (empty_tokenizer (m + 1))"
    by (rule vocabulary_fold_ok [OF b(3) _ _ ids])
      (simp_all add: empty_tokenizer_def vocabulary_ok_def lengths_ok_def is_valid_utf8.simps)
  then have t1: "tokenizer_ok t1" by (simp add: tokenizer_ok_def empty_tokenizer_def)
  have v: "vocabulary t2 = vocabulary t1" "vocabulary t3 = vocabulary t2" "vocabulary t3 = vocabulary t"
    using merge_fold_vocabulary [OF b(4)] added_fold_vocabulary [OF b(6)] b(7) by simp_all
  with assms(3) merge_fold_ok [OF b(4) t1] have t2: "tokenizer_ok t2" by simp
  from added_fold_ok [OF b(6) t2 added_parts_ok [OF b(5) assms(2)]]
  have "tokenizer_ok t3" by simp
  then show ?thesis
    unfolding tokenizer_ok_def vocabulary_ok_def lengths_ok_def rule_ok_def known_token_def b(7)
    by (simp add: sort_added_set)
qed

text \<open>
  C29. A tokenizer that \<open>Load\<close> accepts is consistent, unless its vocabulary has an empty token: the
  vocabulary is injective, with \<open>tokens\<close> as its inverse; every token is valid UTF-8 and no longer
  than \<open>maximum_decoded_bytes\<close>; every merge joins two known tokens into the token of their
  concatenation; and identifiers fit 32 bits.
\<close>

theorem load_tokenizer_consistent:
  assumes "load_tokenizer path file = Inr t" "map_of (vocabulary t) [] = None"
  shows "tokenizer_ok t \<and> inj_on (\<lambda>(s, i). i) (set (vocabulary t))"
proof -
  obtain input where input: "file = Inr input"
    using assms(1) unfolding load_tokenizer_def rbind_Inr_iff by blast
  then obtain root where l: "json_parse input tokenizer_limits = Inr root" "build_tokenizer root = Inr t"
    using assms(1) by (cases "json_parse input tokenizer_limits") (simp_all add: load_tokenizer_def)
  from json_parse_respects_limits [OF l(1)] have "json_ok root" by simp
  from build_tokenizer_ok [OF l(2) this assms(2)] have ok: "tokenizer_ok t" .
  moreover have "inj_on (\<lambda>(s, i). i) (set (vocabulary t))"
  proof (rule inj_onI, clarsimp)
    fix s i s'
    assume a: "(s, i) \<in> set (vocabulary t)" "(s', i) \<in> set (vocabulary t)"
    have ne: "\<And>j. ([], j) \<notin> set (vocabulary t)"
    proof
      fix j assume "([], j) \<in> set (vocabulary t)"
      from weak_map_of_SomeI [OF this] assms(2) show False by simp
    qed
    have v: "vocabulary_ok t" using ok by (simp add: tokenizer_ok_def)
    from ne a have "s \<noteq> []" "s' \<noteq> []" by auto
    with vocabulary_entry [OF v a(1)] vocabulary_entry [OF v a(2)] show "s = s'" by simp
  qed
  ultimately show ?thesis by simp
qed

end
