(* ===== verification/Tokenizer_Decode.thy ===== *)
theory Tokenizer_Decode
  imports Tokenizer_Load
begin

text \<open>
  Markers and spaces, UTF-8 boundaries inside a text, and the decoder that writes into a buffer of
  fixed size: it stays inside the buffer and agrees with \<open>Decode\<close>.
\<close>

section \<open>Markers and spaces\<close>

lemma space_marker_length [simp]: "length space_marker = 3"
  by (simp add: space_marker_def)

lemma unspace_Nil [simp]: "unspace [] = []"
  by (simp add: unspace.simps [of "[]"] space_marker_def)

lemma unspace_Cons:
  "unspace (c # s) = (if starts_with (c # s) space_marker then '' '' @ unspace (drop 3 (c # s)) else c # unspace s)"
  using drop_Suc_Cons [of "_ + 3" c s]
  by (simp add: unspace.simps [of "c # s"] unspace.simps [of s] split: option.split)

lemma marker_start: "starts_with (c # s) space_marker \<longleftrightarrow>
    c = chr 0xE2 \<and> (\<exists>u. s = chr 0x96 # chr 0x81 # u)"
  by (cases s; cases "tl s") (auto simp: space_marker_def starts_with_iff)

lemma marker_bytes: "is_continuation (chr 0x96)" "is_continuation (chr 0x81)" "\<not> is_continuation (chr 0xE2)"
  by (simp_all add: is_continuation_iff)

definition starts_fresh :: "string \<Rightarrow> bool" where
  "starts_fresh s \<longleftrightarrow> (case s of [] \<Rightarrow> True | c # _ \<Rightarrow> \<not> is_continuation c)"

lemma starts_fresh_simps [simp]: "starts_fresh []" "starts_fresh (c # s) \<longleftrightarrow> \<not> is_continuation c"
  by (simp_all add: starts_fresh_def)

lemma unspace_append: "starts_fresh b \<Longrightarrow> unspace (a @ b) = unspace a @ unspace b"
proof (induction a rule: length_induct)
  case (1 a)
  show ?case
  proof (cases a)
    case (Cons c s)
    have iff: "starts_with (c # s @ b) space_marker \<longleftrightarrow> starts_with (c # s) space_marker"
    proof (cases s)
      case s: (Cons d s')
      then show ?thesis using 1(2) marker_bytes
        by (cases s'; cases b) (auto simp: marker_start)
    qed (use 1(2) marker_bytes in \<open>cases b; auto simp: marker_start\<close>)
    show ?thesis
    proof (cases "starts_with (c # s) space_marker")
      case True
      then obtain u where u: "s = chr 0x96 # chr 0x81 # u" by (auto simp: marker_start)
      from 1(1) [rule_format, of u] 1(2) u Cons have "unspace (u @ b) = unspace u @ unspace b" by simp
      with True iff Cons u show ?thesis by (simp add: unspace_Cons)
    next
      case False
      from 1(1) [rule_format, of s] 1(2) Cons have "unspace (s @ b) = unspace s @ unspace b" by simp
      with False iff Cons show ?thesis by (simp add: unspace_Cons)
    qed
  qed simp
qed

lemma unspace_plain: "find_sub space_marker s = None \<Longrightarrow> unspace s = s"
  by (simp add: unspace.simps [of s])

lemma find_sub_infix: "find_sub p (a @ b @ c) = None \<Longrightarrow> find_sub p b = None"
proof -
  assume n: "find_sub p (a @ b @ c) = None"
  have "\<not> starts_with (drop j b) p" for j
  proof
    assume "starts_with (drop j b) p"
    then have j: "starts_with (drop (length a + j) (a @ b @ c)) p"
      by (cases "j \<le> length b") (auto simp: starts_with_iff)
    with find_sub_None [OF n] show False by blast
  qed
  then show ?thesis by (simp add: find_sub_None_iff)
qed

section \<open>UTF-8 boundaries\<close>

lemma append_utf8_shape:
  assumes "scalar cp"
  shows "\<exists>c u. append_utf8 cp = c # u \<and> \<not> is_continuation c \<and> list_all is_continuation u"
  using assms by (cases rule: scalar_cases) (auto simp: is_continuation_iff)

lemma valid_starts_fresh: "is_valid_utf8 s \<Longrightarrow> starts_fresh s"
proof (cases s)
  case (Cons c t)
  assume "is_valid_utf8 s"
  then obtain cp u where "scalar cp" "c # t = append_utf8 cp @ u" using Cons is_valid_utf8_ConsD by metis
  with append_utf8_shape [of cp] Cons show ?thesis by auto
qed simp

lemma valid_split:
  assumes "is_valid_utf8 (a @ b)" "starts_fresh b"
  shows "is_valid_utf8 a \<and> is_valid_utf8 b"
  using assms
proof (induction a rule: length_induct)
  case (1 a)
  show ?case
  proof (cases a)
    case (Cons c t)
    from 1(2) Cons obtain cp u where cp: "scalar cp" "a @ b = append_utf8 cp @ u" "is_valid_utf8 u"
      using is_valid_utf8_ConsD [of c "t @ b"] by auto
    obtain d v where d: "append_utf8 cp = d # v" "list_all is_continuation v"
      using append_utf8_shape [OF cp(1)] by blast
    have "length (append_utf8 cp) \<le> length a"
    proof (rule ccontr)
      assume "\<not> length (append_utf8 cp) \<le> length a"
      then have l: "length a < length (append_utf8 cp)" by simp
      then have "(append_utf8 cp @ u) ! length a = v ! length t" using d Cons by (simp add: nth_append)
      moreover have "length t < length v" using l d Cons by simp
      ultimately have k: "is_continuation ((a @ b) ! length a)" using cp(2) d(2) by (simp add: list_all_length)
      have "b \<noteq> []" using l arg_cong [OF cp(2), of length] by auto
      with k 1(3) show False by (cases b) auto
    qed
    moreover define a' where "a' = drop (length (append_utf8 cp)) a"
    ultimately have a': "a = append_utf8 cp @ a'"
      using arg_cong [OF cp(2), of "take (length (append_utf8 cp))"]
        append_take_drop_id [of "length (append_utf8 cp)" a] by simp
    then have "u = a' @ b" using cp(2) by simp
    note a' = a' this
    have "length a' < length a" using a' d by simp
    with 1 a' cp(3) have "is_valid_utf8 a' \<and> is_valid_utf8 b" by blast
    then show ?thesis using a'(1) cp(1) by (simp add: is_valid_utf8_append_scalar)
  qed (use 1 in \<open>simp add: is_valid_utf8.simps\<close>)
qed

lemma valid_prefix: "is_valid_utf8 (a @ b) \<Longrightarrow> is_valid_utf8 a \<Longrightarrow> is_valid_utf8 b"
  by (simp add: is_valid_utf8_append)


section \<open>Decoding into a buffer\<close>

lemma unspace_length: "length (unspace s) \<le> length s"
proof (induction s rule: length_induct)
  case (1 s)
  show ?case
  proof (cases s)
    case (Cons c u)
    with 1 [rule_format, of u] have "length (unspace u) \<le> length u" by simp
    moreover have "length (unspace (drop 3 s)) \<le> length u"
      using Cons 1 [rule_format, of "drop 3 s"] by (intro order_trans [OF _ diff_le_self [of "length u" 2]]) simp
    ultimately show ?thesis using Cons by (simp add: unspace_Cons)
  qed simp
qed

lemma buffer_append_bound: "length w \<le> room \<Longrightarrow> length (snd (buffer_append room w bytes)) \<le> room"
  by (auto simp: buffer_append_def)

lemma buffer_append_fits: "length w + length bytes \<le> room \<Longrightarrow> buffer_append room w bytes = (True, w @ bytes)"
  by (auto simp: buffer_append_def)

lemma unspace_into_bound: "length w \<le> room \<Longrightarrow> length (snd (unspace_into room w token)) \<le> room"
proof (induction room w token rule: unspace_into.induct)
  case (1 room w token)
  show ?case
  proof (cases "token = []")
    case False
    show ?thesis
    proof (cases "find_sub space_marker token")
      case None
      then show ?thesis using False buffer_append_bound [OF 1(2), of token]
        by (auto simp: unspace_into.simps [of _ _ token] split: prod.splits)
    next
      case (Some i)
      note IH = 1(1) [OF False Some]
      show ?thesis
      proof -
        obtain ok1 w1 where b1: "buffer_append room w (take i token) = (ok1, w1)" by fastforce
        obtain ok2 w2 where b2: "buffer_append room w1 '' '' = (ok2, w2)" by fastforce
        have w: "length w1 \<le> room" "length w2 \<le> room"
          using buffer_append_bound [OF 1(2), of "take i token"] buffer_append_bound [of w1 room "'' ''"] b1 b2 by simp_all
        show ?thesis
        proof (cases "ok1 \<and> ok2")
          case True
          with b1 b2 have "length (snd (unspace_into room w2 (drop (i + length space_marker) token))) \<le> room"
            using IH [OF _ refl] by (simp add: w)
          with True b1 b2 Some False show ?thesis by (simp add: unspace_into.simps [of _ _ token])
        next
          case failed: False
          with b1 b2 Some False w show ?thesis
            by (cases ok1; cases ok2) (simp_all add: unspace_into.simps [of _ _ token])
        qed
      qed
    qed
  qed (use 1 in \<open>simp add: unspace_into.simps\<close>)
qed

lemma unspace_into_fits:
  "length w + length token \<le> room \<Longrightarrow> unspace_into room w token = (Inr (), w @ unspace token)"
proof (induction room w token rule: unspace_into.induct)
  case (1 room w token)
  show ?case
  proof (cases "token = []")
    case False
    show ?thesis
    proof (cases "find_sub space_marker token")
      case None
      then show ?thesis using False buffer_append_fits [OF 1(2)]
        by (simp add: unspace_into.simps [of _ _ token] unspace_plain)
    next
      case (Some i)
      have l: "i + 3 \<le> length token" using find_sub_Some [OF Some] by simp
      have b: "buffer_append room w (take i token) = (True, w @ take i token)"
        "buffer_append room (w @ take i token) '' '' = (True, (w @ take i token) @ '' '')"
        using l 1(2) by (intro buffer_append_fits; simp)+
      have "unspace_into room ((w @ take i token) @ '' '') (drop (i + length space_marker) token) =
          (Inr (), ((w @ take i token) @ '' '') @ unspace (drop (i + length space_marker) token))"
        using l 1(2) b by (intro 1(1) [OF False Some, of True "w @ take i token"]) (simp_all add: b)
      with False Some b show ?thesis
        by (simp add: unspace_into.simps [of _ _ token] unspace.simps [of token])
    qed
  qed (simp add: unspace_into.simps)
qed

lemma parse_byte_fallback_length: "parse_byte_fallback s = Some b \<Longrightarrow> length s = 6"
  by (auto simp: parse_byte_fallback_def split: if_splits)

lemma token_bytes_length:
  assumes "lengths_ok t" "known_token t i"
  shows "length (tokens t ! i) \<le> maximum_decoded_bytes t" "length (token_bytes t i) \<le> maximum_decoded_bytes t"
proof -
  show l: "length (tokens t ! i) \<le> maximum_decoded_bytes t"
    using assms by (auto simp: lengths_ok_def known_token_def)
  show "length (token_bytes t i) \<le> maximum_decoded_bytes t"
    using l unspace_length [of "tokens t ! i"] parse_byte_fallback_length [of "tokens t ! i"]
    by (auto simp: token_bytes_def Let_def split: option.split)
qed

lemma build_lengths_ok:
  assumes "build_tokenizer root = Inr t" "json_ok root"
  shows "lengths_ok t"
proof -
  from assms(1) obtain vocab rules m t1 t2 rank entries t3 where b: "model_parts root = Inr (vocab, rules)"
    "maximum_id vocab = Inr m" "rfold vocabulary_step (empty_tokenizer (m + 1)) vocab = Inr t1"
    "rfold merge_step (t1, 0) rules = Inr (t2, rank)" "rfold added_step t2 entries = Inr t3"
    "t = t3\<lparr>added_tokens := sort_added (added_tokens t3)\<rparr>"
    by (auto simp: build_tokenizer_def rbind_Inr_iff)
  have "lengths_ok t1"
  proof (rule rfold_invariant [where P = lengths_ok, OF b(3)])
    show "lengths_ok (empty_tokenizer (m + 1))"
      by (simp add: empty_tokenizer_def lengths_ok_def is_valid_utf8.simps)
    fix x u v assume x: "x \<in> set vocab" "lengths_ok u" "vocabulary_step u x = Inr v"
    obtain s e where e: "x = (s, e)" by fastforce
    with x model_parts_ok [OF b(1) assms(2)] have "is_valid_utf8 s" by auto
    moreover obtain i where "v = u\<lparr>vocabulary := vocabulary u @ [(s, i)], tokens := (tokens u)[i := s],
        maximum_decoded_bytes := max (maximum_decoded_bytes u) (length s)\<rparr>"
      using x(3) unfolding e vocabulary_step_def by (auto simp: Let_def split: if_splits)
    ultimately show "lengths_ok v"
      using x(2) set_update_subset_insert [of "tokens u" _ s] by (auto simp: lengths_ok_def le_max_iff_disj dest: subsetD)
  qed
  moreover have "lengths_ok (fst (t2, rank)) = lengths_ok (fst (t1, 0::nat))"
    by (rule rfold_invariant [OF b(4)])
      (auto simp: merge_step_def lengths_ok_def split: prod.splits json.splits list.splits option.splits if_splits)
  moreover have "lengths_ok t3 = lengths_ok t2"
    by (rule rfold_invariant [OF b(5)]) (auto simp: added_step_def lengths_ok_def split: option.splits json.splits)
  ultimately show ?thesis by (simp add: b(6) lengths_ok_def)
qed

lemma load_tokenizer_parts:
  assumes "load_tokenizer path file = Inr t"
  obtains root where "json_ok root" "build_tokenizer root = Inr t" "json_count root \<le> 2000000"
proof -
  obtain input where input: "file = Inr input"
    using assms unfolding load_tokenizer_def rbind_Inr_iff by blast
  then obtain root where l: "json_parse input tokenizer_limits = Inr root" "build_tokenizer root = Inr t"
    using assms by (cases "json_parse input tokenizer_limits") (simp_all add: load_tokenizer_def)
  from json_parse_respects_limits [OF l(1)] that [OF _ l(2)] show thesis by (simp add: tokenizer_limits_def)
qed

text \<open>
  C31. \<open>DecodeTokenInto\<close> never writes past its buffer, and a buffer of \<open>maximum_decoded_bytes\<close> is
  always enough: it then returns what \<open>Decode\<close> of that one token returns, status included.
\<close>

theorem decode_token_into_bounds:
  assumes "load_tokenizer path file = Inr t"
  shows "length (snd (decode_token_into t i skip room)) \<le> room \<and>
    (maximum_decoded_bytes t \<le> room \<longrightarrow>
      decode_token_into t i skip room = (case decode t [i] skip of Inl e \<Rightarrow> (Inl e, []) | Inr s \<Rightarrow> (Inr (), s)))"
proof -
  obtain root where "json_ok root" "build_tokenizer root = Inr t" using load_tokenizer_parts [OF assms] .
  then have ok: "lengths_ok t" using build_lengths_ok by simp
  have b: "length (snd (buffer_append room [] s)) \<le> room" for s by (simp add: buffer_append_bound)
  have "length (snd (decode_token_into t i skip room)) \<le> room"
    using b [of "tokens t ! i"] unspace_into_bound [of "[]" room "tokens t ! i"]
    by (auto simp: decode_token_into_def Let_def split: option.splits prod.splits)
  moreover have "decode_token_into t i skip room = (case decode t [i] skip of Inl e \<Rightarrow> (Inl e, []) | Inr s \<Rightarrow> (Inr (), s))"
    if r: "maximum_decoded_bytes t \<le> room"
  proof (cases "known_token t i")
    case True
    then have "tokens t ! i \<noteq> []" by (simp add: known_token_def)
    with True token_bytes_length [OF ok True] r buffer_append_fits [of "[]" "tokens t ! i" room]
      unspace_into_fits [of "[]" "tokens t ! i" room]
    show ?thesis by (auto simp: decode_token_into_def decode_def decode_step_def token_bytes_def Let_def split: option.split)
  qed (simp add: decode_token_into_def decode_def decode_step_def)
  ultimately show ?thesis by blast
qed

end
