(* ===== verification/Tokenizer_Encode.thy ===== *)
theory Tokenizer_Encode
  imports Tokenizer_Decode
begin

text \<open>
  The encoder: merging keeps the bytes a sequence stands for and goes on as long as it can, the scan
  for added tokens ends, and decoding gives the text back.
\<close>

section \<open>Merging\<close>

lemma pair_key_sum: "right < 2 ^ 32 \<Longrightarrow> pair_key left right = left * 2 ^ 32 + right"
  using or_disjoint [of right 32 left] by (simp add: pair_key_def push_bit_eq_mult)

lemma pair_key_parts: "right < 2 ^ 32 \<Longrightarrow> pair_key left right div 2 ^ 32 = left \<and> pair_key left right mod 2 ^ 32 = right"
  by (simp add: pair_key_sum)

definition plain :: "tokenizer \<Rightarrow> nat \<Rightarrow> bool" where
  "plain t i \<longleftrightarrow> i \<notin> set (special_ids t) \<and> parse_byte_fallback (tokens t ! i) = None"

text \<open>What a tokenizer needs for decoding to undo encoding.\<close>

definition reversible :: "tokenizer \<Rightarrow> bool" where
  "reversible t \<longleftrightarrow>
     (\<forall>(s, i) \<in> set (vocabulary t).
        utf8_characters s = Inr [s] \<or> parse_byte_fallback s \<noteq> None \<longrightarrow> i \<notin> set (special_ids t)) \<and>
     (\<forall>(key, rule) \<in> set (merges t).
        plain t (key div 2 ^ 32) \<and> plain t (key mod 2 ^ 32) \<and> plain t (merge_result rule)) \<and>
     (\<forall>a \<in> set (added_tokens t).
        added_content a \<noteq> [] \<and> known_token t (added_id a) \<and> tokens t ! added_id a = added_content a \<and>
        (added_id a \<in> set (special_ids t) \<or> parse_byte_fallback (added_content a) = None))"

definition covers :: "tokenizer \<Rightarrow> string \<Rightarrow> bool" where
  "covers t s \<longleftrightarrow> (\<forall>c \<in> set s.
     map_of (vocabulary t) (if c = CHR '' '' then space_marker else fallback_name c) \<noteq> None)"

definition bytes_of :: "tokenizer \<Rightarrow> nat list \<Rightarrow> string" where
  "bytes_of t ids = concat (map (token_bytes t) ids)"

definition symbols_ok :: "tokenizer \<Rightarrow> nat list \<Rightarrow> bool" where
  "symbols_ok t ids \<longleftrightarrow> (\<forall>i \<in> set ids. i < 2 ^ 32 \<and> known_token t i)"

lemma bytes_of_simps [simp]: "bytes_of t [] = []" "bytes_of t (i # ids) = token_bytes t i @ bytes_of t ids"
  "bytes_of t (xs @ ys) = bytes_of t xs @ bytes_of t ys"
  by (simp_all add: bytes_of_def)

lemma symbols_ok_simps [simp]: "symbols_ok t []"
  "symbols_ok t (i # ids) \<longleftrightarrow> i < 2 ^ 32 \<and> known_token t i \<and> symbols_ok t ids"
  "symbols_ok t (xs @ ys) \<longleftrightarrow> symbols_ok t xs \<and> symbols_ok t ys"
  unfolding symbols_ok_def by auto

lemma decode_known: "symbols_ok t ids \<Longrightarrow> rfold (decode_step t False) out ids = Inr (out @ bytes_of t ids)"
  by (induction ids arbitrary: out) (simp_all add: decode_step_def)

lemma token_bytes_plain: "plain t i \<Longrightarrow> token_bytes t i = unspace (tokens t ! i)"
  by (simp add: plain_def token_bytes_def Let_def)

lemma known_token_valid: "lengths_ok t \<Longrightarrow> known_token t i \<Longrightarrow> is_valid_utf8 (tokens t ! i)"
  by (simp add: lengths_ok_def known_token_def)

lemma merged_bytes:
  assumes ok: "tokenizer_ok t" "reversible t" and rule: "(key, rule) \<in> set (merges t)"
    and ab: "pair_key a b = key" "symbols_ok t [a, b]"
  shows "token_bytes t (merge_result rule) = token_bytes t a @ token_bytes t b \<and> symbols_ok t [merge_result rule]"
proof -
  from ok(1) rule have "rule_ok t (key, rule)" by (simp add: tokenizer_ok_def)
  then obtain l r where lr: "key = pair_key l r" "l < 2 ^ 32" "r < 2 ^ 32" "known_token t (merge_result rule)"
    "merge_result rule < 2 ^ 32" "tokens t ! merge_result rule = tokens t ! l @ tokens t ! r"
    unfolding rule_ok_def by blast
  have "b < 2 ^ 32" using ab(2) by simp
  with lr(1,3) ab(1) have "a = l" "b = r" using pair_key_parts by metis+
  moreover have "plain t (key div 2 ^ 32) \<and> plain t (key mod 2 ^ 32) \<and> plain t (merge_result rule)"
    using ok(2) rule unfolding reversible_def by blast
  ultimately have "plain t a" "plain t b" "plain t (merge_result rule)"
    using pair_key_parts [OF lr(3), of l] lr(1) by simp_all
  moreover have "starts_fresh (tokens t ! b)"
    using ok(1) ab(2) by (intro valid_starts_fresh known_token_valid) (simp_all add: tokenizer_ok_def)
  ultimately show ?thesis
    using lr \<open>a = l\<close> \<open>b = r\<close> by (simp add: token_bytes_plain unspace_append)
qed

lemma merge_pass_bytes:
  assumes "tokenizer_ok t" "reversible t" "(key, rule) \<in> set (merges t)" "m = merge_result rule" "symbols_ok t xs"
  shows "symbols_ok t (merge_pass key m xs) \<and> bytes_of t (merge_pass key m xs) = bytes_of t xs"
  using assms(3-5)
proof (induction key m xs rule: merge_pass.induct)
  case (1 key m a b xs)
  show ?case
  proof (cases "pair_key a b = key")
    case True
    with 1 have "symbols_ok t (merge_pass key m xs) \<and> bytes_of t (merge_pass key m xs) = bytes_of t xs" by simp
    with True 1 merged_bytes [OF assms(1,2) 1(3) True] show ?thesis by simp
  next
    case False
    with 1 show ?thesis by simp
  qed
qed simp_all

lemma merge_loop_bytes:
  assumes "tokenizer_ok t" "reversible t" "symbols_ok t xs"
  shows "symbols_ok t (merge_loop (merges t) xs) \<and> bytes_of t (merge_loop (merges t) xs) = bytes_of t xs"
  using assms(3)
proof (induction "merges t" xs rule: merge_loop.induct)
  case (1 xs)
  show ?case
  proof (cases "best_pair (merges t) None xs")
    case (Some found)
    obtain key rule where f: "found = (key, rule)" by fastforce
    from best_pair_occurs [of "merges t" None xs key rule] Some f
    have "(key, rule) \<in> set (merges t)" by (auto dest: map_of_SomeD)
    from merge_pass_bytes [OF assms(1,2) this refl 1(2)] 1(1) [OF Some f [symmetric]] Some f show ?thesis
      by (simp add: merge_loop.simps [of _ xs])
  qed (use 1 in \<open>simp add: merge_loop.simps\<close>)
qed

section \<open>Ordinary text\<close>

lemma hex_value_upper: "n < 16 \<Longrightarrow> hex_value (upper_hex n) = Some n"
proof -
  have "\<forall>n \<in> set [0..<16]. hex_value (upper_hex n) = Some n" by code_simp
  then show "n < 16 \<Longrightarrow> ?thesis" by simp
qed

lemma parse_fallback_name: "parse_byte_fallback (fallback_name c) = Some c"
proof -
  have "byte c div 16 < 16" "byte c mod 16 < 16" by (simp_all add: less_mult_imp_div_less)
  then show ?thesis
    using div_mult_mod_eq [of "byte c" 16]
    by (simp add: parse_byte_fallback_def fallback_name_def hex_value_upper mult.commute)
qed

lemma fallback_symbols:
  assumes ok: "tokenizer_ok t" "reversible t" and all: "\<forall>c \<in> set s. map_of (vocabulary t) (fallback_name c) \<noteq> None"
  shows "\<exists>more_ids. rfold (byte_symbol t) symbols s = Inr (symbols @ more_ids) \<and> symbols_ok t more_ids \<and>
    bytes_of t more_ids = s"
  using all
proof (induction s arbitrary: symbols)
  case (Cons c s)
  then obtain i where i: "map_of (vocabulary t) (fallback_name c) = Some i" by auto
  have v: "vocabulary_ok t" using ok(1) by (simp add: tokenizer_ok_def)
  have "fallback_name c \<noteq> []" by (simp add: fallback_name_def)
  note known = vocabulary_lookup [OF v i this]
  have "i \<notin> set (special_ids t)"
    using ok(2) map_of_SomeD [OF i] parse_fallback_name [of c] unfolding reversible_def by fastforce
  then have "token_bytes t i = [c]"
    using known by (simp add: token_bytes_def parse_fallback_name)
  moreover obtain more_ids where "rfold (byte_symbol t) (symbols @ [i]) s = Inr ((symbols @ [i]) @ more_ids)"
    "symbols_ok t more_ids" "bytes_of t more_ids = s"
    using Cons by fastforce
  moreover have "byte_symbol t symbols c = Inr (symbols @ [i])" using i by (simp add: byte_symbol_def)
  ultimately show ?case
    using known by (intro exI [of _ "i # more_ids"]) simp
qed simp

lemma append_utf8_length: "length (append_utf8 cp) \<le> 4"
  by (simp add: append_utf8_def)

definition shown :: "nat \<Rightarrow> nat" where
  "shown cp = (if cp = 0x20 then 0x2581 else cp)"

lemma append_utf8_space: "append_utf8 0x20 = '' ''" "append_utf8 0x2581 = space_marker"
  by code_simp (simp add: append_utf8_def space_marker_def)

lemma byte_space: "byte (CHR '' '') = 32"
  by code_simp

lemma append_utf8_space_iff: "scalar cp \<Longrightarrow> CHR '' '' \<in> set (append_utf8 cp) \<Longrightarrow> cp = 0x20"
  by (erule scalar_cases) (auto simp: byte_space byte_inject [symmetric] simp del: byte_inject)

lemma normalize_append: "normalize (a @ b) = normalize a @ normalize b"
  by (simp add: normalize_def)

lemma normalize_id: "CHR '' '' \<notin> set s \<Longrightarrow> normalize s = s"
  by (induction s) (auto simp: normalize_def)

lemma normalize_shown:
  assumes "list_all scalar cps"
  shows "normalize (encode_all cps) = encode_all (map shown cps) \<and> list_all scalar (map shown cps)"
  using assms
proof (induction cps)
  case (Cons cp cps)
  have "normalize (append_utf8 cp) = append_utf8 (shown cp) \<and> scalar (shown cp)"
  proof (cases "cp = 0x20")
    case True
    show ?thesis unfolding True by (simp add: shown_def append_utf8_space normalize_def scalar_def)
  next
    case False
    with Cons append_utf8_space_iff [of cp] have "CHR '' '' \<notin> set (append_utf8 cp)" by auto
    with False Cons show ?thesis by (simp add: shown_def normalize_id)
  qed
  with Cons show ?case by (simp add: normalize_append)
qed (simp add: normalize_def)

lemma character_symbols_ok:
  assumes ok: "tokenizer_ok t" "reversible t" and cp: "scalar cp" "find_sub space_marker (append_utf8 cp) = None"
    and cov: "covers t (append_utf8 cp)"
  shows "\<exists>more_ids. character_symbols t symbols (append_utf8 (shown cp)) = Inr (symbols @ more_ids) \<and>
    symbols_ok t more_ids \<and> bytes_of t more_ids = append_utf8 cp"
proof (cases "map_of (vocabulary t) (append_utf8 (shown cp))")
  case None
  have ns: "cp \<noteq> 0x20" using None cov by (auto simp: covers_def shown_def append_utf8_space)
  then have "\<forall>c \<in> set (append_utf8 cp). map_of (vocabulary t) (fallback_name c) \<noteq> None"
    using cov append_utf8_space_iff [OF cp(1)] unfolding covers_def by (metis (full_types))
  from fallback_symbols [OF ok this, of symbols] None ns show ?thesis
    by (simp add: character_symbols_def shown_def)
next
  case (Some i)
  let ?s = "append_utf8 (shown cp)"
  have sc: "scalar (shown cp)" using cp(1) by (simp add: shown_def scalar_def)
  have v: "vocabulary_ok t" using ok(1) by (simp add: tokenizer_ok_def)
  note known = vocabulary_lookup [OF v Some append_utf8_not_Nil]
  have "utf8_characters ?s = Inr [?s]" using utf8_characters_scalars [of "[shown cp]"] sc by simp
  then have "i \<notin> set (special_ids t)"
    using ok(2) map_of_SomeD [OF Some] unfolding reversible_def by fastforce
  moreover have "parse_byte_fallback ?s = None"
    using parse_byte_fallback_length [of ?s] append_utf8_length [of "shown cp"] by fastforce
  ultimately have "token_bytes t i = unspace ?s" using known by (simp add: token_bytes_def)
  also have "unspace ?s = append_utf8 cp"
  proof (cases "cp = 0x20")
    case True
    have "unspace space_marker = '' ''" by (simp add: unspace_Cons space_marker_def)
    then show ?thesis unfolding True by (simp add: shown_def append_utf8_space)
  next
    case False
    then show ?thesis using cp(2) by (simp add: shown_def unspace_plain)
  qed
  finally show ?thesis using Some known by (intro exI [of _ "[i]"]) (simp add: character_symbols_def)
qed

lemma covers_append [simp]: "covers t (a @ b) \<longleftrightarrow> covers t a \<and> covers t b"
  unfolding covers_def set_append ball_Un ..

lemma characters_fold_ok:
  assumes ok: "tokenizer_ok t" "reversible t"
    and "list_all scalar cps" "find_sub space_marker (encode_all cps) = None" "covers t (encode_all cps)"
  shows "\<exists>more_ids. rfold (character_symbols t) symbols (map append_utf8 (map shown cps)) = Inr (symbols @ more_ids) \<and>
    symbols_ok t more_ids \<and> bytes_of t more_ids = encode_all cps"
  using assms(3-)
proof (induction cps arbitrary: symbols)
  case (Cons cp cps)
  have "find_sub space_marker (append_utf8 cp) = None" "find_sub space_marker (encode_all cps) = None"
    using find_sub_infix [of space_marker "[]" "append_utf8 cp" "encode_all cps"]
      find_sub_infix [of space_marker "append_utf8 cp" "encode_all cps" "[]"] Cons.prems(2) by simp_all
  with character_symbols_ok [OF ok, of cp symbols] Cons.prems obtain first where
    first: "character_symbols t symbols (append_utf8 (shown cp)) = Inr (symbols @ first)"
      "symbols_ok t first" "bytes_of t first = append_utf8 cp" by auto
  from Cons.IH [of "symbols @ first"] Cons.prems \<open>find_sub space_marker (encode_all cps) = None\<close>
  obtain others where "rfold (character_symbols t) (symbols @ first) (map append_utf8 (map shown cps)) =
      Inr ((symbols @ first) @ others)" "symbols_ok t others" "bytes_of t others = encode_all cps" by auto
  with first show ?case by (intro exI [of _ "first @ others"]) simp
qed simp

lemma append_ordinary_ok:
  assumes ok: "tokenizer_ok t" "reversible t"
    and s: "is_valid_utf8 s" "find_sub space_marker s = None" "covers t s" and ids: "symbols_ok t ids"
  shows "\<exists>ids'. append_ordinary t s ids = Inr ids' \<and> symbols_ok t ids' \<and> bytes_of t ids' = bytes_of t ids @ s"
proof (cases "s = []")
  case False
  obtain cps where cps: "list_all scalar cps" "s = encode_all cps" using is_valid_utf8_decode [OF s(1)] by blast
  note n = normalize_shown [OF cps(1)]
  have "utf8_characters (normalize s) = Inr (map append_utf8 (map shown cps))"
    using n utf8_characters_scalars [of "map shown cps"] cps(2) by simp
  moreover obtain symbols where symbols:
    "rfold (character_symbols t) [] (map append_utf8 (map shown cps)) = Inr symbols"
    "symbols_ok t symbols" "bytes_of t symbols = s"
    using characters_fold_ok [OF ok cps(1), of "[]"] s cps(2) by auto
  ultimately have "encode_ordinary t s = Inr (merge_loop (merges t) symbols)" by (simp add: encode_ordinary_def)
  with merge_loop_bytes [OF ok symbols(2)] symbols(3) False ids show ?thesis
    by (simp add: append_ordinary_def)
qed (use ids in \<open>simp add: append_ordinary_def\<close>)

section \<open>The scan\<close>

lemma added_token_match:
  assumes ok: "tokenizer_ok t" "reversible t" and a: "a \<in> set (added_tokens t)" "starts_with s (added_content a)"
    and s: "is_valid_utf8 (before @ s)" "find_sub space_marker s = None"
  shows "is_valid_utf8 before \<and> is_valid_utf8 (drop (length (added_content a)) s) \<and>
    symbols_ok t [added_id a] \<and> token_bytes t (added_id a) = added_content a \<and> added_content a \<noteq> []"
proof -
  define later where "later = drop (length (added_content a)) s"
  have split: "s = added_content a @ later" using starts_with_split [OF a(2)] by (simp add: later_def)
  have v: "is_valid_utf8 (added_content a)" "added_id a < 2 ^ 32" using ok(1) a(1) by (auto simp: tokenizer_ok_def)
  have r: "added_content a \<noteq> []" "known_token t (added_id a)" "tokens t ! added_id a = added_content a"
    "added_id a \<in> set (special_ids t) \<or> parse_byte_fallback (added_content a) = None"
    using ok(2) a(1) by (simp_all add: reversible_def)
  have "starts_fresh s" using valid_starts_fresh [OF v(1)] r(1) split by (cases "added_content a") auto
  with valid_split [OF s(1)] have "is_valid_utf8 before" "is_valid_utf8 s" by simp_all
  with valid_prefix [of "added_content a" later] v(1) split have "is_valid_utf8 later" by simp
  moreover have "find_sub space_marker (added_content a) = None"
    using find_sub_infix [of space_marker "[]" "added_content a" later] s(2) split by simp
  then have "token_bytes t (added_id a) = added_content a"
    using r by (auto simp: token_bytes_def Let_def unspace_plain)
  ultimately show ?thesis using \<open>is_valid_utf8 before\<close> r v by (simp add: later_def)
qed

lemma encode_scan_ok:
  "length left \<le> fuel \<Longrightarrow> is_valid_utf8 (ordinary @ left) \<Longrightarrow>
    find_sub space_marker (ordinary @ left) = None \<Longrightarrow> covers t (ordinary @ left) \<Longrightarrow> symbols_ok t ids \<Longrightarrow>
    tokenizer_ok t \<Longrightarrow> reversible t \<Longrightarrow> \<exists>ids'. encode_scan fuel t ids ordinary left = Some (Inr ids') \<and> symbols_ok t ids' \<and>
      bytes_of t ids' = bytes_of t ids @ ordinary @ left"
proof (induction fuel t ids ordinary left rule: encode_scan.induct)
  case (1 fuel t ids ordinary)
  with append_ordinary_ok [of t ordinary ids] show ?case by simp
next
  case (3 fuel t ids ordinary c left)
  show ?case
  proof (cases "find (\<lambda>a. starts_with (c # left) (added_content a)) (added_tokens t)")
    case None
    with "3.IH"(1) [OF None] "3.prems" show ?thesis by simp
  next
    case (Some a)
    then have a: "a \<in> set (added_tokens t)" "starts_with (c # left) (added_content a)"
      by (auto simp: find_Some_iff)
    define later where "later = drop (length (added_content a)) (c # left)"
    have split: "c # left = added_content a @ later" using starts_with_split [OF a(2)] by (simp add: later_def)
    have n: "find_sub space_marker (c # left) = None" "find_sub space_marker later = None"
      "find_sub space_marker ordinary = None"
      using find_sub_infix [of space_marker ordinary "c # left" "[]"] find_sub_infix [of space_marker "[]" ordinary "c # left"]
        find_sub_infix [of space_marker "ordinary @ added_content a" later "[]"] "3.prems"(3) split by simp_all
    have cov: "covers t ordinary" "covers t later"
      using "3.prems"(4) unfolding split by simp_all
    from added_token_match [OF _ _ a "3.prems"(2) n(1)] "3.prems"(6,7)
    have m: "is_valid_utf8 ordinary" "is_valid_utf8 later" "symbols_ok t [added_id a]"
      "token_bytes t (added_id a) = added_content a" "added_content a \<noteq> []" by (simp_all add: later_def)
    obtain ids' where ids': "append_ordinary t ordinary ids = Inr ids'" "symbols_ok t ids'"
      "bytes_of t ids' = bytes_of t ids @ ordinary"
      using append_ordinary_ok [of t ordinary ids] m(1) n(3) cov(1) "3.prems" by blast
    have lf: "length later \<le> fuel" using arg_cong [OF split, of length] m(5) "3.prems"(1) by (cases "added_content a") auto
    have s': "symbols_ok t (ids' @ [added_id a])" using ids'(2) m(3) by simp
    from "3.IH"(2) [OF Some, of ids', folded later_def] arg_cong [OF ids'(1), of Some] lf m(2) n(2) cov(2) s' "3.prems"(6,7) obtain result where
      "encode_scan fuel t (ids' @ [added_id a]) [] later = Some (Inr result)" "symbols_ok t result"
      "bytes_of t result = bytes_of t (ids' @ [added_id a]) @ later"
      unfolding append_Nil by blast
    moreover have "bytes_of t (ids' @ [added_id a]) @ later = bytes_of t ids @ ordinary @ c # left"
      unfolding split by (simp add: ids'(3) m(4))
    moreover have "encode_scan (Suc fuel) t ids ordinary (c # left) = encode_scan fuel t (ids' @ [added_id a]) [] later"
      by (simp add: Some ids'(1) later_def)
    ultimately show ?thesis by simp
  qed
qed simp

text \<open>
  C30. Round trip: for a loaded tokenizer whose single characters, byte tokens and merged tokens are
  ordinary and whose added tokens are in the vocabulary, every valid UTF-8 text without a space
  marker whose bytes have tokens is encoded without an error, the scan ends, and decoding the
  identifiers gives the text back: added tokens, byte fallbacks, spaces and merges included.
\<close>

theorem decode_encode:
  assumes "load_tokenizer path file = Inr t" "map_of (vocabulary t) [] = None" "reversible t"
    and "is_valid_utf8 input" "find_sub space_marker input = None" "covers t input"
  shows "\<exists>ids. encode t input = Some (Inr ids) \<and> decode t ids False = Inr input"
proof -
  obtain root where "json_ok root" "build_tokenizer root = Inr t" using load_tokenizer_parts [OF assms(1)] .
  then have ok: "tokenizer_ok t" using build_tokenizer_ok assms(2) by simp
  obtain ids where "encode t input = Some (Inr ids)" "symbols_ok t ids" "bytes_of t ids = input"
    using encode_scan_ok [of input "length input" "[]" t "[]"] ok assms(3-6) by (auto simp: encode_def)
  then show ?thesis by (simp add: decode_def decode_known)
qed


section \<open>When the scan ends\<close>

lemma encode_scan_ends:
  "\<forall>a \<in> set (added_tokens t). added_content a \<noteq> [] \<Longrightarrow> length left \<le> fuel \<Longrightarrow>
    encode_scan fuel t ids ordinary left \<noteq> None"
proof (induction fuel t ids ordinary left rule: encode_scan.induct)
  case (3 fuel t ids ordinary c left)
  show ?case
  proof (cases "find (\<lambda>a. starts_with (c # left) (added_content a)) (added_tokens t)")
    case (Some a)
    then have "added_content a \<noteq> []" using "3.prems"(1) by (auto simp: find_Some_iff)
    then have l: "length (drop (length (added_content a)) (c # left)) \<le> fuel"
      using "3.prems"(2) by (cases "added_content a") auto
    show ?thesis
    proof (cases "append_ordinary t ordinary ids")
      case (Inr ids')
      with "3.IH"(2) [OF Some _ "3.prems"(1) l, of ids'] Some show ?thesis by simp
    qed (use Some in simp)
  qed (use 3 in simp)
qed simp_all

lemma encode_scan_stuck:
  assumes "\<forall>a \<in> set (added_tokens t). is_valid_utf8 (added_content a)"
    and "\<exists>a \<in> set (added_tokens t). added_content a = []"
  shows "encode_scan fuel t ids [] [chr 255] = None"
proof (induction fuel arbitrary: ids)
  case (Suc fuel)
  obtain a where f: "find (\<lambda>a. starts_with [chr 255] (added_content a)) (added_tokens t) = Some a"
  proof (cases "find (\<lambda>a. starts_with [chr 255] (added_content a)) (added_tokens t)")
    case None
    with assms(2) show ?thesis by (fastforce simp: find_None_iff)
  qed
  then have a: "a \<in> set (added_tokens t)" "starts_with [chr 255] (added_content a)" by (auto simp: find_Some_iff)
  have "\<not> is_valid_utf8 [chr 255]" by (simp add: is_valid_utf8.simps utf8_lead_cases)
  then have "added_content a = []" using a assms(1) by (cases "added_content a") (auto simp: starts_with_iff)
  with f Suc show ?case by (simp add: append_ordinary_def)
qed simp

lemma build_added_valid:
  assumes "build_tokenizer root = Inr t" "json_ok root"
  shows "\<forall>a \<in> set (added_tokens t). is_valid_utf8 (added_content a)"
proof -
  from assms(1) obtain vocab rules m t1 t2 rank entries t3 where b:
    "rfold vocabulary_step (empty_tokenizer (m + 1)) vocab = Inr t1"
    "rfold merge_step (t1, 0) rules = Inr (t2, rank)" "added_parts root = Inr entries"
    "rfold added_step t2 entries = Inr t3" "t = t3\<lparr>added_tokens := sort_added (added_tokens t3)\<rparr>"
    by (auto simp: build_tokenizer_def rbind_Inr_iff)
  have "added_tokens t1 = []"
    by (rule rfold_invariant [OF b(1)]) (auto simp: empty_tokenizer_def vocabulary_step_def Let_def split: if_splits)
  moreover have "added_tokens (fst (t2, rank)) = added_tokens t1"
    by (rule rfold_invariant [OF b(2)])
      (auto simp: merge_step_def split: prod.splits json.splits list.splits option.splits if_splits)
  ultimately have "\<forall>a \<in> set (added_tokens t2). is_valid_utf8 (added_content a)" by simp
  then have "\<forall>a \<in> set (added_tokens t3). is_valid_utf8 (added_content a)"
  proof (rule rfold_invariant [OF b(4)])
    fix x u v assume x: "x \<in> set entries" "\<forall>a \<in> set (added_tokens u). is_valid_utf8 (added_content a)" "added_step u x = Inr v"
    obtain s i special where s: "json_find x ''content'' = Some (JString s)"
      "id_value (json_find x ''id'') = Some i" "json_find x ''special'' = Some (JBool special)"
      using x(3) by (auto simp: added_step_def split: option.splits json.splits)
    have "json_ok x" using added_parts_ok [OF b(3) assms(2)] x(1) by simp
    from find_ok [OF this s(1)] x(2,3) s show "\<forall>a \<in> set (added_tokens v). is_valid_utf8 (added_content a)"
      by (auto simp: added_step_def)
  qed
  then show ?thesis by (simp add: b(5) sort_added_set)
qed

text \<open>
  C32. The scan for added tokens of a loaded tokenizer ends on every text exactly when no added
  token has an empty text, and then as many steps as the text has bytes are enough.  \<open>Load\<close> does
  not refuse an empty one: then there is a text on which \<open>Encode\<close> never returns.
\<close>

theorem encode_terminates_iff:
  assumes "load_tokenizer path file = Inr t"
  shows "((\<forall>a \<in> set (added_tokens t). added_content a \<noteq> []) \<longleftrightarrow> (\<forall>input. encode t input \<noteq> None)) \<and>
    ((\<exists>a \<in> set (added_tokens t). added_content a = []) \<longrightarrow> (\<exists>input. \<forall>fuel. encode_scan fuel t [] [] input = None))"
proof -
  obtain root where "json_ok root" "build_tokenizer root = Inr t" using load_tokenizer_parts [OF assms] .
  then have "\<forall>a \<in> set (added_tokens t). is_valid_utf8 (added_content a)" using build_added_valid by blast
  note stuck = encode_scan_stuck [OF this]
  have "encode t input \<noteq> None" if "\<forall>a \<in> set (added_tokens t). added_content a \<noteq> []" for input
    using encode_scan_ends [OF that] by (simp add: encode_def)
  moreover have "encode t [chr 255] = None" if "\<exists>a \<in> set (added_tokens t). added_content a = []"
    using stuck [OF that] by (simp add: encode_def)
  ultimately show ?thesis using stuck by blast
qed

section \<open>Merging goes on as long as it can\<close>

lemma best_pair_keeps: "best_pair rules (Some p) ys = None \<Longrightarrow> False"
  by (induction rules "Some p" ys arbitrary: p rule: best_pair.induct)
    (auto simp: Let_def split: option.splits if_splits)

lemma best_pair_None:
  assumes "best_pair rules best xs = None" "Suc i < length xs"
    and "map_of rules (pair_key (xs ! i) (xs ! Suc i)) = Some rule"
  shows "2 ^ 32 - 1 \<le> merge_rank rule"
  using assms
proof (induction rules best xs arbitrary: i rule: best_pair.induct)
  case (1 rules best a b xs)
  show ?case
  proof (cases i)
    case 0
    have n: "best = None"
      using 1(2) by (cases best) (auto simp: Let_def dest: best_pair_keeps split: option.splits if_splits)
    show ?thesis
    proof (rule ccontr)
      assume "\<not> ?thesis"
      with 0 n 1(2,4) show False by (auto dest: best_pair_keeps)
    qed
  next
    case (Suc j)
    with 1(1) [OF refl, of j] 1(2-4) show ?thesis by (simp add: Let_def)
  qed
qed simp_all

lemma merge_loop_saturated:
  assumes "Suc i < length (merge_loop rules xs)"
    and "map_of rules (pair_key (merge_loop rules xs ! i) (merge_loop rules xs ! Suc i)) = Some rule"
  shows "2 ^ 32 - 1 \<le> merge_rank rule"
  using assms
proof (induction rules xs rule: merge_loop.induct)
  case (1 rules xs)
  show ?case
  proof (cases "best_pair rules None xs")
    case None
    with 1(2,3) have "Suc i < length xs" "map_of rules (pair_key (xs ! i) (xs ! Suc i)) = Some rule"
      by (simp_all add: merge_loop.simps [of rules xs])
    with best_pair_None [OF None] show ?thesis .
  next
    case (Some found)
    obtain key r where f: "found = (key, r)" by fastforce
    from 1(1) [OF Some f [symmetric]] 1(2,3) Some f show ?thesis by (simp add: merge_loop.simps [of rules xs])
  qed
qed

lemma map_of_count: "map_of m k = Some x \<Longrightarrow> json_count x \<le> sum_list (map (\<lambda>(k, x). json_count x) m)"
  by (induction m) (auto split: if_splits)

lemma find_count: "json_find v key = Some x \<Longrightarrow> json_count x \<le> json_count v"
  by (cases v) (auto dest: map_of_count)

lemma array_count: "length a \<le> json_count (JArray a)"
proof -
  have "length a \<le> sum_list (map json_count a)"
  proof (induction a)
    case (Cons x a)
    then show ?case using json_count_pos [of x] by simp
  qed simp
  then show ?thesis by simp
qed

lemma merge_fold_ranks:
  assumes "rfold merge_step (t, n) rules = Inr (t', n')" "\<forall>entry \<in> set (merges t). merge_rank (snd entry) < n"
  shows "n' = n + length rules \<and> (\<forall>entry \<in> set (merges t'). merge_rank (snd entry) < n')"
  using assms
proof (induction rules arbitrary: t n)
  case (Cons x rules)
  from Cons.prems(1) obtain u m where u: "merge_step (t, n) x = Inr (u, m)" "rfold merge_step (u, m) rules = Inr (t', n')"
    by (auto simp: rbind_Inr_iff)
  have old: "merge_rank (snd entry) < Suc n" if "entry \<in> set (merges t)" for entry
    using Cons.prems(2) that less_SucI by blast
  have "m = n + 1 \<and> (\<forall>entry \<in> set (merges u). merge_rank (snd entry) < m)"
    using u(1) old old [of "(_, _)", unfolded snd_conv]
    by (auto simp: merge_step_def split: json.splits list.splits option.splits if_splits)
  with Cons.IH [OF u(2)] show ?case by force
qed simp

lemma build_ranks:
  assumes "build_tokenizer root = Inr t" "json_count root \<le> 2000000"
  shows "\<forall>entry \<in> set (merges t). merge_rank (snd entry) < 2000000"
proof -
  from assms(1) obtain vocab rules m t1 t2 rank entries t3 where b: "model_parts root = Inr (vocab, rules)"
    "rfold vocabulary_step (empty_tokenizer (m + 1)) vocab = Inr t1"
    "rfold merge_step (t1, 0) rules = Inr (t2, rank)"
    "rfold added_step t2 entries = Inr t3" "t = t3\<lparr>added_tokens := sort_added (added_tokens t3)\<rparr>"
    by (auto simp: build_tokenizer_def rbind_Inr_iff)
  from b(1) obtain mo where "json_find root ''model'' = Some mo" "json_find mo ''merges'' = Some (JArray rules)"
    by (auto simp: model_parts_def split: option.splits json.splits bool.splits if_splits)
  from find_count [OF this(1)] find_count [OF this(2)] array_count [of rules] assms(2)
  have l: "length rules \<le> 2000000" by linarith
  have "merges t1 = []"
    by (rule rfold_invariant [OF b(2)]) (auto simp: empty_tokenizer_def vocabulary_step_def Let_def split: if_splits)
  with merge_fold_ranks [OF b(3)] l have "\<forall>entry \<in> set (merges t2). merge_rank (snd entry) < 2000000" by fastforce
  moreover have "merges t3 = merges t2"
    by (rule rfold_invariant [OF b(4)]) (auto simp: added_step_def split: option.splits json.splits)
  ultimately show ?thesis by (simp add: b(5))
qed

text \<open>
  Merging is complete: in what \<open>EncodeOrdinary\<close> of a loaded tokenizer returns, no two
  neighbours can be merged any more.  In particular no rank reaches the initial value of
  \<open>best_rank\<close>, at which a merge would be passed over.
\<close>

theorem encode_ordinary_merged:
  assumes "load_tokenizer path file = Inr t" "encode_ordinary t ordinary = Inr ids" "Suc i < length ids"
  shows "map_of (merges t) (pair_key (ids ! i) (ids ! Suc i)) = None"
proof (rule ccontr)
  assume "map_of (merges t) (pair_key (ids ! i) (ids ! Suc i)) \<noteq> None"
  then obtain rule where rule: "map_of (merges t) (pair_key (ids ! i) (ids ! Suc i)) = Some rule" by blast
  obtain root where "build_tokenizer root = Inr t" "json_count root \<le> 2000000" using load_tokenizer_parts [OF assms(1)] .
  from build_ranks [OF this] map_of_SomeD [OF rule] have "merge_rank rule < 2000000" by auto
  moreover obtain symbols where "ids = merge_loop (merges t) symbols"
    using assms(2) by (auto simp: encode_ordinary_def rbind_Inr_iff)
  with merge_loop_saturated [of i "merges t" symbols rule] assms(3) rule have "2 ^ 32 - 1 \<le> merge_rank rule" by simp
  ultimately show False by simp
qed

end
