(* ===== verification/Tokenizer_Sample.thy ===== *)
theory Tokenizer_Sample
  imports Tokenizer_Encode
begin

text \<open>
  A small tokenizer.json, loaded by the model, at which the properties of the tokenizer are applied.
\<close>

section \<open>An example\<close>

definition sample_vocabulary :: "(string \<times> json) list" where
  "sample_vocabulary = [(''<0x3C>'', JInt 4), (''<0x3E>'', JInt 5), (''<0x61>'', JInt 6), (''<0x62>'', JInt 7),
     (''<0x63>'', JInt 8), (''<0x73>'', JInt 9), (''<s>'', JInt 0), (''a'', JInt 1), (''ab'', JInt 3), (''b'', JInt 2)]"

definition sample_tokenizer_json :: json where
  "sample_tokenizer_json = JObject
     [(''added_tokens'', JArray [JObject [(''content'', JString ''<s>''), (''id'', JInt 0), (''special'', JBool True)]]),
      (''model'', JObject [(''byte_fallback'', JBool True), (''merges'', JArray [JArray [JString ''a'', JString ''b'']]),
         (''type'', JString ''BPE''), (''vocab'', JObject sample_vocabulary)])]"

definition sample_words :: tokenizer where
  "sample_words = \<lparr>vocabulary = [(''<0x3C>'', 4), (''<0x3E>'', 5), (''<0x61>'', 6), (''<0x62>'', 7), (''<0x63>'', 8),
       (''<0x73>'', 9), (''<s>'', 0), (''a'', 1), (''ab'', 3), (''b'', 2)],
     tokens = [''<s>'', ''a'', ''b'', ''ab'', ''<0x3C>'', ''<0x3E>'', ''<0x61>'', ''<0x62>'', ''<0x63>'', ''<0x73>''],
     merges = [], added_tokens = [], special_ids = [], maximum_decoded_bytes = 6\<rparr>"

definition sample_tokenizer :: tokenizer where
  "sample_tokenizer = sample_words\<lparr>merges := [(pair_key 1 2, \<lparr>merge_rank = 0, merge_result = 3\<rparr>)],
     added_tokens := [\<lparr>added_content = ''<s>'', added_id = 0\<rparr>], special_ids := [0]\<rparr>"

lemma sample_tokenizer_fields:
  "vocabulary sample_tokenizer = vocabulary sample_words" "tokens sample_tokenizer = tokens sample_words"
  "merges sample_tokenizer = [(pair_key 1 2, \<lparr>merge_rank = 0, merge_result = 3\<rparr>)]"
  "added_tokens sample_tokenizer = [\<lparr>added_content = ''<s>'', added_id = 0\<rparr>]"
  "special_ids sample_tokenizer = [0]" "maximum_decoded_bytes sample_tokenizer = 6"
  by (simp_all add: sample_tokenizer_def sample_words_def)

lemma sample_build:
  "model_parts sample_tokenizer_json = Inr (sample_vocabulary, [JArray [JString ''a'', JString ''b'']])"
  "maximum_id sample_vocabulary = Inr 9"
  "rfold vocabulary_step (empty_tokenizer (9 + 1)) sample_vocabulary = Inr sample_words"
  "added_parts sample_tokenizer_json = Inr
     [JObject [(''content'', JString ''<s>''), (''id'', JInt 0), (''special'', JBool True)]]"
  by code_simp+

lemma sample_merge:
  "rfold merge_step (sample_words, 0) [JArray [JString ''a'', JString ''b'']] =
     Inr (sample_words\<lparr>merges := merges sample_tokenizer\<rparr>, 1)"
  by (simp add: merge_step_def sample_words_def sample_tokenizer_def)

lemma sample_build_tokenizer: "build_tokenizer sample_tokenizer_json = Inr sample_tokenizer"
  by (simp only: build_tokenizer_def sample_build sample_merge rbind_simps split_conv)
    (simp add: added_step_def sample_tokenizer_def sample_words_def id_value_def sort_added_def)

lemma sample_tokenizer_loads: "load_tokenizer path (Inr (stringify sample_tokenizer_json)) = Inr sample_tokenizer"
proof -
  have "json_parse (stringify sample_tokenizer_json) tokenizer_limits = Inr sample_tokenizer_json"
  proof (rule json_parse_reads_back)
    have "json_ok sample_tokenizer_json" "json_depth sample_tokenizer_json \<le> 5" "json_count sample_tokenizer_json \<le> 99"
      "strings_le 99 sample_tokenizer_json" by code_simp+
    then show "within tokenizer_limits sample_tokenizer_json"
      using strings_le_mono [of 99 sample_tokenizer_json "256 * 1024 * 1024"]
      by (simp add: within_def tokenizer_limits_def)
    show "no_doubles sample_tokenizer_json" by code_simp
    have "length (stringify sample_tokenizer_json) \<le> 500" by code_simp
    then show "length (stringify sample_tokenizer_json) \<le> document_limit tokenizer_limits"
      by (simp add: document_limit_def tokenizer_limits_def)
  qed
  then show ?thesis by (simp add: load_tokenizer_def sample_build_tokenizer)
qed

lemma sample_tokenizer_facts: "map_of (vocabulary sample_tokenizer) [] = None"
  by (simp add: sample_tokenizer_fields sample_words_def)

lemma sample_reversible: "reversible sample_tokenizer"
proof -
  have "list_all (\<lambda>(s, i). utf8_characters s = Inr [s] \<or> parse_byte_fallback s \<noteq> None \<longrightarrow> i \<noteq> 0)
      (vocabulary sample_words)" by code_simp
  moreover have "known_token sample_words 0" "tokens sample_words ! 0 = ''<s>''" by code_simp+
  moreover have "list_all (\<lambda>i. parse_byte_fallback (tokens sample_words ! i) = None) [1, 2, 3]" by code_simp
  moreover have "pair_key 1 2 div 2 ^ 32 = 1" "pair_key 1 2 mod 2 ^ 32 = 2" using pair_key_parts [of 2 1] by simp_all
  ultimately show ?thesis
    unfolding reversible_def list_all_iff plain_def known_token_def sample_tokenizer_fields by simp
qed

lemma ascii_no_marker: "list_all (\<lambda>c. byte c < 128) s \<Longrightarrow> find_sub space_marker s = None"
proof (induction s)
  case (Cons c s)
  then have "c \<noteq> chr 0xE2" by (auto simp: byte_inject [symmetric] simp del: byte_inject)
  with Cons show ?case by (simp add: marker_start)
qed (simp add: space_marker_def)

lemma sample_input:
  "is_valid_utf8 ''abc<s>a''" "find_sub space_marker ''abc<s>a'' = None" "covers sample_tokenizer ''abc<s>a''"
proof -
  show "is_valid_utf8 ''abc<s>a''" by code_simp
  show "find_sub space_marker ''abc<s>a'' = None" by (rule ascii_no_marker) code_simp
  have "list_all (\<lambda>c. c \<noteq> CHR '' '' \<and> map_of (vocabulary sample_words) (fallback_name c) \<noteq> None) ''abc<s>a''"
    by code_simp
  then show "covers sample_tokenizer ''abc<s>a''" by (simp add: covers_def list_all_iff sample_tokenizer_fields)
qed

theorem load_tokenizer_consistent_witness: "tokenizer_ok sample_tokenizer"
  using load_tokenizer_consistent [OF sample_tokenizer_loads sample_tokenizer_facts] by simp

theorem decode_token_into_bounds_witness: "decode_token_into sample_tokenizer 3 True 6 = (Inr (), ''ab'')"
  using decode_token_into_bounds [OF sample_tokenizer_loads, of 3 True 6]
  by (simp add: sample_tokenizer_fields) (simp add: decode_def decode_step_def known_token_def token_bytes_def
      sample_tokenizer_fields sample_words_def parse_byte_fallback_def unspace_Cons marker_start)

theorem decode_encode_witness:
  "\<exists>ids. encode sample_tokenizer ''abc<s>a'' = Some (Inr ids) \<and> decode sample_tokenizer ids False = Inr ''abc<s>a''"
  by (rule decode_encode [OF sample_tokenizer_loads sample_tokenizer_facts sample_reversible sample_input])

theorem encode_terminates_iff_witness: "\<forall>input. encode sample_tokenizer input \<noteq> None"
  using encode_terminates_iff [OF sample_tokenizer_loads] by (simp add: sample_tokenizer_fields)

lemma sample_merges: "encode_ordinary sample_tokenizer ''aba'' = Inr [3, 1]"
proof -
  have "utf8_characters (normalize ''aba'') = Inr [''a'', ''b'', ''a'']" by code_simp
  moreover have "rfold (character_symbols sample_tokenizer) [] [''a'', ''b'', ''a''] = Inr [1, 2, 1]"
    by (simp add: character_symbols_def sample_tokenizer_fields sample_words_def)
  moreover have "pair_key 2 1 \<noteq> pair_key 1 2" "pair_key 3 1 \<noteq> pair_key 1 2" by (simp_all add: pair_key_sum)
  then have "merge_loop (merges sample_tokenizer) [1, 2, 1] = [3, 1]"
    by (simp add: merge_loop.simps [of _ "[1, 2, 1]"] merge_loop.simps [of _ "[3, 1]"] sample_tokenizer_fields
        del: One_nat_def)
  ultimately show ?thesis by (simp add: encode_ordinary_def)
qed

theorem encode_ordinary_merged_witness:
  "map_of (merges sample_tokenizer) (pair_key ([3, 1] ! 0) ([3, 1] ! Suc 0)) = None"
  by (rule encode_ordinary_merged [OF sample_tokenizer_loads sample_merges]) simp

end
