(* ===== verification/Sm120_Layout.thy ===== *)
theory Sm120_Layout
  imports Prelude "HOL-Library.Multiset"
begin

text \<open>
  The in-memory order of NVFP4 weights and their scales (src/cuda/nvfp4/sm120_layout.cpp): the plan
  of the layout, the two tilings that reorder a checkpoint tensor, and the host oracle of the lane
  mapping that reads a tiled tensor.  Sizes are 64-bit numbers, kept as \<open>nat\<close>; the one product that
  could wrap around is checked by the code, and the offsets stay below it.  A copy or a load that
  left its buffer would be undefined: \<open>None\<close>.
\<close>

unbundle bit_operations_syntax

section \<open>The plan\<close>

record source_layout =
  rows :: nat
  contracting_elements :: nat
  row_tiles :: nat
  k_blocks :: nat
  packed_weight_bytes :: nat
  layout_scale_bytes :: nat
  persistent_repack_bytes :: nat

definition rows_per_tile :: nat where "rows_per_tile = 8"
definition elements_per_k_block :: nat where "elements_per_k_block = 64"
definition elements_per_scale :: nat where "elements_per_scale = 16"
definition elements_per_packed_byte :: nat where "elements_per_packed_byte = 2"
definition warp_lanes :: nat where "warp_lanes = 32"

definition layout_invalid :: "string \<Rightarrow> status" where
  "layout_invalid m = Status KInvalidArgument m"

definition layout_multiply :: "nat \<Rightarrow> nat \<Rightarrow> string \<Rightarrow> nat result" where
  "layout_multiply left right label =
     (if mul_overflows left right then Inl (layout_invalid (label @ '' overflow''))
      else Inr (left * right))"

definition plan_source_layout :: "nat \<Rightarrow> nat \<Rightarrow> source_layout result" where
  "plan_source_layout r k =
     (if r = 0 \<or> k = 0 \<or> k mod elements_per_k_block \<noteq> 0
      then Inl (layout_invalid ''SM120 NVFP4 source layout requires positive dimensions and K divisible by 64'')
      else rbind (layout_multiply r k ''NVFP4 elements'') (\<lambda>logical.
        Inr \<lparr>rows = r, contracting_elements = k,
             row_tiles = (r + rows_per_tile - 1) mod 2 ^ 64 div rows_per_tile,
             k_blocks = k div elements_per_k_block,
             packed_weight_bytes = logical div elements_per_packed_byte,
             layout_scale_bytes = logical div elements_per_scale, persistent_repack_bytes = 0\<rparr>))"

text \<open>The checks that every user of a layout repeats.\<close>

definition check_layout :: "source_layout \<Rightarrow> unit result" where
  "check_layout l =
     rbind (plan_source_layout (rows l) (contracting_elements l)) (\<lambda>e.
       rguard (row_tiles l = row_tiles e \<and> k_blocks l = k_blocks e \<and>
           packed_weight_bytes l = packed_weight_bytes e \<and> layout_scale_bytes l = layout_scale_bytes e \<and>
           persistent_repack_bytes l = 0)
         (layout_invalid ''SM120 NVFP4 source layout metadata is inconsistent''))"

section \<open>Tiling\<close>

definition copy_n :: "'a list \<Rightarrow> nat \<Rightarrow> nat \<Rightarrow> nat \<Rightarrow> 'a list \<Rightarrow> 'a list option" where
  "copy_n source from n to target =
     (if from + n \<le> length source \<and> to + n \<le> length target
      then Some (take to target @ take n (drop from source) @ drop (to + n) target)
      else None)"

fun copy_blocks :: "'a list \<Rightarrow> nat \<Rightarrow> (nat \<times> nat) list \<Rightarrow> 'a list \<Rightarrow> 'a list option" where
  "copy_blocks source n [] target = Some target"
| "copy_blocks source n ((from, to) # others) target =
     (case copy_n source from n to target of
        None \<Rightarrow> None
      | Some target' \<Rightarrow> copy_blocks source n others target')"

definition tile_rows :: "source_layout \<Rightarrow> nat \<Rightarrow> nat" where
  "tile_rows l tile = min rows_per_tile (rows l - tile * rows_per_tile)"

text \<open>The source and destination offsets in the order of the three loops, for blocks of \<open>n\<close> bytes
  and rows of \<open>row_bytes\<close>.\<close>

definition tile_copies :: "source_layout \<Rightarrow> nat \<Rightarrow> nat \<Rightarrow> (nat \<times> nat) list" where
  "tile_copies l n row_bytes =
     concat (map (\<lambda>tile.
       let first_row = tile * rows_per_tile; tile_offset = first_row * k_blocks l * n
       in concat (map (\<lambda>k_block.
            map (\<lambda>row. ((first_row + row) * row_bytes + k_block * n,
                        tile_offset + (k_block * tile_rows l tile + row) * n)) [0..<tile_rows l tile])
          [0..<k_blocks l]))
       [0..<row_tiles l])"

definition weight_block_bytes :: nat where
  "weight_block_bytes = elements_per_k_block div elements_per_packed_byte"

definition scale_block_bytes :: nat where
  "scale_block_bytes = elements_per_k_block div elements_per_scale"

definition tile_weights :: "source_layout \<Rightarrow> 8 word list \<Rightarrow> 8 word list option result" where
  "tile_weights l source =
     rbind (check_layout l) (\<lambda>_.
     rbind (rguard (length source = packed_weight_bytes l)
         (layout_invalid ''SM120 NVFP4 source weights do not match the planned byte count'')) (\<lambda>_.
       Inr (copy_blocks source weight_block_bytes
              (tile_copies l weight_block_bytes (contracting_elements l div elements_per_packed_byte))
              (replicate (packed_weight_bytes l) 0))))"

definition tile_weight_scales :: "source_layout \<Rightarrow> 8 word list \<Rightarrow> 8 word list option result" where
  "tile_weight_scales l source =
     rbind (check_layout l) (\<lambda>_.
     rbind (rguard (length source = layout_scale_bytes l)
         (layout_invalid ''SM120 NVFP4 source scales do not match the planned byte count'')) (\<lambda>_.
       Inr (copy_blocks source scale_block_bytes
              (tile_copies l scale_block_bytes (contracting_elements l div elements_per_scale))
              (replicate (layout_scale_bytes l) 0))))"

section \<open>Reading a lane\<close>

definition load_little_u32 :: "8 word list \<Rightarrow> nat \<Rightarrow> 32 word option" where
  "load_little_u32 source offset =
     (if offset + 3 < length source
      then Some (ucast (source ! offset) OR push_bit 8 (ucast (source ! (offset + 1))) OR
        push_bit 16 (ucast (source ! (offset + 2))) OR push_bit 24 (ucast (source ! (offset + 3))))
      else None)"

record lane_fragment =
  packed_low :: "32 word"
  packed_high :: "32 word"
  packed_scales :: "32 word"
  source_row :: nat
  active :: bool

definition load_lane :: "source_layout \<Rightarrow> 8 word list \<Rightarrow> 8 word list \<Rightarrow> nat \<Rightarrow> nat \<Rightarrow> nat \<Rightarrow>
    lane_fragment option result" where
  "load_lane l weights scales tile k_block lane =
     rbind (check_layout l) (\<lambda>_.
     rbind (rguard (length weights = packed_weight_bytes l \<and> length scales = layout_scale_bytes l)
         (layout_invalid ''SM120 NVFP4 source buffers do not match the planned byte counts'')) (\<lambda>_.
     rbind (rguard (tile < row_tiles l \<and> k_block < k_blocks l \<and> lane < warp_lanes)
         (layout_invalid ''SM120 NVFP4 lane-fragment coordinate is out of range'')) (\<lambda>_.
       let row_in_tile = lane div 4; k_quarter = lane mod 4;
           first_row = tile * rows_per_tile;
           fragment = \<lparr>packed_low = 0, packed_high = 0, packed_scales = 0,
                       source_row = first_row + row_in_tile, active = False\<rparr>
       in if rows l \<le> source_row fragment then Inr (Some fragment)
          else
            let first_offset = first_row * k_blocks l * weight_block_bytes +
                  (k_block * tile_rows l tile + row_in_tile) * weight_block_bytes + k_quarter * 4;
                scale_offset = first_row * k_blocks l * scale_block_bytes +
                  (k_block * tile_rows l tile + row_in_tile) * scale_block_bytes
            in Inr (case (load_little_u32 weights first_offset, load_little_u32 weights (first_offset + 16),
                        load_little_u32 scales scale_offset) of
                 (Some low, Some high, Some s) \<Rightarrow>
                   Some (fragment\<lparr>packed_low := low, packed_high := high, packed_scales := s, active := True\<rparr>)
               | _ \<Rightarrow> None))))"

end
