(* ===== verification/Sm120_Facts.thy ===== *)
theory Sm120_Facts
  imports Sm120_Layout
begin

text \<open>
  The tilings are total, stay inside their buffers and reorder the bytes of the tensor; a lane reads
  from the tiled tensor exactly the words of its row of the source.
\<close>

section \<open>Consistent layouts\<close>

lemmas tile_sizes = rows_per_tile_def elements_per_k_block_def elements_per_scale_def elements_per_packed_byte_def
  weight_block_bytes_def scale_block_bytes_def warp_lanes_def

lemma check_layout_sizes:
  assumes "check_layout l = Inr u"
  shows "0 < rows l" "0 < k_blocks l" "contracting_elements l = k_blocks l * 64"
    "row_tiles l = (rows l + 7) div 8"
    "packed_weight_bytes l = rows l * k_blocks l * 32" "layout_scale_bytes l = rows l * k_blocks l * 4"
    "rows l * contracting_elements l < 2 ^ 64"
proof -
  let ?r = "rows l" and ?k = "contracting_elements l"
  from assms obtain e where e: "plan_source_layout ?r ?k = Inr e" "row_tiles l = row_tiles e" "k_blocks l = k_blocks e"
    "packed_weight_bytes l = packed_weight_bytes e" "layout_scale_bytes l = layout_scale_bytes e"
    by (auto simp: check_layout_def rbind_Inr_iff)
  from e(1) have pos: "?r \<noteq> 0" "?k \<noteq> 0" "?k mod 64 = 0" and mul: "\<not> mul_overflows ?r ?k"
    and fields: "row_tiles e = (7 + ?r) mod 2 ^ 64 div 8" "k_blocks e = ?k div 64"
      "packed_weight_bytes e = ?r * ?k div 2" "layout_scale_bytes e = ?r * ?k div 16"
    by (auto simp: plan_source_layout_def layout_multiply_def tile_sizes rbind_Inr_iff split: if_splits)
  define b where "b = ?k div 64"
  have k: "?k = b * 64" using pos(3) by (auto simp: b_def)
  with pos have b: "0 < b" by simp
  show total: "?r * ?k < 2 ^ 64" using mul by (simp add: mul_overflows_iff not_less u64_max_less)
  have "?r * 64 \<le> ?r * ?k" using k b by simp
  with total have "?r * 64 < 2 ^ 64" by linarith
  then have "?r + 7 < 2 ^ 64" by simp
  then show "row_tiles l = (?r + 7) div 8" using e(2) fields(1) by (simp add: add.commute)
  have kb: "k_blocks l = b" using e(3) fields(2) by (simp only: b_def)
  show "0 < ?r" "0 < k_blocks l" "?k = k_blocks l * 64" unfolding kb using pos(1) b k by simp_all
  have "?r * ?k = (?r * b * 32) * 2" "?r * ?k = (?r * b * 4) * 16"
    by (simp_all only: k mult.assoc numeral_times_numeral semiring_norm)
  then have "?r * ?k div 2 = ?r * b * 32" "?r * ?k div 16 = ?r * b * 4"
    by (simp_all only: nonzero_mult_div_cancel_right zero_neq_numeral not_False_eq_True)
  then show "packed_weight_bytes l = ?r * k_blocks l * 32" "layout_scale_bytes l = ?r * k_blocks l * 4"
    using e(4,5) fields(3,4) kb by simp_all
qed

section \<open>The copies fill the destination in order\<close>

lemma concat_blocks:
  "concat (map (\<lambda>k. map (\<lambda>r. g (k * m + r)) [0..<m]) [0..<n]) = map g [0..<n * m]"
proof (induction n)
  case (Suc n)
  have "map (\<lambda>r. g (n * m + r)) [0..<m] = map g [n * m..<n * m + m]"
    by (rule nth_equalityI) auto
  moreover have "[0..<Suc n * m] = [0..<n * m] @ [n * m..<n * m + m]"
    using upt_add_eq_append [of 0 "n * m" m] by (simp add: add.commute)
  ultimately show ?case using Suc by simp
qed simp

definition tile_block :: "source_layout \<Rightarrow> nat \<Rightarrow> nat \<Rightarrow> nat \<Rightarrow> (nat \<times> nat) list" where
  "tile_block l n row_bytes tile = concat (map (\<lambda>k. map (\<lambda>r.
     ((tile * 8 + r) * row_bytes + k * n, tile * 8 * k_blocks l * n + (k * tile_rows l tile + r) * n)) [0..<tile_rows l tile])
     [0..<k_blocks l])"

lemma tile_copies_blocks: "tile_copies l n rb = concat (map (tile_block l n rb) [0..<row_tiles l])"
  unfolding tile_copies_def tile_block_def [abs_def] Let_def rows_per_tile_def ..

lemma tile_block_targets:
  "map snd (tile_block l n rb tile) =
     map (\<lambda>i. i * n) [tile * 8 * k_blocks l..<tile * 8 * k_blocks l + k_blocks l * tile_rows l tile]"
proof -
  have "map snd (tile_block l n rb tile) =
      map (\<lambda>i. tile * 8 * k_blocks l * n + i * n) [0..<k_blocks l * tile_rows l tile]"
    using concat_blocks [of "\<lambda>i. tile * 8 * k_blocks l * n + i * n" "tile_rows l tile" "k_blocks l"]
    by (simp add: tile_block_def map_concat comp_def add_mult_distrib)
  also have "\<dots> = map (\<lambda>i. i * n) [tile * 8 * k_blocks l..<tile * 8 * k_blocks l + k_blocks l * tile_rows l tile]"
    by (rule nth_equalityI) (auto simp: add_mult_distrib)
  finally show ?thesis .
qed

lemma tile_targets_upto:
  "t \<le> (rows l + 7) div 8 \<Longrightarrow>
   map snd (concat (map (tile_block l n rb) [0..<t])) = map (\<lambda>i. i * n) [0..<min (rows l) (t * 8) * k_blocks l]"
proof (induction t)
  case (Suc t)
  then have "t * 8 < rows l" by linarith
  then have m: "min (rows l) (t * 8) = t * 8" "min (rows l) (Suc t * 8) = t * 8 + tile_rows l t"
    by (auto simp: tile_rows_def rows_per_tile_def)
  have "map snd (concat (map (tile_block l n rb) [0..<t])) = map (\<lambda>i. i * n) [0..<t * 8 * k_blocks l]"
    using Suc m(1) by simp
  moreover have "(t * 8 + tile_rows l t) * k_blocks l = t * 8 * k_blocks l + k_blocks l * tile_rows l t"
    by (simp add: add_mult_distrib)
  then have "[0..<(t * 8 + tile_rows l t) * k_blocks l] =
      [0..<t * 8 * k_blocks l] @ [t * 8 * k_blocks l..<t * 8 * k_blocks l + k_blocks l * tile_rows l t]"
    by (simp only: upt_add_eq_append [OF le0])
  ultimately show ?case unfolding m(2) by (simp add: tile_block_targets)
qed simp

lemma tile_copies_targets:
  assumes "row_tiles l = (rows l + 7) div 8"
  shows "map snd (tile_copies l n rb) = map (\<lambda>i. i * n) [0..<rows l * k_blocks l]"
  using tile_targets_upto [of "row_tiles l" l n rb] assms by (simp add: tile_copies_blocks min_def)

lemma tile_copies_member:
  assumes "row < rows l" "k < k_blocks l" "row_tiles l = (rows l + 7) div 8"
  shows "(row * rb + k * n, (row div 8 * 8 * k_blocks l + k * tile_rows l (row div 8) + row mod 8) * n)
    \<in> set (tile_copies l n rb)"
proof -
  have t: "row div 8 < row_tiles l" using assms(1,3) by linarith
  have r: "row mod 8 < tile_rows l (row div 8)"
    using assms(1) by (simp add: tile_rows_def rows_per_tile_def less_diff_conv add.commute)
  have "((row div 8 * 8 + row mod 8) * rb + k * n,
      row div 8 * 8 * k_blocks l * n + (k * tile_rows l (row div 8) + row mod 8) * n) \<in> set (tile_block l n rb (row div 8))"
    unfolding tile_block_def set_concat set_map image_image
  proof (rule UN_I)
    show "k \<in> set [0..<k_blocks l]" using assms(2) by simp
  qed (rule image_eqI [OF refl], use r in simp)
  moreover have "row div 8 * 8 + row mod 8 = row" by simp
  ultimately have "(row * rb + k * n, row div 8 * 8 * k_blocks l * n + (k * tile_rows l (row div 8) + row mod 8) * n)
      \<in> set (tile_block l n rb (row div 8))" by (simp only:)
  moreover have "row div 8 * 8 * k_blocks l * n + (k * tile_rows l (row div 8) + row mod 8) * n =
      (row div 8 * 8 * k_blocks l + k * tile_rows l (row div 8) + row mod 8) * n" by (simp add: algebra_simps)
  ultimately show ?thesis
    unfolding tile_copies_blocks set_concat set_map image_image using t by (intro UN_I [of "row div 8"]) simp_all
qed

lemma tile_copies_sources:
  assumes "(s, d) \<in> set (tile_copies l n (k_blocks l * n))" "row_tiles l = (rows l + 7) div 8"
  shows "\<exists>i < rows l * k_blocks l. s = i * n"
proof -
  from assms(1) obtain t k r where i: "k < k_blocks l" "r < tile_rows l t" "s = (t * 8 + r) * (k_blocks l * n) + k * n"
    by (auto simp: tile_copies_blocks tile_block_def)
  then have "t * 8 + r < rows l" by (auto simp: tile_rows_def rows_per_tile_def)
  then have "Suc (t * 8 + r) * k_blocks l \<le> rows l * k_blocks l" by (intro mult_le_mono1) simp
  then have "(t * 8 + r) * k_blocks l + k < rows l * k_blocks l" using i(1) by (simp only: mult_Suc)
  moreover have "s = ((t * 8 + r) * k_blocks l + k) * n" using i(3) by (simp add: algebra_simps)
  ultimately show ?thesis by blast
qed

lemma copy_blocks_fill:
  assumes "map snd ps = map (\<lambda>i. i * n) [a..<a + length ps]" "\<forall>(s, d) \<in> set ps. s + n \<le> length source"
    and "length target = (a + length ps) * n"
  shows "copy_blocks source n ps target = Some (take (a * n) target @ concat (map (\<lambda>(s, d). take n (drop s source)) ps))"
  using assms
proof (induction ps arbitrary: a target)
  case (Cons p ps)
  obtain s d where p: "p = (s, d)" by fastforce
  have u: "[a..<a + length (p # ps)] = a # [Suc a..<Suc a + length ps]" by (simp only: upt_conv_Cons list.size) simp
  have d: "d = a * n" and ps: "map snd ps = map (\<lambda>i. i * n) [Suc a..<Suc a + length ps]"
    using Cons.prems(1) [unfolded u] by (simp_all only: p list.map snd_conv list.inject)
  define target' where "target' = take d target @ take n (drop s source) @ drop (d + n) target"
  have l: "length target' = (Suc a + length ps) * n" "s + n \<le> length source" "d + n \<le> length target"
    using Cons.prems(2,3) d p by (auto simp: target'_def)
  have "copy_n source s n d target = Some target'" using l by (simp add: copy_n_def target'_def)
  moreover have "take (Suc a * n) target' = take d target @ take n (drop s source)"
  proof -
    have "length (take d target @ take n (drop s source)) = d + n" using l(2,3) by simp
    then show ?thesis unfolding target'_def append_assoc [symmetric] by (simp add: d add.commute [of n])
  qed
  moreover have "copy_blocks source n ps target' =
      Some (take (Suc a * n) target' @ concat (map (\<lambda>(s, d). take n (drop s source)) ps))"
    using Cons.prems(2) l(1) by (intro Cons.IH ps) auto
  ultimately show ?case by (simp add: p d)
qed simp

lemma chunk_of_concat:
  assumes "\<forall>x \<in> set xs. length (f x) = n" "i < length xs"
  shows "take n (drop (i * n) (concat (map f xs))) = f (xs ! i)"
  using assms
proof (induction xs arbitrary: i)
  case (Cons x xs)
  then show ?case by (cases i) simp_all
qed simp

section \<open>What a tiling does\<close>

definition tiled_offset :: "source_layout \<Rightarrow> nat \<Rightarrow> nat \<Rightarrow> nat \<Rightarrow> nat" where
  "tiled_offset l n row k =
     (row div 8 * 8 * k_blocks l + k * tile_rows l (row div 8) + row mod 8) * n"

text \<open>The blocks of a target are those of the source, in another order.\<close>

definition reorders :: "source_layout \<Rightarrow> nat \<Rightarrow> 'a list \<Rightarrow> 'a list \<Rightarrow> bool" where
  "reorders l n source target \<longleftrightarrow> length target = length source \<and> mset target = mset source \<and>
     (\<forall>row < rows l. \<forall>k < k_blocks l.
        tiled_offset l n row k + n \<le> length target \<and>
        take n (drop (tiled_offset l n row k) target) = take n (drop ((row * k_blocks l + k) * n) source))"

lemma sum_tiles:
  fixes g :: "nat \<Rightarrow> 'b::comm_monoid_add"
  assumes "t \<le> (n + 7) div 8"
  shows "(\<Sum>i<t. \<Sum>r<min 8 (n - i * 8). g (i * 8 + r)) = (\<Sum>row<min n (t * 8). g row)"
  using assms
proof (induction t)
  case (Suc t)
  then have "t * 8 < n" by linarith
  then have m: "min n (t * 8) = t * 8" "min n (Suc t * 8) = t * 8 + min 8 (n - t * 8)" by auto
  have "(\<Sum>row<t * 8 + q. g row) = (\<Sum>row<t * 8. g row) + (\<Sum>r<q. g (t * 8 + r))" for q
    by (induction q) (simp_all add: add.assoc)
  with Suc m show ?case by simp
qed simp

lemma mset_concat_upt:
  "mset (concat (map f (concat (map g [0..<n])))) = (\<Sum>i<n. mset (concat (map f (g i))))"
  "mset (concat (map f (map h [0..<n]))) = (\<Sum>i<n. mset (f (h i)))"
  by (induction n) simp_all

lemma copied_bytes:
  assumes "row_tiles l = (rows l + 7) div 8" "length source = rows l * k_blocks l * n"
  shows "mset (concat (map (\<lambda>(s, d). take n (drop s source)) (tile_copies l n (k_blocks l * n)))) = mset source"
proof -
  define h where "h i = mset (take n (drop (i * n) source))" for i
  let ?K = "k_blocks l"
  have "mset (concat (map (\<lambda>(s, d). take n (drop s source)) (tile_copies l n (?K * n)))) =
      (\<Sum>t<row_tiles l. \<Sum>k<?K. \<Sum>r<tile_rows l t. h ((t * 8 + r) * ?K + k))"
    unfolding tile_copies_blocks tile_block_def mset_concat_upt prod.case h_def by (simp add: algebra_simps)
  also have "\<dots> = (\<Sum>t<row_tiles l. \<Sum>r<min 8 (rows l - t * 8). \<Sum>k<?K. h ((t * 8 + r) * ?K + k))"
    unfolding tile_rows_def rows_per_tile_def by (rule sum.cong [OF refl], rule sum.swap)
  also have "\<dots> = (\<Sum>row<rows l. \<Sum>k<?K. h (row * ?K + k))"
    using sum_tiles [of "row_tiles l" "rows l" "\<lambda>row. \<Sum>k<?K. h (row * ?K + k)"] assms(1) by (simp add: min_def)
  also have "\<dots> = (\<Sum>i<rows l * ?K. h i)"
    using sum.nat_group [of h ?K "rows l"]
    by (simp add: sum.shift_bounds_nat_ivl atLeast0LessThan sum.atLeastLessThan_shift_0)
  also have "\<dots> = mset source"
  proof -
    have "length s = q * n \<Longrightarrow> (\<Sum>i<q. mset (take n (drop (i * n) s))) = mset s" for q and s :: "'a list"
    proof (induction q arbitrary: s)
      case (Suc q)
      have "(\<Sum>i<q. mset (take n (drop (i * n) (drop n s)))) = mset (drop n s)"
        using Suc.IH [of "drop n s"] Suc.prems by simp
      moreover have "mset s = mset (take n s) + mset (drop n s)" by (metis append_take_drop_id mset_append)
      ultimately show ?case by (subst sum.lessThan_Suc_shift) (simp add: add.commute)
    qed simp
    with assms(2) show ?thesis by (simp add: h_def)
  qed
  finally show ?thesis .
qed

lemma tiling_reorders:
  assumes "row_tiles l = (rows l + 7) div 8" "length source = rows l * k_blocks l * n" "length target = length source"
  shows "\<exists>tiled. copy_blocks source n (tile_copies l n (k_blocks l * n)) target = Some tiled \<and> reorders l n source tiled"
proof -
  let ?ps = "tile_copies l n (k_blocks l * n)" and ?N = "rows l * k_blocks l"
  define tiled where "tiled = concat (map (\<lambda>(s, d). take n (drop s source)) ?ps)"
  note targets = tile_copies_targets [OF assms(1), of n "k_blocks l * n"]
  have len: "length ?ps = ?N" using arg_cong [OF targets, of length] by simp
  have inside: "s + n \<le> length source" if sd: "(s, d) \<in> set ?ps" for s d
  proof -
    obtain i where i: "i < ?N" "s = i * n" using tile_copies_sources [OF sd assms(1)] by blast
    then have "Suc i * n \<le> ?N * n" by (intro mult_le_mono1) simp
    then show ?thesis using i(2) assms(2) by (simp add: add.commute)
  qed
  have "copy_blocks source n ?ps target = Some tiled"
    using copy_blocks_fill [of ?ps n 0 source target] targets len inside assms(2,3) by (auto simp: tiled_def)
  moreover have "mset tiled = mset source" using copied_bytes [OF assms(1,2)] by (simp add: tiled_def)
  moreover from this have "length tiled = length source" by (rule mset_eq_length)
  moreover have "tiled_offset l n row k + n \<le> length source \<and>
      take n (drop (tiled_offset l n row k) tiled) = take n (drop ((row * k_blocks l + k) * n) source)"
    if rk: "row < rows l" "k < k_blocks l" for row k
  proof -
    have m: "(row * (k_blocks l * n) + k * n, tiled_offset l n row k) \<in> set ?ps"
      using tile_copies_member [OF rk assms(1)] by (simp add: tiled_offset_def)
    then obtain i where i: "i < ?N" "?ps ! i = (row * (k_blocks l * n) + k * n, tiled_offset l n row k)"
      using len by (metis in_set_conv_nth)
    have "map snd ?ps ! i = i * n" unfolding targets using i(1) by simp
    then have d: "tiled_offset l n row k = i * n" using i len by simp
    have "take n (drop (i * n) tiled) = (\<lambda>(s, d). take n (drop s source)) (?ps ! i)"
      unfolding tiled_def using inside i(1) len by (intro chunk_of_concat) fastforce+
    moreover have "Suc i * n \<le> ?N * n" using i(1) by (intro mult_le_mono1) simp
    ultimately show ?thesis using d i(2) assms(2) by (simp add: algebra_simps)
  qed
  ultimately show ?thesis unfolding reorders_def by (intro exI [of _ tiled]) simp
qed

text \<open>
  C33. Tiling the weights and the scales of a tensor with a consistent layout succeeds on buffers of
  the planned sizes, every copy stays inside both buffers, and the result has the bytes of the
  source, each block of 64 elements of a row moved as a whole to its place in the tile order.
\<close>

theorem tiling_preserves_bytes:
  assumes "check_layout l = Inr ()" "length weights = packed_weight_bytes l" "length scales = layout_scale_bytes l"
  shows "\<exists>tw ts. tile_weights l weights = Inr (Some tw) \<and> reorders l 32 weights tw \<and>
    tile_weight_scales l scales = Inr (Some ts) \<and> reorders l 4 scales ts"
proof -
  note sizes = check_layout_sizes [OF assms(1)]
  have "contracting_elements l div 2 = k_blocks l * 32" "contracting_elements l div 16 = k_blocks l * 4"
    unfolding sizes(3) by simp_all
  with tiling_reorders [OF sizes(4), of weights 32 "replicate (packed_weight_bytes l) 0"]
    tiling_reorders [OF sizes(4), of scales 4 "replicate (layout_scale_bytes l) 0"] assms sizes(5,6)
  show ?thesis by (auto simp: tile_weights_def tile_weight_scales_def tile_sizes rguard_def)
qed

section \<open>What a lane reads\<close>

lemma load_little_block:
  assumes "take n (drop a xs) = take n (drop b ys)" "a + n \<le> length xs" "b + n \<le> length ys" "j + 4 \<le> n"
  shows "load_little_u32 xs (a + j) = load_little_u32 ys (b + j) \<and> load_little_u32 xs (a + j) \<noteq> None"
proof -
  have "xs ! (a + j + i) = ys ! (b + j + i)" if "i < 4" for i
    using arg_cong [OF assms(1), of "\<lambda>zs. zs ! (j + i)"] assms(2-4) that by (simp add: add.assoc)
  from this [of 0] this [of 1] this [of 2] this [of 3] assms(2-4) show ?thesis
    by (simp add: load_little_u32_def)
qed

lemma reordersD:
  assumes "reorders l n source target" "row < rows l" "k < k_blocks l" "length source = rows l * k_blocks l * n" "j + 4 \<le> n"
  shows "load_little_u32 target (tiled_offset l n row k + j) = load_little_u32 source ((row * k_blocks l + k) * n + j) \<and>
    load_little_u32 target (tiled_offset l n row k + j) \<noteq> None"
proof (rule load_little_block [OF _ _ _ assms(5)])
  have "Suc (row * k_blocks l + k) \<le> Suc row * k_blocks l" using assms(3) by simp
  also have "\<dots> \<le> rows l * k_blocks l" using assms(2) by (intro mult_le_mono1) simp
  finally have "Suc (row * k_blocks l + k) * n \<le> rows l * k_blocks l * n" by (rule mult_le_mono1)
  then show "(row * k_blocks l + k) * n + n \<le> length source" using assms(4) by (simp add: add.commute)
qed (use assms in \<open>auto simp: reorders_def\<close>)

text \<open>
  C34. A lane that loads its fragment from the tiled tensors gets the 32-bit words of its row, block
  and quarter of the untiled tensors, and its four scales; a lane past the last row is inactive and
  reads nothing.  No load leaves its buffer.
\<close>

theorem lane_reads_source:
  assumes "check_layout l = Inr ()" "tile_weights l weights = Inr (Some tw)" "tile_weight_scales l scales = Inr (Some ts)"
    and "tile < row_tiles l" "k < k_blocks l" "lane < 32"
  shows "\<exists>f. load_lane l tw ts tile k lane = Inr (Some f) \<and> source_row f = tile * 8 + lane div 4 \<and>
    (active f \<longleftrightarrow> source_row f < rows l) \<and>
    (active f \<longrightarrow>
      Some (packed_low f) = load_little_u32 weights (source_row f * (contracting_elements l div 2) + k * 32 + lane mod 4 * 4) \<and>
      Some (packed_high f) = load_little_u32 weights (source_row f * (contracting_elements l div 2) + k * 32 + lane mod 4 * 4 + 16) \<and>
      Some (packed_scales f) = load_little_u32 scales (source_row f * (contracting_elements l div 16) + k * 4))"
proof -
  note sizes = check_layout_sizes [OF assms(1)]
  have len: "length weights = packed_weight_bytes l" "length scales = layout_scale_bytes l"
    using assms(2,3) by (auto simp: tile_weights_def tile_weight_scales_def rbind_Inr_iff)
  with tiling_preserves_bytes [OF assms(1)] assms(2,3) have r: "reorders l 32 weights tw" "reorders l 4 scales ts"
    by fastforce+
  then have tl: "length tw = packed_weight_bytes l" "length ts = layout_scale_bytes l" using len by (simp_all add: reorders_def)
  define row where "row = tile * 8 + lane div 4"
  have lane: "lane div 4 < 8" using assms(6) by linarith
  show ?thesis
  proof (cases "row < rows l")
    case False
    then show ?thesis using assms(1,4-6) tl by (simp add: load_lane_def tile_sizes rguard_def row_def)
  next
    case True
    have split: "row div 8 = tile" "row mod 8 = lane div 4" using lane by (simp_all add: row_def)
    have quarter: "lane mod 4 * 4 + 4 \<le> 32" "lane mod 4 * 4 + 16 + 4 \<le> 32" by (simp_all add: mult.commute)
    note low = reordersD [OF r(1) True assms(5) _ quarter(1)] and high = reordersD [OF r(1) True assms(5) _ quarter(2)]
      and sc = reordersD [OF r(2) True assms(5), of 0]
    have z: "0 + 4 \<le> (4::nat)" by simp
    have k: "contracting_elements l div 2 = k_blocks l * 32" "contracting_elements l div 16 = k_blocks l * 4"
      unfolding sizes(3) by simp_all
    have wl: "length weights = rows l * k_blocks l * 32" "length scales = rows l * k_blocks l * 4"
      using len sizes(5,6) by simp_all
    note low = low [OF wl(1)] and high = high [OF wl(1)] and sc = sc [OF wl(2) z, unfolded add_0_right]
    obtain a b c where abc: "load_little_u32 tw (tiled_offset l 32 row k + lane mod 4 * 4) = Some a"
      "load_little_u32 tw (tiled_offset l 32 row k + (lane mod 4 * 4 + 16)) = Some b"
      "load_little_u32 ts (tiled_offset l 4 row k) = Some c"
      using low high sc by blast
    have rc: "lane div 4 + tile * 8 = row" by (simp add: row_def)
    have "load_lane l tw ts tile k lane = Inr (Some \<lparr>packed_low = a, packed_high = b, packed_scales = c,
        source_row = row, active = True\<rparr>)"
      using assms(1,4-6) tl True abc
      by (simp add: load_lane_def tile_sizes rguard_def tiled_offset_def split rc Let_def algebra_simps)
    moreover have eqs: "(row * k_blocks l + k) * 32 = row * (contracting_elements l div 2) + k * 32"
      "(row * k_blocks l + k) * 4 = row * (contracting_elements l div 16) + k * 4"
      unfolding k by (simp_all add: algebra_simps)
    ultimately show ?thesis
      using low [unfolded eqs] high [unfolded eqs] sc [unfolded eqs] abc True by (simp add: row_def [symmetric] add.assoc k)
  qed
qed

section \<open>An example\<close>

definition sample_layout :: source_layout where
  "sample_layout = \<lparr>rows = 9, contracting_elements = 128, row_tiles = 2, k_blocks = 2, packed_weight_bytes = 576,
     layout_scale_bytes = 72, persistent_repack_bytes = 0\<rparr>"

definition sample_weights :: "8 word list" where "sample_weights = map of_nat [0..<576]"
definition sample_scales :: "8 word list" where "sample_scales = map of_nat [0..<72]"

lemma sample_layout_checks: "check_layout sample_layout = Inr ()"
  by (simp add: check_layout_def plan_source_layout_def layout_multiply_def mul_overflows_def u64_max_def tile_sizes sample_layout_def rguard_def)

lemma sample_sizes: "length sample_weights = packed_weight_bytes sample_layout"
  "length sample_scales = layout_scale_bytes sample_layout"
  by (simp_all add: sample_weights_def sample_scales_def sample_layout_def)

theorem tiling_preserves_bytes_witness:
  "\<exists>tw. tile_weights sample_layout sample_weights = Inr (Some tw) \<and> mset tw = mset sample_weights"
  using tiling_preserves_bytes [OF sample_layout_checks sample_sizes] by (auto simp: reorders_def)

lemma sample_tiles:
  "\<exists>tw ts. tile_weights sample_layout sample_weights = Inr (Some tw) \<and> tile_weight_scales sample_layout sample_scales = Inr (Some ts)"
proof -
  note sizes = check_layout_sizes [OF sample_layout_checks]
  from tiling_reorders [OF sizes(4), of sample_weights 32 "replicate 576 0"]
    tiling_reorders [OF sizes(4), of sample_scales 4 "replicate 72 0"] sample_layout_checks sample_sizes
  show ?thesis
    by (auto simp: tile_weights_def tile_weight_scales_def tile_sizes rguard_def sample_layout_def)
qed

theorem lane_reads_source_witness:
  "\<exists>tw ts f. tile_weights sample_layout sample_weights = Inr (Some tw) \<and>
     load_lane sample_layout tw ts 0 1 31 = Inr (Some f) \<and> source_row f = 7 \<and> active f \<and>
     Some (packed_scales f) = load_little_u32 sample_scales 60"
proof -
  obtain tw ts where t: "tile_weights sample_layout sample_weights = Inr (Some tw)"
    "tile_weight_scales sample_layout sample_scales = Inr (Some ts)" using sample_tiles by blast
  have "0 < row_tiles sample_layout" "1 < k_blocks sample_layout" "rows sample_layout = 9"
    "contracting_elements sample_layout = 128" by (simp_all add: sample_layout_def)
  with lane_reads_source [OF sample_layout_checks t, of 0 1 31] obtain f where
    "load_lane sample_layout tw ts 0 1 31 = Inr (Some f)" "source_row f = 7" "active f"
    "Some (packed_scales f) = load_little_u32 sample_scales 60" by auto
  with t(1) show ?thesis by blast
qed

end
