(* ===== verification/Model_Config.thy ===== *)
theory Model_Config
  imports Json_Roundtrip
begin

text \<open>
  The model configuration of src/model/config.cpp: \<open>LoadModelConfig\<close> on the text of config.json and
  the contracts that the primary and the assistant checkpoint have to meet.  Reading the file is a
  parameter.
\<close>

section \<open>The configuration\<close>

record quantization_rule =
  group_name :: string
  format :: string
  regex_targets :: "string list"
  weight_bits :: nat
  activation_bits :: nat
  group_size :: nat
  scale_dtype :: string
  weight_strategy :: string
  activation_strategy :: string
  activation_dynamic :: bool
  activation_dynamic_local :: bool

record model_config =
  architecture :: string
  model_type :: string
  text_model_type :: string
  quant_method :: string
  quant_format :: string
  ignored_modules :: "string list"
  quantization_rules :: "quantization_rule list"
  hidden_size :: nat
  backbone_hidden_size :: nat
  intermediate_size :: nat
  layer_count :: nat
  vocabulary_size :: nat
  max_positions :: nat
  sliding_window :: nat
  query_heads :: nat
  local_kv_heads :: nat
  global_kv_heads :: nat
  local_head_dimension :: nat
  global_head_dimension :: nat
  shared_kv_layer_count :: nat
  centroid_count :: nat
  centroid_intermediate_top_k :: nat
  audio_embedding_dimension :: nat
  audio_token_id :: nat
  begin_audio_token_id :: nat
  end_audio_token_id :: nat
  vision_embedding_dimension :: nat
  vision_position_count :: nat
  vision_soft_token_count :: nat
  vision_patch_size :: nat
  vision_pooling_kernel_size :: nat
  image_token_id :: nat
  begin_image_token_id :: nat
  end_image_token_id :: nat
  attention_k_eq_v :: bool
  tied_embeddings :: bool
  ordered_embeddings :: bool
  final_logit_softcap :: binary64
  audio_rms_norm_epsilon :: binary64
  vision_rms_norm_epsilon :: binary64
  layer_types :: "string list"

section \<open>Reading members\<close>

definition nested :: "json \<Rightarrow> string \<Rightarrow> string \<Rightarrow> json option" where
  "nested root first second =
     (case json_find root first of None \<Rightarrow> None | Some parent \<Rightarrow> json_find parent second)"

fun string_or_empty :: "json option \<Rightarrow> string" where
  "string_or_empty (Some (JString s)) = s"
| "string_or_empty _ = []"

fun unsigned_or_zero :: "json option \<Rightarrow> nat" where
  "unsigned_or_zero (Some (JInt i)) = (if i < 0 then 0 else nat i)"
| "unsigned_or_zero _ = 0"

fun bool_or_false :: "json option \<Rightarrow> bool" where
  "bool_or_false (Some (JBool b)) = b"
| "bool_or_false _ = False"

fun string_array :: "json option \<Rightarrow> string list" where
  "string_array (Some (JArray items)) = concat (map (\<lambda>v. case v of JString s \<Rightarrow> [s] | _ \<Rightarrow> []) items)"
| "string_array _ = []"

definition zero_number :: binary64 where "zero_number = Finite False 0 (- 1074)"

definition number_or_zero :: "json option \<Rightarrow> binary64" where
  "number_or_zero v =
     (case v of None \<Rightarrow> zero_number
      | Some w \<Rightarrow> (case as_number w of Some d \<Rightarrow> d | None \<Rightarrow> zero_number))"

section \<open>Loading\<close>

definition config_limits :: json_limits where
  "config_limits = \<lparr>max_depth = 128, max_values = 100000, max_string_bytes = 8 * 1024 * 1024\<rparr>"

definition target_step :: "string list \<Rightarrow> string \<Rightarrow> string list result" where
  "target_step targets target =
     (if starts_with target ''re:'' then Inr (targets @ [drop 3 target])
      else Inl (Status KUnsupported (''quantization target is not an explicit regex: '' @ target)))"

definition sub_member :: "json option \<Rightarrow> string \<Rightarrow> json option" where
  "sub_member parent name = (case parent of None \<Rightarrow> None | Some v \<Rightarrow> json_find v name)"

definition rule_step :: "quantization_rule list \<Rightarrow> string \<times> json \<Rightarrow> quantization_rule list result" where
  "rule_step rules member =
     (case member of (name, v) \<Rightarrow>
        if \<not> is_object v then Inl (Status KDataLoss (''quantization group is not an object: '' @ name))
        else
          rbind (rfold target_step [] (string_array (json_find v ''targets''))) (\<lambda>targets.
          let weights = json_find v ''weights''; activations = json_find v ''input_activations'';
              dynamic = sub_member activations ''dynamic''
          in Inr (rules @ [\<lparr>group_name = name, format = string_or_empty (json_find v ''format''),
               regex_targets = targets,
               weight_bits = unsigned_or_zero (sub_member weights ''num_bits'') mod 2 ^ 32,
               activation_bits = unsigned_or_zero (sub_member activations ''num_bits'') mod 2 ^ 32,
               group_size = unsigned_or_zero (sub_member weights ''group_size'') mod 2 ^ 32,
               scale_dtype = string_or_empty (sub_member weights ''scale_dtype''),
               weight_strategy = string_or_empty (sub_member weights ''strategy''),
               activation_strategy = string_or_empty (sub_member activations ''strategy''),
               activation_dynamic = bool_or_false dynamic,
               activation_dynamic_local = (string_or_empty dynamic = ''local'')\<rparr>])))"

definition quantization_groups :: "json \<Rightarrow> quantization_rule list result" where
  "quantization_groups quantization =
     (case json_find quantization ''config_groups'' of
        Some (JObject groups) \<Rightarrow> rfold rule_step [] groups
      | _ \<Rightarrow> Inr [])"

definition base_config :: "json \<Rightarrow> model_config" where
  "base_config root =
     (let text = (\<lambda>name. nested root ''text_config'' name); audio = (\<lambda>name. nested root ''audio_config'' name);
          vision = (\<lambda>name. nested root ''vision_config'' name); top = json_find root
      in \<lparr>architecture = (case string_array (top ''architectures'') of a # _ \<Rightarrow> a | [] \<Rightarrow> []),
          model_type = string_or_empty (top ''model_type''),
          text_model_type = string_or_empty (text ''model_type''),
          quant_method = [], quant_format = [], ignored_modules = [], quantization_rules = [],
          hidden_size = unsigned_or_zero (text ''hidden_size''),
          backbone_hidden_size = unsigned_or_zero (top ''backbone_hidden_size''),
          intermediate_size = unsigned_or_zero (text ''intermediate_size''),
          layer_count = unsigned_or_zero (text ''num_hidden_layers''),
          vocabulary_size = unsigned_or_zero (text ''vocab_size''),
          max_positions = unsigned_or_zero (text ''max_position_embeddings''),
          sliding_window = unsigned_or_zero (text ''sliding_window''),
          query_heads = unsigned_or_zero (text ''num_attention_heads''),
          local_kv_heads = unsigned_or_zero (text ''num_key_value_heads''),
          global_kv_heads = unsigned_or_zero (text ''num_global_key_value_heads''),
          local_head_dimension = unsigned_or_zero (text ''head_dim''),
          global_head_dimension = unsigned_or_zero (text ''global_head_dim''),
          shared_kv_layer_count = unsigned_or_zero (text ''num_kv_shared_layers''),
          centroid_count = unsigned_or_zero (top ''num_centroids''),
          centroid_intermediate_top_k = unsigned_or_zero (top ''centroid_intermediate_top_k''),
          audio_embedding_dimension = unsigned_or_zero (audio ''audio_embed_dim''),
          audio_token_id = unsigned_or_zero (top ''audio_token_id''),
          begin_audio_token_id = unsigned_or_zero (top ''boa_token_id''),
          end_audio_token_id = unsigned_or_zero (top ''eoa_token_index''),
          vision_embedding_dimension = unsigned_or_zero (vision ''mm_embed_dim''),
          vision_position_count = unsigned_or_zero (vision ''mm_posemb_size''),
          vision_soft_token_count = unsigned_or_zero (vision ''num_soft_tokens''),
          vision_patch_size = unsigned_or_zero (vision ''patch_size''),
          vision_pooling_kernel_size = unsigned_or_zero (vision ''pooling_kernel_size''),
          image_token_id = unsigned_or_zero (top ''image_token_id''),
          begin_image_token_id = unsigned_or_zero (top ''boi_token_id''),
          end_image_token_id = unsigned_or_zero (top ''eoi_token_id''),
          attention_k_eq_v = bool_or_false (text ''attention_k_eq_v''),
          tied_embeddings = (bool_or_false (top ''tie_word_embeddings'') \<or> bool_or_false (text ''tie_word_embeddings'')),
          ordered_embeddings = bool_or_false (top ''use_ordered_embeddings''),
          final_logit_softcap = number_or_zero (text ''final_logit_softcapping''),
          audio_rms_norm_epsilon = number_or_zero (audio ''rms_norm_eps''),
          vision_rms_norm_epsilon = number_or_zero (vision ''rms_norm_eps''),
          layer_types = string_array (text ''layer_types'')\<rparr>)"

definition config_of :: "json \<Rightarrow> model_config result" where
  "config_of root =
     (case json_find root ''quantization_config'' of
        Some (JObject q) \<Rightarrow>
          rbind (quantization_groups (JObject q)) (\<lambda>rules.
            Inr ((base_config root)\<lparr>quant_method := string_or_empty (map_of q ''quant_method''),
              quant_format := string_or_empty (map_of q ''format''),
              ignored_modules := string_array (map_of q ''ignore''), quantization_rules := rules\<rparr>))
      | _ \<Rightarrow> Inr (base_config root))"

definition load_model_config :: "string \<Rightarrow> string result \<Rightarrow> model_config result" where
  "load_model_config path file =
     rbind file (\<lambda>text.
       case json_parse text config_limits of
         Inl e \<Rightarrow> Inl (Status (code e) (path @ '': '' @ message e))
       | Inr root \<Rightarrow>
           if is_object root then config_of root
           else Inl (Status KDataLoss (''config root must be an object: '' @ path)))"

section \<open>Contracts\<close>

definition contract_error :: "string \<Rightarrow> string \<Rightarrow> string \<Rightarrow> status" where
  "contract_error contract field expected =
     Status KUnsupported (''unsupported '' @ contract @ '' checkpoint config: '' @ field @ '' must be '' @ expected)"

definition is_primary_model :: "model_config \<Rightarrow> bool" where
  "is_primary_model c \<longleftrightarrow> architecture c = ''Gemma4UnifiedForConditionalGeneration'' \<and> model_type c = ''gemma4_unified''"

definition is_assistant_model :: "model_config \<Rightarrow> bool" where
  "is_assistant_model c \<longleftrightarrow> architecture c = ''Gemma4UnifiedAssistantForCausalLM'' \<and>
     model_type c = ''gemma4_unified_assistant''"

text \<open>\<open>std::abs(x - y) > t\<close>: the difference of two doubles is the exact one, rounded.\<close>

fun double_sub :: "binary64 \<Rightarrow> binary64 \<Rightarrow> binary64" where
  "double_sub (Finite s m e) (Finite s' m' e') =
     (let low = min e e'; d = common_scale (Finite s m e) low - common_scale (Finite s' m' e') low
      in round_ratio (d < 0) (nat \<bar>d\<bar> * 2 ^ nat low) (2 ^ nat (- low)))"
| "double_sub (Infinite s) y = Infinite s"
| "double_sub x (Infinite s) = Infinite (\<not> s)"

fun double_abs :: "binary64 \<Rightarrow> binary64" where
  "double_abs (Finite s m e) = Finite False m e"
| "double_abs (Infinite s) = Infinite False"

definition differs_by_more :: "binary64 \<Rightarrow> string \<Rightarrow> string \<Rightarrow> bool" where
  "differs_by_more x y tolerance \<longleftrightarrow> double_less (strtod tolerance) (double_abs (double_sub x (strtod y)))"

definition layer_pattern :: "nat \<Rightarrow> string" where
  "layer_pattern index = (if index mod 6 = 5 then ''full_attention'' else ''sliding_attention'')"

definition primary_checks :: "model_config \<Rightarrow> (bool \<times> string \<times> string) list" where
  "primary_checks c =
    [(architecture c = ''Gemma4UnifiedForConditionalGeneration'', ''architecture'', ''Gemma4UnifiedForConditionalGeneration''),
     (model_type c = ''gemma4_unified'', ''model_type'', ''gemma4_unified''),
     (text_model_type c = ''gemma4_unified_text'', ''text_config.model_type'', ''gemma4_unified_text''),
     (layer_count c = 48, ''num_hidden_layers'', ''48''),
     (hidden_size c = 3840, ''hidden_size'', ''3840''),
     (intermediate_size c = 15360, ''intermediate_size'', ''15360''),
     (query_heads c = 16 \<and> local_kv_heads c = 8 \<and> global_kv_heads c = 1, ''attention head counts'',
        ''16 query / 8 local KV / 1 global KV''),
     (local_head_dimension c = 256 \<and> global_head_dimension c = 512, ''head dimensions'', ''256 local / 512 global''),
     (sliding_window c = 1024 \<and> max_positions c = 262144, ''context dimensions'', ''1024 sliding / 262144 maximum''),
     (vocabulary_size c = 262144, ''vocab_size'', ''262144''),
     (audio_embedding_dimension c = 640 \<and> audio_token_id c = 258881 \<and> begin_audio_token_id c = 256000 \<and>
        end_audio_token_id c = 258883 \<and> \<not> differs_by_more (audio_rms_norm_epsilon c) ''1.0e-6'' ''1.0e-12'',
        ''audio embedding/token contract'', ''640 dimensions, token IDs 258881/256000/258883, epsilon 1e-6''),
     (vision_embedding_dimension c = 3840 \<and> vision_position_count c = 1120 \<and> vision_soft_token_count c = 280 \<and>
        vision_patch_size c = 16 \<and> vision_pooling_kernel_size c = 3 \<and> image_token_id c = 258880 \<and>
        begin_image_token_id c = 255999 \<and> end_image_token_id c = 258882 \<and>
        \<not> differs_by_more (vision_rms_norm_epsilon c) ''1.0e-6'' ''1.0e-12'',
        ''vision embedding/token contract'',
        ''3840 dimensions, 1120 positions, 280 tokens, 16x3 patches, token IDs 258880/255999/258882, epsilon 1e-6''),
     (tied_embeddings c \<and> attention_k_eq_v c, ''tied embeddings and attention_k_eq_v'', ''true''),
     (\<not> differs_by_more (final_logit_softcap c) ''30.0'' ''1e-12'', ''final_logit_softcapping'', ''30.0''),
     (quant_method c = ''compressed-tensors'' \<and> quant_format c = ''mixed-precision'', ''quantization schema'',
        ''compressed-tensors mixed-precision''),
     (length (layer_types c) = 48, ''layer_types length'', ''48''),
     (\<forall>i \<in> set [0..<length (layer_types c)]. layer_types c ! i = layer_pattern i, ''layer_types pattern'',
        ''five sliding layers followed by one full layer'')]"

text \<open>The checks are made in order, and the first that fails is reported.\<close>

definition first_failure :: "string \<Rightarrow> (bool \<times> string \<times> string) list \<Rightarrow> unit result" where
  "first_failure contract checks =
     rcheck (\<lambda>(holds, field, expected). rguard holds (contract_error contract field expected)) checks"

definition validate_primary :: "model_config \<Rightarrow> unit result" where
  "validate_primary c = first_failure ''primary'' (primary_checks c)"

definition assistant_layers :: "string list" where
  "assistant_layers = [''sliding_attention'', ''sliding_attention'', ''sliding_attention'', ''full_attention'']"

definition assistant_checks :: "model_config \<Rightarrow> (bool \<times> string \<times> string) list" where
  "assistant_checks c =
    [(architecture c = ''Gemma4UnifiedAssistantForCausalLM'', ''architecture'', ''Gemma4UnifiedAssistantForCausalLM''),
     (model_type c = ''gemma4_unified_assistant'', ''model_type'', ''gemma4_unified_assistant''),
     (text_model_type c = ''gemma4_unified_text'', ''text_config.model_type'', ''gemma4_unified_text''),
     (backbone_hidden_size c = 3840 \<and> hidden_size c = 1024, ''hidden dimensions'', ''3840 backbone / 1024 assistant''),
     (intermediate_size c = 8192 \<and> layer_count c = 4, ''decoder dimensions'', ''4 layers / 8192 intermediate''),
     (query_heads c = 16 \<and> local_kv_heads c = 8 \<and> global_kv_heads c = 1, ''attention head counts'',
        ''16 query / 8 local KV / 1 global KV''),
     (local_head_dimension c = 256 \<and> global_head_dimension c = 512, ''head dimensions'', ''256 local / 512 global''),
     (sliding_window c = 1024 \<and> max_positions c = 262144, ''context dimensions'', ''1024 sliding / 262144 maximum''),
     (vocabulary_size c = 262144 \<and> tied_embeddings c, ''vocabulary and tied embeddings'', ''262144 / true''),
     (shared_kv_layer_count c = 4, ''num_kv_shared_layers'', ''4''),
     (centroid_count c = 2048 \<and> centroid_intermediate_top_k c = 32, ''centroid metadata'', ''2048 centroids / top-k 32''),
     (\<not> ordered_embeddings c, ''use_ordered_embeddings'', ''false''),
     (length (layer_types c) = length assistant_layers, ''layer_types length'', ''4''),
     (\<forall>i \<in> set [0..<length assistant_layers]. layer_types c ! i = assistant_layers ! i, ''layer_types pattern'',
        ''three sliding layers followed by one full layer''),
     (quant_method c = [] \<and> quant_format c = [] \<and> quantization_rules c = [], ''quantization schema'',
        ''absent for the BF16 assistant'')]"

definition validate_assistant :: "model_config \<Rightarrow> unit result" where
  "validate_assistant c = first_failure ''assistant'' (assistant_checks c)"

definition validate_inspectable :: "model_config \<Rightarrow> unit result" where
  "validate_inspectable c =
     (if is_primary_model c then validate_primary c
      else if is_assistant_model c then validate_assistant c
      else Inl (Status KUnsupported
        (''unsupported checkpoint architecture/model_type: '' @ architecture c @ '' / '' @ model_type c)))"

end
