(* ===== verification/Safetensors.thy ===== *)
theory Safetensors
  imports Json_Roundtrip
begin

text \<open>
  The checkpoint reader of src/model/safetensors.cpp: one file (its length prefix, its JSON header
  and the checks of every tensor entry), the index of a sharded checkpoint, and the directory.

  The file system is a parameter: what mapping a file gives (\<open>MappedFile::Open\<close>), which paths are
  regular files, and canonical paths.  Paths are POSIX paths; the few operations of
  \<open>std::filesystem::path\<close> that the code uses are modelled on their text.
\<close>

section \<open>Paths and files\<close>

record file_system =
  open_mapped :: "string \<Rightarrow> string result"
  is_regular_file :: "string \<Rightarrow> bool"
  canonical_path :: "string \<Rightarrow> string + string"

definition path_join :: "string \<Rightarrow> string \<Rightarrow> string" where
  "path_join directory name =
     (if directory = [] \<or> last directory = CHR ''/'' then directory @ name else directory @ ''/'' @ name)"

definition path_filename :: "string \<Rightarrow> string" where
  "path_filename path = rev (takeWhile (\<lambda>c. c \<noteq> CHR ''/'') (rev path))"

text \<open>The parent of a canonical path, which has no repeated or trailing slash.\<close>

definition parent_path :: "string \<Rightarrow> string" where
  "parent_path path =
     (let parent = rev (drop 1 (dropWhile (\<lambda>c. c \<noteq> CHR ''/'') (rev path)))
      in if CHR ''/'' \<notin> set path then [] else if parent = [] then ''/'' else parent)"

text \<open>The extension of a path without a directory part.\<close>

definition path_extension :: "string \<Rightarrow> string" where
  "path_extension name =
     (let stem = rev (drop 1 (dropWhile (\<lambda>c. c \<noteq> CHR ''.'') (rev name)))
      in if name = ''..'' \<or> stem = [] then [] else drop (length stem) name)"

section \<open>One tensor entry\<close>

record stored_tensor =
  tensor_name :: string
  shape :: "nat list"
  dtype :: string
  absolute_offset :: nat
  tensor_length :: nat
  tensor_alignment :: nat
  shard :: string

definition data_loss_error :: "string \<Rightarrow> status" where
  "data_loss_error m = Status KDataLoss m"

definition read_little_endian64 :: "string \<Rightarrow> nat" where
  "read_little_endian64 bytes = fold (\<lambda>i r. r OR push_bit (8 * i) (byte (bytes ! i))) [0..<8] 0"

definition dtype_bytes :: "string \<Rightarrow> nat result" where
  "dtype_bytes d =
     (if d \<in> {''BOOL'', ''I8'', ''U8'', ''F8_E4M3'', ''F8_E5M2''} then Inr 1
      else if d \<in> {''I16'', ''U16'', ''F16'', ''BF16''} then Inr 2
      else if d \<in> {''I32'', ''U32'', ''F32''} then Inr 4
      else if d \<in> {''I64'', ''U64'', ''F64''} then Inr 8
      else Inl (Status KUnsupported (''unsupported Safetensors dtype: '' @ d)))"

definition shape_product :: "nat list \<Rightarrow> nat result" where
  "shape_product dims =
     rfold (\<lambda>elements dimension.
        if mul_overflows elements dimension
        then Inl (data_loss_error ''tensor shape product overflows uint64'') else Inr (elements * dimension)) 1 dims"

definition tensor_bytes :: "nat list \<Rightarrow> nat \<Rightarrow> nat result" where
  "tensor_bytes dims element_bytes =
     rbind (shape_product dims) (\<lambda>elements.
       if mul_overflows elements element_bytes
       then Inl (data_loss_error ''tensor byte count overflows uint64'') else Inr (elements * element_bytes))"

definition alignment_of :: "nat \<Rightarrow> nat" where
  "alignment_of offset =
     (case find (\<lambda>a. offset mod a = 0) [4096, 2048, 1024, 512, 256, 128, 64, 32, 16, 8, 4, 2] of
        Some a \<Rightarrow> a | None \<Rightarrow> 1)"

definition shape_step :: "string \<Rightarrow> nat list \<Rightarrow> json \<Rightarrow> nat list result" where
  "shape_step name dims v =
     (case v of
        JInt d \<Rightarrow> if 0 \<le> d then Inr (dims @ [nat d])
          else Inl (data_loss_error (''tensor shape contains a non-negative-integer violation: '' @ name))
      | _ \<Rightarrow> Inl (data_loss_error (''tensor shape contains a non-negative-integer violation: '' @ name)))"

definition entry_fields :: "string \<Rightarrow> json \<Rightarrow> (string \<times> json list \<times> json list) result" where
  "entry_fields name metadata =
     (case metadata of
        JObject m \<Rightarrow>
          (case (map_of m ''dtype'', map_of m ''shape'', map_of m ''data_offsets'') of
             (Some (JString d), Some (JArray s), Some (JArray offsets)) \<Rightarrow> Inr (d, s, offsets)
           | _ \<Rightarrow> Inl (data_loss_error (''incomplete tensor metadata: '' @ name)))
      | _ \<Rightarrow> Inl (data_loss_error (''tensor metadata must be an object: '' @ name)))"

definition entry_offsets :: "string \<Rightarrow> json list \<Rightarrow> (nat \<times> nat) result" where
  "entry_offsets name offsets =
     (case offsets of
        [b, e] \<Rightarrow>
          (case (b, e) of
             (JInt i, JInt j) \<Rightarrow> if i < 0 \<or> j < i then Inl (data_loss_error (''invalid data_offsets: '' @ name))
               else Inr (nat i, nat j)
           | _ \<Rightarrow> Inl (data_loss_error (''invalid data_offsets: '' @ name)))
      | _ \<Rightarrow> Inl (data_loss_error (''data_offsets must contain two integers: '' @ name)))"

definition with_tensor :: "string \<Rightarrow> 'a result \<Rightarrow> 'a result" where
  "with_tensor name r =
     (case r of Inl e \<Rightarrow> Inl (Status (code e) (message e @ '' (tensor '' @ name @ '')'')) | Inr v \<Rightarrow> Inr v)"

definition entry_tensor :: "string \<Rightarrow> nat \<Rightarrow> nat \<Rightarrow> string \<Rightarrow> json \<Rightarrow> (stored_tensor \<times> nat \<times> nat) result" where
  "entry_tensor path data_base payload_size name metadata =
     rbind (entry_fields name metadata) (\<lambda>(d, dims, offsets).
     rbind (rfold (shape_step name) [] dims) (\<lambda>s.
     rbind (entry_offsets name offsets) (\<lambda>(b, e).
     rbind (rguard (e \<le> payload_size) (data_loss_error (''tensor extends beyond Safetensors payload: '' @ name))) (\<lambda>_.
     rbind (with_tensor name (dtype_bytes d)) (\<lambda>element_bytes.
     rbind (with_tensor name (tensor_bytes s element_bytes)) (\<lambda>expected.
     rbind (rguard (e - b = expected)
         (data_loss_error (''tensor byte length does not match dtype and shape: '' @ name))) (\<lambda>_.
       Inr (\<lparr>tensor_name = name, shape = s, dtype = d, absolute_offset = data_base + b, tensor_length = e - b,
             tensor_alignment = alignment_of (data_base + b), shard = path_filename path\<rparr>, b, e))))))))"

type_synonym file_tensors = "stored_tensor list \<times> (nat \<times> nat) list"

definition header_step :: "string \<Rightarrow> nat \<Rightarrow> nat \<Rightarrow> file_tensors \<Rightarrow> string \<times> json \<Rightarrow> file_tensors result" where
  "header_step path data_base payload_size acc member =
     (case (acc, member) of ((tensors, intervals), (name, metadata)) \<Rightarrow>
        if name = ''__metadata__''
        then (case metadata of JObject _ \<Rightarrow> Inr acc
              | _ \<Rightarrow> Inl (data_loss_error ''Safetensors __metadata__ must be an object''))
        else rbind (entry_tensor path data_base payload_size name metadata) (\<lambda>(t, b, e).
               Inr (tensors @ [t], if b < e then intervals @ [(b, e)] else intervals)))"

section \<open>One file\<close>

definition max_header_bytes :: nat where "max_header_bytes = 256 * 1024 * 1024"

definition header_limits :: json_limits where
  "header_limits = \<lparr>max_depth = 64, max_values = 2000000, max_string_bytes = max_header_bytes\<rparr>"

fun overlapping :: "(nat \<times> nat) list \<Rightarrow> bool" where
  "overlapping (a # b # intervals) \<longleftrightarrow> fst b < snd a \<or> overlapping (b # intervals)"
| "overlapping _ \<longleftrightarrow> False"

text \<open>\<open>std::sort\<close> on pairs compares the first components, then the second.\<close>

definition sort_intervals :: "(nat \<times> nat) list \<Rightarrow> (nat \<times> nat) list" where
  "sort_intervals intervals = sort_key fst (sort_key snd intervals)"

definition parse_header :: "string \<Rightarrow> string \<Rightarrow> (string \<times> json) list result" where
  "parse_header path header =
     (case json_parse header header_limits of
        Inl e \<Rightarrow> Inl (Status (code e) (path @ '': '' @ message e))
      | Inr (JObject m) \<Rightarrow> Inr m
      | Inr _ \<Rightarrow> Inl (data_loss_error (''Safetensors header root must be an object: '' @ path)))"

definition load_bytes :: "string \<Rightarrow> string \<Rightarrow> stored_tensor list result" where
  "load_bytes path bytes =
     (if length bytes < 8
      then Inl (data_loss_error (''Safetensors file is shorter than its length prefix: '' @ path))
      else
        let header_length = read_little_endian64 bytes
        in if header_length < 2 \<or> max_header_bytes < header_length \<or> length bytes - 8 < header_length
           then Inl (data_loss_error (''invalid Safetensors header length in '' @ path))
           else
             rbind (parse_header path (take header_length (drop 8 bytes))) (\<lambda>members.
             let data_base = 8 + header_length
             in rbind (rfold (header_step path data_base (length bytes - data_base)) ([], []) members)
                  (\<lambda>(tensors, intervals).
                    if overlapping (sort_intervals intervals)
                    then Inl (data_loss_error (''overlapping tensor payload ranges in '' @ path))
                    else Inr tensors)))"

definition load_file :: "file_system \<Rightarrow> string \<Rightarrow> stored_tensor list result" where
  "load_file fs path = rbind (open_mapped fs path) (load_bytes path)"

section \<open>The index and the directory\<close>

definition max_index_bytes :: nat where "max_index_bytes = 256 * 1024 * 1024"

definition index_limits :: json_limits where
  "index_limits = \<lparr>max_depth = 32, max_values = 2000000, max_string_bytes = max_index_bytes\<rparr>"

definition read_small_text :: "file_system \<Rightarrow> string \<Rightarrow> nat \<Rightarrow> string result" where
  "read_small_text fs path limit =
     rbind (open_mapped fs path) (\<lambda>bytes.
     rbind (rguard (length bytes \<le> limit) (data_loss_error (''file exceeds safety limit: '' @ path))) (\<lambda>_. Inr bytes))"

definition safe_shard :: "string \<Rightarrow> bool" where
  "safe_shard s \<longleftrightarrow> s \<noteq> [] \<and> CHR ''/'' \<notin> set s \<and> path_extension s = ''.safetensors''"

definition index_step :: "(string \<times> string) list \<Rightarrow> string \<times> json \<Rightarrow> (string \<times> string) list result" where
  "index_step index member =
     (case member of
        (tensor, JString s) \<Rightarrow>
          if safe_shard s then Inr (case map_emplace tensor s index of Some i \<Rightarrow> i | None \<Rightarrow> index)
          else Inl (data_loss_error (''unsafe shard path in index: '' @ s))
      | (tensor, _) \<Rightarrow> Inl (data_loss_error (''index shard name must be a string: '' @ tensor)))"

definition load_index :: "file_system \<Rightarrow> string \<Rightarrow> (string \<times> string) list result" where
  "load_index fs path =
     rbind (read_small_text fs path max_index_bytes) (\<lambda>text.
     rbind (json_parse text index_limits) (\<lambda>root.
       case json_find root ''weight_map'' of
         Some (JObject m) \<Rightarrow> rfold index_step [] m
       | _ \<Rightarrow> Inl (data_loss_error (''Safetensors index must contain an object weight_map: '' @ path))))"

definition index_name :: string where "index_name = ''model.safetensors.index.json''"
definition single_name :: string where "single_name = ''model.safetensors''"

definition directory_files :: "file_system \<Rightarrow> string \<Rightarrow> (string list \<times> (string \<times> string) list) result" where
  "directory_files fs directory =
     (if is_regular_file fs (path_join directory index_name)
      then rbind (load_index fs (path_join directory index_name)) (\<lambda>index.
             Inr (map (path_join directory) (sort (remdups (map snd index))), index))
      else if \<not> is_regular_file fs (path_join directory single_name)
      then Inl (Status KNotFound (''model directory has neither model.safetensors nor model.safetensors.index.json: '' @ directory))
      else Inr ([path_join directory single_name], []))"

type_synonym directory_state = "stored_tensor list \<times> string list"

definition add_tensor :: "(string \<times> string) list \<Rightarrow> directory_state \<Rightarrow> stored_tensor \<Rightarrow> directory_state result" where
  "add_tensor index acc t =
     (case acc of (tensors, names) \<Rightarrow>
        if tensor_name t \<in> set names
        then Inl (data_loss_error (''duplicate tensor across shards: '' @ tensor_name t))
        else if index \<noteq> [] \<and> map_of index (tensor_name t) \<noteq> Some (shard t)
        then Inl (data_loss_error (''tensor/index shard disagreement: '' @ tensor_name t))
        else Inr (tensors @ [t], tensor_name t # names))"

definition add_file :: "file_system \<Rightarrow> string \<Rightarrow> (string \<times> string) list \<Rightarrow> directory_state \<Rightarrow> string \<Rightarrow>
    directory_state result" where
  "add_file fs root index acc file =
     (if \<not> is_regular_file fs file then Inl (Status KNotFound (''Safetensors shard is missing: '' @ file))
      else
        let outside = data_loss_error (''Safetensors shard resolves outside the model directory: '' @ file)
        in case canonical_path fs file of
             Inl _ \<Rightarrow> Inl outside
           | Inr path \<Rightarrow>
               if parent_path path \<noteq> root then Inl outside
               else rbind (load_file fs path) (\<lambda>tensors. rfold (add_tensor index) acc tensors))"

definition load_safetensors_directory :: "file_system \<Rightarrow> string \<Rightarrow> stored_tensor list result" where
  "load_safetensors_directory fs directory =
     (case canonical_path fs directory of
        Inl error \<Rightarrow> Inl (Status KIoError (''cannot resolve model directory: '' @ error))
      | Inr root \<Rightarrow>
          rbind (directory_files fs directory) (\<lambda>(files, index).
          rbind (rfold (add_file fs root index) ([], []) files) (\<lambda>(tensors, names).
            if index \<noteq> [] \<and> length names \<noteq> length index
            then Inl (data_loss_error ''Safetensors index and shard tensor counts disagree'')
            else Inr (sort_key tensor_name tensors))))"

end
