(* ===== verification/Manifest.thy ===== *)
theory Manifest
  imports Model_Config Safetensors
begin

text \<open>
  The checkpoint manifest of src/model/manifest.cpp: the classification of every stored tensor, the
  checks of a validated checkpoint, the tensor inventories of the two models, and the totals.

  The regular expressions of the quantization rules are text from the configuration; compiling one
  and matching a module name against it (\<open>std::regex\<close>) is a parameter.  A \<open>std::set\<close> of names is the
  sorted list of its members.
\<close>

section \<open>Names\<close>

record regex_engine =
  regex_error :: "string \<Rightarrow> string option"
  regex_match :: "string \<Rightarrow> string \<Rightarrow> bool"

definition module_suffixes :: "string list" where
  "module_suffixes = [''.weight_packed'', ''.weight_global_scale'', ''.input_global_scale'', ''.weight_scale_2'',
     ''.weight_scale'', ''.input_scale'', ''.weight'', ''.bias'']"

definition tensor_module :: "string \<Rightarrow> string" where
  "tensor_module name =
     (case find (ends_with name) module_suffixes of
        Some suffix \<Rightarrow> take (length name - length suffix) name
      | None \<Rightarrow> name)"

text \<open>The first pattern that does not compile ends the compilation.\<close>

definition compile_rules :: "regex_engine \<Rightarrow> model_config \<Rightarrow> unit result" where
  "compile_rules re config =
     rcheck (\<lambda>rule. rcheck (\<lambda>target.
         case regex_error re target of
           None \<Rightarrow> Inr ()
         | Some what \<Rightarrow> Inl (data_loss_error (''invalid quantization target regex in config.json: '' @ what)))
       (regex_targets rule)) (quantization_rules config)"

definition match_rule :: "regex_engine \<Rightarrow> string \<Rightarrow> model_config \<Rightarrow> quantization_rule option" where
  "match_rule re module config =
     find (\<lambda>rule. \<exists>target \<in> set (regex_targets rule). regex_match re target module) (quantization_rules config)"

definition modality_prefixes :: "string list" where
  "modality_prefixes = [''model.vision_embedder.'', ''model.vision_tower.'', ''model.embed_vision.'',
     ''model.audio_embedder.'', ''model.audio_tower.'', ''model.embed_audio.'', ''model.video_tower.'', ''model.embed_video.'']"

definition is_text_only_tensor :: "string \<Rightarrow> bool" where
  "is_text_only_tensor name \<longleftrightarrow> (\<forall>prefix \<in> set modality_prefixes. \<not> starts_with name prefix)"

definition storage_class :: "string \<Rightarrow> string" where
  "storage_class d =
     (if d = ''BF16'' then ''BF16'' else if d = ''F16'' then ''FP16'' else if d = ''F32'' then ''FP32''
      else if d = ''F8_E4M3'' then ''FP8_E4M3'' else ''UNSUPPORTED'')"

definition expected_role_of :: "string \<Rightarrow> string" where
  "expected_role_of name =
     (if name = ''pre_projection.weight'' then ''mtp_pre_projection''
      else if name = ''post_projection.weight'' then ''mtp_post_projection''
      else if ends_with name ''.weight_packed'' then ''projection_weight''
      else if ends_with name ''.weight_global_scale'' \<or> ends_with name ''.weight_scale_2'' then ''weight_global_scale''
      else if ends_with name ''.input_global_scale'' then ''activation_global_scale''
      else if ends_with name ''.weight_scale'' then ''weight_local_or_channel_scale''
      else if ends_with name ''.input_scale'' then ''activation_global_scale''
      else if find_sub ''embed_tokens.weight'' name \<noteq> None then ''tied_embedding_and_output''
      else if ends_with name ''.weight'' then ''weight''
      else if ends_with name ''.bias'' then ''bias''
      else ''model_state'')"

definition shape_text :: "nat list \<Rightarrow> string" where
  "shape_text dims = ''['' @ comma_join (map decimal dims) @ '']''"

section \<open>One tensor\<close>

record tensor_info =
  info_name :: string
  info_shape :: "nat list"
  logical_shape :: "nat list"
  storage_dtype :: string
  quantization_class :: string
  byte_offset :: nat
  byte_length :: nat
  info_alignment :: nat
  source_shard :: string
  expected_role :: string
  local_scale_tensor :: string
  global_scale_tensor :: string
  input_scale_tensor :: string
  layout :: string
  loaded_in_text_only_mode :: bool
  aliased :: bool

definition stored_info :: "model_config \<Rightarrow> stored_tensor \<Rightarrow> tensor_info" where
  "stored_info config t = \<lparr>info_name = tensor_name t, info_shape = shape t, logical_shape = shape t,
     storage_dtype = dtype t, quantization_class = [], byte_offset = absolute_offset t,
     byte_length = tensor_length t, info_alignment = tensor_alignment t, source_shard = shard t,
     expected_role = expected_role_of (tensor_name t), local_scale_tensor = [], global_scale_tensor = [],
     input_scale_tensor = [], layout = ''source Safetensors order'',
     loaded_in_text_only_mode = is_text_only_tensor (tensor_name t),
     aliased = (find_sub ''embed_tokens.weight'' (tensor_name t) \<noteq> None \<and> tied_embeddings config)\<rparr>"

definition packed_logical_shape :: "nat list \<Rightarrow> nat list" where
  "packed_logical_shape dims =
     (case dims of [r, k] \<Rightarrow> if k \<le> u64_max div 2 then [r, k * 2] else dims | _ \<Rightarrow> dims)"

definition classify_nvfp4 :: "string \<Rightarrow> tensor_info \<Rightarrow> tensor_info" where
  "classify_nvfp4 module t =
     (let name = info_name t
      in if ends_with name ''.weight_packed''
         then t\<lparr>quantization_class := ''NVFP4_PACKED'', logical_shape := packed_logical_shape (logical_shape t),
                local_scale_tensor := module @ ''.weight_scale'', global_scale_tensor := module @ ''.weight_global_scale'',
                input_scale_tensor := module @ ''.input_global_scale'',
                layout := ''two E2M1 values per U8; contracting dimension packed by 2''\<rparr>
         else t\<lparr>quantization_class :=
                (if ends_with name ''.weight_global_scale'' \<or> ends_with name ''.weight_scale_2'' then ''NVFP4_GLOBAL_SCALE''
                 else if ends_with name ''.weight_scale'' then ''NVFP4_LOCAL_SCALE_E4M3''
                 else if ends_with name ''.input_global_scale'' \<or> ends_with name ''.input_scale'' then ''NVFP4_INPUT_SCALE''
                 else storage_class (storage_dtype t))\<rparr>)"

definition classify_fp8 :: "string list \<Rightarrow> string \<Rightarrow> tensor_info \<Rightarrow> tensor_info" where
  "classify_fp8 names module t =
     (let name = info_name t
      in if ends_with name ''.weight_scale'' then t\<lparr>quantization_class := ''FP8_WEIGHT_SCALE''\<rparr>
         else if ends_with name ''.input_scale'' then t\<lparr>quantization_class := ''FP8_INPUT_SCALE''\<rparr>
         else if ends_with name ''.weight''
         then t\<lparr>quantization_class := ''FP8_WEIGHT_E4M3'', local_scale_tensor := module @ ''.weight_scale'',
                input_scale_tensor := (if module @ ''.input_scale'' \<in> set names then module @ ''.input_scale''
                  else input_scale_tensor t)\<rparr>
         else t\<lparr>quantization_class := storage_class (storage_dtype t)\<rparr>)"

definition classify :: "string list \<Rightarrow> quantization_rule option \<Rightarrow> string \<Rightarrow> tensor_info \<Rightarrow> tensor_info" where
  "classify names rule module t =
     (case rule of
        Some r \<Rightarrow>
          if format r = ''nvfp4-pack-quantized'' then classify_nvfp4 module t
          else if format r = ''float-quantized'' then classify_fp8 names module t
          else t\<lparr>quantization_class := storage_class (storage_dtype t)\<rparr>
      | None \<Rightarrow> t\<lparr>quantization_class := storage_class (storage_dtype t)\<rparr>)"

definition find_stored :: "stored_tensor list \<Rightarrow> string \<Rightarrow> stored_tensor option" where
  "find_stored stored name = find (\<lambda>t. tensor_name t = name) stored"

definition check_nvfp4 :: "stored_tensor list \<Rightarrow> tensor_info \<Rightarrow> unit result" where
  "check_nvfp4 stored t =
     rbind (rcheck (\<lambda>required.
         rguard (required \<in> set (map tensor_name stored)) (data_loss_error
           (''NVFP4 tensor is missing required scale tensor: '' @ info_name t @ '' -> '' @ required)))
       [local_scale_tensor t, global_scale_tensor t, input_scale_tensor t]) (\<lambda>_.
     rbind (rguard (length (logical_shape t) = 2 \<and> logical_shape t ! 1 mod 16 = 0) (data_loss_error
         (''NVFP4 logical contracting dimension must be divisible by 16: '' @ info_name t))) (\<lambda>_.
     case (find_stored stored (local_scale_tensor t), find_stored stored (global_scale_tensor t),
           find_stored stored (input_scale_tensor t)) of
       (Some l, Some g, Some i) \<Rightarrow>
         rbind (rguard (storage_dtype t = ''U8'' \<and> dtype l = ''F8_E4M3'' \<and> dtype g = ''F32'' \<and> dtype i = ''F32'')
           (data_loss_error (''NVFP4 storage or scale dtype mismatch: '' @ info_name t))) (\<lambda>_.
         rbind (rguard (length (shape l) = 2 \<and> shape l ! 0 = logical_shape t ! 0 \<and>
             shape l ! 1 * 16 mod 2 ^ 64 = logical_shape t ! 1)
           (data_loss_error (''NVFP4 local scale shape does not describe groups of 16: '' @ info_name t))) (\<lambda>_.
         rguard (shape g = [1] \<and> shape i = [1])
           (data_loss_error (''NVFP4 global scales must have shape [1]: '' @ info_name t))))
     | _ \<Rightarrow> Inl (Status KInternal ''map::at'')))"

definition check_fp8 :: "stored_tensor list \<Rightarrow> tensor_info \<Rightarrow> unit result" where
  "check_fp8 stored t =
     (case find_stored stored (local_scale_tensor t) of
        None \<Rightarrow> Inl (data_loss_error (''FP8 weight is missing its channel scale: '' @ info_name t))
      | Some s \<Rightarrow>
          rguard (storage_dtype t = ''F8_E4M3'' \<and> dtype s = ''BF16'' \<and> length (info_shape t) = 2 \<and>
              shape s = [info_shape t ! 0, 1])
            (data_loss_error (''FP8 weight/channel-scale schema mismatch: '' @ info_name t)))"

definition check_tensor :: "stored_tensor list \<Rightarrow> quantization_rule option \<Rightarrow> tensor_info \<Rightarrow> unit result" where
  "check_tensor stored rule t =
     (if quantization_class t = ''UNSUPPORTED''
      then Inl (Status KUnsupported (''unsupported tensor: name='' @ info_name t @ '' shape='' @ shape_text (info_shape t) @
        '' dtype='' @ storage_dtype t @ '' quantization_group='' @
        (case rule of None \<Rightarrow> ''none'' | Some r \<Rightarrow> group_name r)))
      else if quantization_class t = ''NVFP4_PACKED'' then check_nvfp4 stored t
      else if quantization_class t = ''FP8_WEIGHT_E4M3'' then check_fp8 stored t
      else Inr ())"

section \<open>Inventories\<close>

definition layer_prefix :: string where "layer_prefix = ''model.language_model.layers.''"

definition common_suffixes :: "string list" where
  "common_suffixes = [''input_layernorm.weight'', ''layer_scalar'',
     ''mlp.down_proj.input_global_scale'', ''mlp.down_proj.weight_global_scale'', ''mlp.down_proj.weight_packed'',
     ''mlp.down_proj.weight_scale'', ''mlp.gate_proj.input_global_scale'', ''mlp.gate_proj.weight_global_scale'',
     ''mlp.gate_proj.weight_packed'', ''mlp.gate_proj.weight_scale'', ''mlp.up_proj.input_global_scale'',
     ''mlp.up_proj.weight_global_scale'', ''mlp.up_proj.weight_packed'', ''mlp.up_proj.weight_scale'',
     ''post_attention_layernorm.weight'', ''post_feedforward_layernorm.weight'', ''pre_feedforward_layernorm.weight'',
     ''self_attn.k_norm.weight'', ''self_attn.k_proj.weight'', ''self_attn.k_proj.weight_scale'', ''self_attn.k_scale'',
     ''self_attn.o_proj.weight'', ''self_attn.o_proj.weight_scale'', ''self_attn.q_norm.weight'',
     ''self_attn.q_proj.weight'', ''self_attn.q_proj.weight_scale'', ''self_attn.v_scale'']"

definition local_only_suffixes :: "string list" where
  "local_only_suffixes = [''self_attn.v_proj.weight'', ''self_attn.v_proj.weight_scale'']"

definition primary_layer_names :: "model_config \<Rightarrow> string list" where
  "primary_layer_names config =
     concat (map (\<lambda>layer.
       map ((@) (layer_prefix @ decimal layer @ ''.''))
         (common_suffixes @ (if layer_types config ! layer = ''sliding_attention'' then local_only_suffixes else [])))
       [0..<length (layer_types config)])"

definition validate_primary_inventory :: "model_config \<Rightarrow> string list \<Rightarrow> unit result" where
  "validate_primary_inventory config names =
     (let expected = sort (remdups (primary_layer_names config));
          actual = filter (\<lambda>n. starts_with n layer_prefix) names
      in rbind (rcheck (\<lambda>n. rguard (n \<in> set actual)
             (data_loss_error (''required decoder-layer tensor is missing: '' @ n))) expected) (\<lambda>_.
         rcheck (\<lambda>n. rguard (n \<in> set expected)
             (Status KUnsupported (''unexpected decoder-layer tensor: '' @ n))) actual))"

definition assistant_layer_shapes :: "model_config \<Rightarrow> nat \<Rightarrow> (string \<times> nat list) list" where
  "assistant_layer_shapes c layer =
     (let prefix = ''model.layers.'' @ decimal layer @ ''.'';
          global = (layer_types c ! layer = ''full_attention'');
          head = (if global then global_head_dimension c else local_head_dimension c);
          projection = query_heads c * head mod 2 ^ 64
      in map (\<lambda>(suffix, dims). (prefix @ suffix, dims))
          [(''input_layernorm.weight'', [hidden_size c]), (''layer_scalar'', [1]),
           (''mlp.down_proj.weight'', [hidden_size c, intermediate_size c]),
           (''mlp.gate_proj.weight'', [intermediate_size c, hidden_size c]),
           (''mlp.up_proj.weight'', [intermediate_size c, hidden_size c]),
           (''post_attention_layernorm.weight'', [hidden_size c]),
           (''post_feedforward_layernorm.weight'', [hidden_size c]),
           (''pre_feedforward_layernorm.weight'', [hidden_size c]),
           (''self_attn.o_proj.weight'', [hidden_size c, projection]),
           (''self_attn.q_norm.weight'', [head]),
           (''self_attn.q_proj.weight'', [projection, hidden_size c])])"

definition assistant_shapes :: "model_config \<Rightarrow> (string \<times> nat list) list" where
  "assistant_shapes c = sort_key fst
     ([(''model.embed_tokens.weight'', [vocabulary_size c, hidden_size c]), (''model.norm.weight'', [hidden_size c]),
       (''pre_projection.weight'', [hidden_size c, 2 * backbone_hidden_size c mod 2 ^ 64]),
       (''post_projection.weight'', [backbone_hidden_size c, hidden_size c])] @
      concat (map (assistant_layer_shapes c) [0..<length (layer_types c)]))"

definition validate_assistant_inventory :: "model_config \<Rightarrow> stored_tensor list \<Rightarrow> unit result" where
  "validate_assistant_inventory c stored =
     (let expected = assistant_shapes c; names = map tensor_name stored
      in rbind (rguard (length names = length expected) (data_loss_error
           (''assistant tensor count must be '' @ decimal (length expected) @ '', got '' @ decimal (length names)))) (\<lambda>_.
         rbind (rcheck (\<lambda>(name, dims).
             case find_stored stored name of
               None \<Rightarrow> Inl (data_loss_error (''required assistant tensor is missing: '' @ name))
             | Some t \<Rightarrow> rguard (dtype t = ''BF16'' \<and> shape t = dims) (data_loss_error
                 (''assistant tensor schema mismatch: '' @ name @ '' expected BF16 '' @ shape_text dims @ '' got '' @
                  dtype t @ '' '' @ shape_text (shape t)))) expected) (\<lambda>_.
         rcheck (\<lambda>name. rguard (name \<in> set (map fst expected))
             (Status KUnsupported (''unexpected assistant tensor: '' @ name))) names)))"

section \<open>The manifest\<close>

record class_total =
  total_class :: string
  total_count :: nat
  total_bytes :: nat

record model_manifest =
  manifest_directory :: string
  manifest_architecture :: string
  manifest_model_type :: string
  manifest_tensors :: "tensor_info list"
  manifest_totals :: "class_total list"
  total_tensor_bytes :: nat
  text_only_tensor_bytes :: nat
  skipped_tensor_bytes :: nat

fun add_total :: "string \<Rightarrow> nat \<Rightarrow> class_total list \<Rightarrow> class_total list" where
  "add_total c n [] = [\<lparr>total_class = c, total_count = 1, total_bytes = n mod 2 ^ 64\<rparr>]"
| "add_total c n (t # ts) =
     (if c < total_class t then \<lparr>total_class = c, total_count = 1, total_bytes = n mod 2 ^ 64\<rparr> # t # ts
      else if c = total_class t
      then t\<lparr>total_count := total_count t + 1, total_bytes := (total_bytes t + n) mod 2 ^ 64\<rparr> # ts
      else t # add_total c n ts)"

definition record_tensor :: "model_manifest \<Rightarrow> tensor_info \<Rightarrow> model_manifest" where
  "record_tensor m t =
     m\<lparr>manifest_totals := add_total (quantization_class t) (byte_length t) (manifest_totals m),
       total_tensor_bytes := (total_tensor_bytes m + byte_length t) mod 2 ^ 64,
       text_only_tensor_bytes := (if loaded_in_text_only_mode t
         then (text_only_tensor_bytes m + byte_length t) mod 2 ^ 64 else text_only_tensor_bytes m),
       skipped_tensor_bytes := (if loaded_in_text_only_mode t then skipped_tensor_bytes m
         else (skipped_tensor_bytes m + byte_length t) mod 2 ^ 64),
       manifest_tensors := manifest_tensors m @ [t]\<rparr>"

definition manifest_step :: "regex_engine \<Rightarrow> model_config \<Rightarrow> bool \<Rightarrow> stored_tensor list \<Rightarrow> model_manifest \<Rightarrow> stored_tensor \<Rightarrow>
    model_manifest result" where
  "manifest_step re config validate stored m s =
     (let module = tensor_module (tensor_name s); rule = match_rule re module config;
          t = classify (map tensor_name stored) rule module (stored_info config s)
      in rbind (if validate then check_tensor stored rule t else Inr ()) (\<lambda>_. Inr (record_tensor m t)))"

definition check_embeddings :: "model_config \<Rightarrow> string list \<Rightarrow> unit result" where
  "check_embeddings config names =
     (let expected = (if is_assistant_model config then ''model.embed_tokens.weight''
                      else ''model.language_model.embed_tokens.weight'')
      in if expected \<notin> set names
         then Inl (data_loss_error (''tied input/output embedding tensor is missing: '' @ expected))
         else rguard (''lm_head.weight'' \<notin> set names \<and> ''model.language_model.lm_head.weight'' \<notin> set names)
           (data_loss_error ''tied checkpoint unexpectedly stores a duplicate LM head''))"

definition build_manifest :: "file_system \<Rightarrow> regex_engine \<Rightarrow> string \<Rightarrow> model_config \<Rightarrow> bool \<Rightarrow> model_manifest result" where
  "build_manifest fs re directory config validate =
     rbind (load_safetensors_directory fs directory) (\<lambda>stored.
     rbind (compile_rules re config) (\<lambda>_.
     rbind (rfold (manifest_step re config validate stored)
        \<lparr>manifest_directory = directory, manifest_architecture = architecture config,
          manifest_model_type = model_type config, manifest_tensors = [], manifest_totals = [],
          total_tensor_bytes = 0, text_only_tensor_bytes = 0, skipped_tensor_bytes = 0\<rparr> stored) (\<lambda>m.
     rbind (if validate \<and> tied_embeddings config then check_embeddings config (map tensor_name stored) else Inr ()) (\<lambda>_.
     rbind (if \<not> validate then Inr ()
            else if is_assistant_model config then validate_assistant_inventory config stored
            else validate_primary_inventory config (map tensor_name stored)) (\<lambda>_. Inr m)))))"

end
