(* ===== verification/Memory_Plan.thy ===== *)
theory Memory_Plan
  imports Manifest
begin

text \<open>
  The arena plan of src/runtime/memory_plan.cpp, and its composition with the checkpoint checks
  (\<open>PlanCheckpointMemory\<close> of src/runtime/memory.cpp, \<open>InspectCheckpoint\<close> of
  src/model/checkpoint_loader.cpp).  Byte counts are 64-bit numbers kept as \<open>nat\<close>; every sum and
  product that could wrap around is checked by the code.
\<close>

section \<open>Checked arithmetic\<close>

definition plan_invalid :: "string \<Rightarrow> status" where "plan_invalid m = Status KInvalidArgument m"

definition checked_add :: "nat \<Rightarrow> nat \<Rightarrow> string \<Rightarrow> nat result" where
  "checked_add left right label =
     (if left > u64_max - right then Inl (plan_invalid (label @ '' byte count overflows uint64'')) else Inr (left + right))"

definition checked_multiply :: "nat list \<Rightarrow> string \<Rightarrow> nat result" where
  "checked_multiply factors label =
     rfold (\<lambda>result factor.
       if mul_overflows result factor then Inl (plan_invalid (label @ '' byte count overflows uint64''))
       else Inr (result * factor)) 1 factors"

definition is_power_of_two :: "nat \<Rightarrow> bool" where
  "is_power_of_two v \<longleftrightarrow> v \<noteq> 0 \<and> v AND (v - 1) = 0"

text \<open>\<open>(value + mask) & ~mask\<close>, where \<open>~mask\<close> has 64 bits.\<close>

definition align_up :: "nat \<Rightarrow> nat \<Rightarrow> nat result" where
  "align_up v alignment =
     (if \<not> is_power_of_two alignment then Inl (plan_invalid ''arena alignment must be a non-zero power of two'')
      else
        let mask_bits = alignment - 1
        in if v > u64_max - mask_bits then Inl (plan_invalid ''aligned arena offset overflows uint64'')
           else Inr ((v + mask_bits) AND (u64_max - mask_bits)))"

section \<open>The plan\<close>

datatype context_profile = Interactive | Standard | Long | Xlong | MaxProfile

datatype kv_storage = KvUnspecified | KvShared | KvSeparate

record plan_options =
  option_profile :: context_profile
  option_storage :: kv_storage
  option_element_bytes :: nat
  option_alignment :: nat

record memory_region =
  region_name :: string
  region_offset :: nat
  region_bytes :: nat
  region_alignment :: nat

record memory_plan =
  plan_directory :: string
  plan_profile :: string
  plan_storage :: string
  context_tokens :: nat
  kv_element_bytes :: nat
  arena_alignment :: nat
  local_layer_count :: nat
  global_layer_count :: nat
  resident_source_bytes :: nat
  model_weight_bytes :: nat
  plan_scale_bytes :: nat
  local_shared_kv_bytes :: nat
  global_shared_kv_bytes :: nat
  shared_kv_bytes :: nat
  separate_kv_bytes :: nat
  selected_kv_bytes :: nat
  padding_bytes :: nat
  total_arena_bytes :: nat
  regions :: "memory_region list"

fun profile_name :: "context_profile \<Rightarrow> string" where
  "profile_name Interactive = ''interactive''"
| "profile_name Standard = ''standard''"
| "profile_name Long = ''long''"
| "profile_name Xlong = ''xlong''"
| "profile_name MaxProfile = ''max''"

fun profile_tokens :: "context_profile \<Rightarrow> nat" where
  "profile_tokens Interactive = 8192"
| "profile_tokens Standard = 32768"
| "profile_tokens Long = 65536"
| "profile_tokens Xlong = 131072"
| "profile_tokens MaxProfile = 262144"

definition scale_classes :: "string list" where
  "scale_classes = [''FP8_WEIGHT_SCALE'', ''NVFP4_GLOBAL_SCALE'', ''NVFP4_INPUT_SCALE'', ''NVFP4_LOCAL_SCALE_E4M3'']"

definition is_scale_tensor :: "tensor_info \<Rightarrow> bool" where
  "is_scale_tensor t \<longleftrightarrow> quantization_class t \<in> set scale_classes \<or>
     expected_role t = ''weight_global_scale'' \<or> expected_role t = ''activation_global_scale'' \<or>
     expected_role t = ''weight_local_or_channel_scale''"

definition add_region :: "memory_plan \<times> nat \<Rightarrow> string \<times> nat \<times> nat \<Rightarrow> (memory_plan \<times> nat) result" where
  "add_region acc region =
     (case (acc, region) of ((plan, cursor), (name, bytes, alignment)) \<Rightarrow>
        rbind (align_up cursor alignment) (\<lambda>aligned.
        rbind (checked_add (padding_bytes plan) (aligned - cursor) ''arena padding'') (\<lambda>padding.
        rbind (checked_add aligned bytes ''arena region'') (\<lambda>finish_offset.
          Inr (plan\<lparr>padding_bytes := padding,
                 regions := regions plan @ [\<lparr>region_name = name, region_offset = aligned, region_bytes = bytes,
                   region_alignment = alignment\<rparr>]\<rparr>, finish_offset)))))"

definition check_options :: "model_config \<Rightarrow> plan_options \<Rightarrow> unit result" where
  "check_options config options =
     rbind (rguard (option_storage options \<noteq> KvUnspecified)
       (plan_invalid ''KV storage must be explicit: choose shared or separate K/V storage'')) (\<lambda>_.
     rbind (rguard (option_element_bytes options \<noteq> 0) (plan_invalid ''KV element byte width must be positive'')) (\<lambda>_.
     rbind (rguard (is_power_of_two (option_alignment options))
       (plan_invalid ''arena alignment must be a non-zero power of two'')) (\<lambda>_.
     rbind (rguard (profile_tokens (option_profile options) \<le> max_positions config)
       (Status KUnsupported ''context profile exceeds the checkpoint maximum position count'')) (\<lambda>_.
     rbind (rguard (length (layer_types config) = layer_count config \<and> sliding_window config \<noteq> 0 \<and>
         local_kv_heads config \<noteq> 0 \<and> global_kv_heads config \<noteq> 0 \<and> local_head_dimension config \<noteq> 0 \<and>
         global_head_dimension config \<noteq> 0) (plan_invalid ''model config is incomplete for memory planning'')) (\<lambda>_.
     rguard (option_storage options \<noteq> KvShared) (Status KUnsupported
       ''shared physical K/V storage is unsupported: attention_k_eq_v reuses only the projection output; K normalization/RoPE and V normalization produce distinct cache states''))))))"

definition count_layer :: "nat \<times> nat \<Rightarrow> string \<Rightarrow> (nat \<times> nat) result" where
  "count_layer acc layer =
     (case acc of (l, g) \<Rightarrow>
        if layer = ''sliding_attention'' then Inr (l + 1, g)
        else if layer = ''full_attention'' then Inr (l, g + 1)
        else Inl (Status KUnsupported (''unknown attention layer type in memory plan: '' @ layer)))"

definition add_tensor_bytes :: "nat \<times> nat \<Rightarrow> tensor_info \<Rightarrow> (nat \<times> nat) result" where
  "add_tensor_bytes acc t =
     (case acc of (weights, scales) \<Rightarrow>
        if is_scale_tensor t
        then rbind (checked_add scales (byte_length t) ''runtime-resident tensor'') (\<lambda>s. Inr (weights, s))
        else rbind (checked_add weights (byte_length t) ''runtime-resident tensor'') (\<lambda>w. Inr (w, scales)))"

definition kv_bytes :: "model_config \<Rightarrow> plan_options \<Rightarrow> nat \<times> nat \<Rightarrow> (nat \<times> nat \<times> nat \<times> nat) result" where
  "kv_bytes config options layers =
     (let tokens = profile_tokens (option_profile options)
      in rbind (checked_multiply [fst layers, min tokens (sliding_window config), local_kv_heads config,
             local_head_dimension config, option_element_bytes options] ''local KV cache'') (\<lambda>l.
         rbind (checked_multiply [snd layers, tokens, global_kv_heads config, global_head_dimension config,
             option_element_bytes options] ''global KV cache'') (\<lambda>g.
         rbind (checked_add l g ''shared KV cache'') (\<lambda>s.
         rbind (checked_multiply [s, 2] ''separate KV cache'') (\<lambda>separate. Inr (l, g, s, separate))))))"

definition place_regions :: "memory_plan \<Rightarrow> (string \<times> nat \<times> nat) list \<Rightarrow> memory_plan result" where
  "place_regions plan wanted =
     rbind (rfold add_region (plan, 0) wanted) (\<lambda>(placed, cursor).
     rbind (align_up cursor (arena_alignment plan)) (\<lambda>total.
     rbind (checked_add (padding_bytes placed) (total - cursor) ''arena padding'') (\<lambda>padding.
       Inr (placed\<lparr>padding_bytes := padding, total_arena_bytes := total\<rparr>))))"

definition build_memory_plan :: "model_config \<Rightarrow> model_manifest \<Rightarrow> plan_options \<Rightarrow> memory_plan result" where
  "build_memory_plan config manifest options =
     rbind (check_options config options) (\<lambda>_.
     rbind (rfold count_layer (0, 0) (layer_types config)) (\<lambda>layers.
     rbind (rfold add_tensor_bytes (0, 0) (manifest_tensors manifest)) (\<lambda>(weights, scales).
     rbind (checked_add weights scales ''runtime-resident tensor'') (\<lambda>resident.
     rbind (rguard (resident = total_tensor_bytes manifest)
       (Status KDataLoss ''manifest total byte count disagrees with the runtime-resident tensor inventory'')) (\<lambda>_.
     rbind (kv_bytes config options layers) (\<lambda>(l, g, s, separate).
       place_regions
         \<lparr>plan_directory = manifest_directory manifest, plan_profile = profile_name (option_profile options),
          plan_storage = ''separate'', context_tokens = profile_tokens (option_profile options),
          kv_element_bytes = option_element_bytes options, arena_alignment = option_alignment options,
          local_layer_count = fst layers, global_layer_count = snd layers, resident_source_bytes = resident,
          model_weight_bytes = weights, plan_scale_bytes = scales, local_shared_kv_bytes = l, global_shared_kv_bytes = g,
          shared_kv_bytes = s, separate_kv_bytes = separate, selected_kv_bytes = separate, padding_bytes = 0,
          total_arena_bytes = 0, regions = []\<rparr>
         [(''immutable_model_weights'', weights, option_alignment options), (''scales'', scales, option_alignment options),
          (''kv_cache'', separate, option_alignment options)]))))))"

end
