(* ===== verification/Safetensors_Facts.thy ===== *)
theory Safetensors_Facts
  imports Safetensors "HOL-Library.Multiset"
begin

text \<open>
  What the checkpoint reader promises: the tensors of an accepted file lie inside the file, behind
  its header, with the length their type and shape give, and without overlapping; the tensors of an
  accepted directory have distinct names in increasing order and agree with the index.
\<close>

section \<open>One tensor\<close>

lemma shape_product_prod:
  assumes "shape_product dims = Inr n"
  shows "n = prod_list dims \<and> n \<le> u64_max"
  using checked_product [OF assms [unfolded shape_product_def]] by (simp add: u64_max_def)

lemma tensor_bytes_prod: "tensor_bytes dims w = Inr n \<Longrightarrow> n = prod_list dims * w \<and> n < 2 ^ 64"
  by (auto simp: tensor_bytes_def rbind_Inr_iff mul_overflows_iff not_less u64_max_less dest!: shape_product_prod split: if_splits)

lemma find_holds: "find P xs = Some x \<Longrightarrow> P x"
  by (auto simp: find_Some_iff)

lemma alignment_of_dvd: "alignment_of n dvd n"
proof (cases "find (\<lambda>a. n mod a = 0) [4096, 2048, 1024, 512, 256, 128, 64, 32, 16, 8, 4, 2]")
  case (Some a)
  from find_holds [OF this] have "n mod a = 0" .
  with Some show ?thesis by (simp add: alignment_of_def dvd_eq_mod_eq_0 del: find.simps)
qed (simp add: alignment_of_def)

definition tensor_inside :: "nat \<Rightarrow> nat \<Rightarrow> stored_tensor \<Rightarrow> bool" where
  "tensor_inside data_base file_size t \<longleftrightarrow>
     data_base \<le> absolute_offset t \<and> absolute_offset t + tensor_length t \<le> file_size \<and>
     (case dtype_bytes (dtype t) of Inl _ \<Rightarrow> False | Inr w \<Rightarrow> tensor_length t = prod_list (shape t) * w) \<and>
     tensor_length t < 2 ^ 64 \<and> tensor_alignment t dvd absolute_offset t"

lemma with_tensor_Inr [simp]: "with_tensor name r = Inr v \<longleftrightarrow> r = Inr v"
  by (simp add: with_tensor_def split: sum.split)

lemma entry_tensor_inside:
  assumes "entry_tensor path data_base payload_size name metadata = Inr (t, b, e)"
  shows "tensor_inside data_base (data_base + payload_size) t" "tensor_name t = name" "shard t = path_filename path"
    "absolute_offset t = data_base + b" "tensor_length t = e - b" "b \<le> e"
proof -
  from assms obtain d dims offsets s w n where x: "entry_fields name metadata = Inr (d, dims, offsets)"
    "entry_offsets name offsets = Inr (b, e)" "e \<le> payload_size" "dtype_bytes d = Inr w" "tensor_bytes s w = Inr n"
    "e - b = n" and t: "t = \<lparr>tensor_name = name, shape = s, dtype = d, absolute_offset = data_base + b,
       tensor_length = e - b, tensor_alignment = alignment_of (data_base + b), shard = path_filename path\<rparr>"
    by (auto simp: entry_tensor_def rbind_Inr_iff)
  have be: "b \<le> e" using x(2)
    by (auto simp: entry_offsets_def split: list.splits json.splits if_splits)
  from tensor_bytes_prod [OF x(5)] x be alignment_of_dvd [of "data_base + b"]
  show "tensor_inside data_base (data_base + payload_size) t" by (simp add: t tensor_inside_def)
  show "tensor_name t = name" "shard t = path_filename path" "absolute_offset t = data_base + b"
    "tensor_length t = e - b" "b \<le> e" using be by (simp_all add: t)
qed

section \<open>One file\<close>

definition occupied :: "stored_tensor list \<Rightarrow> (nat \<times> nat) list" where
  "occupied ts = map (\<lambda>t. (absolute_offset t, absolute_offset t + tensor_length t)) (filter (\<lambda>t. 0 < tensor_length t) ts)"

text \<open>The state of the loop over the header: \<open>k\<close> is the last key.\<close>

definition header_ok :: "string \<Rightarrow> nat \<Rightarrow> nat \<Rightarrow> file_tensors \<Rightarrow> bool" where
  "header_ok path data_base file_size acc \<longleftrightarrow>
     (\<forall>t \<in> set (fst acc). tensor_inside data_base file_size t \<and> shard t = path_filename path) \<and>
     occupied (fst acc) = map (\<lambda>(b, e). (data_base + b, data_base + e)) (snd acc)"

lemma header_step_ok:
  assumes "header_step path data_base payload acc (name, metadata) = Inr acc'"
    and "header_ok path data_base (data_base + payload) acc"
  shows "header_ok path data_base (data_base + payload) acc' \<and>
    map tensor_name (fst acc') = map tensor_name (fst acc) @ (if name = ''__metadata__'' then [] else [name])"
proof (cases "name = ''__metadata__''")
  case True
  then show ?thesis using assms by (cases acc) (auto simp: header_step_def split: json.splits)
next
  case False
  then obtain t b e where t: "entry_tensor path data_base payload name metadata = Inr (t, b, e)"
    "acc' = (fst acc @ [t], if b < e then snd acc @ [(b, e)] else snd acc)"
    using assms(1) by (cases acc) (auto simp: header_step_def rbind_Inr_iff)
  from entry_tensor_inside [OF t(1)] assms(2) False show ?thesis
    unfolding t(2) header_ok_def occupied_def by auto
qed

lemma header_fold_ok:
  assumes "rfold (header_step path data_base payload) acc members = Inr acc'"
    and "header_ok path data_base (data_base + payload) acc"
  shows "header_ok path data_base (data_base + payload) acc' \<and>
    map tensor_name (fst acc') = map tensor_name (fst acc) @ filter (\<lambda>k. k \<noteq> ''__metadata__'') (map fst members)"
  using assms
proof (induction members arbitrary: acc)
  case (Cons x members)
  obtain name metadata where x: "x = (name, metadata)" by fastforce
  from Cons.prems(1) obtain u where u: "header_step path data_base payload acc (name, metadata) = Inr u"
    "rfold (header_step path data_base payload) u members = Inr acc'" by (auto simp: rbind_Inr_iff x)
  from header_step_ok [OF u(1) Cons.prems(2)] Cons.IH [OF u(2)] show ?case by (auto simp: x)
qed simp

lemma sort_intervals_set: "set (sort_intervals xs) = set xs" "mset (sort_intervals xs) = mset xs"
  by (simp_all add: sort_intervals_def)

lemma sort_intervals_sorted: "sorted (map fst (sort_intervals xs))"
  by (simp add: sort_intervals_def)

text \<open>Sorted intervals whose neighbours do not overlap are pairwise disjoint.\<close>

definition apart :: "nat \<times> nat \<Rightarrow> nat \<times> nat \<Rightarrow> bool" where
  "apart x y \<longleftrightarrow> snd x \<le> fst y \<or> snd y \<le> fst x"

lemma not_overlapping_apart:
  assumes "\<not> overlapping xs" "\<forall>x \<in> set xs. fst x < snd x"
  shows "sorted_wrt (\<lambda>x y. snd x \<le> fst y) xs"
  using assms
proof (induction xs rule: overlapping.induct)
  case (1 a b xs)
  then have s: "sorted_wrt (\<lambda>x y. snd x \<le> fst y) (b # xs)" "snd a \<le> fst b" "fst b < snd b" by auto
  then have "snd a \<le> fst y" if "y \<in> set xs" for y using that by fastforce
  with s show ?case by simp
qed simp_all

definition disjoint_ranges :: "stored_tensor list \<Rightarrow> bool" where
  "disjoint_ranges ts \<longleftrightarrow> distinct (occupied ts) \<and>
     (\<forall>x \<in> set (occupied ts). \<forall>y \<in> set (occupied ts). x \<noteq> y \<longrightarrow> apart x y)"

lemma ordered_apart:
  assumes "sorted_wrt (\<lambda>x y. snd x \<le> fst y) xs" "\<forall>x \<in> set xs. fst x < snd x"
  shows "distinct xs \<and> (\<forall>x \<in> set xs. \<forall>y \<in> set xs. x \<noteq> y \<longrightarrow> apart x y)"
  using assms
proof (induction xs)
  case (Cons a xs)
  then have IH: "distinct xs" "\<forall>x \<in> set xs. \<forall>y \<in> set xs. x \<noteq> y \<longrightarrow> apart x y" by auto
  have a: "snd a \<le> fst y" "fst a < snd a" if "y \<in> set xs" for y using Cons.prems that by auto
  then have "a \<notin> set xs" by fastforce
  with IH a show ?case by (auto simp: apart_def)
qed simp

lemma disjoint_rangesI:
  assumes "header_ok path base file_size (ts, intervals)" "\<forall>x \<in> set intervals. fst x < snd x"
    and "\<not> overlapping (sort_intervals intervals)"
  shows "disjoint_ranges ts"
proof -
  have "\<forall>x \<in> set (sort_intervals intervals). fst x < snd x" using assms(2) by (simp add: sort_intervals_set)
  from ordered_apart [OF not_overlapping_apart [OF assms(3) this] this]
  have d: "distinct (sort_intervals intervals)" "\<forall>x \<in> set intervals. \<forall>y \<in> set intervals. x \<noteq> y \<longrightarrow> apart x y"
    by (simp_all add: sort_intervals_set)
  have "distinct intervals" using d(1) sort_intervals_set(2) [of intervals] by (metis mset_eq_imp_distinct_iff)
  then have "distinct (occupied ts)" using assms(1)
    by (auto simp: header_ok_def distinct_map intro!: inj_onI)
  moreover have "apart x y" if "x \<in> set (occupied ts)" "y \<in> set (occupied ts)" "x \<noteq> y" for x y
  proof -
    from that(1,2) assms(1) obtain u v where uv: "u \<in> set intervals" "v \<in> set intervals"
      "x = (base + fst u, base + snd u)" "y = (base + fst v, base + snd v)"
      by (auto simp: header_ok_def)
    with that(3) have "apart u v" using d(2) by auto
    with uv(3,4) show ?thesis by (simp add: apart_def)
  qed
  ultimately show ?thesis by (simp add: disjoint_ranges_def)
qed

definition data_start :: "string \<Rightarrow> nat" where
  "data_start bytes = 8 + read_little_endian64 bytes"

lemma intervals_nonempty:
  assumes "rfold (header_step path data_base payload) acc members = Inr acc'" "\<forall>x \<in> set (snd acc). fst x < snd x"
  shows "\<forall>x \<in> set (snd acc'). fst x < snd x"
  by (rule rfold_invariant [where P = "\<lambda>acc. \<forall>x \<in> set (snd acc). fst x < snd x", OF assms])
    (auto simp: header_step_def rbind_Inr_iff split: prod.splits if_splits json.splits)

text \<open>
  C35. Every tensor of an accepted Safetensors file lies behind the header and inside the file, has
  the byte count that its type and shape give without overflow, and an offset that is a multiple of
  its recorded alignment; no two of them share a byte; and their names are distinct, in increasing
  order.
\<close>

theorem load_file_ranges:
  assumes "load_file fs path = Inr ts"
  shows "\<exists>bytes. open_mapped fs path = Inr bytes \<and> data_start bytes \<le> length bytes \<and>
    (\<forall>t \<in> set ts. tensor_inside (data_start bytes) (length bytes) t \<and> shard t = path_filename path) \<and>
    disjoint_ranges ts \<and> sorted_wrt (<) (map tensor_name ts)"
proof -
  obtain bytes where b: "open_mapped fs path = Inr bytes" "load_bytes path bytes = Inr ts"
    using assms by (auto simp: load_file_def rbind_Inr_iff)
  define h where "h = read_little_endian64 bytes"
  from b(2) obtain members intervals where
    h: "\<not> length bytes < 8" "\<not> length bytes - 8 < h" and
    p: "parse_header path (take h (drop 8 bytes)) = Inr members" and
    f: "rfold (header_step path (8 + h) (length bytes - (8 + h))) ([], []) members = Inr (ts, intervals)" and
    o: "\<not> overlapping (sort_intervals intervals)"
    unfolding load_bytes_def h_def [symmetric] Let_def
    by (auto simp: rbind_Inr_iff split: if_splits)
  have size: "8 + h + (length bytes - (8 + h)) = length bytes" using h by simp
  have "header_ok path (8 + h) (8 + h + (length bytes - (8 + h))) ([], [])"
    by (simp add: header_ok_def occupied_def)
  from header_fold_ok [OF f this]
  have ok: "header_ok path (8 + h) (length bytes) (ts, intervals)"
    and names: "map tensor_name ts = filter (\<lambda>k. k \<noteq> ''__metadata__'') (map fst members)"
    unfolding size by simp_all
  have "json_ok (JObject members)"
    using p json_parse_respects_limits [of "take h (drop 8 bytes)" header_limits "JObject members"]
    by (auto simp: parse_header_def split: sum.splits json.splits)
  then have "sorted_wrt (<) (map tensor_name ts)"
    unfolding names by (auto simp: sorted_keys_def intro: sorted_wrt_filter)
  moreover have "disjoint_ranges ts" by (rule disjoint_rangesI [OF ok intervals_nonempty [OF f, simplified] o])
  ultimately show ?thesis using b(1) h ok by (auto simp: data_start_def h_def header_ok_def)
qed

section \<open>The directory\<close>

definition directory_ok :: "(string \<times> string) list \<Rightarrow> directory_state \<Rightarrow> bool" where
  "directory_ok index acc \<longleftrightarrow> snd acc = rev (map tensor_name (fst acc)) \<and> distinct (snd acc) \<and>
     (index \<noteq> [] \<longrightarrow> (\<forall>t \<in> set (fst acc). map_of index (tensor_name t) = Some (shard t)))"

lemma add_tensors_ok:
  assumes "rfold (add_tensor index) acc xs = Inr acc'" "directory_ok index acc"
  shows "directory_ok index acc' \<and> fst acc' = fst acc @ xs"
  using assms
proof (induction xs arbitrary: acc)
  case (Cons x xs)
  from Cons.prems(1) obtain u where u: "add_tensor index acc x = Inr u" "rfold (add_tensor index) u xs = Inr acc'"
    by (auto simp: rbind_Inr_iff)
  from u(1) Cons.prems(2) have "directory_ok index u \<and> fst u = fst acc @ [x]"
    by (cases acc) (auto simp: add_tensor_def directory_ok_def split: if_splits)
  with Cons.IH [OF u(2)] show ?case by simp
qed simp

text \<open>What was loaded: the paths with the tensors of each.\<close>

definition loaded :: "file_system \<Rightarrow> string \<Rightarrow> (string \<times> stored_tensor list) list \<Rightarrow> bool" where
  "loaded fs root loads \<longleftrightarrow> (\<forall>(path, ts) \<in> set loads. load_file fs path = Inr ts \<and> parent_path path = root)"

lemma add_files_ok:
  assumes "rfold (add_file fs root index) ([], []) files = Inr acc"
  shows "directory_ok index acc \<and> (\<exists>loads. loaded fs root loads \<and> fst acc = concat (map snd loads))"
proof (rule rfold_invariant [where P = "\<lambda>acc. directory_ok index acc \<and>
    (\<exists>loads. loaded fs root loads \<and> fst acc = concat (map snd loads))", OF assms])
  show "directory_ok index ([], []) \<and> (\<exists>loads. loaded fs root loads \<and> fst ([], []) = concat (map snd loads))"
    by (auto simp: directory_ok_def loaded_def intro: exI [of _ "[]"])
  fix name u v
  assume u: "directory_ok index u \<and> (\<exists>loads. loaded fs root loads \<and> fst u = concat (map snd loads))"
    and v: "add_file fs root index u name = Inr v"
  from v obtain path ts where p: "parent_path path = root" "load_file fs path = Inr ts"
    "rfold (add_tensor index) u ts = Inr v"
    by (auto simp: add_file_def Let_def rbind_Inr_iff split: if_splits sum.splits)
  from u obtain loads where "loaded fs root loads" "fst u = concat (map snd loads)" by blast
  with p add_tensors_ok [OF p(3)] u
  show "directory_ok index v \<and> (\<exists>loads. loaded fs root loads \<and> fst v = concat (map snd loads))"
    by (auto simp: loaded_def intro!: exI [of _ "loads @ [(path, ts)]"])
qed

lemma load_index_sorted:
  assumes "load_index fs path = Inr index"
  shows "sorted_keys index \<and> (\<forall>s \<in> snd ` set index. safe_shard s)"
proof -
  from assms obtain root where "(case json_find root ''weight_map'' of Some (JObject m) \<Rightarrow> rfold index_step [] m
      | _ \<Rightarrow> Inl (data_loss_error (''Safetensors index must contain an object weight_map: '' @ path))) = Inr index"
    unfolding load_index_def rbind_Inr_iff by blast
  then obtain m where m: "rfold index_step [] m = Inr index"
    by (auto split: option.splits json.splits)
  show ?thesis
  proof (rule rfold_invariant [where P = "\<lambda>i. sorted_keys i \<and> (\<forall>s \<in> snd ` set i. safe_shard s)", OF m])
    fix x u v
    assume u: "sorted_keys u \<and> (\<forall>s \<in> snd ` set u. safe_shard s)" and v: "index_step u x = Inr v"
    from v obtain name s where x: "x = (name, JString s)" "safe_shard s"
      "v = (case map_emplace name s u of Some i \<Rightarrow> i | None \<Rightarrow> u)"
      by (cases x; cases "snd x") (auto simp: index_step_def split: if_splits)
    show "sorted_keys v \<and> (\<forall>s \<in> snd ` set v. safe_shard s)"
      using u x map_emplace_sorted [of name s u] map_emplace_set [of name s u] by (auto split: option.split)
  qed simp
qed

text \<open>
  C36. An accepted checkpoint directory is the files it loaded: each lies directly in the resolved
  directory, the result is all their tensors ordered by name, no name occurs twice, and with an
  index every tensor stands in the shard the index names, no tensor of the index is missing, and
  every shard name is a plain file name.
\<close>

theorem directory_matches_index:
  assumes "load_safetensors_directory fs directory = Inr ts"
  shows "\<exists>root index loads. canonical_path fs directory = Inr root \<and> loaded fs root loads \<and>
    ts = sort_key tensor_name (concat (map snd loads)) \<and> sorted_wrt (<) (map tensor_name ts) \<and>
    (if is_regular_file fs (path_join directory index_name)
     then load_index fs (path_join directory index_name) = Inr index \<and> (\<forall>s \<in> snd ` set index. safe_shard s) \<and>
       (index \<noteq> [] \<longrightarrow> (\<forall>t \<in> set ts. map_of index (tensor_name t) = Some (shard t)) \<and>
         fst ` set index = tensor_name ` set ts)
     else index = [])"
proof -
  from assms obtain root files index tensors names where
    root: "canonical_path fs directory = Inr root" and files: "directory_files fs directory = Inr (files, index)"
    and fold: "rfold (add_file fs root index) ([], []) files = Inr (tensors, names)"
    and count: "index \<noteq> [] \<Longrightarrow> length names = length index" and ts: "ts = sort_key tensor_name tensors"
    by (auto simp: load_safetensors_directory_def rbind_Inr_iff split: sum.splits if_splits)
  from add_files_ok [OF fold] obtain loads where ok: "directory_ok index (tensors, names)"
    "loaded fs root loads" "tensors = concat (map snd loads)" by auto
  have d: "distinct (map tensor_name tensors)" using ok(1) by (auto simp: directory_ok_def)
  have "mset (map tensor_name ts) = mset (map tensor_name tensors)" unfolding ts by simp
  then have "distinct (map tensor_name ts)" using d by (metis mset_eq_imp_distinct_iff)
  then have sorted: "sorted_wrt (<) (map tensor_name ts)"
    unfolding ts by (simp add: strict_sorted_iff)
  have set: "set ts = set tensors" by (simp add: ts)
  show ?thesis
  proof (cases "is_regular_file fs (path_join directory index_name)")
    case True
    with files have i: "load_index fs (path_join directory index_name) = Inr index"
      by (auto simp: directory_files_def rbind_Inr_iff)
    have "fst ` set index = tensor_name ` set ts" if ne: "index \<noteq> []"
    proof -
      have "tensor_name ` set ts \<subseteq> fst ` set index"
        using ok(1) ne set by (force simp: directory_ok_def dest: map_of_SomeD)
      moreover have "card (tensor_name ` set ts) = length tensors"
        using d distinct_card [of "map tensor_name tensors"] by (simp add: set)
      moreover have "length tensors = length index" using ok(1) count [OF ne] by (simp add: directory_ok_def)
      moreover have "card (fst ` set index) \<le> length index" by (metis card_length length_map set_map)
      ultimately show ?thesis by (metis card_seteq finite_imageI finite_set)
    qed
    with True i root ok ts sorted set load_index_sorted [OF i] show ?thesis
      by (intro exI [of _ root] exI [of _ index] exI [of _ loads]) (auto simp: directory_ok_def)
  next
    case False
    with files have "index = []" by (auto simp: directory_files_def split: if_splits)
    with False root ok ts sorted show ?thesis
      by (intro exI [of _ root] exI [of _ index] exI [of _ loads]) simp
  qed
qed

section \<open>An example\<close>

definition sample_header :: json where
  "sample_header = JObject [(''a'', JObject [(''data_offsets'', JArray [JInt 0, JInt 4]), (''dtype'', JString ''BF16''),
     (''shape'', JArray [JInt 2])])]"

definition sample_file :: string where
  "sample_file = chr 55 # replicate 7 (chr 0) @ stringify sample_header @ ''abcd''"

definition sample_fs :: file_system where
  "sample_fs = \<lparr>open_mapped = (\<lambda>path. if path = ''/m/model.safetensors'' then Inr sample_file else Inl (Status KIoError path)),
     is_regular_file = (\<lambda>path. path = ''m/model.safetensors''),
     canonical_path = (\<lambda>path. if path = ''m'' then Inr ''/m'' else if path = ''m/model.safetensors'' then Inr ''/m/model.safetensors''
        else Inl path)\<rparr>"

definition sample_tensor :: stored_tensor where
  "sample_tensor = \<lparr>tensor_name = ''a'', shape = [2], dtype = ''BF16'', absolute_offset = 63, tensor_length = 4,
     tensor_alignment = 1, shard = ''model.safetensors''\<rparr>"

lemma sample_header_reads: "json_parse (stringify sample_header) header_limits = Inr sample_header"
proof (rule json_parse_reads_back)
  have "json_ok sample_header" "json_depth sample_header \<le> 5" "json_count sample_header \<le> 99"
    "strings_le 99 sample_header" by code_simp+
  then show "within header_limits sample_header"
    using strings_le_mono [of 99 sample_header "256 * 1024 * 1024"]
    by (simp add: within_def header_limits_def max_header_bytes_def)
  show "no_doubles sample_header" by code_simp
  have "length (stringify sample_header) \<le> 500" by code_simp
  then show "length (stringify sample_header) \<le> document_limit header_limits"
    by (simp add: document_limit_def header_limits_def max_header_bytes_def)
qed

lemma little_endian_byte: "n < 256 \<Longrightarrow> read_little_endian64 (chr n # replicate 7 (chr 0) @ s) = n"
  by (simp add: read_little_endian64_def numeral_eq_Suc)

lemma sample_load: "load_file sample_fs ''/m/model.safetensors'' = Inr [sample_tensor]"
proof -
  have l: "length (stringify sample_header) = 55" by code_simp
  have h: "read_little_endian64 sample_file = 55" unfolding sample_file_def by (rule little_endian_byte) simp
  have p: "parse_header path (take 55 (drop 8 sample_file)) = Inr [(''a'', JObject [(''data_offsets'', JArray [JInt 0, JInt 4]),
      (''dtype'', JString ''BF16''), (''shape'', JArray [JInt 2])])]" for path
    using l sample_header_reads by (simp add: sample_file_def parse_header_def) (simp add: sample_header_def)
  have size: "length sample_file = 67" using l by (simp add: sample_file_def)
  have "path_filename ''/m/model.safetensors'' = ''model.safetensors''" by code_simp
  then show ?thesis
    by (simp add: load_file_def sample_fs_def load_bytes_def h p size Let_def header_step_def entry_tensor_def
        entry_fields_def shape_step_def entry_offsets_def dtype_bytes_def tensor_bytes_def shape_product_def rguard_def
        mul_overflows_iff u64_max_def alignment_of_def sort_intervals_def sample_tensor_def max_header_bytes_def with_tensor_def)
qed

theorem load_file_ranges_witness:
  "disjoint_ranges [sample_tensor] \<and> tensor_inside 63 67 sample_tensor"
proof -
  have "length sample_file = 67" by (simp add: sample_file_def) code_simp
  moreover have "read_little_endian64 sample_file = 55" unfolding sample_file_def by (rule little_endian_byte) simp
  ultimately show ?thesis
    using load_file_ranges [OF sample_load] by (simp add: sample_fs_def data_start_def)
qed

lemma sample_directory: "load_safetensors_directory sample_fs ''m'' = Inr [sample_tensor]"
proof -
  have "path_join ''m'' index_name \<noteq> ''m/model.safetensors''" "path_join ''m'' single_name = ''m/model.safetensors''"
    "parent_path ''/m/model.safetensors'' = ''/m''" by code_simp+
  then have "directory_files sample_fs ''m'' = Inr ([''m/model.safetensors''], [])"
    by (simp add: directory_files_def sample_fs_def)
  moreover have "canonical_path sample_fs ''m'' = Inr ''/m''" "is_regular_file sample_fs ''m/model.safetensors''"
    "canonical_path sample_fs ''m/model.safetensors'' = Inr ''/m/model.safetensors''" by (simp_all add: sample_fs_def)
  ultimately show ?thesis
    using sample_load \<open>parent_path ''/m/model.safetensors'' = ''/m''\<close>
    by (simp add: load_safetensors_directory_def add_file_def add_tensor_def)
qed

theorem directory_matches_index_witness:
  "\<exists>root loads. loaded sample_fs root loads \<and> [sample_tensor] = sort_key tensor_name (concat (map snd loads))"
  using directory_matches_index [OF sample_directory] by blast

end
