(* ===== verification/Plan_Facts.thy ===== *)
theory Plan_Facts
  imports Memory_Plan Safetensors_Facts
begin

text \<open>
  Facts of the arena plan: what rounding up to a power of two gives, and where the regions that are
  placed one after the other lie.
\<close>

section \<open>Alignment\<close>

lemma and_pred_double: "(2 * w) AND (2 * w - 1) = 2 * (w AND (w - 1 :: nat))"
proof (cases w)
  case (Suc u)
  have "(2 * Suc u) AND (2 * Suc u - 1) = (2 * Suc u) AND (2 * u + 1)" by simp
  also have "\<dots> = 2 * (Suc u AND u)"
    by (subst and_nat_rec) (simp add: div_add1_eq)
  finally show ?thesis using Suc by simp
qed simp

lemma power_of_two: "is_power_of_two v \<Longrightarrow> \<exists>k. v = 2 ^ k"
proof (induction v rule: less_induct)
  case (less v)
  then have v: "v \<noteq> 0" "v AND (v - 1) = 0" by (simp_all add: is_power_of_two_def)
  show ?case
  proof (cases "even v")
    case True
    then obtain w where w: "v = 2 * w" by blast
    with v and_pred_double [of w] have "is_power_of_two w" "w < v" by (auto simp: is_power_of_two_def)
    with less.IH obtain k where "w = 2 ^ k" by blast
    with w show ?thesis by (intro exI [of _ "Suc k"]) simp
  next
    case False
    then obtain w where w: "v = 2 * w + 1" by (metis oddE)
    have "(2 * w + 1) AND (2 * w) = 2 * w" by (subst and_nat_rec) (simp add: and.idem)
    with v w have "w = 0" by simp
    with w show ?thesis by (intro exI [of _ 0]) simp
  qed
qed

lemma and_high_mask:
  fixes x :: nat
  assumes "x < 2 ^ n" "k \<le> n"
  shows "x AND (2 ^ n - 2 ^ k) = x div 2 ^ k * 2 ^ k"
proof -
  have e: "(2::nat) ^ (n - k) * 2 ^ k = 2 ^ n" using assms(2) by (simp add: power_add [symmetric])
  then have "(2::nat) ^ n - 2 ^ k = push_bit k (mask (n - k))"
    by (simp add: push_bit_eq_mult mask_eq_exp_minus_1 diff_mult_distrib)
  then have "x AND (2 ^ n - 2 ^ k) = push_bit k (take_bit (n - k) (drop_bit k x))"
    by (intro bit_eqI) (auto simp: bit_and_iff bit_push_bit_iff bit_mask_iff bit_take_bit_iff bit_drop_bit_eq)
  also have "x div 2 ^ k < 2 ^ (n - k)" using assms(1) e by (intro less_mult_imp_div_less) simp
  then have "take_bit (n - k) (drop_bit k x) = drop_bit k x"
    by (simp add: take_bit_nat_eq_self_iff drop_bit_eq_div)
  finally show ?thesis by (simp add: push_bit_eq_mult drop_bit_eq_div)
qed

lemma align_up_result:
  assumes "align_up v a = Inr r" "a \<le> u64_max"
  shows "a dvd r" "v \<le> r" "r < v + a" "r \<le> u64_max"
proof -
  have p: "is_power_of_two a" and v: "v \<le> u64_max - (a - 1)" and r: "r = (v + (a - 1)) AND (u64_max - (a - 1))"
    using assms(1) by (auto simp: align_up_def Let_def split: if_splits)
  obtain k where k: "a = 2 ^ k" using power_of_two [OF p] by blast
  have "(2::nat) ^ k < 2 ^ 64" using assms(2) k by (simp add: u64_max_less)
  then have "k < 64" by (rule power_less_imp_less_exp [of "2::nat", rotated]) simp
  then have k64: "k \<le> 64" by simp
  have a: "0 < a" by (simp add: k)
  have x: "v + (a - 1) \<le> u64_max" using v assms(2) by simp
  have "u64_max - (a - 1) = 2 ^ 64 - 2 ^ k" using a by (simp add: u64_max_def k)
  then have r': "r = (v + (a - 1)) div a * a" using and_high_mask [of "v + (a - 1)" 64 k] k64 x r by (simp add: u64_max_less k)
  show "a dvd r" by (simp add: r')
  have m: "r + (v + (a - 1)) mod a = v + (a - 1)" "(v + (a - 1)) mod a < a" using a by (simp_all add: r')
  show "v \<le> r" "r < v + a" using m a by linarith+
  show "r \<le> u64_max" using m x by linarith
qed

section \<open>Placing the regions\<close>

text \<open>The regions follow each other from \<open>c\<close> to \<open>e\<close>, each at the next aligned offset.\<close>

fun regions_from :: "nat \<Rightarrow> memory_region list \<Rightarrow> nat \<Rightarrow> bool" where
  "regions_from c [] e \<longleftrightarrow> c = e"
| "regions_from c (r # rs) e \<longleftrightarrow> c \<le> region_offset r \<and> region_offset r < c + region_alignment r \<and>
     region_alignment r dvd region_offset r \<and> regions_from (region_offset r + region_bytes r) rs e"

lemma regions_from_append: "regions_from c (rs @ qs) e \<longleftrightarrow> (\<exists>d. regions_from c rs d \<and> regions_from d qs e)"
  by (induction rs arbitrary: c) auto

lemma regions_from_le: "regions_from c rs e \<Longrightarrow> c \<le> e"
  by (induction rs arbitrary: c) (fastforce dest: add_leD1)+

lemma regions_from_disjoint:
  assumes "regions_from c rs e"
  shows "sorted_wrt (\<lambda>r q. region_offset r + region_bytes r \<le> region_offset q) rs \<and>
    (\<forall>r \<in> set rs. c \<le> region_offset r \<and> region_offset r + region_bytes r \<le> e \<and> region_alignment r dvd region_offset r)"
  using assms
proof (induction rs arbitrary: c)
  case (Cons r rs)
  then have "regions_from (region_offset r + region_bytes r) rs e" by simp
  from Cons.IH [OF this] regions_from_le [OF this] Cons.prems show ?case by fastforce
qed simp

lemma checked_add_Inr [simp]: "b \<le> u64_max \<Longrightarrow> checked_add a b l = Inr r \<longleftrightarrow> r = a + b \<and> a + b \<le> u64_max"
  by (auto simp: checked_add_def)

definition placed :: "memory_plan \<times> nat \<Rightarrow> (string \<times> nat \<times> nat) list \<Rightarrow> bool" where
  "placed acc wanted \<longleftrightarrow> (case acc of (plan, cursor) \<Rightarrow>
     regions_from 0 (regions plan) cursor \<and> cursor \<le> u64_max \<and>
     map (\<lambda>r. (region_name r, region_bytes r, region_alignment r)) (regions plan) = wanted \<and>
     cursor = padding_bytes plan + sum_list (map region_bytes (regions plan)))"

lemma add_region_placed:
  assumes "add_region (plan, cursor) (name, bytes, alignment) = Inr (plan', cursor')"
    and "placed (plan, cursor) wanted" "alignment \<le> u64_max" "bytes \<le> u64_max"
  shows "placed (plan', cursor') (wanted @ [(name, bytes, alignment)]) \<and>
    plan' = plan\<lparr>padding_bytes := padding_bytes plan', regions := regions plan'\<rparr>"
proof -
  obtain a p where a: "align_up cursor alignment = Inr a" and p: "checked_add (padding_bytes plan) (a - cursor) ''arena padding'' = Inr p"
    and e: "checked_add a bytes ''arena region'' = Inr cursor'"
    and plan': "plan' = plan\<lparr>padding_bytes := p, regions := regions plan @ [\<lparr>region_name = name, region_offset = a,
      region_bytes = bytes, region_alignment = alignment\<rparr>]\<rparr>"
    using assms(1) by (auto simp: add_region_def rbind_Inr_iff)
  note al = align_up_result [OF a assms(3)]
  have "a - cursor \<le> u64_max" using al(4) by simp
  with p have "p = padding_bytes plan + (a - cursor)" by simp
  moreover have "cursor' = a + bytes" "a + bytes \<le> u64_max" using e assms(4) by simp_all
  ultimately show ?thesis using assms(2) al by (auto simp: placed_def plan' regions_from_append)
qed

lemma add_regions_placed:
  assumes "rfold add_region (plan, cursor) new = Inr (plan', cursor')" "placed (plan, cursor) wanted"
    and "\<forall>(name, bytes, alignment) \<in> set new. bytes \<le> u64_max \<and> alignment \<le> u64_max"
  shows "placed (plan', cursor') (wanted @ new) \<and> plan' = plan\<lparr>padding_bytes := padding_bytes plan', regions := regions plan'\<rparr>"
  using assms
proof (induction new arbitrary: plan cursor wanted)
  case (Cons x new)
  obtain name bytes alignment where x: "x = (name, bytes, alignment)" by (metis prod_cases3)
  from Cons.prems(1) obtain u c where u: "add_region (plan, cursor) x = Inr (u, c)" "rfold add_region (u, c) new = Inr (plan', cursor')"
    by (auto simp: rbind_Inr_iff)
  have "alignment \<le> u64_max" "bytes \<le> u64_max" using Cons.prems(3) x by auto
  from add_region_placed [OF u(1) [unfolded x] Cons.prems(2) this]
  have p: "placed (u, c) (wanted @ [x])" and q: "u = plan\<lparr>padding_bytes := padding_bytes u, regions := regions u\<rparr>"
    by (simp_all add: x)
  from Cons.IH [OF u(2) p] Cons.prems(3)
  have r: "placed (plan', cursor') ((wanted @ [x]) @ new)" "plan' = u\<lparr>padding_bytes := padding_bytes plan', regions := regions plan'\<rparr>"
    by simp_all
  have "plan' = plan\<lparr>padding_bytes := padding_bytes plan', regions := regions plan'\<rparr>"
    using arg_cong [OF q, of "\<lambda>u. u\<lparr>padding_bytes := padding_bytes plan', regions := regions plan'\<rparr>"] r(2) by simp
  with r(1) show ?case by simp
qed simp

lemma place_regions_result:
  assumes "place_regions plan wanted = Inr plan'" "regions plan = []" "padding_bytes plan = 0"
    and "arena_alignment plan \<le> u64_max"
    and "\<forall>(name, bytes, alignment) \<in> set wanted. bytes \<le> u64_max \<and> alignment \<le> u64_max"
  shows "\<exists>e. regions_from 0 (regions plan') e \<and> e \<le> total_arena_bytes plan' \<and>
      total_arena_bytes plan' < e + arena_alignment plan \<and> arena_alignment plan dvd total_arena_bytes plan' \<and>
      total_arena_bytes plan' \<le> u64_max \<and>
      total_arena_bytes plan' = padding_bytes plan' + sum_list (map (\<lambda>(name, bytes, alignment). bytes) wanted) \<and>
      map (\<lambda>r. (region_name r, region_bytes r, region_alignment r)) (regions plan') = wanted"
    and "plan' = plan\<lparr>padding_bytes := padding_bytes plan', total_arena_bytes := total_arena_bytes plan', regions := regions plan'\<rparr>"
proof -
  obtain mid cursor total padding where f: "rfold add_region (plan, 0) wanted = Inr (mid, cursor)"
    and t: "align_up cursor (arena_alignment plan) = Inr total"
    and p: "checked_add (padding_bytes mid) (total - cursor) ''arena padding'' = Inr padding"
    and plan': "plan' = mid\<lparr>padding_bytes := padding, total_arena_bytes := total\<rparr>"
    using assms(1) by (auto simp: place_regions_def rbind_Inr_iff)
  have "placed (plan, 0) []" using assms(2,3) by (simp add: placed_def)
  from add_regions_placed [OF f this assms(5)]
  have m: "placed (mid, cursor) wanted" and mid: "mid = plan\<lparr>padding_bytes := padding_bytes mid, regions := regions mid\<rparr>" by simp_all
  note al = align_up_result [OF t assms(4)]
  have "total - cursor \<le> u64_max" using al(4) by simp
  with p have pad: "padding = padding_bytes mid + (total - cursor)" by simp
  have "map region_bytes (regions mid) = map (\<lambda>(name, bytes, alignment). bytes) wanted"
    using m by (auto simp: placed_def)
  with m pad al show "\<exists>e. regions_from 0 (regions plan') e \<and> e \<le> total_arena_bytes plan' \<and>
      total_arena_bytes plan' < e + arena_alignment plan \<and> arena_alignment plan dvd total_arena_bytes plan' \<and>
      total_arena_bytes plan' \<le> u64_max \<and>
      total_arena_bytes plan' = padding_bytes plan' + sum_list (map (\<lambda>(name, bytes, alignment). bytes) wanted) \<and>
      map (\<lambda>r. (region_name r, region_bytes r, region_alignment r)) (regions plan') = wanted"
    by (intro exI [of _ cursor]) (auto simp: placed_def plan')
  show "plan' = plan\<lparr>padding_bytes := padding_bytes plan', total_arena_bytes := total_arena_bytes plan', regions := regions plan'\<rparr>"
    using arg_cong [OF mid, of "\<lambda>u. u\<lparr>padding_bytes := padding, total_arena_bytes := total\<rparr>"] plan' by simp
qed

end
