(* ===== verification/Tokenizer_Config.thy ===== *)
theory Tokenizer_Config
  imports Json_Roundtrip Tool_Format
begin

text \<open>
  The response contract of src/model/tokenizer_config.cpp: loading tokenizer_config.json, the checks
  of the primary checkpoint, and the extraction of the visible content from a model response.
  Reading the file is a parameter.
\<close>

section \<open>Loading\<close>

record tokenizer_config =
  tokenizer_class :: string
  bos_token :: string
  eos_token :: string
  eot_token :: string
  tool_response_end_token :: string
  tool_call_start_token :: string
  model_max_length :: binary64
  response_role :: string
  response_start_anchors :: "string list"
  content_close_tokens :: "string list"
  thinking_open :: string
  thinking_close :: string
  tool_call_open_pattern :: string
  tool_call_close :: string
  tool_calls_repeat :: bool

definition config_loss :: "string \<Rightarrow> status" where
  "config_loss m = Status KDataLoss (''tokenizer_config.json '' @ m)"

definition config_member :: "json option \<Rightarrow> string \<Rightarrow> json option" where
  "config_member parent name = (case parent of None \<Rightarrow> None | Some v \<Rightarrow> json_find v name)"

definition config_string :: "json option \<Rightarrow> string \<Rightarrow> string result" where
  "config_string parent field =
     (case config_member parent field of
        Some (JString s) \<Rightarrow> Inr s
      | _ \<Rightarrow> Inl (config_loss (''field '' @ field @ '' must be a string'')))"

definition string_item :: "string \<Rightarrow> string list \<Rightarrow> json \<Rightarrow> string list result" where
  "string_item field items v =
     (case v of
        JString s \<Rightarrow> Inr (items @ [s])
      | _ \<Rightarrow> Inl (config_loss (''field '' @ field @ '' must contain only strings'')))"

definition config_strings :: "json option \<Rightarrow> string \<Rightarrow> string list result" where
  "config_strings parent field =
     (case config_member parent field of
        Some (JArray (v # vs)) \<Rightarrow> rfold (string_item field) [] (v # vs)
      | _ \<Rightarrow> Inl (config_loss (''field '' @ field @ '' must be a non-empty string array'')))"

definition tokenizer_config_limits :: json_limits where
  "tokenizer_config_limits = \<lparr>max_depth = 64, max_values = 10000, max_string_bytes = 1024 * 1024\<rparr>"

definition positive_length :: "json option \<Rightarrow> binary64 result" where
  "positive_length v =
     (case v of
        None \<Rightarrow> Inl (config_loss ''model_max_length must be a positive finite number'')
      | Some w \<Rightarrow>
          (case as_number w of
             Some d \<Rightarrow> if is_finite d \<and> double_less (double_of_int 0) d then Inr d
               else Inl (config_loss ''model_max_length must be a positive finite number'')
           | None \<Rightarrow> Inl (config_loss ''model_max_length must be a positive finite number'')))"

text \<open>The parts of the response template: defaults, the three fields, and the template itself.\<close>

definition template_parts :: "json \<Rightarrow> (json \<times> json \<times> json \<times> json \<times> json) result" where
  "template_parts root =
     (let response = json_find root ''response_template'';
          defaults = config_member response ''defaults'';
          fields = config_member response ''fields'';
          content_field = config_member fields ''content'';
          thinking_field = config_member fields ''thinking'';
          tools_field = config_member fields ''tool_calls''
      in case (response, defaults, content_field, thinking_field, tools_field) of
           (Some (JObject r), Some d, Some c, Some t, Some u) \<Rightarrow> Inr (JObject r, d, c, t, u)
         | _ \<Rightarrow> Inl (config_loss ''has no complete response_template''))"

definition template_config :: "json \<Rightarrow> (tokenizer_config \<Rightarrow> tokenizer_config) result" where
  "template_config root =
     rbind (template_parts root) (\<lambda>(response, defaults, c, t, u).
     rbind (config_string (Some defaults) ''role'') (\<lambda>role_text.
     rbind (config_strings (Some response) ''start_anchor'') (\<lambda>anchors.
     rbind (config_string (Some c) ''content'') (\<lambda>content_type.
     rbind (config_strings (Some c) ''close'') (\<lambda>content_close.
     rbind (config_string (Some t) ''content'') (\<lambda>thinking_type.
     rbind (config_string (Some t) ''open'') (\<lambda>opening.
     rbind (config_string (Some t) ''close'') (\<lambda>closing.
     rbind (config_string (Some u) ''content'') (\<lambda>tool_type.
     rbind (config_string (Some u) ''open_pattern'') (\<lambda>tool_pattern.
     rbind (config_string (Some u) ''close'') (\<lambda>tool_end.
     if content_type \<noteq> ''text'' \<or> thinking_type \<noteq> ''text'' \<or> tool_type \<noteq> ''json''
     then Inl (Status KUnsupported ''tokenizer_config.json response_template content types are unsupported'')
     else
       case json_find u ''repeats'' of
         Some (JBool repeats) \<Rightarrow>
           Inr (\<lambda>config. config\<lparr>response_role := role_text, response_start_anchors := anchors,
             content_close_tokens := content_close, thinking_open := opening, thinking_close := closing,
             tool_call_open_pattern := tool_pattern, tool_call_close := tool_end, tool_calls_repeat := repeats\<rparr>)
       | _ \<Rightarrow> Inl (config_loss ''tool_calls.repeats must be a boolean''))))))))))))"

definition tokenizer_config_of :: "json \<Rightarrow> tokenizer_config result" where
  "tokenizer_config_of root =
     rbind (config_string (Some root) ''tokenizer_class'') (\<lambda>class_name.
     rbind (config_string (Some root) ''bos_token'') (\<lambda>bos.
     rbind (config_string (Some root) ''eos_token'') (\<lambda>eos.
     rbind (config_string (Some root) ''eot_token'') (\<lambda>eot.
     rbind (config_string (Some root) ''etr_token'') (\<lambda>etr.
     rbind (config_string (Some root) ''stc_token'') (\<lambda>stc.
     rbind (positive_length (json_find root ''model_max_length'')) (\<lambda>maximum.
     rbind (template_config root) (\<lambda>update.
       Inr (update \<lparr>tokenizer_class = class_name, bos_token = bos, eos_token = eos, eot_token = eot,
         tool_response_end_token = etr, tool_call_start_token = stc, model_max_length = maximum,
         response_role = [], response_start_anchors = [], content_close_tokens = [], thinking_open = [],
         thinking_close = [], tool_call_open_pattern = [], tool_call_close = [], tool_calls_repeat = False\<rparr>)))))))))"

definition load_tokenizer_config :: "string \<Rightarrow> string result \<Rightarrow> tokenizer_config result" where
  "load_tokenizer_config path file =
     rbind file (\<lambda>text.
       case json_parse text tokenizer_config_limits of
         Inl e \<Rightarrow> Inl (Status (code e) (path @ '': '' @ message e))
       | Inr root \<Rightarrow>
           if is_object root then tokenizer_config_of root
           else Inl (config_loss ''root must be an object''))"

section \<open>The contract of the primary checkpoint\<close>

definition template_error :: "string \<Rightarrow> string \<Rightarrow> status" where
  "template_error field expected =
     Status KUnsupported (''unsupported primary tokenizer_config.json: '' @ field @ '' must be '' @ expected)"

definition thinking_opener :: string where "thinking_opener = ''<|channel>thought'' @ [CHR 0x0A]"

definition model_turn :: string where "model_turn = ''<|turn>model'' @ [CHR 0x0A]"

definition tool_pattern :: string where
  "tool_pattern = ''<'' @ [CHR 0x5C] @ ''|tool_call>call:(?P<name>'' @ [CHR 0x5C] @ ''w+)''"

definition tokenizer_checks :: "tokenizer_config \<Rightarrow> (bool \<times> string \<times> string) list" where
  "tokenizer_checks c =
    [(tokenizer_class c = ''GemmaTokenizer'', ''tokenizer_class'', ''GemmaTokenizer''),
     (bos_token c = ''<bos>'', ''bos_token'', ''<bos>''),
     (eos_token c = ''<eos>'', ''eos_token'', ''<eos>''),
     (eot_token c = ''<turn|>'', ''eot_token'', ''<turn|>''),
     (tool_response_end_token c = ''<tool_response|>'' \<and> tool_call_start_token c = ''<|tool_call>'',
        ''tool boundary tokens'', ''the Google Gemma 4 contract''),
     (double_less (double_of_int (2 ^ 64 - 1)) (model_max_length c), ''model_max_length'',
        ''Google'' @ [CHR 0x27] @ ''s unbounded tokenizer sentinel (model context comes from config.json)''),
     (response_role c = ''assistant'', ''response_template.defaults.role'', ''assistant''),
     (response_start_anchors c = [model_turn, ''<tool_response|>''], ''response_template.start_anchor'',
        ''the Google Gemma 4 anchors''),
     (content_close_tokens c = [''<turn|>'', ''<|tool_response>'', ''<eos>''], ''response_template.fields.content.close'',
        ''the Google Gemma 4 close-token list''),
     (thinking_open c = thinking_opener \<and> thinking_close c = ''<channel|>'', ''response_template.fields.thinking'',
        ''the Google Gemma 4 thinking delimiters''),
     (tool_call_open_pattern c = tool_pattern \<and> tool_call_close c = ''<tool_call|>'' \<and> tool_calls_repeat c,
        ''response_template.fields.tool_calls'', ''the repeatable Google Gemma 4 tool-call contract'')]"

definition validate_tokenizer_config :: "tokenizer_config \<Rightarrow> unit result" where
  "validate_tokenizer_config c =
     rcheck (\<lambda>(holds, field, expected). rguard holds (template_error field expected)) (tokenizer_checks c)"

section \<open>The content of a response\<close>

text \<open>\<open>std::isspace\<close> in the C locale.\<close>

definition is_c_space :: "char \<Rightarrow> bool" where
  "is_c_space c \<longleftrightarrow> c = CHR '' '' \<or> (9 \<le> byte c \<and> byte c \<le> 13)"

definition trim :: "string \<Rightarrow> string" where
  "trim s = rev (dropWhile is_c_space (rev (dropWhile is_c_space s)))"

text \<open>
  The loop that drops every thinking field.  With two empty markers it would not move forward, so it
  has fuel; \<open>None\<close> means that it is still running.
\<close>

fun drop_thinking :: "nat \<Rightarrow> string \<Rightarrow> string \<Rightarrow> string \<Rightarrow> string \<Rightarrow> string result option" where
  "drop_thinking 0 opening closing out text = None"
| "drop_thinking (Suc fuel) opening closing out text =
     (case find_sub opening text of
        None \<Rightarrow> Some (Inr (out @ text))
      | Some i \<Rightarrow>
          (case find_sub closing (drop (i + length opening) text) of
             None \<Rightarrow> Some (Inl (Status KDataLoss ''model response has an unterminated thinking field''))
           | Some j \<Rightarrow> drop_thinking fuel opening closing (out @ take i text)
               (drop (i + length opening + j + length closing) text)))"

definition cut_content :: "string list \<Rightarrow> string \<Rightarrow> string" where
  "cut_content closes text =
     take (fold (\<lambda>close n. case find_sub close text of Some i \<Rightarrow> min n i | None \<Rightarrow> n) closes (length text)) text"

text \<open>The loop that drops every tool call: \<open>kept\<close> is the text before the position of the search.\<close>

function drop_tool_calls :: "string \<Rightarrow> string \<Rightarrow> string \<Rightarrow> string result" where
  "drop_tool_calls start kept text =
     (case find_sub start text of
        None \<Rightarrow> Inr (kept @ text)
      | Some i \<Rightarrow>
          (case find_sub tool_close (drop i text) of
             None \<Rightarrow> Inl (Status KDataLoss ''model response has an unterminated tool call'')
           | Some j \<Rightarrow> drop_tool_calls start (kept @ take i text) (drop (i + j + length tool_close) text)))"
  by pat_completeness auto
termination
proof (relation "measure (\<lambda>(start, kept, text). length text)")
  fix start kept body i j
  assume "find_sub start body = Some i" "find_sub tool_close (drop i body) = Some j"
  then show "((start, kept @ take i body, drop (i + j + length tool_close) body), start, kept, body)
      \<in> measure (\<lambda>(start, kept, text). length text)"
    using find_sub_Some [of tool_close "drop i body" j] by (auto simp: tool_close_def)
qed simp

declare drop_tool_calls.simps [simp del]

definition extract_response_content :: "string \<Rightarrow> string \<Rightarrow> string \<Rightarrow> string list \<Rightarrow> string \<Rightarrow> string result option" where
  "extract_response_content text opening closing closes tool_start =
     fbind (drop_thinking (Suc (length text)) opening closing [] text) (\<lambda>visible.
       Some (rbind (drop_tool_calls tool_start [] (cut_content closes visible)) (\<lambda>content. Inr (trim content))))"

end
