(* ===== verification/Checkpoint.thy ===== *)
theory Checkpoint
  imports Plan_Facts Tokenizer_Config
begin

text \<open>
  \<open>InspectCheckpoint\<close> (src/model/checkpoint_loader.cpp) and \<open>PlanCheckpointMemory\<close>
  (src/runtime/memory.cpp): the loaders, the contracts, the manifest and the plan put together.  What
  reading a configuration file gives, and which paths are directories, are parameters.
\<close>

record checkpoint_source =
  files :: file_system
  engine :: regex_engine
  read_config :: "string \<Rightarrow> string result"
  is_directory :: "string \<Rightarrow> bool"

definition required_files :: "string list" where
  "required_files = [''config.json'', ''tokenizer.json'', ''tokenizer_config.json'']"

definition inspect_tokenizer :: "checkpoint_source \<Rightarrow> string \<Rightarrow> bool \<Rightarrow> unit result" where
  "inspect_tokenizer src directory validate =
     (let path = path_join directory ''tokenizer_config.json''
      in rbind (load_tokenizer_config path (read_config src path)) (\<lambda>c.
           if validate then validate_tokenizer_config c else Inr ()))"

definition inspect_checkpoint :: "checkpoint_source \<Rightarrow> string \<Rightarrow> bool \<Rightarrow> model_manifest result" where
  "inspect_checkpoint src directory validate =
     rbind (rguard (directory \<noteq> []) (Status KInvalidArgument ''--model requires a checkpoint directory'')) (\<lambda>_.
     rbind (rguard (is_directory src directory)
       (Status KNotFound (''model directory does not exist: '' @ directory))) (\<lambda>_.
     rbind (rcheck (\<lambda>name. rguard (is_regular_file (files src) (path_join directory name))
       (Status KNotFound (''required checkpoint file is missing: '' @ path_join directory name))) required_files) (\<lambda>_.
     let path = path_join directory ''config.json''
     in rbind (load_model_config path (read_config src path)) (\<lambda>config.
        rbind (if validate then validate_inspectable config else Inr ()) (\<lambda>_.
        rbind (if is_primary_model config then inspect_tokenizer src directory validate else Inr ()) (\<lambda>_.
          build_manifest (files src) (engine src) directory config validate))))))"

definition plan_checkpoint_memory :: "checkpoint_source \<Rightarrow> string \<Rightarrow> plan_options \<Rightarrow> memory_plan result" where
  "plan_checkpoint_memory src directory options =
     rbind (inspect_checkpoint src directory True) (\<lambda>manifest.
     let path = path_join directory ''config.json''
     in rbind (load_model_config path (read_config src path)) (\<lambda>config.
        rbind (validate_primary config) (\<lambda>_. build_memory_plan config manifest options)))"

end
