(* ===== verification/Checkpoint_Facts.thy ===== *)
theory Checkpoint_Facts
  imports Checkpoint
begin

text \<open>
  What the memory plan promises for any configuration and manifest, and what planning a checkpoint
  gives once the contract of the primary model holds.
\<close>

section \<open>Sums and products of a plan\<close>

lemma checked_multiply_result:
  assumes "checked_multiply factors label = Inr n"
  shows "n = prod_list factors \<and> n \<le> u64_max"
  using checked_product [OF assms [unfolded checked_multiply_def]] by (simp add: u64_max_def)

definition lengths_fit :: "model_manifest \<Rightarrow> bool" where
  "lengths_fit m \<longleftrightarrow> (\<forall>t \<in> set (manifest_tensors m). byte_length t \<le> u64_max)"

lemma add_tensor_bytes_sum:
  assumes "rfold add_tensor_bytes (w, s) ts = Inr (w', s')" "\<forall>t \<in> set ts. byte_length t \<le> u64_max"
    and "w \<le> u64_max" "s \<le> u64_max"
  shows "w' + s' = w + s + sum_list (map byte_length ts) \<and> w' \<le> u64_max \<and> s' \<le> u64_max"
  using assms
proof (induction ts arbitrary: w s)
  case (Cons t ts)
  from Cons.prems(1) obtain w1 s1 where u: "add_tensor_bytes (w, s) t = Inr (w1, s1)" "rfold add_tensor_bytes (w1, s1) ts = Inr (w', s')"
    by (auto simp: rbind_Inr_iff)
  have "w1 + s1 = w + s + byte_length t" "w1 \<le> u64_max" "s1 \<le> u64_max"
    using u(1) Cons.prems(2-4) by (auto simp: add_tensor_bytes_def rbind_Inr_iff split: if_splits)
  with Cons.IH [OF u(2)] Cons.prems(2) show ?case by simp
qed simp

definition one_state_bytes :: "model_config \<Rightarrow> plan_options \<Rightarrow> memory_plan \<Rightarrow> nat" where
  "one_state_bytes config options plan =
     (local_layer_count plan * min (context_tokens plan) (sliding_window config) * local_kv_heads config * local_head_dimension config +
      global_layer_count plan * context_tokens plan * global_kv_heads config * global_head_dimension config) *
     option_element_bytes options"

lemma kv_bytes_result:
  assumes "kv_bytes config options layers = Inr (l, g, s, separate)"
  shows "separate = 2 * (fst layers * min (profile_tokens (option_profile options)) (sliding_window config) *
      local_kv_heads config * local_head_dimension config * option_element_bytes options +
    snd layers * profile_tokens (option_profile options) * global_kv_heads config * global_head_dimension config *
      option_element_bytes options)" "separate \<le> u64_max"
proof -
  from assms have x: "checked_multiply [fst layers, min (profile_tokens (option_profile options)) (sliding_window config),
      local_kv_heads config, local_head_dimension config, option_element_bytes options] ''local KV cache'' = Inr l"
    "checked_multiply [snd layers, profile_tokens (option_profile options), global_kv_heads config,
      global_head_dimension config, option_element_bytes options] ''global KV cache'' = Inr g"
    "checked_add l g ''shared KV cache'' = Inr s" "checked_multiply [s, 2] ''separate KV cache'' = Inr separate"
    by (auto simp: kv_bytes_def Let_def rbind_Inr_iff)
  note m = x(1,2,4) [THEN checked_multiply_result]
  with x(3) have "s = l + g" by simp
  with m show "separate = 2 * (fst layers * min (profile_tokens (option_profile options)) (sliding_window config) *
      local_kv_heads config * local_head_dimension config * option_element_bytes options +
    snd layers * profile_tokens (option_profile options) * global_kv_heads config * global_head_dimension config *
      option_element_bytes options)" "separate \<le> u64_max" by (simp_all add: mult.assoc)
qed

text \<open>
  C38. An accepted memory plan has the three regions weights, scales and K/V cache in this order,
  each at an aligned offset, none overlapping another, all inside the arena; the arena is exactly
  the three byte counts plus the padding and fits 64 bits; the weights and scales are all tensors of
  the manifest; and the cache holds separate keys and values for every layer, with the sliding
  window as the bound of the local ones.  Nothing wraps around.
\<close>

theorem memory_plan_regions:
  assumes "build_memory_plan config manifest options = Inr plan" "option_alignment options \<le> u64_max" "lengths_fit manifest"
  shows "map (\<lambda>r. (region_name r, region_bytes r)) (regions plan) =
      [(''immutable_model_weights'', model_weight_bytes plan), (''scales'', plan_scale_bytes plan),
       (''kv_cache'', selected_kv_bytes plan)] \<and>
    sorted_wrt (\<lambda>r q. region_offset r + region_bytes r \<le> region_offset q) (regions plan) \<and>
    (\<forall>r \<in> set (regions plan). option_alignment options dvd region_offset r \<and>
      region_offset r + region_bytes r \<le> total_arena_bytes plan) \<and>
    total_arena_bytes plan = model_weight_bytes plan + plan_scale_bytes plan + selected_kv_bytes plan + padding_bytes plan \<and>
    total_arena_bytes plan \<le> u64_max \<and>
    model_weight_bytes plan + plan_scale_bytes plan = sum_list (map byte_length (manifest_tensors manifest)) \<and>
    total_tensor_bytes manifest = model_weight_bytes plan + plan_scale_bytes plan \<and>
    selected_kv_bytes plan = 2 * one_state_bytes config options plan"
proof -
  obtain layers weights scales resident l g s separate where
    t: "rfold add_tensor_bytes (0, 0) (manifest_tensors manifest) = Inr (weights, scales)"
    and r: "checked_add weights scales ''runtime-resident tensor'' = Inr resident" "resident = total_tensor_bytes manifest"
    and k: "kv_bytes config options layers = Inr (l, g, s, separate)"
    and p: "place_regions
         \<lparr>plan_directory = manifest_directory manifest, plan_profile = profile_name (option_profile options),
          plan_storage = ''separate'', context_tokens = profile_tokens (option_profile options),
          kv_element_bytes = option_element_bytes options, arena_alignment = option_alignment options,
          local_layer_count = fst layers, global_layer_count = snd layers, resident_source_bytes = resident,
          model_weight_bytes = weights, plan_scale_bytes = scales, local_shared_kv_bytes = l, global_shared_kv_bytes = g,
          shared_kv_bytes = s, separate_kv_bytes = separate, selected_kv_bytes = separate, padding_bytes = 0,
          total_arena_bytes = 0, regions = []\<rparr>
         [(''immutable_model_weights'', weights, option_alignment options), (''scales'', scales, option_alignment options),
          (''kv_cache'', separate, option_alignment options)] = Inr plan" (is "place_regions ?start ?wanted = _")
    using assms(1) by (auto simp: build_memory_plan_def rbind_Inr_iff)
  have sum: "weights + scales = sum_list (map byte_length (manifest_tensors manifest))" "weights \<le> u64_max" "scales \<le> u64_max"
    using add_tensor_bytes_sum [OF t] assms(3) by (simp_all add: lengths_fit_def)
  then have res: "resident = weights + scales" using r(1) by simp
  have "\<forall>(name, bytes, alignment) \<in> set ?wanted. bytes \<le> u64_max \<and> alignment \<le> u64_max"
    using sum kv_bytes_result(2) [OF k] assms(2) by simp
  note placed = place_regions_result [OF p _ _ _ this, simplified, OF assms(2)]
  from placed(1) obtain e where e: "regions_from 0 (regions plan) e" "e \<le> total_arena_bytes plan"
    "total_arena_bytes plan \<le> u64_max" "total_arena_bytes plan = padding_bytes plan + (weights + (scales + separate))"
    "map (\<lambda>r. (region_name r, region_bytes r, region_alignment r)) (regions plan) = ?wanted" by auto
  have fields: "model_weight_bytes plan = weights" "plan_scale_bytes plan = scales" "selected_kv_bytes plan = separate"
    "local_layer_count plan = fst layers" "global_layer_count plan = snd layers"
    "context_tokens plan = profile_tokens (option_profile options)"
    by (subst placed(2), simp)+
  have "map (\<lambda>r. (region_name r, region_bytes r)) (regions plan) =
      map (\<lambda>(name, bytes, alignment). (name, bytes)) ?wanted" by (simp add: e(5) [symmetric])
  moreover have al: "region_alignment r = option_alignment options" if "r \<in> set (regions plan)" for r
  proof -
    have "(region_name r, region_bytes r, region_alignment r) \<in> set ?wanted" using that unfolding e(5) [symmetric] by force
    then show ?thesis by auto
  qed
  moreover note regions_from_disjoint [OF e(1)]
  moreover have "separate = 2 * one_state_bytes config options plan"
    using kv_bytes_result(1) [OF k] by (simp add: one_state_bytes_def fields algebra_simps)
  ultimately show ?thesis using e(2-4) sum(1) res r(2) by (fastforce simp: fields)
qed

section \<open>The manifest\<close>

lemma classify_keeps: "byte_length (classify names rule module t) = byte_length t"
  "info_name (classify names rule module t) = info_name t" "info_shape (classify names rule module t) = info_shape t"
  "storage_dtype (classify names rule module t) = storage_dtype t"
  by (auto simp: classify_def classify_nvfp4_def classify_fp8_def Let_def split: option.split)

text \<open>The bytes of the tensors that satisfy a condition, as a 64-bit counter holds them.\<close>

definition counted_bytes :: "(tensor_info \<Rightarrow> bool) \<Rightarrow> tensor_info list \<Rightarrow> nat" where
  "counted_bytes P ts = sum_list (map byte_length (filter P ts)) mod 2 ^ 64"

lemma counted_bytes_snoc:
  "counted_bytes P (ts @ [t]) = (if P t then (counted_bytes P ts + byte_length t) mod 2 ^ 64 else counted_bytes P ts)"
  by (simp add: counted_bytes_def mod_add_left_eq)

text \<open>One row for every class that occurs, in order, with its tensors and their bytes.\<close>

definition totals_agree :: "tensor_info list \<Rightarrow> class_total list \<Rightarrow> bool" where
  "totals_agree ts totals \<longleftrightarrow>
     sorted_wrt (<) (map total_class totals) \<and> set (map total_class totals) = quantization_class ` set ts \<and>
     (\<forall>r \<in> set totals. total_count r = length (filter (\<lambda>t. quantization_class t = total_class r) ts) \<and>
        total_bytes r = counted_bytes (\<lambda>t. quantization_class t = total_class r) ts)"

lemma add_total_classes: "set (map total_class (add_total c n totals)) = insert c (set (map total_class totals))"
  by (induction totals) auto

lemma add_total_sorted: "sorted_wrt (<) (map total_class totals) \<Longrightarrow> sorted_wrt (<) (map total_class (add_total c n totals))"
proof (induction totals)
  case (Cons t ts)
  then show ?case using add_total_classes [of c n ts] by (cases c "total_class t" rule: linorder_cases) auto
qed simp

lemma add_total_rows:
  assumes "sorted_wrt (<) (map total_class totals)"
    and "c \<notin> set (map total_class totals) \<Longrightarrow> Q \<lparr>total_class = c, total_count = 1, total_bytes = n mod 2 ^ 64\<rparr>"
    and "\<And>r. r \<in> set totals \<Longrightarrow> total_class r = c \<Longrightarrow> Q (r\<lparr>total_count := total_count r + 1, total_bytes := (total_bytes r + n) mod 2 ^ 64\<rparr>)"
    and "\<And>r. r \<in> set totals \<Longrightarrow> total_class r \<noteq> c \<Longrightarrow> Q r"
  shows "\<forall>r \<in> set (add_total c n totals). Q r"
  using assms
proof (induction totals)
  case (Cons t ts)
  have others: "Q r" if "r \<in> set ts" "total_class r \<noteq> c" for r using Cons.prems(4) that by simp
  show ?case
  proof (cases c "total_class t" rule: linorder_cases)
    case less
    then have "c \<notin> set (map total_class (t # ts))" using Cons.prems(1) by auto
    then show ?thesis using less Cons.prems(2,4) by auto
  next
    case equal
    then have "c \<notin> set (map total_class ts)" using Cons.prems(1) by auto
    then have "\<forall>r \<in> set ts. Q r" using others by auto
    then show ?thesis using equal Cons.prems(3) [of t] by simp
  next
    case greater
    then have c: "c \<noteq> total_class t" and sorted: "sorted_wrt (<) (map total_class ts)" using Cons.prems(1) by auto
    have new: "Q \<lparr>total_class = c, total_count = 1, total_bytes = n mod 2 ^ 64\<rparr>" if "c \<notin> set (map total_class ts)"
      by (rule Cons.prems(2)) (use that c in simp)
    have "\<forall>r \<in> set (add_total c n ts). Q r"
      by (rule Cons.IH [OF sorted new]; (assumption | rule Cons.prems(3) | rule Cons.prems(4)); simp)
    then show ?thesis using greater Cons.prems(4) [of t] by simp
  qed
qed simp

lemma totals_agree_snoc:
  assumes "totals_agree ts totals"
  shows "totals_agree (ts @ [t]) (add_total (quantization_class t) (byte_length t) totals)"
proof -
  let ?c = "quantization_class t"
  have sorted: "sorted_wrt (<) (map total_class totals)" and classes: "set (map total_class totals) = quantization_class ` set ts"
    and rows: "\<And>r. r \<in> set totals \<Longrightarrow> total_count r = length (filter (\<lambda>t. quantization_class t = total_class r) ts) \<and>
      total_bytes r = counted_bytes (\<lambda>t. quantization_class t = total_class r) ts"
    using assms by (auto simp: totals_agree_def)
  have "filter (\<lambda>u. quantization_class u = ?c) ts = []" if "?c \<notin> set (map total_class totals)"
    using that unfolding classes by (force simp: filter_empty_conv image_iff)
  then have "\<forall>r \<in> set (add_total ?c (byte_length t) totals).
      total_count r = length (filter (\<lambda>u. quantization_class u = total_class r) (ts @ [t])) \<and>
      total_bytes r = counted_bytes (\<lambda>u. quantization_class u = total_class r) (ts @ [t])"
    by (intro add_total_rows [OF sorted]) (use rows in \<open>auto simp: counted_bytes_snoc counted_bytes_def mod_add_left_eq\<close>)
  then show ?thesis using add_total_sorted [OF sorted] add_total_classes [of ?c "byte_length t" totals] classes
    by (simp add: totals_agree_def)
qed

definition manifest_invariant :: "model_manifest \<Rightarrow> bool" where
  "manifest_invariant m \<longleftrightarrow>
     total_tensor_bytes m = counted_bytes (\<lambda>t. True) (manifest_tensors m) \<and>
     text_only_tensor_bytes m = counted_bytes loaded_in_text_only_mode (manifest_tensors m) \<and>
     skipped_tensor_bytes m = counted_bytes (\<lambda>t. \<not> loaded_in_text_only_mode t) (manifest_tensors m) \<and>
     totals_agree (manifest_tensors m) (manifest_totals m)"

lemma record_tensor_invariant: "manifest_invariant m \<Longrightarrow> manifest_invariant (record_tensor m t)"
  by (auto simp: manifest_invariant_def record_tensor_def counted_bytes_snoc totals_agree_snoc)

text \<open>A weight has its scales, and they have the type and the shape that the kernels read.\<close>

definition nvfp4_complete :: "stored_tensor list \<Rightarrow> tensor_info \<Rightarrow> bool" where
  "nvfp4_complete stored t \<longleftrightarrow>
     (\<exists>r k n l g i. logical_shape t = [r, k] \<and> k mod 16 = 0 \<and> storage_dtype t = ''U8'' \<and>
        l \<in> set stored \<and> tensor_name l = tensor_module (info_name t) @ ''.weight_scale'' \<and>
        dtype l = ''F8_E4M3'' \<and> shape l = [r, n] \<and> n * 16 mod 2 ^ 64 = k \<and>
        g \<in> set stored \<and> tensor_name g = tensor_module (info_name t) @ ''.weight_global_scale'' \<and>
        dtype g = ''F32'' \<and> shape g = [1] \<and>
        i \<in> set stored \<and> tensor_name i = tensor_module (info_name t) @ ''.input_global_scale'' \<and>
        dtype i = ''F32'' \<and> shape i = [1])"

definition fp8_complete :: "stored_tensor list \<Rightarrow> tensor_info \<Rightarrow> bool" where
  "fp8_complete stored t \<longleftrightarrow>
     (\<exists>r k s. info_shape t = [r, k] \<and> storage_dtype t = ''F8_E4M3'' \<and> s \<in> set stored \<and>
        tensor_name s = tensor_module (info_name t) @ ''.weight_scale'' \<and> dtype s = ''BF16'' \<and> shape s = [r, 1])"

definition tensor_complete :: "stored_tensor list \<Rightarrow> tensor_info \<Rightarrow> bool" where
  "tensor_complete stored t \<longleftrightarrow>
     quantization_class t \<noteq> ''UNSUPPORTED'' \<and>
     (quantization_class t = ''NVFP4_PACKED'' \<longrightarrow> nvfp4_complete stored t) \<and>
     (quantization_class t = ''FP8_WEIGHT_E4M3'' \<longrightarrow> fp8_complete stored t)"

lemma find_stored_Some: "find_stored stored name = Some t \<Longrightarrow> t \<in> set stored \<and> tensor_name t = name"
  by (auto simp: find_stored_def find_Some_iff)

lemma length_2: "length xs = 2 \<longleftrightarrow> (\<exists>a b. xs = [a, b])"
  by (auto simp: numeral_2_eq_2 length_Suc_conv)

lemma check_nvfp4_complete:
  assumes "check_nvfp4 stored t = Inr ()" "local_scale_tensor t = tensor_module (info_name t) @ ''.weight_scale''"
    "global_scale_tensor t = tensor_module (info_name t) @ ''.weight_global_scale''"
    "input_scale_tensor t = tensor_module (info_name t) @ ''.input_global_scale''"
  shows "nvfp4_complete stored t"
proof -
  from assms(1) obtain l g i where f: "find_stored stored (local_scale_tensor t) = Some l"
    "find_stored stored (global_scale_tensor t) = Some g" "find_stored stored (input_scale_tensor t) = Some i"
    by (auto simp: check_nvfp4_def rbind_Inr_iff split: option.splits)
  with assms(1) have x: "length (logical_shape t) = 2" "logical_shape t ! 1 mod 16 = 0" "storage_dtype t = ''U8''"
    "dtype l = ''F8_E4M3''" "dtype g = ''F32''" "dtype i = ''F32''" "length (shape l) = 2"
    "shape l ! 0 = logical_shape t ! 0" "shape l ! 1 * 16 mod 2 ^ 64 = logical_shape t ! 1" "shape g = [1]" "shape i = [1]"
    by (simp_all add: check_nvfp4_def rbind_Inr_iff)
  from x(1,7) obtain r k r' n where s: "logical_shape t = [r, k]" "shape l = [r', n]" by (auto simp: length_2)
  with x(2,8,9) have "k mod 16 = 0" "r' = r" "n * 16 mod 2 ^ 64 = k" by simp_all
  with s x(3-6,10,11) f [THEN find_stored_Some] assms(2-4) show ?thesis
    unfolding nvfp4_complete_def by auto
qed

lemma check_fp8_complete:
  assumes "check_fp8 stored t = Inr ()" "local_scale_tensor t = tensor_module (info_name t) @ ''.weight_scale''"
  shows "fp8_complete stored t"
proof -
  from assms(1) obtain s where f: "find_stored stored (local_scale_tensor t) = Some s"
    by (auto simp: check_fp8_def split: option.splits)
  with assms(1) have x: "storage_dtype t = ''F8_E4M3''" "dtype s = ''BF16''" "length (info_shape t) = 2"
    "shape s = [info_shape t ! 0, 1]" by (simp_all add: check_fp8_def)
  from x(3) obtain r k where "info_shape t = [r, k]" by (auto simp: length_2)
  with x find_stored_Some [OF f] assms(2) show ?thesis unfolding fp8_complete_def by auto
qed

lemma storage_class_plain: "storage_class d \<noteq> ''NVFP4_PACKED''" "storage_class d \<noteq> ''FP8_WEIGHT_E4M3''"
  by (simp_all add: storage_class_def)

lemma classify_nvfp4_scales:
  assumes "quantization_class (classify_nvfp4 module t) = ''NVFP4_PACKED''"
  shows "local_scale_tensor (classify_nvfp4 module t) = module @ ''.weight_scale'' \<and>
    global_scale_tensor (classify_nvfp4 module t) = module @ ''.weight_global_scale'' \<and>
    input_scale_tensor (classify_nvfp4 module t) = module @ ''.input_global_scale''"
proof (cases "ends_with (info_name t) ''.weight_packed''")
  case True
  then show ?thesis by (simp add: classify_nvfp4_def)
next
  case False
  then have "quantization_class (classify_nvfp4 module t) \<noteq> ''NVFP4_PACKED''"
    by (simp add: classify_nvfp4_def storage_class_plain Let_def)
  with assms show ?thesis by simp
qed

lemma classify_fp8_scales:
  assumes "quantization_class (classify_fp8 names module t) = ''FP8_WEIGHT_E4M3''"
  shows "local_scale_tensor (classify_fp8 names module t) = module @ ''.weight_scale''"
proof (cases "\<not> ends_with (info_name t) ''.weight_scale'' \<and> \<not> ends_with (info_name t) ''.input_scale'' \<and>
    ends_with (info_name t) ''.weight''")
  case True
  then show ?thesis by (simp add: classify_fp8_def)
next
  case False
  then have "quantization_class (classify_fp8 names module t) \<noteq> ''FP8_WEIGHT_E4M3''"
    by (auto simp add: classify_fp8_def storage_class_plain Let_def)
  with assms show ?thesis by simp
qed

lemma classify_other_class:
  "quantization_class (classify_nvfp4 module t) \<noteq> ''FP8_WEIGHT_E4M3''"
  "quantization_class (classify_fp8 names module t) \<noteq> ''NVFP4_PACKED''"
  by (simp_all add: classify_nvfp4_def classify_fp8_def Let_def storage_class_plain)

lemma classify_scales:
  assumes "t = classify names rule (tensor_module (info_name t0)) t0"
  shows "quantization_class t = ''NVFP4_PACKED'' \<Longrightarrow>
      local_scale_tensor t = tensor_module (info_name t) @ ''.weight_scale'' \<and>
      global_scale_tensor t = tensor_module (info_name t) @ ''.weight_global_scale'' \<and>
      input_scale_tensor t = tensor_module (info_name t) @ ''.input_global_scale''"
    and "quantization_class t = ''FP8_WEIGHT_E4M3'' \<Longrightarrow>
      local_scale_tensor t = tensor_module (info_name t) @ ''.weight_scale''"
proof -
  have n: "info_name t = info_name t0" by (simp add: assms classify_keeps)
  have c: "t = classify_nvfp4 (tensor_module (info_name t0)) t0 \<or> t = classify_fp8 names (tensor_module (info_name t0)) t0 \<or>
    quantization_class t = storage_class (storage_dtype t0)"
    unfolding assms classify_def by (cases rule) simp_all
  show "quantization_class t = ''NVFP4_PACKED'' \<Longrightarrow>
      local_scale_tensor t = tensor_module (info_name t) @ ''.weight_scale'' \<and>
      global_scale_tensor t = tensor_module (info_name t) @ ''.weight_global_scale'' \<and>
      input_scale_tensor t = tensor_module (info_name t) @ ''.input_global_scale''"
    unfolding n using c classify_nvfp4_scales classify_other_class storage_class_plain by metis
  show "quantization_class t = ''FP8_WEIGHT_E4M3'' \<Longrightarrow>
      local_scale_tensor t = tensor_module (info_name t) @ ''.weight_scale''"
    unfolding n using c classify_fp8_scales classify_other_class storage_class_plain by metis
qed

lemma check_tensor_complete:
  assumes "check_tensor stored rule t = Inr ()" "t = classify names rule' (tensor_module (info_name t0)) t0"
  shows "tensor_complete stored t"
  using assms(1) classify_scales [OF assms(2)] check_nvfp4_complete check_fp8_complete
  unfolding tensor_complete_def check_tensor_def by (auto split: if_splits)

text \<open>What the manifest records of the stored tensors.\<close>

lemma manifest_fold:
  assumes "rfold (manifest_step re config validate stored) m ss = Inr m'" "manifest_invariant m"
  shows "manifest_invariant m' \<and>
    map info_name (manifest_tensors m') = map info_name (manifest_tensors m) @ map tensor_name ss \<and>
    map byte_length (manifest_tensors m') = map byte_length (manifest_tensors m) @ map tensor_length ss \<and>
    (validate \<longrightarrow> (\<forall>t \<in> set (manifest_tensors m'). t \<in> set (manifest_tensors m) \<or> tensor_complete stored t))"
  using assms
proof (induction ss arbitrary: m)
  case (Cons x ss)
  define rule where "rule = match_rule re (tensor_module (tensor_name x)) config"
  define t where "t = classify (map tensor_name stored) rule (tensor_module (tensor_name x)) (stored_info config x)"
  from Cons.prems(1) obtain u where u: "manifest_step re config validate stored m x = Inr u"
    and f': "rfold (manifest_step re config validate stored) u ss = Inr m'" by (auto simp: rbind_Inr_iff)
  from u have "u = record_tensor m t" and c: "validate \<Longrightarrow> check_tensor stored rule t = Inr ()"
    by (auto simp: manifest_step_def Let_def rbind_Inr_iff rule_def t_def split: if_splits)
  with f' have f: "rfold (manifest_step re config validate stored) (record_tensor m t) ss = Inr m'" by simp
  have t: "info_name t = tensor_name x" "byte_length t = tensor_length x"
    by (simp_all add: t_def classify_keeps stored_info_def)
  have "info_name (stored_info config x) = tensor_name x" by (simp add: stored_info_def)
  then have e: "t = classify (map tensor_name stored) rule (tensor_module (info_name (stored_info config x))) (stored_info config x)"
    by (simp only: t_def)
  have "validate \<Longrightarrow> tensor_complete stored t"
    by (rule check_tensor_complete [OF c e])
  with Cons.IH [OF f record_tensor_invariant [OF Cons.prems(2)]] t show ?case
    by (auto simp: record_tensor_def)
qed simp

lemma build_manifest_parts:
  assumes "build_manifest fs re directory config validate = Inr m"
  obtains stored where "load_safetensors_directory fs directory = Inr stored" "manifest_invariant m"
    "map info_name (manifest_tensors m) = map tensor_name stored"
    "map byte_length (manifest_tensors m) = map tensor_length stored"
    "validate \<longrightarrow> (\<forall>t \<in> set (manifest_tensors m). tensor_complete stored t)"
    "validate \<longrightarrow> (if is_assistant_model config then validate_assistant_inventory config stored = Inr ()
       else validate_primary_inventory config (map tensor_name stored) = Inr ())"
    "validate \<and> tied_embeddings config \<longrightarrow> check_embeddings config (map tensor_name stored) = Inr ()"
proof -
  from assms obtain stored where s: "load_safetensors_directory fs directory = Inr stored"
    and f: "rfold (manifest_step re config validate stored)
        \<lparr>manifest_directory = directory, manifest_architecture = architecture config,
          manifest_model_type = model_type config, manifest_tensors = [], manifest_totals = [],
          total_tensor_bytes = 0, text_only_tensor_bytes = 0, skipped_tensor_bytes = 0\<rparr> stored = Inr m" (is "rfold _ ?start _ = _")
    and e: "validate \<and> tied_embeddings config \<longrightarrow> check_embeddings config (map tensor_name stored) = Inr ()"
    and v: "validate \<longrightarrow> (if is_assistant_model config then validate_assistant_inventory config stored = Inr ()
       else validate_primary_inventory config (map tensor_name stored) = Inr ())"
    unfolding build_manifest_def rbind_Inr_iff by (auto split: if_splits)
  have "manifest_invariant ?start" by (simp add: manifest_invariant_def counted_bytes_def totals_agree_def)
  from manifest_fold [OF f this] that [OF s _ _ _ _ v e] show thesis by simp
qed

lemma primary_inventory:
  assumes "validate_primary_inventory config names = Inr ()"
  shows "{n \<in> set names. starts_with n layer_prefix} = set (primary_layer_names config)"
proof -
  have "\<forall>n \<in> set (primary_layer_names config). n \<in> set (filter (\<lambda>n. starts_with n layer_prefix) names)"
    "\<forall>n \<in> set (filter (\<lambda>n. starts_with n layer_prefix) names). n \<in> set (primary_layer_names config)"
    using assms unfolding validate_primary_inventory_def Let_def rbind_Inr_iff rcheck_Inr set_sort set_remdups rguard_Inr_iff by blast+
  then show ?thesis unfolding set_filter by blast
qed

text \<open>The tensors of an assistant checkpoint are those of its architecture, of the type and the shapes that it has.\<close>

definition assistant_complete :: "model_config \<Rightarrow> stored_tensor list \<Rightarrow> bool" where
  "assistant_complete config stored \<longleftrightarrow>
     length stored = length (assistant_shapes config) \<and> tensor_name ` set stored = fst ` set (assistant_shapes config) \<and>
     (\<forall>(name, dims) \<in> set (assistant_shapes config). \<exists>t \<in> set stored. tensor_name t = name \<and> dtype t = ''BF16'' \<and> shape t = dims)"

lemma assistant_inventory:
  assumes "validate_assistant_inventory config stored = Inr ()"
  shows "assistant_complete config stored"
proof -
  have n: "length stored = length (assistant_shapes config)"
    and found: "\<And>name dims. (name, dims) \<in> set (assistant_shapes config) \<Longrightarrow>
      \<exists>t. find_stored stored name = Some t \<and> dtype t = ''BF16'' \<and> shape t = dims"
    and known: "\<And>t. t \<in> set stored \<Longrightarrow> tensor_name t \<in> fst ` set (assistant_shapes config)"
    using assms by (auto simp: validate_assistant_inventory_def Let_def rbind_Inr_iff rcheck_Inr split: option.splits)
  have stored: "\<exists>t \<in> set stored. tensor_name t = name \<and> dtype t = ''BF16'' \<and> shape t = dims"
    if "(name, dims) \<in> set (assistant_shapes config)" for name dims
    using found [OF that] find_stored_Some by blast
  then have "fst ` set (assistant_shapes config) \<subseteq> tensor_name ` set stored" by force
  then show ?thesis using n known stored by (auto simp: assistant_complete_def)
qed

text \<open>
  C37. The manifest of a validated checkpoint lists the stored tensors in their order, with their
  byte counts.  Its counters are those of a 64-bit integer: the total of all tensors, the total of
  those that are loaded in text-only mode, the total of the others, and one row for every
  quantization class that occurs, in order, with the number of its tensors and their bytes.
  No tensor is of an unknown type, every packed weight has all its scales among the stored
  tensors, of the type and shape that describe groups of 16 values or one row.  A primary model has
  exactly the decoder layers of its architecture; an assistant model has exactly the tensors of its
  architecture, each BF16 and of its shape; and a tied embedding is stored once.
\<close>

theorem manifest_complete:
  assumes "build_manifest fs re directory config True = Inr m"
  shows "\<exists>stored. load_safetensors_directory fs directory = Inr stored \<and>
    map info_name (manifest_tensors m) = map tensor_name stored \<and>
    map byte_length (manifest_tensors m) = map tensor_length stored \<and>
    total_tensor_bytes m = sum_list (map tensor_length stored) mod 2 ^ 64 \<and>
    text_only_tensor_bytes m = sum_list (map byte_length (filter loaded_in_text_only_mode (manifest_tensors m))) mod 2 ^ 64 \<and>
    skipped_tensor_bytes m = sum_list (map byte_length (filter (\<lambda>t. \<not> loaded_in_text_only_mode t) (manifest_tensors m))) mod 2 ^ 64 \<and>
    totals_agree (manifest_tensors m) (manifest_totals m) \<and>
    (\<forall>t \<in> set (manifest_tensors m). tensor_complete stored t) \<and>
    (if is_assistant_model config then assistant_complete config stored
     else {n \<in> tensor_name ` set stored. starts_with n layer_prefix} = set (primary_layer_names config)) \<and>
    (tied_embeddings config \<longrightarrow> ''lm_head.weight'' \<notin> tensor_name ` set stored \<and>
       (''model.embed_tokens.weight'' \<in> tensor_name ` set stored \<or>
        ''model.language_model.embed_tokens.weight'' \<in> tensor_name ` set stored))"
proof -
  from assms obtain stored where p: "load_safetensors_directory fs directory = Inr stored" "manifest_invariant m"
    "map info_name (manifest_tensors m) = map tensor_name stored"
    "map byte_length (manifest_tensors m) = map tensor_length stored"
    "\<forall>t \<in> set (manifest_tensors m). tensor_complete stored t"
    "if is_assistant_model config then validate_assistant_inventory config stored = Inr ()
       else validate_primary_inventory config (map tensor_name stored) = Inr ()"
    "tied_embeddings config \<longrightarrow> check_embeddings config (map tensor_name stored) = Inr ()"
    by (rule build_manifest_parts) auto
  have "if is_assistant_model config then assistant_complete config stored
     else {n \<in> tensor_name ` set stored. starts_with n layer_prefix} = set (primary_layer_names config)"
    using p(6) assistant_inventory primary_inventory [of config "map tensor_name stored"] by (auto split: if_splits)
  moreover have "tied_embeddings config \<longrightarrow> ''lm_head.weight'' \<notin> tensor_name ` set stored \<and>
       (''model.embed_tokens.weight'' \<in> tensor_name ` set stored \<or>
        ''model.language_model.embed_tokens.weight'' \<in> tensor_name ` set stored)"
    using p(7) by (auto simp: check_embeddings_def Let_def split: if_splits)
  moreover have "total_tensor_bytes m = sum_list (map tensor_length stored) mod 2 ^ 64"
    "text_only_tensor_bytes m = sum_list (map byte_length (filter loaded_in_text_only_mode (manifest_tensors m))) mod 2 ^ 64"
    "skipped_tensor_bytes m = sum_list (map byte_length (filter (\<lambda>t. \<not> loaded_in_text_only_mode t) (manifest_tensors m))) mod 2 ^ 64"
    "totals_agree (manifest_tensors m) (manifest_totals m)"
    using p(2,4) by (simp_all add: manifest_invariant_def counted_bytes_def)
  ultimately show ?thesis using p(1,3-5) by blast
qed

end
