(* ===== verification/Checkpoint_Plan.thy ===== *)
theory Checkpoint_Plan
  imports Checkpoint_Facts
begin

text \<open>
  When planning succeeds: a manifest that the builder returned never disagrees with the plan, and a
  primary checkpoint that fits the address space always gets a plan, with a known cache size.
\<close>

section \<open>No disagreement\<close>

definition no_data_loss :: "'a result \<Rightarrow> bool" where
  "no_data_loss r \<longleftrightarrow> (case r of Inl e \<Rightarrow> code e \<noteq> KDataLoss | Inr _ \<Rightarrow> True)"

lemma no_data_loss_simps [simp]: "no_data_loss (Inr v)" "no_data_loss (Inl e) \<longleftrightarrow> code e \<noteq> KDataLoss"
  by (simp_all add: no_data_loss_def)

lemma no_data_loss_rguard [simp]: "no_data_loss (rguard b e) \<longleftrightarrow> b \<or> code e \<noteq> KDataLoss"
  by (simp add: rguard_def)

lemma no_data_loss_rbind: "no_data_loss r \<Longrightarrow> (\<And>v. r = Inr v \<Longrightarrow> no_data_loss (f v)) \<Longrightarrow> no_data_loss (rbind r f)"
  by (cases r) auto

lemma no_data_loss_rfold: "(\<And>a x. no_data_loss (f a x)) \<Longrightarrow> no_data_loss (rfold f a xs)"
  by (induction xs arbitrary: a) (auto intro: no_data_loss_rbind)

lemma no_data_loss_arithmetic [simp]: "no_data_loss (checked_add a b l)" "no_data_loss (checked_multiply xs l)"
  "no_data_loss (align_up v a)"
  by (auto simp: checked_add_def checked_multiply_def align_up_def plan_invalid_def Let_def intro!: no_data_loss_rfold)

lemma no_data_loss_steps [simp]: "no_data_loss (check_options config options)" "no_data_loss (count_layer lg layer)"
  "no_data_loss (add_tensor_bytes ws t)" "no_data_loss (kv_bytes config options layers)"
  "no_data_loss (add_region pc r)"
  by (auto simp: check_options_def count_layer_def add_tensor_bytes_def kv_bytes_def add_region_def plan_invalid_def Let_def
      split: prod.split intro!: no_data_loss_rbind)

lemma no_data_loss_place [simp]: "no_data_loss (place_regions plan wanted)"
  by (auto simp: place_regions_def intro!: no_data_loss_rbind no_data_loss_rfold)

text \<open>
  C39. A manifest that the builder returned, and whose tensors fit 64 bits together, always agrees
  with the plan on the resident bytes: planning it never ends in data loss, whatever the
  configuration and the options.
\<close>

theorem manifest_plan_agrees:
  assumes "build_manifest fs re directory config validate = Inr m"
    and "sum_list (map byte_length (manifest_tensors m)) \<le> u64_max"
  shows "build_memory_plan config' m options \<noteq> Inl (Status KDataLoss msg)"
proof -
  obtain stored where "load_safetensors_directory fs directory = Inr stored" "manifest_invariant m"
    using build_manifest_parts [OF assms(1)] by blast
  then have total: "total_tensor_bytes m = sum_list (map byte_length (manifest_tensors m))"
    using assms(2) by (simp add: manifest_invariant_def counted_bytes_def u64_max_less)
  have fit: "\<forall>t \<in> set (manifest_tensors m). byte_length t \<le> u64_max"
    using assms(2) member_le_sum_list [of _ "map byte_length (manifest_tensors m)"] by fastforce
  have "no_data_loss (build_memory_plan config' m options)"
    unfolding build_memory_plan_def
  proof (intro no_data_loss_rbind)
    fix u layers ws
    assume ws: "rfold add_tensor_bytes (0, 0) (manifest_tensors m) = Inr ws"
    obtain w s where x: "ws = (w, s)" by fastforce
    have "w + s = sum_list (map byte_length (manifest_tensors m))" "s \<le> u64_max"
      using add_tensor_bytes_sum [OF ws [unfolded x] fit] by simp_all
    then show "no_data_loss (case ws of (weights, scales) \<Rightarrow> rbind (checked_add weights scales ''runtime-resident tensor'') (\<lambda>resident.
      rbind (rguard (resident = total_tensor_bytes m)
       (Status KDataLoss ''manifest total byte count disagrees with the runtime-resident tensor inventory'')) (\<lambda>_.
      rbind (kv_bytes config' options layers) (\<lambda>(l, g, s, separate).
       place_regions
         \<lparr>plan_directory = manifest_directory m, plan_profile = profile_name (option_profile options),
          plan_storage = ''separate'', context_tokens = profile_tokens (option_profile options),
          kv_element_bytes = option_element_bytes options, arena_alignment = option_alignment options,
          local_layer_count = fst layers, global_layer_count = snd layers, resident_source_bytes = resident,
          model_weight_bytes = weights, plan_scale_bytes = scales, local_shared_kv_bytes = l, global_shared_kv_bytes = g,
          shared_kv_bytes = s, separate_kv_bytes = separate, selected_kv_bytes = separate, padding_bytes = 0,
          total_arena_bytes = 0, regions = []\<rparr>
         [(''immutable_model_weights'', weights, option_alignment options), (''scales'', scales, option_alignment options),
          (''kv_cache'', separate, option_alignment options)]))))"
      unfolding x prod.case using total by (intro no_data_loss_rbind) (auto split: prod.split)
  qed (auto intro!: no_data_loss_rfold)
  then show ?thesis by (auto simp: no_data_loss_def)
qed

section \<open>A plan exists\<close>

lemma checked_add_fits [simp]: "a + b \<le> u64_max \<Longrightarrow> checked_add a b label = Inr (a + b)"
  by (simp add: checked_add_def)

lemma checked_multiply_fits:
  assumes "prod_list factors \<le> u64_max" "0 \<notin> set factors"
  shows "checked_multiply factors label = Inr (prod_list factors)"
proof -
  have "rfold (\<lambda>result factor. if mul_overflows result factor then Inl e else Inr (result * factor)) a factors =
      Inr (a * prod_list factors)" if "a * prod_list factors \<le> u64_max" "0 \<notin> set factors" for a and e :: status
    using that
  proof (induction factors arbitrary: a)
    case (Cons x xs)
    then have "0 < prod_list xs" using prod_list_zero_iff [of xs] by simp
    then have "a * x \<le> a * prod_list (x # xs)" by simp
    then have "a * x \<le> u64_max" using Cons.prems(1) by (rule order_trans)
    then show ?case using Cons.IH [of "a * x"] Cons.prems by (simp add: mul_overflows_iff mult.assoc)
  qed simp
  from this [of 1] assms show ?thesis by (simp add: checked_multiply_def)
qed

lemma add_tensor_bytes_fits:
  assumes "w + s + sum_list (map byte_length ts) \<le> u64_max"
  shows "\<exists>w' s'. rfold add_tensor_bytes (w, s) ts = Inr (w', s')"
  using assms
proof (induction ts arbitrary: w s)
  case (Cons t ts)
  have "\<exists>w1 s1. add_tensor_bytes (w, s) t = Inr (w1, s1) \<and> w1 + s1 = w + s + byte_length t"
    using Cons.prems by (auto simp: add_tensor_bytes_def)
  with Cons.IH Cons.prems show ?case by fastforce
qed simp

lemma align_up_fits:
  assumes "is_power_of_two a" "v + a \<le> u64_max"
  shows "\<exists>r. align_up v a = Inr r \<and> r < v + a"
proof -
  have "v \<le> u64_max - (a - 1)" using assms(2) by simp
  then obtain r where r: "align_up v a = Inr r" using assms(1) by (auto simp: align_up_def Let_def)
  with align_up_result(3) [OF this] assms(2) show ?thesis by simp
qed

text \<open>Each region costs less than one alignment of padding.\<close>

lemma add_regions_fit:
  assumes "is_power_of_two a" "cursor + sum_list (map snd wanted) + length wanted * a \<le> u64_max"
    and "padding_bytes plan \<le> cursor"
  shows "\<exists>plan' cursor'. rfold add_region (plan, cursor) (map (\<lambda>(n, b). (n, b, a)) wanted) = Inr (plan', cursor') \<and>
    cursor' \<le> cursor + sum_list (map snd wanted) + length wanted * a \<and> padding_bytes plan' \<le> cursor' \<and>
    arena_alignment plan' = arena_alignment plan"
  using assms(2,3)
proof (induction wanted arbitrary: plan cursor)
  case (Cons x wanted)
  obtain n b where x: "x = (n, b)" by fastforce
  have "cursor + a \<le> u64_max" using Cons.prems(1) by (simp add: x)
  then obtain r where r: "align_up cursor a = Inr r" "r < cursor + a" "cursor \<le> r"
    using align_up_fits [OF assms(1)] align_up_result(2) by (metis add_leD2)
  define p where "p = plan\<lparr>padding_bytes := padding_bytes plan + (r - cursor),
      regions := regions plan @ [\<lparr>region_name = n, region_offset = r, region_bytes = b, region_alignment = a\<rparr>]\<rparr>"
  have "r - cursor \<le> u64_max" "padding_bytes plan + (r - cursor) \<le> u64_max" "b \<le> u64_max" "r + b \<le> u64_max"
    using Cons.prems r(2,3) by (simp_all add: x)
  then have s: "add_region (plan, cursor) (n, b, a) = Inr (p, r + b)"
    using r(1) by (simp add: add_region_def p_def)
  have "r + b + sum_list (map snd wanted) + length wanted * a \<le> u64_max" "padding_bytes p \<le> r + b"
    using Cons.prems r(2,3) by (simp_all add: x p_def)
  from Cons.IH [OF this] show ?case using s r(2) by (fastforce simp: x p_def)
qed simp

lemma place_regions_fits:
  assumes "is_power_of_two a" "sum_list (map snd wanted) + Suc (length wanted) * a \<le> u64_max"
    and "padding_bytes plan = 0" "arena_alignment plan = a"
  shows "\<exists>plan'. place_regions plan (map (\<lambda>(n, b). (n, b, a)) wanted) = Inr plan'"
proof -
  obtain p c where p: "rfold add_region (plan, 0) (map (\<lambda>(n, b). (n, b, a)) wanted) = Inr (p, c)"
    "c \<le> sum_list (map snd wanted) + length wanted * a" "padding_bytes p \<le> c" "arena_alignment p = a"
    using add_regions_fit [OF assms(1), of 0 wanted plan] assms(2-4) by auto
  have "c + a \<le> u64_max" using p(2) assms(2) by simp
  then obtain r where r: "align_up c a = Inr r" "r < c + a" "c \<le> r"
    using align_up_fits [OF assms(1)] align_up_result(2) by (metis add_leD2)
  have "r - c \<le> u64_max" "padding_bytes p + (r - c) \<le> u64_max" using r(2,3) p(3) \<open>c + a \<le> u64_max\<close> by simp_all
  then show ?thesis using p(1,4) r(1) assms(4) by (simp add: place_regions_def)
qed

text \<open>What the contract of the primary model fixes.\<close>

lemma primary_config:
  assumes "validate_primary c = Inr ()"
  shows "layer_types c = map layer_pattern [0..<48]" "layer_count c = 48" "sliding_window c = 1024"
    "max_positions c = 262144" "local_kv_heads c = 8" "global_kv_heads c = 1" "local_head_dimension c = 256"
    "global_head_dimension c = 512"
proof -
  have all: "\<forall>(holds, field, expected) \<in> set (primary_checks c). holds"
    using assms by (auto simp: validate_primary_def first_failure_def)
  then show "layer_count c = 48" "sliding_window c = 1024" "max_positions c = 262144" "local_kv_heads c = 8"
    "global_kv_heads c = 1" "local_head_dimension c = 256" "global_head_dimension c = 512"
    by (simp_all add: primary_checks_def)
  from all have "length (layer_types c) = 48" "\<forall>i \<in> set [0..<length (layer_types c)]. layer_types c ! i = layer_pattern i"
    by (simp_all add: primary_checks_def del: set_upt)
  then show "layer_types c = map layer_pattern [0..<48]" by (intro nth_equalityI) simp_all
qed

lemma primary_layers: "rfold count_layer (0, 0) (map layer_pattern [0..<48]) = Inr (40, 8)"
  by code_simp

lemma profile_range: "8192 \<le> profile_tokens p" "profile_tokens p \<le> 262144"
  by (cases p; simp)+

lemma cache_bound: "n \<le> 262144 \<Longrightarrow> 167772160 * eb + 8192 * n * eb \<le> 2315255808 * (eb :: nat)"
proof -
  assume "n \<le> 262144"
  then have "eb * (167772160 + 8192 * n) \<le> eb * 2315255808" by (intro mult_le_mono2) simp
  then show ?thesis by (simp add: algebra_simps)
qed

lemma primary_kv_bytes:
  assumes "validate_primary config = Inr ()" "0 < option_element_bytes options"
    "2315255808 * option_element_bytes options \<le> u64_max"
  shows "kv_bytes config options (40, 8) =
    Inr (83886080 * option_element_bytes options,
      4096 * profile_tokens (option_profile options) * option_element_bytes options,
      83886080 * option_element_bytes options + 4096 * profile_tokens (option_profile options) * option_element_bytes options,
      167772160 * option_element_bytes options + 8192 * profile_tokens (option_profile options) * option_element_bytes options)"
proof -
  define n where "n = profile_tokens (option_profile options)"
  define eb where "eb = option_element_bytes options"
  note n = profile_range [of "option_profile options", folded n_def]
  note eb = assms(2,3) [folded eb_def]
  note cache = cache_bound [OF n(2), of eb]
  have "checked_multiply [40, 1024, 8, 256, eb] l = Inr (83886080 * eb)" for l
    using checked_multiply_fits [of "[40, 1024, 8, 256, eb]" l] eb by simp
  moreover have "checked_multiply [8, n, 1, 512, eb] l = Inr (4096 * n * eb)" for l
  proof -
    have "prod_list [8, n, 1, 512, eb] = 4096 * n * eb" by (simp add: mult_ac)
    moreover have "4096 * n * eb \<le> u64_max" using eb cache by linarith
    ultimately show ?thesis using checked_multiply_fits [of "[8, n, 1, 512, eb]" l] eb n by simp
  qed
  moreover have "checked_multiply [83886080 * eb + 4096 * n * eb, 2] l = Inr (167772160 * eb + 8192 * n * eb)" for l
    using checked_multiply_fits [of "[83886080 * eb + 4096 * n * eb, 2]" l] eb cache by simp
  moreover have "83886080 * eb + 4096 * n * eb \<le> u64_max" using eb cache by linarith
  moreover have "min n 1024 = 1024" using n by simp
  ultimately show ?thesis
    by (simp add: kv_bytes_def primary_config [OF assms(1)] n_def [symmetric] eb_def [symmetric] del: One_nat_def)
qed

lemma primary_plan_built:
  assumes "validate_primary config = Inr ()" "option_storage options = KvSeparate" "0 < option_element_bytes options"
    and "is_power_of_two (option_alignment options)"
    and "total_tensor_bytes m = sum_list (map byte_length (manifest_tensors m))"
    and "total_tensor_bytes m + 2315255808 * option_element_bytes options + 4 * option_alignment options \<le> u64_max"
  shows "\<exists>plan. build_memory_plan config m options = Inr plan \<and> local_layer_count plan = 40 \<and> global_layer_count plan = 8 \<and>
    selected_kv_bytes plan = option_element_bytes options * (167772160 + 8192 * profile_tokens (option_profile options))"
proof -
  note c = primary_config [OF assms(1)]
  define n where "n = profile_tokens (option_profile options)"
  define eb where "eb = option_element_bytes options"
  have eb: "0 < option_element_bytes options" "2315255808 * option_element_bytes options \<le> u64_max"
    using assms(3,6) by simp_all
  note n = profile_range [of "option_profile options", folded n_def]
  have cache: "167772160 * eb + 8192 * n * eb \<le> 2315255808 * eb" using n(2) cache_bound by (simp add: n_def)
  have "check_options config options = Inr ()"
    using assms(2-4) n(2) c by (simp add: check_options_def rguard_def n_def)
  moreover have "rfold count_layer (0, 0) (layer_types config) = Inr (40, 8)" by (simp only: c(1) primary_layers)
  moreover obtain w s where ws: "rfold add_tensor_bytes (0, 0) (manifest_tensors m) = Inr (w, s)"
    using add_tensor_bytes_fits [of 0 0 "manifest_tensors m"] assms(5,6) by auto
  moreover have sum: "w + s = total_tensor_bytes m"
    using add_tensor_bytes_sum [OF ws] member_le_sum_list [of _ "map byte_length (manifest_tensors m)"] assms(5,6)
    by fastforce
  moreover have "w + s \<le> u64_max" using sum assms(6) by simp
  moreover note primary_kv_bytes [OF assms(1) eb]
  ultimately have b: "build_memory_plan config m options = place_regions
      \<lparr>plan_directory = manifest_directory m, plan_profile = profile_name (option_profile options),
       plan_storage = ''separate'', context_tokens = n, kv_element_bytes = eb, arena_alignment = option_alignment options,
       local_layer_count = 40, global_layer_count = 8, resident_source_bytes = w + s, model_weight_bytes = w,
       plan_scale_bytes = s, local_shared_kv_bytes = 83886080 * eb, global_shared_kv_bytes = 4096 * n * eb,
       shared_kv_bytes = 83886080 * eb + 4096 * n * eb, separate_kv_bytes = 167772160 * eb + 8192 * n * eb,
       selected_kv_bytes = 167772160 * eb + 8192 * n * eb, padding_bytes = 0, total_arena_bytes = 0, regions = []\<rparr>
      (map (\<lambda>(n, b). (n, b, option_alignment options))
        [(''immutable_model_weights'', w), (''scales'', s), (''kv_cache'', 167772160 * eb + 8192 * n * eb)])"
    (is "_ = place_regions ?start (map _ ?wanted)")
    by (simp add: build_memory_plan_def rguard_def n_def [symmetric] eb_def [symmetric])
  have fits: "w + s + (167772160 * eb + 8192 * n * eb) + 4 * option_alignment options \<le> u64_max"
    using sum cache assms(6) unfolding eb_def by linarith
  have "sum_list (map snd ?wanted) + Suc (length ?wanted) * option_alignment options \<le> u64_max"
    using fits by simp
  then obtain plan where p: "place_regions ?start (map (\<lambda>(n, b). (n, b, option_alignment options)) ?wanted) = Inr plan"
    using place_regions_fits [OF assms(4), of ?wanted ?start] by auto
  have "\<forall>(name, bytes, alignment) \<in> set (map (\<lambda>(n, b). (n, b, option_alignment options)) ?wanted).
      bytes \<le> u64_max \<and> alignment \<le> u64_max" using fits by simp
  from place_regions_result(2) [OF p _ _ _ this] assms(6)
  have "plan = ?start\<lparr>padding_bytes := padding_bytes plan, total_arena_bytes := total_arena_bytes plan, regions := regions plan\<rparr>"
    by simp
  then have "local_layer_count plan = 40" "global_layer_count plan = 8"
    "selected_kv_bytes plan = 167772160 * eb + 8192 * n * eb" by (metis memory_plan.simps)+
  then show ?thesis using b p by (simp add: eb_def n_def algebra_simps)
qed

text \<open>
  C40. For a configuration that meets the primary contract and a manifest whose total is right,
  planning with separate storage, a positive element width and a power-of-two alignment always
  succeeds while the tensors, the largest cache and four alignments fit 64 bits; and the plan has 40
  local and 8 global layers and a cache of 167772160 + 8192 per context token elements.
\<close>

theorem primary_plan_exists:
  assumes "validate_primary config = Inr ()" "option_storage options = KvSeparate" "0 < option_element_bytes options"
    and "is_power_of_two (option_alignment options)"
    and "total_tensor_bytes m = sum_list (map byte_length (manifest_tensors m))"
    and "total_tensor_bytes m + 2315255808 * option_element_bytes options + 4 * option_alignment options \<le> u64_max"
  shows "\<exists>plan. build_memory_plan config m options = Inr plan \<and> local_layer_count plan = 40 \<and> global_layer_count plan = 8 \<and>
    selected_kv_bytes plan = option_element_bytes options * (167772160 + 8192 * profile_tokens (option_profile options))"
  using assms by (rule primary_plan_built)

section \<open>An example\<close>

lemma small_double: "\<exists>m e. strtod ''1.0e-6'' = Finite False m e"
proof -
  have "read_decimal ''1.0e-6'' = \<lparr>negative = False, significand = 10, exponent10 = - 7\<rparr>" by code_simp
  then show ?thesis
    by (simp add: strtod_def double_of_token_def round_ratio_def binary_exponent_def bit_length.simps scaled_def Let_def round_div_def)
qed

lemma softcap_double: "\<exists>m e. strtod ''30.0'' = Finite False m e"
proof -
  have "read_decimal ''30.0'' = \<lparr>negative = False, significand = 300, exponent10 = - 1\<rparr>" by code_simp
  then show ?thesis
    by (simp add: strtod_def double_of_token_def round_ratio_def binary_exponent_def bit_length.simps scaled_def Let_def round_div_def)
qed

lemma round_ratio_positive: "\<not> double_less (round_ratio False n d) (Finite False 0 e)"
  unfolding round_ratio_def by (auto simp: Let_def not_less split: prod.split)

lemma differs_self:
  assumes "strtod a = Finite s m e" "negative (read_decimal t) = False"
  shows "\<not> differs_by_more (strtod a) a t"
  using assms by (simp add: differs_by_more_def Let_def round_ratio_def)
    (simp add: strtod_def double_of_token_def round_ratio_positive)

lemma close_doubles: "\<not> differs_by_more (strtod ''1.0e-6'') ''1.0e-6'' ''1.0e-12''"
  "\<not> differs_by_more (strtod ''30.0'') ''30.0'' ''1e-12''"
proof -
  have n: "negative (read_decimal ''1.0e-12'') = False" "negative (read_decimal ''1e-12'') = False" by code_simp+
  from small_double differs_self [OF _ n(1)] show "\<not> differs_by_more (strtod ''1.0e-6'') ''1.0e-6'' ''1.0e-12''" by blast
  from softcap_double differs_self [OF _ n(2)] show "\<not> differs_by_more (strtod ''30.0'') ''30.0'' ''1e-12''" by blast
qed

definition sample_config :: model_config where
  "sample_config = (base_config (JObject []))\<lparr>architecture := ''Gemma4UnifiedForConditionalGeneration'',
     model_type := ''gemma4_unified'', text_model_type := ''gemma4_unified_text'', quant_method := ''compressed-tensors'',
     quant_format := ''mixed-precision'', hidden_size := 3840, intermediate_size := 15360, layer_count := 48,
     vocabulary_size := 262144, max_positions := 262144, sliding_window := 1024, query_heads := 16, local_kv_heads := 8,
     global_kv_heads := 1, local_head_dimension := 256, global_head_dimension := 512, audio_embedding_dimension := 640,
     audio_token_id := 258881, begin_audio_token_id := 256000, end_audio_token_id := 258883,
     vision_embedding_dimension := 3840, vision_position_count := 1120, vision_soft_token_count := 280,
     vision_patch_size := 16, vision_pooling_kernel_size := 3, image_token_id := 258880, begin_image_token_id := 255999,
     end_image_token_id := 258882, attention_k_eq_v := True, tied_embeddings := True,
     final_logit_softcap := strtod ''30.0'', audio_rms_norm_epsilon := strtod ''1.0e-6'',
     vision_rms_norm_epsilon := strtod ''1.0e-6'', layer_types := map layer_pattern [0..<48]\<rparr>"

lemma sample_config_primary: "validate_primary sample_config = Inr ()"
  using close_doubles by (simp add: rguard_def validate_primary_def first_failure_def primary_checks_def sample_config_def del: upt_rec_numeral map_eq_conv)

definition sample_info :: tensor_info where
  "sample_info = stored_info sample_config sample_tensor"

definition sample_manifest :: model_manifest where
  "sample_manifest = record_tensor \<lparr>manifest_directory = ''m'', manifest_architecture = ''a'', manifest_model_type = ''t'',
     manifest_tensors = [], manifest_totals = [], total_tensor_bytes = 0, text_only_tensor_bytes = 0,
     skipped_tensor_bytes = 0\<rparr> sample_info"

definition sample_options :: plan_options where
  "sample_options = \<lparr>option_profile = Interactive, option_storage = KvSeparate, option_element_bytes = 2,
     option_alignment = 256\<rparr>"

lemma sample_manifest_totals: "total_tensor_bytes sample_manifest = 4" "map byte_length (manifest_tensors sample_manifest) = [4]"
  by (simp_all add: sample_manifest_def record_tensor_def sample_info_def stored_info_def sample_tensor_def)

lemma sample_alignment: "is_power_of_two (option_alignment sample_options)"
  by (simp add: is_power_of_two_def sample_options_def)

lemma sample_lengths: "lengths_fit sample_manifest"
  by (simp add: lengths_fit_def sample_manifest_def record_tensor_def sample_info_def stored_info_def sample_tensor_def u64_max_def)

lemma sample_options_fields: "option_storage sample_options = KvSeparate" "option_element_bytes sample_options = 2"
  "option_alignment sample_options = 256" "option_profile sample_options = Interactive"
  by (simp_all add: sample_options_def)

lemma sample_fits: "total_tensor_bytes sample_manifest + 2315255808 * option_element_bytes sample_options +
    4 * option_alignment sample_options \<le> u64_max"
  by (simp add: sample_manifest_totals sample_options_fields u64_max_def)

lemma sample_plan: "\<exists>plan. build_memory_plan sample_config sample_manifest sample_options = Inr plan"
  using primary_plan_built [OF sample_config_primary _ _ sample_alignment _ sample_fits]
  by (simp add: sample_manifest_totals sample_options_fields) blast

theorem primary_plan_exists_witness:
  "\<exists>plan. build_memory_plan sample_config sample_manifest sample_options = Inr plan \<and>
     selected_kv_bytes plan = 2 * (167772160 + 8192 * 8192)"
  using primary_plan_exists [OF sample_config_primary _ _ sample_alignment _ sample_fits]
  by (simp add: sample_manifest_totals sample_options_fields) blast

theorem memory_plan_regions_witness:
  "\<exists>plan :: memory_plan. map region_name (regions plan) = [''immutable_model_weights'', ''scales'', ''kv_cache''] \<and>
     total_arena_bytes plan = 4 + selected_kv_bytes plan + padding_bytes plan"
proof -
  obtain plan where p: "build_memory_plan sample_config sample_manifest sample_options = Inr plan" using sample_plan ..
  have "option_alignment sample_options \<le> u64_max" by (simp add: sample_options_fields u64_max_def)
  note r = memory_plan_regions [OF p this sample_lengths]
  then have "map fst (map (\<lambda>r. (region_name r, region_bytes r)) (regions plan)) =
      [''immutable_model_weights'', ''scales'', ''kv_cache'']" by simp
  then have "map region_name (regions plan) = [''immutable_model_weights'', ''scales'', ''kv_cache'']"
    by (simp add: comp_def)
  moreover have "total_arena_bytes plan = 4 + selected_kv_bytes plan + padding_bytes plan"
    using r by (simp add: sample_manifest_totals)
  ultimately show ?thesis by (intro exI [where x = plan] conjI)
qed

definition sample_engine :: regex_engine where
  "sample_engine = \<lparr>regex_error = (\<lambda>_. None), regex_match = (=)\<rparr>"

definition sample_built :: model_manifest where
  "sample_built = record_tensor \<lparr>manifest_directory = ''m'', manifest_architecture = [], manifest_model_type = [],
     manifest_tensors = [], manifest_totals = [], total_tensor_bytes = 0, text_only_tensor_bytes = 0,
     skipped_tensor_bytes = 0\<rparr> ((stored_info (base_config (JObject [])) sample_tensor)\<lparr>quantization_class := ''BF16''\<rparr>)"

lemma manifest_builds: "build_manifest sample_fs sample_engine ''m'' (base_config (JObject [])) True = Inr sample_built"
proof -
  have "tensor_module ''a'' = ''a''" "starts_with ''a'' layer_prefix = False" "primary_layer_names (base_config (JObject [])) = []"
    "tied_embeddings (base_config (JObject [])) = False" "is_assistant_model (base_config (JObject [])) = False"
    "architecture (base_config (JObject [])) = []" "model_type (base_config (JObject [])) = []"
    "quantization_rules (base_config (JObject [])) = []" by code_simp+
  then show ?thesis
    by (simp add: build_manifest_def sample_directory compile_rules_def manifest_step_def match_rule_def classify_def
        storage_class_def stored_info_def sample_tensor_def sample_built_def check_tensor_def
        validate_primary_inventory_def Let_def)
qed

theorem manifest_complete_witness:
  "map info_name (manifest_tensors sample_built) = [''a''] \<and> total_tensor_bytes sample_built = 4 mod 2 ^ 64"
  using manifest_complete [OF manifest_builds] by (simp add: sample_directory sample_tensor_def)

theorem manifest_plan_agrees_witness:
  "build_memory_plan sample_config sample_built sample_options \<noteq> Inl (Status KDataLoss ''x'')"
proof -
  have "sum_list (map byte_length (manifest_tensors sample_built)) \<le> u64_max"
    by (simp add: sample_built_def record_tensor_def stored_info_def sample_tensor_def u64_max_def)
  from manifest_plan_agrees [OF manifest_builds this] show ?thesis .
qed

end
