(* ===== verification/Response_Channel.thy ===== *)
theory Response_Channel
  imports Prelude
begin

text \<open>
  \<open>ResponseChannelTracker\<close> (include/gem16/tokenizer.h, src/model/tokenizer.cpp): the recogniser of the
  thinking channel in the generated tokens, and the two extractions of src/runtime/chat.cpp.
\<close>

section \<open>The tracker\<close>

datatype response_channel = ControlChannel | ReasoningChannel | TextChannel

record channel_tracker =
  open_tokens :: "nat list"
  close_token :: nat
  open_match :: nat
  reasoning_count :: "64 word"
  in_reasoning :: bool
  reasoning_done :: bool
  suppressing :: bool

definition new_tracker :: "nat list \<Rightarrow> nat \<Rightarrow> bool \<Rightarrow> channel_tracker" where
  "new_tracker opening closing starts = \<lparr>open_tokens = opening, close_token = closing, open_match = 0,
     reasoning_count = 0, in_reasoning = starts, reasoning_done = False, suppressing = False\<rparr>"

definition observe_reasoning :: "channel_tracker \<Rightarrow> nat \<Rightarrow> channel_tracker \<times> response_channel" where
  "observe_reasoning t token =
     (if token = close_token t
      then (t\<lparr>in_reasoning := False, reasoning_done := True\<rparr>, ControlChannel)
      else (t\<lparr>reasoning_count := reasoning_count t + 1\<rparr>, ReasoningChannel))"

definition observe_opening :: "channel_tracker \<Rightarrow> nat \<Rightarrow> channel_tracker \<times> response_channel" where
  "observe_opening t token =
     (if token = open_tokens t ! open_match t
      then
        (if open_match t + 1 = length (open_tokens t)
         then (if reasoning_done t then t\<lparr>open_match := 0, suppressing := True\<rparr>
               else t\<lparr>open_match := 0, in_reasoning := True\<rparr>)
         else t\<lparr>open_match := open_match t + 1\<rparr>, ControlChannel)
      else if token = hd (open_tokens t) then (t\<lparr>open_match := 1\<rparr>, ControlChannel)
      else (t\<lparr>open_match := 0\<rparr>, TextChannel))"

definition observe :: "channel_tracker \<Rightarrow> nat \<Rightarrow> channel_tracker \<times> response_channel" where
  "observe t token =
     (if in_reasoning t then observe_reasoning t token
      else if suppressing t
      then (if token = close_token t then t\<lparr>suppressing := False\<rparr> else t, ControlChannel)
      else if token = close_token t then (t\<lparr>open_match := 0\<rparr>, ControlChannel)
      else if open_tokens t = [] then (t, TextChannel)
      else observe_opening t token)"

fun channels :: "channel_tracker \<Rightarrow> nat list \<Rightarrow> response_channel list" where
  "channels t [] = []"
| "channels t (x # xs) = (case observe t x of (t', c) \<Rightarrow> c # channels t' xs)"

fun observe_all :: "channel_tracker \<Rightarrow> nat list \<Rightarrow> channel_tracker" where
  "observe_all t [] = t"
| "observe_all t (x # xs) = observe_all (fst (observe t x)) xs"

definition tokens_of :: "response_channel \<Rightarrow> channel_tracker \<Rightarrow> nat list \<Rightarrow> nat list" where
  "tokens_of c t xs = map fst (filter (\<lambda>(x, d). d = c) (zip xs (channels t xs)))"

definition extract_reasoning :: "nat list \<Rightarrow> nat list \<Rightarrow> nat \<Rightarrow> bool \<Rightarrow> nat list" where
  "extract_reasoning xs opening closing starts = tokens_of ReasoningChannel (new_tracker opening closing starts) xs"

definition extract_visible :: "nat list \<Rightarrow> nat list \<Rightarrow> nat \<Rightarrow> bool \<Rightarrow> nat list" where
  "extract_visible xs opening closing starts = tokens_of TextChannel (new_tracker opening closing starts) xs"

end
