(* ===== verification/Mtp_Scheduler.thy ===== *)
theory Mtp_Scheduler
  imports Binary64
begin

text \<open>
  \<open>AdaptiveMtpScheduler\<close> (src/cuda/mtp/scheduler.h): how many tokens the assistant model drafts for the
  next verification group.  A \<open>float\<close> that is not negative is a pair of a significand and an
  exponent of two; conversions and the quotient round to 24 bits, ties to even.
\<close>

section \<open>Single precision\<close>

type_synonym float32 = "nat \<times> int"

definition float_ratio :: "nat \<Rightarrow> nat \<Rightarrow> float32" where
  "float_ratio num den =
     (if num = 0 then (0, 0)
      else
        let e0 = int (bit_length num) - int (bit_length den) - 24;
            (n0, d0) = scaled e0 num den;
            e = (if 2 ^ 24 \<le> n0 div d0 then e0 + 1 else e0);
            (n, d) = scaled e num den
        in (round_div n d, e))"

definition float_quotient :: "float32 \<Rightarrow> float32 \<Rightarrow> float32" where
  "float_quotient x y =
     (case float_ratio (fst x) (fst y) of (m, e) \<Rightarrow> (m, e + snd x - snd y))"

definition float_less :: "float32 \<Rightarrow> float32 \<Rightarrow> bool" where
  "float_less x y \<longleftrightarrow>
     fst x * 2 ^ nat (snd x - min (snd x) (snd y)) < fst y * 2 ^ nat (snd y - min (snd x) (snd y))"

section \<open>The scheduler\<close>

record mtp_scheduler =
  maximum_drafts :: nat
  active_drafts :: nat
  window_groups :: nat
  window_accepted :: nat
  fallback_remaining :: nat
  scheduler_enabled :: bool

definition new_scheduler :: "nat \<Rightarrow> nat \<Rightarrow> bool \<Rightarrow> mtp_scheduler" where
  "new_scheduler maximum position on =
     \<lparr>maximum_drafts = maximum, active_drafts = (if on \<and> maximum = 4 \<and> 2048 < position then 2 else maximum),
      window_groups = 0, window_accepted = 0, fallback_remaining = 0, scheduler_enabled = on\<rparr>"

definition use_ordinary_fallback :: "mtp_scheduler \<Rightarrow> bool" where
  "use_ordinary_fallback s \<longleftrightarrow> scheduler_enabled s \<and> fallback_remaining s \<noteq> 0"

definition consume_fallback :: "mtp_scheduler \<Rightarrow> mtp_scheduler" where
  "consume_fallback s =
     (if fallback_remaining s \<noteq> 0 then s\<lparr>fallback_remaining := fallback_remaining s - 1\<rparr> else s)"

text \<open>The decision at the end of a window, from the mean number of accepted tokens of a group.\<close>

definition close_window :: "mtp_scheduler \<Rightarrow> nat \<Rightarrow> float32 \<Rightarrow> mtp_scheduler" where
  "close_window s position mean =
     (if active_drafts s = 4 \<and> (2048 < position \<or> float_less mean (float_ratio 125 100))
      then s\<lparr>active_drafts := 2\<rparr>
      else if active_drafts s = 2 \<and> float_less mean (float_ratio 65 100)
      then s\<lparr>active_drafts := 1\<rparr>
      else if active_drafts s = 1 \<and> float_less mean (float_ratio 40 100)
      then s\<lparr>fallback_remaining := 16\<rparr>
      else if active_drafts s = 1 \<and> 2 \<le> maximum_drafts s \<and> \<not> float_less mean (float_ratio 70 100)
      then s\<lparr>active_drafts := 2\<rparr>
      else if active_drafts s = 2 \<and> maximum_drafts s = 4 \<and> position \<le> 2048 \<and> \<not> float_less mean (float_ratio 160 100)
      then s\<lparr>active_drafts := 4\<rparr>
      else s)"

definition observe_group :: "mtp_scheduler \<Rightarrow> nat \<Rightarrow> nat \<Rightarrow> mtp_scheduler" where
  "observe_group s position accepted =
     (if \<not> scheduler_enabled s then s
      else
        let t = s\<lparr>window_groups := (window_groups s + 1) mod 2 ^ 32,
                  window_accepted := (window_accepted s + accepted) mod 2 ^ 32\<rparr>
        in if window_groups t < 16 then t
           else (close_window t position
                   (float_quotient (float_ratio (window_accepted t) 1) (float_ratio (window_groups t) 1)))
                \<lparr>window_groups := 0, window_accepted := 0\<rparr>)"

end
