(* ===== verification/Channel_Facts.thy ===== *)
theory Channel_Facts
  imports Response_Channel Mtp_Scheduler Transitions
begin

text \<open>
  The thinking channel is one block of the generated tokens, and the draft scheduler keeps its bounds
  whatever groups it is told of.
\<close>

section \<open>The thinking channel\<close>

lemma channels_length [simp]: "length (channels t xs) = length xs"
  by (induction xs arbitrary: t) (auto split: prod.splits)

lemma tokens_of_Nil [simp]: "tokens_of c t [] = []"
  by (simp add: tokens_of_def)

lemma tokens_of_Cons:
  "tokens_of c t (x # xs) =
     (if snd (observe t x) = c then x # tokens_of c (fst (observe t x)) xs else tokens_of c (fst (observe t x)) xs)"
  by (cases "observe t x") (simp add: tokens_of_def)

lemma close_token_observe [simp]: "close_token (fst (observe t x)) = close_token t"
  by (simp add: observe_def observe_reasoning_def observe_opening_def)

text \<open>After its end the channel does not open again.\<close>

lemma no_reasoning_after:
  "reasoning_done t \<Longrightarrow> \<not> in_reasoning t \<Longrightarrow> tokens_of ReasoningChannel t xs = []"
proof (induction xs arbitrary: t)
  case (Cons x xs)
  from Cons.prems have "reasoning_done (fst (observe t x))" "\<not> in_reasoning (fst (observe t x))" "snd (observe t x) \<noteq> ReasoningChannel"
    by (simp_all add: observe_def observe_opening_def)
  then show ?case using Cons.IH by (simp add: tokens_of_Cons)
qed simp

lemma reasoning_until_close:
  "in_reasoning t \<Longrightarrow> tokens_of ReasoningChannel t xs = takeWhile (\<lambda>x. x \<noteq> close_token t) xs"
proof (induction xs arbitrary: t)
  case (Cons x xs)
  show ?case
  proof (cases "x = close_token t")
    case True
    with Cons.prems have "reasoning_done (fst (observe t x))" "\<not> in_reasoning (fst (observe t x))" "snd (observe t x) \<noteq> ReasoningChannel"
      by (simp_all add: observe_def observe_reasoning_def)
    then show ?thesis using True no_reasoning_after by (simp add: tokens_of_Cons)
  next
    case False
    with Cons.prems have "in_reasoning (fst (observe t x))" "snd (observe t x) = ReasoningChannel"
      by (simp_all add: observe_def observe_reasoning_def)
    then show ?thesis using False Cons.IH by (simp add: tokens_of_Cons)
  qed
qed simp

lemma takeWhile_block:
  "\<exists>post. xs = takeWhile (\<lambda>x. x \<noteq> z) xs @ post \<and> (post = [] \<or> hd post = z) \<and> z \<notin> set (takeWhile (\<lambda>x. x \<noteq> z) xs)"
  by (rule exI [of _ "dropWhile (\<lambda>x. x \<noteq> z) xs"]) (auto simp: dropWhile_eq_Nil_conv hd_dropWhile dest: set_takeWhileD
      intro: hd_dropWhile [of "\<lambda>x. x \<noteq> z", simplified])

lemma reasoning_block:
  "\<exists>pre post. xs = pre @ tokens_of ReasoningChannel t xs @ post \<and> (post = [] \<or> hd post = close_token t) \<and>
     close_token t \<notin> set (tokens_of ReasoningChannel t xs)"
proof (induction xs arbitrary: t)
  case (Cons x xs)
  show ?case
  proof (cases "in_reasoning t")
    case True
    show ?thesis unfolding reasoning_until_close [OF True]
      using takeWhile_block [of "x # xs" "close_token t"] by (metis append_Nil)
  next
    case False
    then have "snd (observe t x) \<noteq> ReasoningChannel" by (simp add: observe_def observe_opening_def)
    moreover obtain pre post where "xs = pre @ tokens_of ReasoningChannel (fst (observe t x)) xs @ post"
      "post = [] \<or> hd post = close_token t" "close_token t \<notin> set (tokens_of ReasoningChannel (fst (observe t x)) xs)"
      using Cons.IH [of "fst (observe t x)"] by auto
    ultimately show ?thesis by (intro exI [of _ "x # pre"] exI [of _ post]) (simp add: tokens_of_Cons)
  qed
qed simp

lemma text_not_close: "close_token t \<notin> set (tokens_of TextChannel t xs)"
proof (induction xs arbitrary: t)
  case (Cons x xs)
  have "snd (observe t x) = TextChannel \<Longrightarrow> x \<noteq> close_token t"
    by (auto simp: observe_def observe_reasoning_def split: if_splits)
  then show ?case using Cons.IH [of "fst (observe t x)"] by (auto simp: tokens_of_Cons)
qed simp

lemma observe_all_count:
  "reasoning_count (observe_all t xs) = reasoning_count t + of_nat (length (tokens_of ReasoningChannel t xs))"
proof (induction xs arbitrary: t)
  case (Cons x xs)
  have "reasoning_count (fst (observe t x)) = reasoning_count t + (if snd (observe t x) = ReasoningChannel then 1 else 0)"
    by (simp add: observe_def observe_reasoning_def observe_opening_def)
  then show ?case using Cons.IH [of "fst (observe t x)"] by (simp add: tokens_of_Cons)
qed simp

text \<open>
  C5. The reasoning of a response is one block of its tokens, ended by the closing token or by the end of
  the response; when the prompt already opened the channel it is everything up to the closing token.
  The closing token is neither reasoning nor visible text, and the count the tracker keeps is the length
  of the block (modulo 2^64), so counting while generating and extracting afterwards agree.
\<close>

theorem thinking_is_one_block:
  "(\<exists>pre post. xs = pre @ extract_reasoning xs opening close starts @ post \<and> (post = [] \<or> hd post = close)) \<and>
   close \<notin> set (extract_reasoning xs opening close starts) \<and> close \<notin> set (extract_visible xs opening close starts) \<and>
   extract_reasoning xs opening close True = takeWhile (\<lambda>x. x \<noteq> close) xs \<and>
   unat (reasoning_count (observe_all (new_tracker opening close starts) xs)) =
     length (extract_reasoning xs opening close starts) mod 2 ^ 64"
proof (intro conjI)
  let ?t = "new_tracker opening close"
  have t: "close_token (?t b) = close" "in_reasoning (?t b) = b" "reasoning_count (?t b) = 0" for b by (simp_all add: new_tracker_def)
  show "\<exists>pre post. xs = pre @ extract_reasoning xs opening close starts @ post \<and> (post = [] \<or> hd post = close)"
    "close \<notin> set (extract_reasoning xs opening close starts)"
    using reasoning_block [of xs "?t starts"] unfolding extract_reasoning_def t(1) by blast+
  show "close \<notin> set (extract_visible xs opening close starts)"
    using text_not_close [of "?t starts" xs] by (simp add: t extract_visible_def)
  show "extract_reasoning xs opening close True = takeWhile (\<lambda>x. x \<noteq> close) xs"
    using reasoning_until_close [of "?t True" xs] by (simp add: t extract_reasoning_def)
  show "unat (reasoning_count (observe_all (?t starts) xs)) = length (extract_reasoning xs opening close starts) mod 2 ^ 64"
    using observe_all_count [of "?t starts" xs] by (simp add: t extract_reasoning_def unat_of_nat)
qed

section \<open>The draft scheduler\<close>

definition new_schedule :: "mtp_scheduler \<Rightarrow> bool" where
  "new_schedule s \<longleftrightarrow> (\<exists>maximum \<in> {1, 2, 4}. \<exists>start on. s = new_scheduler maximum start on)"

inductive schedule_step :: "mtp_scheduler \<Rightarrow> mtp_scheduler \<Rightarrow> bool" where
  group: "accepted \<le> active_drafts s \<Longrightarrow> schedule_step s (observe_group s start accepted)"
| fallback: "use_ordinary_fallback s \<Longrightarrow> schedule_step s (consume_fallback s)"

text \<open>The window never holds more than it could accept, so its 32-bit counters do not wrap around.\<close>

definition schedule_ok :: "mtp_scheduler \<Rightarrow> bool" where
  "schedule_ok s \<longleftrightarrow> active_drafts s \<in> {1, 2, 4} \<and> maximum_drafts s \<in> {1, 2, 4} \<and> active_drafts s \<le> maximum_drafts s \<and>
     window_groups s < 16 \<and> window_accepted s \<le> active_drafts s * window_groups s \<and> fallback_remaining s \<le> 16 \<and>
     (\<not> scheduler_enabled s \<longrightarrow> active_drafts s = maximum_drafts s \<and> fallback_remaining s = 0)"

lemma close_window_same [simp]:
  "maximum_drafts (close_window s start mean) = maximum_drafts s" "scheduler_enabled (close_window s start mean) = scheduler_enabled s"
  by (simp_all add: close_window_def)

lemma close_window_active:
  "active_drafts s \<in> {1, 2, 4} \<Longrightarrow> active_drafts (close_window s start mean) \<in> {1, 2, 4}"
  "maximum_drafts s \<in> {1, 2, 4} \<Longrightarrow> active_drafts s \<le> maximum_drafts s \<Longrightarrow>
     active_drafts (close_window s start mean) \<le> maximum_drafts s"
  by (simp_all add: close_window_def)

lemma close_window_fallback: "fallback_remaining s \<le> 16 \<Longrightarrow> fallback_remaining (close_window s start mean) \<le> 16"
  by (simp add: close_window_def)

lemma close_window_ok:
  assumes "schedule_ok s" "scheduler_enabled s"
  shows "schedule_ok ((close_window (s\<lparr>window_groups := g, window_accepted := a\<rparr>) start mean)\<lparr>window_groups := 0, window_accepted := 0\<rparr>)"
  using assms close_window_active [of "s\<lparr>window_groups := g, window_accepted := a\<rparr>"]
    close_window_fallback [of "s\<lparr>window_groups := g, window_accepted := a\<rparr>"]
  unfolding schedule_ok_def by simp

lemma observe_group_ok:
  assumes "schedule_ok s" "accepted \<le> active_drafts s"
  shows "schedule_ok (observe_group s start accepted)"
proof (cases "scheduler_enabled s")
  case True
  have groups: "(window_groups s + 1) mod 2 ^ 32 = window_groups s + 1" using assms(1) by (simp add: schedule_ok_def)
  have bound: "window_accepted s + accepted \<le> active_drafts s * (window_groups s + 1)"
    using assms by (simp add: schedule_ok_def algebra_simps)
  have "active_drafts s * (window_groups s + 1) \<le> 4 * 16" using assms(1) by (intro mult_le_mono) (auto simp: schedule_ok_def)
  with bound have accepted: "(window_accepted s + accepted) mod 2 ^ 32 = window_accepted s + accepted" by simp
  show ?thesis
  proof (cases "window_groups s + 1 < 16")
    case True
    then show ?thesis using assms(1) bound \<open>scheduler_enabled s\<close>
      unfolding observe_group_def Let_def groups accepted by (simp add: schedule_ok_def)
  next
    case False
    then show ?thesis using close_window_ok [OF assms(1)] \<open>scheduler_enabled s\<close>
      unfolding observe_group_def Let_def groups accepted by simp
  qed
qed (use assms in \<open>simp add: observe_group_def\<close>)

interpretation scheduler: invariant_machine new_schedule schedule_step schedule_ok
proof
  show "schedule_ok s" if "new_schedule s" for s
    using that by (auto simp: new_schedule_def new_scheduler_def schedule_ok_def split: if_splits)
  show "schedule_ok t" if "schedule_ok s" "schedule_step s t" for s t
    using that(2,1) by cases (auto simp: observe_group_ok, auto simp: schedule_ok_def consume_fallback_def use_ordinary_fallback_def)
qed

text \<open>
  C6. Whatever groups the adaptive scheduler is told of, it asks for one, two or four drafts and never for more
  than the session allows, falls back to single tokens for at most 16 of them, and closes its window
  after 16 groups; switched off, it always asks for the maximum.
\<close>

theorem scheduler_bounds:
  assumes "reachable new_schedule schedule_step s"
  shows "active_drafts s \<in> {1, 2, 4} \<and> active_drafts s \<le> maximum_drafts s \<and> fallback_remaining s \<le> 16 \<and> window_groups s < 16 \<and>
    (\<not> scheduler_enabled s \<longrightarrow> active_drafts s = maximum_drafts s \<and> \<not> use_ordinary_fallback s)"
  using scheduler.reachable_inv [OF assms] by (simp add: schedule_ok_def use_ordinary_fallback_def)

theorem scheduler_bounds_witness:
  "active_drafts (observe_group (new_scheduler 4 0 True) 7 3) \<in> {1, 2, 4}"
proof -
  have "new_schedule (new_scheduler 4 0 True)" by (auto simp: new_schedule_def)
  moreover have "schedule_step (new_scheduler 4 0 True) (observe_group (new_scheduler 4 0 True) 7 3)"
    by (rule schedule_step.group) (simp add: new_scheduler_def)
  ultimately have "reachable new_schedule schedule_step (observe_group (new_scheduler 4 0 True) 7 3)"
    by (rule reachable.next_state [OF reachable.start])
  from scheduler_bounds [OF this] show ?thesis by simp
qed

end
