(* ===== verification/Inference_Session.thy ===== *)
theory Inference_Session
  imports Chat_Types Response_Channel Mtp_Scheduler
begin

text \<open>
  \<open>ConversationSession\<close> (src/cuda/inference_session.cuh): the checks of a turn, the prefill of the new
  part of the prompt, and the loops that generate tokens, with and without speculative drafts.

  The engine is CUDA code; it is a parameter, a record of the operations that the session calls.
  An operation gets the state of the engine and returns the new one.  The caller's token observer
  is an optional function on its context.  The four timing fields of the result, and the call of a
  moved-from object, are not modelled.
\<close>

section \<open>The engine as the session sees it\<close>

record audio_segment =
  audio_offset :: nat
  audio_frames :: "32 word list"

record vision_segment =
  vision_offset :: nat
  vision_patches :: "32 word list"
  vision_positions :: "int list"

record reasoning_options =
  channel_open_ids :: "nat list"
  channel_close_id :: nat
  max_reasoning :: "64 word"
  reasoning_on :: bool
  starts_reasoning :: bool

text \<open>What \<open>PrepareMtpDeviceControl\<close> gets; \<open>None\<close> is its default reasoning state.\<close>

record device_reasoning =
  device_started :: bool
  device_complete :: bool
  device_in_reasoning :: bool
  device_open_match :: nat
  device_count :: "64 word"

record device_control =
  control_token :: nat
  control_position :: nat
  control_remaining :: nat
  control_written :: nat
  control_stopped :: bool
  control_stop_token :: nat
  control_reasoning :: "(reasoning_options \<times> device_reasoning) option"

record mtp_group =
  group_proposed :: "nat list"
  group_verified :: "nat list"
  group_accepted :: nat
  group_outputs :: nat

record mtp_chain =
  chain_outputs :: "nat list"
  chain_proposals :: "nat list"
  chain_accepted :: "64 word"
  chain_rejected :: "64 word"
  chain_groups :: "64 word"
  chain_tail :: "64 word"
  chain_reasoning_ordinary :: "64 word"
  chain_reasoning_count :: "64 word"
  chain_stopped :: bool
  chain_stop_token :: nat
  chain_complete :: bool
  chain_forced :: bool

type_synonym 'c observer = "'c \<Rightarrow> nat \<Rightarrow> 'c \<times> unit result"

record ('e, 'c) engine_ops =
  prefill_at :: "'e \<Rightarrow> nat list \<Rightarrow> nat \<Rightarrow> audio_segment list \<Rightarrow> vision_segment list \<Rightarrow> ('e \<times> nat) result"
  forward :: "'e \<Rightarrow> nat \<Rightarrow> nat \<Rightarrow> ('e \<times> nat) result"
  prepare_graph :: "'e \<Rightarrow> 'e result"
  prepare_control :: "'e \<Rightarrow> device_control \<Rightarrow> 'e result"
  draft_tokens_at :: "'e \<Rightarrow> nat \<Rightarrow> nat \<Rightarrow> nat \<Rightarrow> 'e result"
  verify_batch :: "'e \<Rightarrow> nat \<Rightarrow> nat \<Rightarrow> nat \<Rightarrow> ('e \<times> mtp_group) result"
  fixed_group :: "'e \<Rightarrow> nat \<Rightarrow> nat \<Rightarrow> ('e \<times> mtp_group) result"
  execute_chain :: "'e \<Rightarrow> 'c observer option \<Rightarrow> 'c \<Rightarrow> 'c \<times> ('e \<times> mtp_chain) result"
  check_parity :: "'e \<Rightarrow> device_control \<Rightarrow> unit result"
  engine_sizes :: "'e \<Rightarrow> inference_result \<Rightarrow> inference_result"

section \<open>The session\<close>

record 'e conversation =
  session_engine :: 'e
  cached_ids :: "nat list"
  stop_ids :: "nat list"
  context_limit :: nat
  session_kv_mode :: kv_cache_mode
  session_load_ms :: binary64
  session_sampling :: sampling_options
  session_drafts :: nat
  session_adaptive :: bool
  poisoned :: bool

definition vocabulary_tokens :: nat where "vocabulary_tokens = 262144"
definition maximum_context :: nat where "maximum_context = 262144"
definition sliding_tokens :: nat where "sliding_tokens = 1024"
definition maximum_open_tokens :: nat where "maximum_open_tokens = 8"

definition session_invalid :: "string \<Rightarrow> status" where
  "session_invalid m = Status KInvalidArgument m"

record session_options =
  option_stop_ids :: "nat list"
  option_suppressed_ids :: "nat list"
  option_context :: nat
  option_kv_mode :: kv_cache_mode
  option_sampling :: sampling_options
  option_drafts :: nat
  option_adaptive :: bool

text \<open>
  \<open>Create\<close> on a loaded runtime: \<open>initialize\<close> is the initialisation of the engine, in its three calls.
\<close>

definition check_session_options :: "bool \<Rightarrow> string \<Rightarrow> session_options \<Rightarrow> unit result" where
  "check_session_options assistant no_assistant options =
     rbind (rguard (option_context options \<noteq> 0 \<and> option_context options \<le> maximum_context)
       (Status KUnsupported ''the hybrid KV cache supports 1..262144 tokens'')) (\<lambda>_.
     rbind (rcheck (\<lambda>t. rguard (t < vocabulary_tokens) (session_invalid ''stop token ID exceeds vocabulary''))
       (option_stop_ids options)) (\<lambda>_.
     rbind (rcheck (\<lambda>t. rguard (t < vocabulary_tokens) (session_invalid ''suppressed token ID exceeds vocabulary''))
       (option_suppressed_ids options)) (\<lambda>_.
     rbind (rguard (option_drafts options \<in> {0, 1, 2, 4})
       (session_invalid ''active MTP requires draft length 1, 2, or 4'')) (\<lambda>_.
     rbind (rguard (option_drafts options = 0 \<or> assistant)
       (session_invalid no_assistant)) (\<lambda>_.
     rguard (\<not> option_adaptive options \<or> option_drafts options \<noteq> 0)
       (session_invalid ''--mtp-adaptive requires active MTP''))))))"

definition create_session :: "bool \<Rightarrow> binary64 \<Rightarrow> (session_options \<Rightarrow> 'e result) \<Rightarrow> session_options \<Rightarrow> 'e conversation result" where
  "create_session assistant load_ms initialize options =
     rbind (check_session_options assistant ''active MTP requires assistant weights in ModelRuntime'' options) (\<lambda>_.
     rbind (initialize options) (\<lambda>e.
       Inr \<lparr>session_engine = e, cached_ids = [], stop_ids = option_stop_ids options,
         context_limit = option_context options, session_kv_mode = option_kv_mode options, session_load_ms = load_ms,
         session_sampling = option_sampling options, session_drafts = option_drafts options,
         session_adaptive = option_adaptive options, poisoned = False\<rparr>))"

text \<open>
  \<open>Create\<close> on model directories: \<open>load\<close> is \<open>ModelRuntime::Load\<close> behind its check, and tells whether there is
  an assistant and how long loading took.
\<close>

definition create_from_directories :: "string \<Rightarrow> string \<Rightarrow> (bool \<times> binary64) result \<Rightarrow> (session_options \<Rightarrow> 'e result) \<Rightarrow>
    session_options \<Rightarrow> 'e conversation result" where
  "create_from_directories model assistant load initialize options =
     rbind (rguard (model \<noteq> []) (session_invalid ''conversation session requires --model'')) (\<lambda>_.
     rbind (check_session_options (assistant \<noteq> []) ''active MTP requires --assistant-model'' options) (\<lambda>_.
     rbind load (\<lambda>(loaded, load_ms). create_session loaded load_ms initialize options)))"

section \<open>The checks of a turn\<close>

definition check_audio :: "nat list \<Rightarrow> audio_segment \<Rightarrow> unit result" where
  "check_audio prompt s =
     (let frames = length (audio_frames s) div 640
      in rbind (rguard (audio_frames s \<noteq> [] \<and> length (audio_frames s) mod 640 = 0)
           (session_invalid ''audio segment requires complete 640-sample frames'')) (\<lambda>_.
         rbind (rguard (frames \<le> 750 \<and> audio_offset s < length prompt \<and> frames \<le> length prompt - audio_offset s)
           (session_invalid ''audio segment does not fit in the rendered prompt'')) (\<lambda>_.
         rguard (\<forall>i \<in> set [0..<frames]. prompt ! (audio_offset s + i) = 258881)
           (session_invalid ''audio segment is not aligned with <|audio|> prompt tokens''))))"

definition check_vision :: "nat list \<Rightarrow> vision_segment \<Rightarrow> unit result" where
  "check_vision prompt s =
     (let patches = length (vision_patches s) div 6912
      in rbind (rguard (vision_patches s \<noteq> [] \<and> length (vision_patches s) mod 6912 = 0)
           (session_invalid ''vision segment requires complete 48x48 RGB patches'')) (\<lambda>_.
         rbind (rguard (patches \<noteq> 0 \<and> patches \<le> 280 \<and> length (vision_positions s) = patches * 2 \<and>
             vision_offset s < length prompt \<and> patches \<le> length prompt - vision_offset s)
           (session_invalid ''vision segment does not fit in the rendered prompt'')) (\<lambda>_.
         rguard (\<forall>i \<in> set [0..<patches]. prompt ! (vision_offset s + i) = 258880 \<and>
             0 \<le> vision_positions s ! (i * 2) \<and> 0 \<le> vision_positions s ! (i * 2 + 1) \<and>
             vision_positions s ! (i * 2) < 1120 \<and> vision_positions s ! (i * 2 + 1) < 1120)
           (session_invalid ''vision segment token or position alignment is invalid''))))"

fun common_prefix :: "nat list \<Rightarrow> nat list \<Rightarrow> nat" where
  "common_prefix (x # xs) (y # ys) = (if x = y then Suc (common_prefix xs ys) else 0)"
| "common_prefix _ _ = 0"

definition token_text :: "nat list \<Rightarrow> nat \<Rightarrow> string" where
  "token_text ids i = (if i < length ids then decimal (ids ! i) else ''end'')"

definition check_prefix :: "nat list \<Rightarrow> nat list \<Rightarrow> unit result" where
  "check_prefix cached prompt =
     (let i = common_prefix cached prompt
      in rguard (length cached \<le> length prompt \<and> i = min (length cached) (length prompt)) (session_invalid
           (''rendered conversation differs from the resident KV-cache prefix at token '' @ decimal i @
            '' (cached '' @ token_text cached i @ '', rendered '' @ token_text prompt i @ '')'')))"

definition check_turn :: "'e conversation \<Rightarrow> nat list \<Rightarrow> nat \<Rightarrow> reasoning_options \<Rightarrow> audio_segment list \<Rightarrow>
    vision_segment list \<Rightarrow> unit result" where
  "check_turn s prompt limit reasoning audio vision =
     rbind (rguard (\<not> poisoned s)
       (Status KInternal ''conversation session cannot continue after an inference failure'')) (\<lambda>_.
     rbind (rguard (prompt \<noteq> []) (session_invalid ''conversation turn requires prompt token IDs'')) (\<lambda>_.
     rbind (rguard (limit \<noteq> 0) (session_invalid ''--max-tokens must be positive'')) (\<lambda>_.
     rbind (rguard (\<not> reasoning_on reasoning \<or> (channel_open_ids reasoning \<noteq> [] \<and>
         length (channel_open_ids reasoning) \<le> maximum_open_tokens \<and>
         channel_close_id reasoning < vocabulary_tokens \<and> max_reasoning reasoning \<noteq> 0))
       (session_invalid ''enabled reasoning requires channel tokens and a positive budget'')) (\<lambda>_.
     rbind (rguard (length prompt \<le> context_limit s \<and> limit - 1 \<le> context_limit s - length prompt)
       (session_invalid ''conversation prompt plus generated positions exceed --max-context'')) (\<lambda>_.
     rbind (rcheck (\<lambda>t. rguard (t < vocabulary_tokens) (session_invalid ''input token ID exceeds vocabulary'')) prompt) (\<lambda>_.
     rbind (rcheck (check_audio prompt) audio) (\<lambda>_.
     rbind (rcheck (check_vision prompt) vision) (\<lambda>_.
     rbind (check_prefix (cached_ids s) prompt) (\<lambda>_.
     rguard (length (cached_ids s) < length prompt)
       (session_invalid ''conversation turn adds no uncached prompt tokens''))))))))))"

section \<open>The state of a turn\<close>

record ('e, 'c) session_run =
  run_engine :: 'e
  run_context :: 'c
  run_cached :: "nat list"
  run_result :: inference_result
  run_next :: nat
  run_position :: nat
  run_tracker :: channel_tracker
  run_started :: bool
  run_complete :: bool
  run_poisoned :: bool

text \<open>What does not change during a turn.\<close>

record ('e, 'c) turn =
  turn_ops :: "('e, 'c) engine_ops"
  turn_session :: "'e conversation"
  turn_reasoning :: reasoning_options
  turn_limit :: nat
  turn_observer :: "'c observer option"

text \<open>
  A step that fails also leaves a state.  Nothing poisons it unless the code does: every exit of the
  source that sets the flag before it returns says so here, with \<open>poison\<close> for its own failures and
  \<open>poisoning\<close> for those of a call.
\<close>

type_synonym ('e, 'c) attempt = "status \<times> ('e, 'c) session_run + ('e, 'c) session_run"

definition poison :: "('e, 'c) session_run \<Rightarrow> ('e, 'c) session_run" where
  "poison r = r\<lparr>run_poisoned := True\<rparr>"

definition poisoning :: "status \<times> ('e, 'c) session_run + 'w \<Rightarrow> status \<times> ('e, 'c) session_run + 'w" where
  "poisoning outcome = (case outcome of Inl (e, r) \<Rightarrow> Inl (e, poison r) | Inr w \<Rightarrow> Inr w)"

definition update_result :: "(inference_result \<Rightarrow> inference_result) \<Rightarrow> ('e, 'c) session_run \<Rightarrow> ('e, 'c) session_run" where
  "update_result f r = r\<lparr>run_result := f (run_result r)\<rparr>"

definition outputs :: "('e, 'c) session_run \<Rightarrow> nat list" where
  "outputs r = output_token_ids (run_result r)"

definition push_token :: "nat \<Rightarrow> ('e, 'c) session_run \<Rightarrow> ('e, 'c) session_run" where
  "push_token token r =
     update_result (\<lambda>v. v\<lparr>output_token_ids := output_token_ids v @ [token]\<rparr>) (r\<lparr>run_next := token\<rparr>)"

definition observe_token :: "reasoning_options \<Rightarrow> nat \<Rightarrow> ('e, 'c) session_run \<Rightarrow> ('e, 'c) session_run" where
  "observe_token opts token r =
     (if \<not> reasoning_on opts \<or> run_complete r then r
      else
        let t = fst (observe (run_tracker r) token); was = in_reasoning (run_tracker r)
        in update_result (\<lambda>v. v\<lparr>reasoning_tokens := reasoning_count t\<rparr>)
             (r\<lparr>run_tracker := t, run_started := run_started r \<or> (\<not> was \<and> in_reasoning t),
               run_complete := was \<and> \<not> in_reasoning t\<rparr>))"

definition notify :: "'c observer option \<Rightarrow> nat \<Rightarrow> ('e, 'c) session_run \<Rightarrow> ('e, 'c) attempt" where
  "notify observer token r =
     (case observer of
        None \<Rightarrow> Inr r
      | Some f \<Rightarrow>
          (case f (run_context r) token of
             (c, Inl e) \<Rightarrow> Inl (e, r\<lparr>run_context := c\<rparr>)
           | (c, Inr _) \<Rightarrow> Inr (r\<lparr>run_context := c\<rparr>)))"

definition note_stop :: "nat list \<Rightarrow> nat \<Rightarrow> ('e, 'c) session_run \<Rightarrow> ('e, 'c) session_run" where
  "note_stop ids token r =
     (if token \<in> set ids then update_result (\<lambda>v. v\<lparr>stopped := True, stop_token_id := token\<rparr>) r else r)"

text \<open>One generated token: recorded, observed, shown to the caller, compared with the stop tokens.\<close>

definition deliver :: "('e, 'c) turn \<Rightarrow> nat \<Rightarrow> ('e, 'c) session_run \<Rightarrow> ('e, 'c) attempt" where
  "deliver turn token r =
     rbind (notify (turn_observer turn) token (observe_token (turn_reasoning turn) token (push_token token r)))
       (\<lambda>r. Inr (note_stop (stop_ids (turn_session turn)) token r))"

definition deliver_unobserved :: "('e, 'c) turn \<Rightarrow> nat \<Rightarrow> ('e, 'c) session_run \<Rightarrow> ('e, 'c) attempt" where
  "deliver_unobserved turn token r =
     rbind (notify (turn_observer turn) token (push_token token r))
       (\<lambda>r. Inr (note_stop (stop_ids (turn_session turn)) token r))"

definition budget_spent :: "reasoning_options \<Rightarrow> ('e, 'c) session_run \<Rightarrow> bool" where
  "budget_spent opts r \<longleftrightarrow> in_reasoning (run_tracker r) \<and> max_reasoning opts \<le> reasoning_count (run_tracker r)"

text \<open>A call of the engine; \<open>leave\<close> is what happens to the state when it fails.\<close>

definition on_engine :: "('e \<times> 'v) result \<Rightarrow> ('e, 'c) session_run \<Rightarrow> (('e, 'c) session_run \<Rightarrow> ('e, 'c) session_run) \<Rightarrow>
    ('v \<Rightarrow> ('e, 'c) session_run \<Rightarrow> status \<times> ('e, 'c) session_run + 'w) \<Rightarrow> status \<times> ('e, 'c) session_run + 'w" where
  "on_engine reply r leave f =
     (case reply of Inl e \<Rightarrow> Inl (e, leave r) | Inr (e, v) \<Rightarrow> f v (r\<lparr>run_engine := e\<rparr>))"

definition on_status :: "'e result \<Rightarrow> ('e, 'c) session_run \<Rightarrow> (('e, 'c) session_run \<Rightarrow> ('e, 'c) session_run) \<Rightarrow>
    (('e, 'c) session_run \<Rightarrow> status \<times> ('e, 'c) session_run + 'w) \<Rightarrow> status \<times> ('e, 'c) session_run + 'w" where
  "on_status reply r leave f = (case reply of Inl e \<Rightarrow> Inl (e, leave r) | Inr e \<Rightarrow> f (r\<lparr>run_engine := e\<rparr>))"

definition mark_forced :: "bool \<Rightarrow> ('e, 'c) session_run \<Rightarrow> ('e, 'c) session_run" where
  "mark_forced force = update_result (\<lambda>v. v\<lparr>reasoning_budget_forced := reasoning_budget_forced v \<or> force\<rparr>)"

section \<open>Decoding without drafts\<close>

definition ordinary_step :: "('e, 'c) turn \<Rightarrow> ('e, 'c) session_run \<Rightarrow> ('e, 'c) attempt" where
  "ordinary_step turn r =
     (let force = (\<not> run_complete r \<and> budget_spent (turn_reasoning turn) r)
      in on_engine (forward (turn_ops turn) (run_engine r) (run_next r) (length (run_cached r))) r poison (\<lambda>token r.
           let next = (if force then channel_close_id (turn_reasoning turn) else token)
           in poisoning (deliver turn next (mark_forced force (r\<lparr>run_cached := run_cached r @ [run_next r]\<rparr>)))))"

text \<open>The number counts the tokens that may still be generated.\<close>

fun ordinary_loop :: "('e, 'c) turn \<Rightarrow> nat \<Rightarrow> ('e, 'c) session_run \<Rightarrow> ('e, 'c) attempt" where
  "ordinary_loop turn 0 r = Inr r"
| "ordinary_loop turn (Suc n) r =
     (if stopped (run_result r) then Inr r else rbind (ordinary_step turn r) (ordinary_loop turn n))"

section \<open>Decoding with drafts\<close>

definition count_forward :: "('e, 'c) session_run \<Rightarrow> ('e, 'c) session_run" where
  "count_forward r = update_result (\<lambda>v. v\<lparr>target_forwards := target_forwards v + 1, target_batches := target_batches v + 1\<rparr>)
     (r\<lparr>run_position := run_position r + 1\<rparr>)"

text \<open>While the model may still reason, one token at a time.\<close>

definition reasoning_step :: "('e, 'c) turn \<Rightarrow> ('e, 'c) session_run \<Rightarrow> ('e, 'c) attempt" where
  "reasoning_step turn r =
     (let force = budget_spent (turn_reasoning turn) r
      in on_engine (forward (turn_ops turn) (run_engine r) (run_next r) (run_position r + 1)) r poison (\<lambda>token r.
           let next = (if force then channel_close_id (turn_reasoning turn) else token)
           in poisoning (deliver turn next (mark_forced force
                (update_result (\<lambda>v. v\<lparr>reasoning_ordinary_target_tokens := reasoning_ordinary_target_tokens v + 1\<rparr>)
                  (count_forward r))))))"

fun reasoning_loop :: "('e, 'c) turn \<Rightarrow> nat \<Rightarrow> ('e, 'c) session_run \<Rightarrow> ('e, 'c) attempt" where
  "reasoning_loop turn 0 r = Inr r"
| "reasoning_loop turn (Suc n) r =
     (if stopped (run_result r) \<or> run_complete r then Inr r else rbind (reasoning_step turn r) (reasoning_loop turn n))"

text \<open>The lambda \<open>emit_ordinary_token\<close> leaves the flag to its caller.\<close>

definition ordinary_token :: "('e, 'c) turn \<Rightarrow> bool \<Rightarrow> ('e, 'c) session_run \<Rightarrow> ('e, 'c) attempt" where
  "ordinary_token turn fallback r =
     on_engine (forward (turn_ops turn) (run_engine r) (run_next r) (run_position r + 1)) r (\<lambda>r. r) (\<lambda>token r.
       deliver_unobserved turn token
         (update_result (\<lambda>v. if fallback then v\<lparr>ordinary_fallback_tokens := ordinary_fallback_tokens v + 1\<rparr> else v)
           (count_forward r)))"

definition chain_capable :: "('e, 'c) turn \<Rightarrow> bool" where
  "chain_capable turn \<longleftrightarrow> (let s = turn_session turn in session_drafts s = 2 \<and> \<not> session_adaptive s \<and>
     session_kv_mode s = CheckpointFp8 \<and> sliding_tokens < context_limit s)"

definition control_of :: "('e, 'c) turn \<Rightarrow> (reasoning_options \<times> device_reasoning) option \<Rightarrow> ('e, 'c) session_run \<Rightarrow> device_control" where
  "control_of turn reasoning r =
     \<lparr>control_token = run_next r, control_position = run_position r,
      control_remaining = turn_limit turn - length (outputs r), control_written = length (outputs r),
      control_stopped = stopped (run_result r), control_stop_token = stop_token_id (run_result r),
      control_reasoning = reasoning\<rparr>"

definition parity :: "('e, 'c) turn \<Rightarrow> ('e, 'c) session_run \<Rightarrow> ('e, 'c) attempt" where
  "parity turn r =
     (case check_parity (turn_ops turn) (run_engine r) (control_of turn None r) of
        Inl e \<Rightarrow> Inl (e, r) | Inr _ \<Rightarrow> Inr r)"

definition device_reasoning_of :: "('e, 'c) session_run \<Rightarrow> device_reasoning" where
  "device_reasoning_of r = \<lparr>device_started = run_started r, device_complete = run_complete r,
     device_in_reasoning = in_reasoning (run_tracker r), device_open_match = open_match (run_tracker r),
     device_count = reasoning_count (run_tracker r)\<rparr>"

definition record_chain :: "mtp_chain \<Rightarrow> ('e, 'c) session_run \<Rightarrow> ('e, 'c) session_run" where
  "record_chain ch r =
     update_result (\<lambda>v. v\<lparr>mtp_fixed_d2_graph := True, mtp_gpu_chained := True,
         verification_groups := verification_groups v + chain_groups ch, d2_groups := d2_groups v + chain_groups ch,
         proposed_tokens := proposed_tokens v + of_nat (length (chain_proposals ch)),
         target_forwards := target_forwards v + 3 * chain_groups ch + chain_tail ch,
         target_batches := target_batches v + chain_groups ch + chain_tail ch,
         reasoning_ordinary_target_tokens := reasoning_ordinary_target_tokens v + chain_reasoning_ordinary ch,
         accepted_tokens := accepted_tokens v + chain_accepted ch, rejected_tokens := rejected_tokens v + chain_rejected ch,
         mtp_proposed_token_ids := mtp_proposed_token_ids v @ chain_proposals ch\<rparr>)
       (r\<lparr>run_position := run_position r + length (chain_outputs ch)\<rparr>)"

definition observe_outputs :: "reasoning_options \<Rightarrow> nat list \<Rightarrow> ('e, 'c) session_run \<Rightarrow> ('e, 'c) session_run" where
  "observe_outputs opts tokens r = fold (\<lambda>t r. observe_token opts t (push_token t r)) tokens r"

text \<open>The chain of fixed groups on the device: the tokens reach the caller's observer from inside the engine.\<close>

definition chain_step :: "('e, 'c) turn \<Rightarrow> ('e, 'c) session_run \<Rightarrow> ('e, 'c) attempt" where
  "chain_step turn r =
     on_status (prepare_control (turn_ops turn) (run_engine r)
         (control_of turn (Some (turn_reasoning turn, device_reasoning_of r)) r)) r poison (\<lambda>r.
     case execute_chain (turn_ops turn) (run_engine r) (turn_observer turn) (run_context r) of
       (c, reply) \<Rightarrow> on_engine reply (r\<lparr>run_context := c\<rparr>) poison (\<lambda>ch r.
         let r = observe_outputs (turn_reasoning turn) (chain_outputs ch) (record_chain ch r);
             r = mark_forced (chain_forced ch) r
         in if reasoning_tokens (run_result r) \<noteq> chain_reasoning_count ch \<or> run_complete r \<noteq> chain_complete ch
            then Inl (Status KInternal ''host reasoning state disagrees with GPU MTP chain'', poison r)
            else poisoning (parity turn
              (update_result (\<lambda>v. v\<lparr>stopped := chain_stopped ch, stop_token_id := chain_stop_token ch\<rparr>) r))))"

fun deliver_group :: "('e, 'c) turn \<Rightarrow> nat list \<Rightarrow> ('e, 'c) session_run \<Rightarrow> ('e, 'c) attempt" where
  "deliver_group turn [] r = Inr r"
| "deliver_group turn (t # ts) r =
     rbind (poisoning (deliver_unobserved turn t r)) (\<lambda>r. if stopped (run_result r) then Inr r else deliver_group turn ts r)"

definition record_group :: "nat \<Rightarrow> mtp_group \<Rightarrow> ('e, 'c) session_run \<Rightarrow> ('e, 'c) session_run" where
  "record_group n g r =
     update_result (\<lambda>v. v\<lparr>verification_groups := verification_groups v + 1,
         d1_groups := (if n = 1 then d1_groups v + 1 else d1_groups v),
         d2_groups := (if n = 2 then d2_groups v + 1 else d2_groups v),
         d4_groups := (if n = 4 then d4_groups v + 1 else d4_groups v),
         proposed_tokens := proposed_tokens v + of_nat n,
         mtp_proposed_token_ids := mtp_proposed_token_ids v @ take n (group_proposed g),
         target_forwards := target_forwards v + of_nat n + 1, target_batches := target_batches v + 1,
         accepted_tokens := accepted_tokens v + of_nat (group_accepted g),
         rejected_tokens := rejected_tokens v + of_nat n - of_nat (group_accepted g)\<rparr>)
       (r\<lparr>run_position := run_position r + group_outputs g\<rparr>)"

definition run_group :: "('e, 'c) turn \<Rightarrow> nat \<Rightarrow> ('e, 'c) session_run \<Rightarrow>
    (mtp_group \<Rightarrow> ('e, 'c) session_run \<Rightarrow> status \<times> ('e, 'c) session_run + 'w) \<Rightarrow> status \<times> ('e, 'c) session_run + 'w" where
  "run_group turn n r f =
     (let s = turn_session turn; ops = turn_ops turn
      in if n = 2 \<and> session_drafts s = 2 \<and> \<not> session_adaptive s
         then
           let r = update_result (\<lambda>v. v\<lparr>mtp_fixed_d2_graph :=
                 (session_kv_mode s = CheckpointFp8 \<and> sliding_tokens < context_limit s)\<rparr>) r
           in on_engine (fixed_group ops (run_engine r) (run_next r) (run_position r + 1)) r poison f
         else on_status (draft_tokens_at ops (run_engine r) (run_next r) (run_position r) n) r poison (\<lambda>r.
           on_engine (verify_batch ops (run_engine r) (run_next r) (run_position r + 1) n) r poison f))"

text \<open>A verification group; the scheduler learns how many drafts were accepted.\<close>

definition group_step :: "('e, 'c) turn \<Rightarrow> nat \<Rightarrow> mtp_scheduler \<Rightarrow> ('e, 'c) session_run \<Rightarrow>
    status \<times> ('e, 'c) session_run + mtp_scheduler \<times> ('e, 'c) session_run" where
  "group_step turn n sch r =
     on_status (prepare_control (turn_ops turn) (run_engine r) (control_of turn None r)) r poison (\<lambda>r.
     run_group turn n r (\<lambda>g r.
       rbind (deliver_group turn (take (group_outputs g) (group_verified g)) (record_group n g r)) (\<lambda>r.
       rbind (poisoning (parity turn r)) (\<lambda>r.
         Inr (if stopped (run_result r) then sch else observe_group sch (run_position r) (group_accepted g), r)))))"

definition draft_step :: "('e, 'c) turn \<Rightarrow> mtp_scheduler \<Rightarrow> ('e, 'c) session_run \<Rightarrow>
    status \<times> ('e, 'c) session_run + mtp_scheduler \<times> ('e, 'c) session_run" where
  "draft_step turn sch r =
     (let remaining = turn_limit turn - length (outputs r); fallback = use_ordinary_fallback sch
      in if 3 \<le> remaining \<and> chain_capable turn then rbind (chain_step turn r) (\<lambda>r. Inr (sch, r))
         else if remaining = 1 \<or> fallback
         then rbind (poisoning (ordinary_token turn fallback r)) (\<lambda>r. Inr (if fallback then consume_fallback sch else sch, r))
         else group_step turn (min (active_drafts sch) (remaining - 1)) sch r)"

text \<open>
  An engine that gives empty groups would keep this loop running, so it has fuel; \<open>None\<close> means that
  it has not ended.
\<close>

fun draft_loop :: "nat \<Rightarrow> ('e, 'c) turn \<Rightarrow> mtp_scheduler \<Rightarrow> ('e, 'c) session_run \<Rightarrow> ('e, 'c) attempt option" where
  "draft_loop 0 turn sch r = None"
| "draft_loop (Suc fuel) turn sch r =
     (if turn_limit turn \<le> length (outputs r) \<or> stopped (run_result r) then Some (Inr r)
      else fbind (Some (draft_step turn sch r)) (\<lambda>(sch, r). draft_loop fuel turn sch r))"

definition decode_with_drafts :: "nat \<Rightarrow> ('e, 'c) turn \<Rightarrow> ('e, 'c) session_run \<Rightarrow> ('e, 'c) attempt option" where
  "decode_with_drafts fuel turn r =
     (let r = r\<lparr>run_position := length (run_cached r) - 1\<rparr>
      in fbind (Some (if chain_capable turn then Inr r
             else reasoning_loop turn (turn_limit turn - length (outputs r)) r)) (\<lambda>r.
         fbind (draft_loop fuel turn (new_scheduler (session_drafts (turn_session turn)) (run_position r)
             (session_adaptive (turn_session turn))) r) (\<lambda>r.
           Some (Inr (r\<lparr>run_cached := run_cached r @ butlast (outputs r)\<rparr>)))))"

section \<open>A turn\<close>

definition start_result :: "('e, 'c) engine_ops \<Rightarrow> 'e conversation \<Rightarrow> reasoning_options \<Rightarrow> nat \<Rightarrow> inference_result" where
  "start_result ops s reasoning suffix =
     (engine_sizes ops (session_engine s) default_inference)\<lparr>output_token_ids := [], mtp_proposed_token_ids := [],
       result_kv_cache_mode := session_kv_mode s, result_sampling := session_sampling s, decode_graphs := True,
       model_load_milliseconds := session_load_ms s, mtp_enabled := (session_drafts s \<noteq> 0),
       mtp_adaptive := session_adaptive s, mtp_draft_tokens := session_drafts s,
       reasoning_enabled := reasoning_on reasoning, reasoning_budget_tokens := max_reasoning reasoning,
       prompt_cached_tokens := of_nat (length (cached_ids s)), prompt_cache_write_tokens := of_nat suffix,
       max_context_tokens := of_nat (context_limit s), reasoning_tokens := 0, stopped := False, stop_token_id := 0,
       reasoning_budget_forced := False, token_loop_allocations := False, benchmark_qualified := False,
       packed_weight_source_layout_direct := False\<rparr>"

definition start_run :: "('e, 'c) turn \<Rightarrow> 'c \<Rightarrow> nat list \<Rightarrow> 'e \<Rightarrow> ('e, 'c) session_run" where
  "start_run turn context prompt e =
     (let s = turn_session turn; reasoning = turn_reasoning turn
      in \<lparr>run_engine = e, run_context = context, run_cached = prompt,
          run_result = start_result (turn_ops turn) s reasoning (length prompt - length (cached_ids s)),
          run_next = 0, run_position = 0,
          run_tracker = new_tracker (channel_open_ids reasoning) (channel_close_id reasoning) (starts_reasoning reasoning),
          run_started = starts_reasoning reasoning, run_complete = (\<not> reasoning_on reasoning),
          run_poisoned = poisoned s\<rparr>)"

definition prepare_fixed_graph :: "('e, 'c) turn \<Rightarrow> ('e, 'c) session_run \<Rightarrow> ('e, 'c) attempt" where
  "prepare_fixed_graph turn r =
     (if chain_capable turn then on_status (prepare_graph (turn_ops turn) (run_engine r)) r poison Inr else Inr r)"

definition decode_turn :: "nat \<Rightarrow> ('e, 'c) turn \<Rightarrow> nat \<Rightarrow> ('e, 'c) session_run \<Rightarrow> ('e, 'c) attempt option" where
  "decode_turn fuel turn first_token r =
     fbind (Some (poisoning (deliver turn first_token r))) (\<lambda>r.
     fbind (Some (prepare_fixed_graph turn r)) (\<lambda>r.
     if session_drafts (turn_session turn) \<noteq> 0 then decode_with_drafts fuel turn r
     else Some (ordinary_loop turn (turn_limit turn - 1) r)))"

text \<open>The fields of the session as the turn leaves them; the run has changed them in place.\<close>

definition close_turn :: "'e conversation \<Rightarrow> ('e, 'c) attempt \<Rightarrow> 'e conversation \<times> 'c \<times> inference_result result" where
  "close_turn s outcome =
     (let left = (\<lambda>r. s\<lparr>session_engine := run_engine r, cached_ids := run_cached r, poisoned := run_poisoned r\<rparr>)
      in case outcome of
           Inl (e, r) \<Rightarrow> (left r, run_context r, Inl e)
         | Inr r \<Rightarrow> (left r, run_context r, Inr (run_result r)))"

definition session_generate :: "nat \<Rightarrow> ('e, 'c) engine_ops \<Rightarrow> 'e conversation \<Rightarrow> nat list \<Rightarrow> nat \<Rightarrow> reasoning_options \<Rightarrow>
    'c observer option \<Rightarrow> 'c \<Rightarrow> audio_segment list \<Rightarrow> vision_segment list \<Rightarrow>
    ('e conversation \<times> 'c \<times> inference_result result) option" where
  "session_generate fuel ops s prompt limit reasoning observer context audio vision =
     (case check_turn s prompt limit reasoning audio vision of
        Inl e \<Rightarrow> Some (s, context, Inl e)
      | Inr _ \<Rightarrow>
          let turn = \<lparr>turn_ops = ops, turn_session = s, turn_reasoning = reasoning, turn_limit = limit, turn_observer = observer\<rparr>
          in (case prefill_at ops (session_engine s) (drop (length (cached_ids s)) prompt) (length (cached_ids s)) audio vision of
                Inl e \<Rightarrow> Some (s\<lparr>poisoned := True\<rparr>, context, Inl e)
              | Inr (e, token) \<Rightarrow>
                  map_option (close_turn s) (decode_turn fuel turn token (start_run turn context prompt e))))"

end
