(* ===== verification/Mtp_Device.thy ===== *)
theory Mtp_Device
  imports Inference_Session
begin

text \<open>
  The device side of speculative decoding: the one-thread kernels of src/cuda/mtp/verify.cu that accept a
  group, follow the thinking channel and chain groups without the host, and the operations of
  src/cuda/engine/inference_engine_mtp.cuh and inference_engine_forward.cuh that the session calls.

  The network itself is a parameter: a pass of the target model over a token or a prompt, the choice of a
  token from its output, the drafts of the assistant model, the rows of a batched verification and the
  commitment of its accepted rows.  Errors of the CUDA runtime are not modelled.
\<close>

section \<open>The thinking channel on the device\<close>

record mtp_reasoning =
  mtp_open :: "nat list"
  mtp_close :: nat
  mtp_match :: nat
  mtp_enabled :: bool
  mtp_started :: bool
  mtp_complete :: bool
  mtp_inside :: bool
  mtp_forced :: bool
  mtp_count :: "64 word"
  mtp_maximum :: "64 word"

definition no_mtp_reasoning :: mtp_reasoning where
  "no_mtp_reasoning = \<lparr>mtp_open = [], mtp_close = 0, mtp_match = 0, mtp_enabled = False, mtp_started = False,
     mtp_complete = False, mtp_inside = False, mtp_forced = False, mtp_count = 0, mtp_maximum = 0\<rparr>"

definition observe_device :: "mtp_reasoning \<Rightarrow> nat \<Rightarrow> mtp_reasoning" where
  "observe_device q token =
     (if \<not> mtp_enabled q \<or> mtp_complete q then q
      else if mtp_inside q
      then (if token = mtp_close q then q\<lparr>mtp_inside := False, mtp_complete := True\<rparr> else q\<lparr>mtp_count := mtp_count q + 1\<rparr>)
      else if token = mtp_close q then q\<lparr>mtp_match := 0\<rparr>
      else if mtp_open q = [] then q\<lparr>mtp_complete := True\<rparr>
      else if token = mtp_open q ! mtp_match q
      then
        (if mtp_match q + 1 = length (mtp_open q) then q\<lparr>mtp_match := 0, mtp_inside := True, mtp_started := True\<rparr>
         else q\<lparr>mtp_match := mtp_match q + 1\<rparr>)
      else q\<lparr>mtp_match := (if token = mtp_open q ! 0 then 1 else 0)\<rparr>)"

section \<open>Device control\<close>

record mtp_state =
  input_token :: nat
  state_stopped :: bool
  state_stop_token :: nat
  processed_position :: nat
  remaining_capacity :: nat
  write_position :: nat
  state_step :: nat

record mtp_control =
  current_state :: mtp_state
  next_state :: mtp_state
  chain_reasoning :: mtp_reasoning
  fixed_drafts :: nat
  control_proposals :: nat
  transition_valid :: bool
  control_sampling :: bool

record device_group = mtp_group +
  group_proposals :: nat
  group_stop_token :: nat
  group_stopped :: bool

definition can_run_d2 :: "mtp_control \<Rightarrow> bool" where
  "can_run_d2 c \<longleftrightarrow>
     (let q = chain_reasoning c
      in 3 \<le> remaining_capacity (current_state c) \<and>
         (if \<not> mtp_enabled q \<or> mtp_complete q then True
          else if mtp_inside q then mtp_count q \<le> mtp_maximum q \<and> 3 \<le> mtp_maximum q - mtp_count q
          else mtp_match q = 0 \<and> 3 \<le> mtp_maximum q))"

section \<open>Accepting a group\<close>

text \<open>The number of drafts that agree with the verified tokens before the first that does not.\<close>

fun agreeing :: "nat list \<Rightarrow> nat list \<Rightarrow> nat" where
  "agreeing (d # ds) (v # vs) = (if v = d then Suc (agreeing ds vs) else 0)"
| "agreeing _ _ = 0"

text \<open>The index of the first output that is a stop token.\<close>

fun first_stop :: "nat list \<Rightarrow> nat list \<Rightarrow> nat option" where
  "first_stop ids [] = None"
| "first_stop ids (v # vs) = (if v \<in> set ids then Some 0 else map_option Suc (first_stop ids vs))"

definition accepted_group :: "nat list \<Rightarrow> nat list \<Rightarrow> nat \<Rightarrow> nat list \<Rightarrow> device_group" where
  "accepted_group drafts verified n ids =
     (let a = agreeing (take n drafts) verified;
          k = (if a = n then n + 1 else a + 1);
          g = \<lparr>group_proposed = map (\<lambda>i. if i < n then drafts ! i else 0) [0..<4],
               group_verified = map (\<lambda>i. if i \<le> n then verified ! i else 0) [0..<5],
               group_accepted = a, group_outputs = k, group_proposals = n, group_stop_token = 0, group_stopped = False\<rparr>
      in case first_stop ids (take k verified) of
           None \<Rightarrow> g
         | Some i \<Rightarrow> g\<lparr>group_outputs := i + 1, group_accepted := min a i, group_stop_token := verified ! i, group_stopped := True\<rparr>)"

definition advance_state :: "mtp_control \<Rightarrow> device_group \<Rightarrow> nat list \<Rightarrow> mtp_state" where
  "advance_state c g verified =
     (let s = current_state c; k = group_outputs g
      in s\<lparr>input_token := verified ! (k - 1), processed_position := processed_position s + k,
          remaining_capacity := remaining_capacity s - k, write_position := write_position s + k,
          state_step := (if control_sampling c then state_step s + k else state_step s),
          state_stopped := group_stopped g, state_stop_token := group_stop_token g\<rparr>)"

definition accept_group :: "nat list \<Rightarrow> nat list \<Rightarrow> nat \<Rightarrow> nat list \<Rightarrow> mtp_control \<Rightarrow> device_group \<times> mtp_control" where
  "accept_group drafts verified n ids c =
     (let g = accepted_group drafts verified n ids;
          ok = (\<not> state_stopped (current_state c) \<and> n \<le> fixed_drafts c \<and>
                group_outputs g \<le> remaining_capacity (current_state c))
      in (g, c\<lparr>control_proposals := n, transition_valid := ok,
            next_state := (if ok then advance_state c g verified else current_state c)\<rparr>))"

section \<open>The network\<close>

text \<open>\<open>select\<close> picks a token from the output of the last pass; a sampling step only matters when sampling.\<close>

record 'm network =
  prompt_pass :: "'m \<Rightarrow> nat \<Rightarrow> nat list \<Rightarrow> audio_segment list \<Rightarrow> vision_segment list \<Rightarrow> 'm"
  token_pass :: "'m \<Rightarrow> nat \<Rightarrow> nat \<Rightarrow> 'm"
  select :: "'m \<Rightarrow> nat option \<Rightarrow> nat"
  propose :: "'m \<Rightarrow> nat \<Rightarrow> nat \<Rightarrow> nat \<Rightarrow> nat list"
  row_tokens :: "'m \<Rightarrow> nat \<Rightarrow> nat option \<Rightarrow> nat list \<Rightarrow> nat list"
  commit_rows :: "'m \<Rightarrow> nat \<Rightarrow> nat list \<Rightarrow> nat \<Rightarrow> 'm"

record device_setup =
  setup_context :: nat
  setup_drafts :: nat
  setup_sampling :: bool
  setup_stops :: "nat list"
  setup_mode :: kv_cache_mode

definition step_of :: "device_setup \<Rightarrow> nat \<Rightarrow> nat option" where
  "step_of setup step = (if setup_sampling setup then Some step else None)"

section \<open>The chain\<close>

record chain_counts =
  cc_outputs :: nat
  cc_proposed :: nat
  cc_accepted :: nat
  cc_rejected :: nat
  cc_groups :: nat
  cc_tail :: nat
  cc_reasoning_ordinary :: nat
  cc_reasoning_count :: "64 word"
  cc_stopped :: bool
  cc_stop_token :: nat
  cc_complete :: bool
  cc_forced :: bool

definition no_counts :: chain_counts where
  "no_counts = \<lparr>cc_outputs = 0, cc_proposed = 0, cc_accepted = 0, cc_rejected = 0, cc_groups = 0, cc_tail = 0,
     cc_reasoning_ordinary = 0, cc_reasoning_count = 0, cc_stopped = False, cc_stop_token = 0, cc_complete = False, cc_forced = False\<rparr>"

text \<open>
  The outputs are an array that is written at the write position, the proposals one that is written in order;
  the published tokens are those handed to the streaming ring.
\<close>

record 'm chain_state =
  chain_model :: 'm
  chain_control :: mtp_control
  chain_counts :: chain_counts
  chain_tokens :: "nat list"
  chain_drafts :: "nat list"
  chain_published :: "nat list"

fun write_tokens :: "nat \<Rightarrow> nat list \<Rightarrow> nat list \<Rightarrow> nat list" where
  "write_tokens i [] array = array"
| "write_tokens i (v # vs) array = write_tokens (i + 1) vs (array[i := v])"

definition note_reasoning :: "mtp_reasoning \<Rightarrow> chain_counts \<Rightarrow> chain_counts" where
  "note_reasoning q r = r\<lparr>cc_reasoning_count := mtp_count q, cc_complete := mtp_complete q, cc_forced := mtp_forced q\<rparr>"

definition advance_d2_chain :: "device_group \<Rightarrow> 'm chain_state \<Rightarrow> 'm chain_state" where
  "advance_d2_chain g s =
     (let c = chain_control s; r = chain_counts s;
          out = take (group_outputs g) (group_verified g);
          q = fold (\<lambda>t q. observe_device q t) out (chain_reasoning c)
      in s\<lparr>chain_tokens := write_tokens (write_position (current_state c)) out (chain_tokens s),
          chain_drafts := write_tokens (cc_proposed r) (take (group_proposals g) (group_proposed g)) (chain_drafts s),
          chain_published := chain_published s @ out,
          chain_counts := note_reasoning q (r\<lparr>cc_outputs := cc_outputs r + group_outputs g,
            cc_proposed := cc_proposed r + group_proposals g, cc_accepted := cc_accepted r + group_accepted g,
            cc_rejected := cc_rejected r + (group_proposals g - group_accepted g), cc_groups := cc_groups r + 1,
            cc_stopped := group_stopped g, cc_stop_token := group_stop_token g\<rparr>),
          chain_control := c\<lparr>chain_reasoning := q, current_state := next_state c, transition_valid := False\<rparr>\<rparr>)"

text \<open>A group of two drafts, controlled by the device.\<close>

definition controlled_inputs :: "mtp_control \<Rightarrow> nat list \<Rightarrow> nat list" where
  "controlled_inputs c drafts = [input_token (current_state c), drafts ! 0, drafts ! 1]"

definition d2_group :: "'m network \<Rightarrow> device_setup \<Rightarrow> 'm \<Rightarrow> mtp_control \<Rightarrow> device_group \<times> mtp_control \<times> 'm" where
  "d2_group net setup m c =
     (let cur = current_state c;
          inputs = controlled_inputs c (propose net m (input_token cur) (processed_position cur) 2);
          verified = row_tokens net m (processed_position cur + 1) (step_of setup (state_step cur)) inputs;
          (g, c') = accept_group (tl inputs) verified 2 (setup_stops setup) c
      in (g, c', commit_rows net m (processed_position cur + 1) inputs (group_outputs g)))"

definition d2_step :: "'m network \<Rightarrow> device_setup \<Rightarrow> 'm chain_state \<Rightarrow> 'm chain_state" where
  "d2_step net setup s =
     (case d2_group net setup (chain_model s) (chain_control s) of
        (g, c, m) \<Rightarrow> advance_d2_chain g (s\<lparr>chain_control := c, chain_model := m\<rparr>))"

text \<open>A single token, when three more may not be generated or the thinking budget ends soon.\<close>

definition finalize_tail :: "device_setup \<Rightarrow> nat \<Rightarrow> 'm chain_state \<Rightarrow> 'm chain_state" where
  "finalize_tail setup selected s =
     (let c = chain_control s; q = chain_reasoning c; cur = current_state c; r = chain_counts s;
          incomplete = (mtp_enabled q \<and> \<not> mtp_complete q);
          force = (mtp_inside q \<and> mtp_maximum q \<le> mtp_count q);
          token = (if force then mtp_close q else selected);
          q' = observe_device (if force then q\<lparr>mtp_forced := True\<rparr> else q) token;
          stop = (token \<in> set (setup_stops setup));
          cur' = cur\<lparr>input_token := token, processed_position := processed_position cur + 1,
            remaining_capacity := remaining_capacity cur - 1, write_position := write_position cur + 1,
            state_step := (if control_sampling c then state_step cur + 1 else state_step cur),
            state_stopped := state_stopped cur \<or> stop, state_stop_token := (if stop then token else state_stop_token cur)\<rparr>;
          r' = note_reasoning q' (r\<lparr>cc_outputs := cc_outputs r + 1, cc_tail := cc_tail r + 1,
            cc_reasoning_ordinary := (if incomplete then cc_reasoning_ordinary r + 1 else cc_reasoning_ordinary r),
            cc_stopped := cc_stopped r \<or> stop, cc_stop_token := (if stop then token else cc_stop_token r)\<rparr>)
      in s\<lparr>chain_tokens := (chain_tokens s)[write_position cur := token], chain_published := chain_published s @ [token],
          chain_counts := r',
          chain_control := c\<lparr>chain_reasoning := q', current_state := cur', next_state := cur'\<rparr>\<rparr>)"

definition tail_step :: "'m network \<Rightarrow> device_setup \<Rightarrow> 'm chain_state \<Rightarrow> 'm chain_state" where
  "tail_step net setup s =
     (let cur = current_state (chain_control s);
          m = token_pass net (chain_model s) (processed_position cur + 1) (input_token cur)
      in finalize_tail setup (select net m (step_of setup (state_step cur))) (s\<lparr>chain_model := m\<rparr>))"

definition chain_body :: "'m network \<Rightarrow> device_setup \<Rightarrow> 'm chain_state \<Rightarrow> 'm chain_state" where
  "chain_body net setup s = (if can_run_d2 (chain_control s) then d2_step net setup s else tail_step net setup s)"

text \<open>
  The graph runs its body at least once, and again while the model has not stopped and may generate more.
  The number is the fuel.
\<close>

fun run_chain :: "nat \<Rightarrow> 'm network \<Rightarrow> device_setup \<Rightarrow> 'm chain_state \<Rightarrow> 'm chain_state option" where
  "run_chain 0 net setup s = None"
| "run_chain (Suc fuel) net setup s =
     (let s' = chain_body net setup s; cur = current_state (chain_control s')
      in if \<not> state_stopped cur \<and> remaining_capacity cur \<noteq> 0 then run_chain fuel net setup s' else Some s')"

section \<open>The engine\<close>

record 'm device_engine =
  model_state :: 'm
  engine_step :: nat
  has_hidden :: bool
  graph_ready :: bool
  draft_buffer :: "nat list"
  output_array :: "nat list"
  proposal_array :: "nat list"
  pinned_control :: mtp_control

definition count_steps :: "device_setup \<Rightarrow> nat \<Rightarrow> 'm device_engine \<Rightarrow> 'm device_engine" where
  "count_steps setup n e = (if setup_sampling setup then e\<lparr>engine_step := engine_step e + n\<rparr> else e)"

definition device_prefill :: "'m network \<Rightarrow> device_setup \<Rightarrow> 'm device_engine \<Rightarrow> nat list \<Rightarrow> nat \<Rightarrow> audio_segment list \<Rightarrow>
    vision_segment list \<Rightarrow> ('m device_engine \<times> nat) result" where
  "device_prefill net setup e suffix start audio vision =
     rbind (rguard (suffix \<noteq> [] \<and> start \<le> setup_context setup \<and> length suffix \<le> setup_context setup - start)
       (session_invalid ''prefill token extent is invalid'')) (\<lambda>_.
     let m = prompt_pass net (model_state e) start suffix audio vision
     in Inr (count_steps setup 1 (e\<lparr>model_state := m, has_hidden := True\<rparr>), select net m (step_of setup (engine_step e))))"

definition device_forward :: "'m network \<Rightarrow> device_setup \<Rightarrow> 'm device_engine \<Rightarrow> nat \<Rightarrow> nat \<Rightarrow> ('m device_engine \<times> nat) result" where
  "device_forward net setup e token start =
     rbind (rguard (token < vocabulary_tokens \<and> start < setup_context setup)
       (session_invalid ''token or position exceeds inference plan'')) (\<lambda>_.
     let m = token_pass net (model_state e) start token
     in Inr (count_steps setup 1 (e\<lparr>model_state := m, has_hidden := True\<rparr>), select net m (step_of setup (engine_step e))))"

definition graph_mode :: "device_setup \<Rightarrow> bool" where
  "graph_mode setup \<longleftrightarrow> setup_mode setup = CheckpointFp8 \<and> sliding_tokens < setup_context setup"

definition device_prepare_graph :: "device_setup \<Rightarrow> 'm device_engine \<Rightarrow> 'm device_engine result" where
  "device_prepare_graph setup e =
     (if setup_drafts setup \<noteq> 2 \<or> \<not> graph_mode setup then Inr e
      else rbind (rguard (has_hidden e) (Status KInternal ''fixed-D2 graph requires a completed prefill'')) (\<lambda>_.
        Inr (e\<lparr>graph_ready := True\<rparr>)))"

definition device_reasoning_state :: "(reasoning_options \<times> device_reasoning) option \<Rightarrow> mtp_reasoning" where
  "device_reasoning_state reasoning =
     (case reasoning of
        None \<Rightarrow> no_mtp_reasoning
      | Some (opts, d) \<Rightarrow> \<lparr>mtp_open = channel_open_ids opts, mtp_close = channel_close_id opts, mtp_match = device_open_match d,
          mtp_enabled = reasoning_on opts, mtp_started = device_started d, mtp_complete = device_complete d,
          mtp_inside = device_in_reasoning d, mtp_forced = False, mtp_count = device_count d, mtp_maximum = max_reasoning opts\<rparr>)"

definition host_state :: "device_control \<Rightarrow> nat \<Rightarrow> mtp_state" where
  "host_state c step = \<lparr>input_token = control_token c, state_stopped = control_stopped c, state_stop_token = control_stop_token c,
     processed_position = control_position c, remaining_capacity = control_remaining c, write_position = control_written c,
     state_step = step\<rparr>"

definition device_prepare_control :: "device_setup \<Rightarrow> 'm device_engine \<Rightarrow> device_control \<Rightarrow> 'm device_engine result" where
  "device_prepare_control setup e c =
     (let q = device_reasoning_state (control_reasoning c); s = host_state c (engine_step e)
      in rbind (rguard (setup_drafts setup \<noteq> 0 \<and> control_remaining c \<noteq> 0 \<and> control_position c < setup_context setup \<and>
             control_remaining c \<le> setup_context setup - control_position c - 1 \<and>
             length (mtp_open q) \<le> maximum_open_tokens \<and> mtp_match q \<le> length (mtp_open q) \<and>
             (mtp_enabled q \<longrightarrow> mtp_open q \<noteq> [] \<and> mtp_maximum q \<noteq> 0))
           (session_invalid ''MTP device-control state is invalid'')) (\<lambda>_.
         Inr (e\<lparr>pinned_control := \<lparr>current_state = s, next_state = s, chain_reasoning = q, fixed_drafts = setup_drafts setup,
           control_proposals = 0, transition_valid = False, control_sampling = setup_sampling setup\<rparr>\<rparr>)))"

definition device_draft :: "'m network \<Rightarrow> device_setup \<Rightarrow> 'm device_engine \<Rightarrow> nat \<Rightarrow> nat \<Rightarrow> nat \<Rightarrow> 'm device_engine result" where
  "device_draft net setup e token start n =
     rbind (rguard (setup_drafts setup \<noteq> 0 \<and> has_hidden e \<and> n \<noteq> 0 \<and> n \<le> setup_drafts setup \<and> start < setup_context setup)
       (session_invalid ''active MTP proposal state is invalid'')) (\<lambda>_.
     Inr (e\<lparr>draft_buffer := propose net (model_state e) token start n\<rparr>))"

text \<open>The host repeats the transition that the device made.\<close>

definition validate_group :: "device_setup \<Rightarrow> nat \<Rightarrow> nat \<Rightarrow> nat \<Rightarrow> device_group \<Rightarrow> mtp_control \<Rightarrow> mtp_group result" where
  "validate_group setup token start n g c =
     (let s = current_state c; t = next_state c; k = group_outputs g
      in rbind (rguard (transition_valid c \<and> fixed_drafts c = setup_drafts setup \<and> control_proposals c = n \<and>
             input_token s = token \<and> processed_position s + 1 = start \<and> k \<noteq> 0 \<and>
             input_token t = group_verified g ! (k - 1) \<and> processed_position t = processed_position s + k \<and>
             remaining_capacity t = remaining_capacity s - k \<and> write_position t = write_position s + k \<and>
             state_step t = state_step s + (if control_sampling c then k else 0) \<and>
             state_stopped t = group_stopped g \<and> state_stop_token t = group_stop_token g)
           (Status KInternal ''GPU MTP device-control transition disagrees with host reference'')) (\<lambda>_.
         Inr (mtp_group.truncate g)))"

definition device_verify :: "'m network \<Rightarrow> device_setup \<Rightarrow> 'm device_engine \<Rightarrow> nat \<Rightarrow> nat \<Rightarrow> nat \<Rightarrow> ('m device_engine \<times> mtp_group) result" where
  "device_verify net setup e token start n =
     rbind (rguard (setup_drafts setup \<noteq> 0 \<and> n \<noteq> 0 \<and> n \<le> setup_drafts setup \<and> n + 1 \<le> 5 \<and> start < setup_context setup \<and>
         n + 1 \<le> setup_context setup - start)
       (session_invalid ''batched MTP verification extent is invalid'')) (\<lambda>_.
     let inputs = token # take n (draft_buffer e);
         verified = row_tokens net (model_state e) start (step_of setup (engine_step e)) inputs;
         (g, c) = accept_group (draft_buffer e) verified n (setup_stops setup) (pinned_control e);
         e' = e\<lparr>model_state := commit_rows net (model_state e) start inputs (group_outputs g), pinned_control := c\<rparr>
     in rbind (validate_group setup token start n g c) (\<lambda>group. Inr (count_steps setup (group_outputs g) e', group)))"

definition device_fixed_group :: "'m network \<Rightarrow> device_setup \<Rightarrow> 'm device_engine \<Rightarrow> nat \<Rightarrow> nat \<Rightarrow> ('m device_engine \<times> mtp_group) result" where
  "device_fixed_group net setup e token start =
     rbind (rguard (setup_drafts setup = 2 \<and> has_hidden e \<and> start \<noteq> 0 \<and> start < setup_context setup \<and> 3 \<le> setup_context setup - start)
       (session_invalid ''fixed-D2 graph state is invalid'')) (\<lambda>_.
     if \<not> graph_mode setup
     then rbind (device_draft net setup e token (start - 1) 2) (\<lambda>e. device_verify net setup e token start 2)
     else rbind (rguard (graph_ready e) (Status KInternal ''fixed-D2 graph was not prepared before generation'')) (\<lambda>_.
       case d2_group net setup (model_state e) (pinned_control e) of
         (g, c, m) \<Rightarrow> rbind (validate_group setup token start 2 g c) (\<lambda>group.
           Inr (e\<lparr>model_state := m, pinned_control := c\<rparr>, group))))"

text \<open>The caller's observer gets the published tokens in order, until it fails; the device then stops and the error is returned.\<close>

fun stream_tokens :: "'c observer option \<Rightarrow> 'c \<Rightarrow> nat list \<Rightarrow> 'c \<times> unit result" where
  "stream_tokens None c tokens = (c, Inr ())"
| "stream_tokens (Some f) c [] = (c, Inr ())"
| "stream_tokens (Some f) c (t # ts) =
     (case f c t of (c', Inl e) \<Rightarrow> (c', Inl e) | (c', Inr _) \<Rightarrow> stream_tokens (Some f) c' ts)"

definition chain_end :: "device_setup \<Rightarrow> 'm device_engine \<Rightarrow> 'm chain_state \<Rightarrow> ('m device_engine \<times> mtp_chain) result" where
  "chain_end setup e s =
     (let r = chain_counts s; start = write_position (current_state (pinned_control e));
          c = chain_control s; final = current_state c; q = chain_reasoning c
      in rbind (rguard (cc_proposed r = 2 * cc_groups r \<and> cc_accepted r + cc_rejected r = cc_proposed r \<and>
             cc_outputs r \<le> setup_context setup \<and> cc_proposed r \<le> 2 * setup_context setup)
           (Status KInternal ''fixed-D2 chain result is inconsistent'')) (\<lambda>_.
         rbind (rguard (length (chain_published s) = cc_outputs r)
           (Status KInternal ''fixed-D2 streaming token count is inconsistent'')) (\<lambda>_.
         rbind (rguard (write_position final = start + cc_outputs r \<and>
             state_step final = engine_step e + (if setup_sampling setup then cc_outputs r else 0) \<and>
             state_stopped final = cc_stopped r \<and> state_stop_token final = cc_stop_token r \<and>
             mtp_count q = cc_reasoning_count r \<and> mtp_complete q = cc_complete r \<and> mtp_forced q = cc_forced r)
           (Status KInternal ''fixed-D2 chain final state is inconsistent'')) (\<lambda>_.
         Inr (e\<lparr>model_state := chain_model s, engine_step := state_step final, pinned_control := c,
              output_array := chain_tokens s, proposal_array := chain_drafts s\<rparr>,
           \<lparr>chain_outputs = take (cc_outputs r) (drop start (chain_tokens s)),
            chain_proposals = take (cc_proposed r) (chain_drafts s), chain_accepted = of_nat (cc_accepted r),
            chain_rejected = of_nat (cc_rejected r), chain_groups = of_nat (cc_groups r), chain_tail = of_nat (cc_tail r),
            chain_reasoning_ordinary = of_nat (cc_reasoning_ordinary r), chain_reasoning_count = cc_reasoning_count r,
            chain_stopped = cc_stopped r, chain_stop_token = cc_stop_token r, chain_complete = cc_complete r,
            chain_forced = cc_forced r\<rparr>)))))"

text \<open>
  A chain that never ended would keep the caller waiting; it is given an error of its own here.  A chain
  generates in every turn, so the remaining capacity is enough fuel.
\<close>

definition device_chain :: "'m network \<Rightarrow> device_setup \<Rightarrow> 'm device_engine \<Rightarrow> 'c observer option \<Rightarrow> 'c \<Rightarrow>
    'c \<times> ('m device_engine \<times> mtp_chain) result" where
  "device_chain net setup e observer c =
     (if \<not> graph_ready e then (c, Inl (session_invalid ''fixed-D2 chain graph is unavailable''))
      else
        (case run_chain (remaining_capacity (current_state (pinned_control e))) net setup
            \<lparr>chain_model = model_state e, chain_control = pinned_control e, chain_counts = no_counts,
             chain_tokens = output_array e, chain_drafts = proposal_array e, chain_published = []\<rparr> of
           None \<Rightarrow> (c, Inl (Status KInternal ''the chain does not end''))
         | Some s \<Rightarrow>
             (case stream_tokens observer c (chain_published s) of
                (c', Inl err) \<Rightarrow> (c', Inl err)
              | (c', Inr _) \<Rightarrow> (c', chain_end setup e s))))"

definition device_parity :: "'m device_engine \<Rightarrow> device_control \<Rightarrow> unit result" where
  "device_parity e c =
     rguard (next_state (pinned_control e) = host_state c (engine_step e))
       (Status KInternal ''host MTP state disagrees with GPU device control'')"

definition device_ops :: "'m network \<Rightarrow> device_setup \<Rightarrow> (inference_result \<Rightarrow> inference_result) \<Rightarrow> ('m device_engine, 'c) engine_ops" where
  "device_ops net setup sizes = \<lparr>prefill_at = device_prefill net setup, forward = device_forward net setup,
     prepare_graph = device_prepare_graph setup, prepare_control = device_prepare_control setup,
     draft_tokens_at = device_draft net setup, verify_batch = device_verify net setup,
     fixed_group = device_fixed_group net setup, execute_chain = device_chain net setup,
     check_parity = device_parity, engine_sizes = (\<lambda>e. sizes)\<rparr>"

end
