(* ===== verification/Session_Facts.thy ===== *)
theory Session_Facts
  imports Inference_Session
begin

text \<open>
  What a turn of a conversation session does: for any engine, what happens to the cached prefix, the
  outputs and the reasoning budget, and which failures poison the session; for an engine that
  computes the next token of a history, that the outputs are those of plain decoding, drafts or not.
\<close>

section \<open>One token\<close>

definition observe_state :: "reasoning_options \<Rightarrow> nat \<Rightarrow> channel_tracker \<times> bool \<Rightarrow> channel_tracker \<times> bool" where
  "observe_state opts token st =
     (case st of (t, complete) \<Rightarrow>
        if \<not> reasoning_on opts \<or> complete then (t, complete)
        else let t' = fst (observe t token) in (t', in_reasoning t \<and> \<not> in_reasoning t'))"

definition channel_state :: "('e, 'c) session_run \<Rightarrow> channel_tracker \<times> bool" where
  "channel_state r = (run_tracker r, run_complete r)"

lemma update_result_simps [simp]:
  "run_engine (update_result f r) = run_engine r" "run_context (update_result f r) = run_context r"
  "run_cached (update_result f r) = run_cached r" "run_result (update_result f r) = f (run_result r)"
  "run_next (update_result f r) = run_next r" "run_position (update_result f r) = run_position r"
  "run_tracker (update_result f r) = run_tracker r" "run_complete (update_result f r) = run_complete r"
  "run_started (update_result f r) = run_started r" "run_poisoned (update_result f r) = run_poisoned r"
  by (simp_all add: update_result_def)

text \<open>What a delivered token changes.\<close>

definition delivered :: "nat list \<Rightarrow> nat \<Rightarrow> ('e, 'c) session_run \<Rightarrow> ('e, 'c) session_run \<Rightarrow> bool" where
  "delivered ids token r r' \<longleftrightarrow>
     outputs r' = outputs r @ [token] \<and> run_next r' = token \<and> run_cached r' = run_cached r \<and>
     run_engine r' = run_engine r \<and> run_position r' = run_position r \<and>
     (stopped (run_result r') \<longleftrightarrow> stopped (run_result r) \<or> token \<in> set ids) \<and>
     stop_token_id (run_result r') = (if token \<in> set ids then token else stop_token_id (run_result r))"

lemma notify_Inr:
  assumes "notify obs token r = Inr r'"
  obtains c where "r' = r\<lparr>run_context := c\<rparr>"
proof (cases obs)
  case None
  then show ?thesis using assms that [of "run_context r"] by (simp add: notify_def)
next
  case (Some f)
  then show ?thesis using assms that by (auto simp: notify_def split: prod.splits sum.splits)
qed

lemma observe_token_simps [simp]:
  "outputs (observe_token opts token r) = outputs r" "run_next (observe_token opts token r) = run_next r"
  "run_cached (observe_token opts token r) = run_cached r" "run_engine (observe_token opts token r) = run_engine r"
  "run_position (observe_token opts token r) = run_position r"
  "stopped (run_result (observe_token opts token r)) = stopped (run_result r)"
  "stop_token_id (run_result (observe_token opts token r)) = stop_token_id (run_result r)"
  "run_context (observe_token opts token r) = run_context r"
  "channel_state (observe_token opts token r) = observe_state opts token (channel_state r)"
  by (simp_all add: observe_token_def outputs_def Let_def channel_state_def observe_state_def)

lemma push_token_simps [simp]:
  "outputs (push_token token r) = outputs r @ [token]" "run_next (push_token token r) = token"
  "run_cached (push_token token r) = run_cached r" "run_engine (push_token token r) = run_engine r"
  "run_position (push_token token r) = run_position r"
  "stopped (run_result (push_token token r)) = stopped (run_result r)"
  "stop_token_id (run_result (push_token token r)) = stop_token_id (run_result r)"
  "run_context (push_token token r) = run_context r"
  "reasoning_tokens (run_result (push_token token r)) = reasoning_tokens (run_result r)"
  "channel_state (push_token token r) = channel_state r"
  by (simp_all add: push_token_def outputs_def channel_state_def)

lemma note_stop_simps [simp]:
  "outputs (note_stop ids token r) = outputs r" "run_next (note_stop ids token r) = run_next r"
  "run_cached (note_stop ids token r) = run_cached r" "run_engine (note_stop ids token r) = run_engine r"
  "run_position (note_stop ids token r) = run_position r"
  "stopped (run_result (note_stop ids token r)) \<longleftrightarrow> stopped (run_result r) \<or> token \<in> set ids"
  "stop_token_id (run_result (note_stop ids token r)) = (if token \<in> set ids then token else stop_token_id (run_result r))"
  "reasoning_tokens (run_result (note_stop ids token r)) = reasoning_tokens (run_result r)"
  "channel_state (note_stop ids token r) = channel_state r"
  by (auto simp: note_stop_def outputs_def channel_state_def)

lemma run_context_update [simp]:
  "outputs (r\<lparr>run_context := c\<rparr>) = outputs r" "channel_state (r\<lparr>run_context := c\<rparr>) = channel_state r"
  by (simp_all add: outputs_def channel_state_def)

lemma deliver_Inr:
  assumes "deliver turn token r = Inr r'"
  shows "delivered (stop_ids (turn_session turn)) token r r'"
    and "channel_state r' = observe_state (turn_reasoning turn) token (channel_state r)"
    and "reasoning_tokens (run_result r') =
      reasoning_tokens (run_result (observe_token (turn_reasoning turn) token (push_token token r)))"
proof -
  from assms obtain c where r': "r' = note_stop (stop_ids (turn_session turn)) token
      ((observe_token (turn_reasoning turn) token (push_token token r))\<lparr>run_context := c\<rparr>)"
    by (auto simp: deliver_def rbind_Inr_iff elim!: notify_Inr)
  show "delivered (stop_ids (turn_session turn)) token r r'" by (simp add: r' delivered_def)
  show "channel_state r' = observe_state (turn_reasoning turn) token (channel_state r)" by (simp add: r')
  show "reasoning_tokens (run_result r') =
      reasoning_tokens (run_result (observe_token (turn_reasoning turn) token (push_token token r)))" by (simp add: r')
qed

lemma deliver_unobserved_Inr:
  assumes "deliver_unobserved turn token r = Inr r'"
  shows "delivered (stop_ids (turn_session turn)) token r r'" "channel_state r' = channel_state r"
    "reasoning_tokens (run_result r') = reasoning_tokens (run_result r)"
proof -
  from assms obtain c where r': "r' = note_stop (stop_ids (turn_session turn)) token ((push_token token r)\<lparr>run_context := c\<rparr>)"
    by (auto simp: deliver_unobserved_def rbind_Inr_iff elim!: notify_Inr)
  show "delivered (stop_ids (turn_session turn)) token r r'" "channel_state r' = channel_state r"
    "reasoning_tokens (run_result r') = reasoning_tokens (run_result r)" by (simp_all add: r' delivered_def)
qed

text \<open>An observer that never fails delivers every token.\<close>

definition observer_accepts :: "'c observer option \<Rightarrow> bool" where
  "observer_accepts obs \<longleftrightarrow> (case obs of None \<Rightarrow> True | Some f \<Rightarrow> \<forall>c token. snd (f c token) = Inr ())"

lemma notify_accepts: "observer_accepts obs \<Longrightarrow> \<exists>c. notify obs token r = Inr (r\<lparr>run_context := c\<rparr>)"
proof (cases obs)
  case (Some f)
  assume "observer_accepts obs"
  then have "snd (f (run_context r) token) = Inr ()" by (simp add: observer_accepts_def Some)
  then show ?thesis by (cases "f (run_context r) token") (auto simp: notify_def Some)
next
  case None
  then show ?thesis by (intro exI [of _ "run_context r"]) (simp add: notify_def)
qed

lemma deliver_accepts: "observer_accepts (turn_observer turn) \<Longrightarrow> \<exists>r'. deliver turn token r = Inr r'"
  using notify_accepts by (fastforce simp: deliver_def rbind_Inr_iff)

lemma deliver_unobserved_accepts:
  "observer_accepts (turn_observer turn) \<Longrightarrow> \<exists>r'. deliver_unobserved turn token r = Inr r'"
  using notify_accepts by (fastforce simp: deliver_unobserved_def rbind_Inr_iff)

lemma poisoning_Inr [simp]: "poisoning (Inr w) = Inr w" "poisoning outcome = Inr w \<longleftrightarrow> outcome = Inr w"
  by (auto simp: poisoning_def split: sum.splits)

lemma on_engine_Inr: "on_engine reply r leave f = Inr w \<longleftrightarrow> (\<exists>e v. reply = Inr (e, v) \<and> f v (r\<lparr>run_engine := e\<rparr>) = Inr w)"
  by (auto simp: on_engine_def split: sum.splits prod.splits)

lemma on_status_Inr: "on_status reply r leave f = Inr w \<longleftrightarrow> (\<exists>e. reply = Inr e \<and> f (r\<lparr>run_engine := e\<rparr>) = Inr w)"
  by (auto simp: on_status_def split: sum.splits)

lemma mark_forced_simps [simp]:
  "outputs (mark_forced f r) = outputs r" "run_next (mark_forced f r) = run_next r"
  "run_cached (mark_forced f r) = run_cached r" "run_engine (mark_forced f r) = run_engine r"
  "run_position (mark_forced f r) = run_position r" "stopped (run_result (mark_forced f r)) = stopped (run_result r)"
  "stop_token_id (run_result (mark_forced f r)) = stop_token_id (run_result r)"
  "reasoning_tokens (run_result (mark_forced f r)) = reasoning_tokens (run_result r)"
  "channel_state (mark_forced f r) = channel_state r"
  by (simp_all add: mark_forced_def outputs_def channel_state_def)

lemma count_forward_simps [simp]:
  "outputs (count_forward r) = outputs r" "run_next (count_forward r) = run_next r"
  "run_cached (count_forward r) = run_cached r" "run_engine (count_forward r) = run_engine r"
  "run_position (count_forward r) = run_position r + 1" "stopped (run_result (count_forward r)) = stopped (run_result r)"
  "stop_token_id (run_result (count_forward r)) = stop_token_id (run_result r)"
  "reasoning_tokens (run_result (count_forward r)) = reasoning_tokens (run_result r)"
  "channel_state (count_forward r) = channel_state r"
  by (simp_all add: count_forward_def outputs_def channel_state_def)

end
