(* ===== verification/Session_Decode.thy ===== *)
theory Session_Decode
  imports Session_Facts
begin

text \<open>
  Plain decoding as the reference of a turn, and the agreement of the loops of
  src/cuda/inference_session.cuh with it, for an engine that computes the next token of its history.
\<close>

section \<open>The reference\<close>

text \<open>The thinking budget is spent: the next token is the end of the channel.\<close>

definition forced_close :: "reasoning_options \<Rightarrow> channel_tracker \<times> bool \<Rightarrow> bool" where
  "forced_close opts st \<longleftrightarrow> (case st of (t, complete) \<Rightarrow>
     \<not> complete \<and> in_reasoning t \<and> max_reasoning opts \<le> reasoning_count t)"

definition next_token :: "reasoning_options \<Rightarrow> channel_tracker \<times> bool \<Rightarrow> nat \<Rightarrow> nat" where
  "next_token opts st predicted = (if forced_close opts st then channel_close_id opts else predicted)"

text \<open>The tokens after \<open>token\<close>: at most \<open>n\<close>, none after a stop token; \<open>h\<close> is the history before it.\<close>

fun plain_decode :: "(nat \<Rightarrow> 'h \<Rightarrow> 'h) \<Rightarrow> ('h \<Rightarrow> nat) \<Rightarrow> reasoning_options \<Rightarrow> nat list \<Rightarrow> nat \<Rightarrow> 'h \<Rightarrow>
    channel_tracker \<times> bool \<Rightarrow> nat \<Rightarrow> nat list" where
  "plain_decode grow predict opts ids 0 h st token = []"
| "plain_decode grow predict opts ids (Suc n) h st token =
     (if token \<in> set ids then []
      else
        let h = grow token h; t = next_token opts st (predict h)
        in t # plain_decode grow predict opts ids n h (observe_state opts t st) t)"

definition plain_turn :: "(nat \<Rightarrow> 'h \<Rightarrow> 'h) \<Rightarrow> ('h \<Rightarrow> nat) \<Rightarrow> reasoning_options \<Rightarrow> nat list \<Rightarrow> nat \<Rightarrow> 'h \<Rightarrow> nat list" where
  "plain_turn grow predict opts ids limit h =
     (let t = predict h;
          st = (new_tracker (channel_open_ids opts) (channel_close_id opts) (starts_reasoning opts), \<not> reasoning_on opts)
      in t # plain_decode grow predict opts ids (limit - 1) h (observe_state opts t st) t)"

section \<open>An engine that computes the next token of its history\<close>

text \<open>
  How an engine is read: \<open>represents e h p\<close> says that its cache holds \<open>p\<close> positions of the history \<open>h\<close>,
  \<open>armed e c\<close> that its device control starts from the state \<open>c\<close> of the host, \<open>ready e c\<close> that a group left
  it expecting the state \<open>c\<close>.  \<open>grown\<close> adds a token to a history,
  \<open>absorbed\<close> a part of a prompt, \<open>predicted\<close> is the token after it.
\<close>

record ('e, 'h) decoder =
  represents :: "'e \<Rightarrow> 'h \<Rightarrow> nat \<Rightarrow> bool"
  armed :: "'e \<Rightarrow> device_control \<Rightarrow> bool"
  ready :: "'e \<Rightarrow> device_control \<Rightarrow> bool"
  grown :: "nat \<Rightarrow> 'h \<Rightarrow> 'h"
  predicted :: "'h \<Rightarrow> nat"
  absorbed :: "'h \<Rightarrow> nat list \<Rightarrow> audio_segment list \<Rightarrow> vision_segment list \<Rightarrow> 'h"

definition advance_control :: "nat list \<Rightarrow> device_control \<Rightarrow> nat list \<Rightarrow> device_control" where
  "advance_control ids c out = c\<lparr>control_token := last out, control_position := control_position c + length out,
     control_remaining := control_remaining c - length out, control_written := control_written c + length out,
     control_stopped := last out \<in> set ids, control_stop_token := (if last out \<in> set ids then last out else 0),
     control_reasoning := None\<rparr>"

text \<open>The room that a control has for what remains to be generated.\<close>

definition control_fits :: "nat \<Rightarrow> device_control \<Rightarrow> bool" where
  "control_fits cap c \<longleftrightarrow> control_remaining c \<noteq> 0 \<and> control_position c < cap \<and>
     control_remaining c \<le> cap - control_position c - 1 \<and> \<not> control_stopped c \<and> control_stop_token c = 0 \<and>
     control_token c < vocabulary_tokens"

text \<open>
  A verified group is a prefix of what plain decoding gives after the last token: at most one token more
  than was drafted, and nothing after a stop token.
\<close>

definition decodes_group :: "('e, 'h) decoder \<Rightarrow> nat list \<Rightarrow> 'h \<Rightarrow> nat \<Rightarrow> device_control \<Rightarrow> nat \<Rightarrow> ('e \<times> mtp_group) result \<Rightarrow> bool" where
  "decodes_group d ids h p c n reply \<longleftrightarrow>
     (\<exists>e' g. reply = Inr (e', g) \<and>
        (let out = take (group_outputs g) (group_verified g)
         in length out = group_outputs g \<and> out \<noteq> [] \<and> length out \<le> n + 1 \<and>
            (\<forall>i < length out. out ! i = predicted d (fold (grown d) (control_token c # take i out) h)) \<and>
            set (butlast out) \<inter> set ids = {} \<and>
            represents d e' (fold (grown d) (control_token c # butlast out) h) (p + length out) \<and>
            ready d e' (advance_control ids c out)))"

definition drafts_group :: "('e, 'c) engine_ops \<Rightarrow> ('e, 'h) decoder \<Rightarrow> nat list \<Rightarrow> 'e \<Rightarrow> 'h \<Rightarrow> nat \<Rightarrow> device_control \<Rightarrow> nat \<Rightarrow> bool" where
  "drafts_group ops d ids e h p c n \<longleftrightarrow>
     (\<exists>e1. draft_tokens_at ops e (control_token c) (control_position c) n = Inr e1 \<and>
        decodes_group d ids h p c n (verify_batch ops e1 (control_token c) p n))"

definition decodes :: "('e, 'c) engine_ops \<Rightarrow> ('e, 'h) decoder \<Rightarrow> 'e conversation \<Rightarrow> bool" where
  "decodes ops d s \<longleftrightarrow>
     (\<forall>h. predicted d h < vocabulary_tokens) \<and>
     (\<forall>e h p suffix audio vision. represents d e h p \<longrightarrow> suffix \<noteq> [] \<longrightarrow> p + length suffix \<le> context_limit s \<longrightarrow>
        (\<exists>e'. prefill_at ops e suffix p audio vision = Inr (e', predicted d (absorbed d h suffix audio vision)) \<and>
              represents d e' (absorbed d h suffix audio vision) (p + length suffix))) \<and>
     (\<forall>e h p token. represents d e h p \<longrightarrow> p < context_limit s \<longrightarrow> token < vocabulary_tokens \<longrightarrow>
        (\<exists>e'. forward ops e token p = Inr (e', predicted d (grown d token h)) \<and> represents d e' (grown d token h) (p + 1))) \<and>
     (\<forall>e h p c. represents d e h p \<longrightarrow> session_drafts s \<noteq> 0 \<longrightarrow> control_fits (context_limit s) c \<longrightarrow> control_position c + 1 = p \<longrightarrow>
        control_reasoning c = None \<longrightarrow>
        (\<exists>e'. prepare_control ops e c = Inr e' \<and> represents d e' h p \<and> armed d e' c)) \<and>
     (\<forall>e h p c n. represents d e h p \<longrightarrow> armed d e c \<longrightarrow> control_fits (context_limit s) c \<longrightarrow> control_position c + 1 = p \<longrightarrow>
        0 < n \<longrightarrow> n < control_remaining c \<longrightarrow> n \<le> session_drafts s \<longrightarrow> session_drafts s \<le> 4 \<longrightarrow>
        drafts_group ops d (stop_ids s) e h p c n) \<and>
     (\<forall>e h p c. represents d e h p \<longrightarrow> armed d e c \<longrightarrow> control_fits (context_limit s) c \<longrightarrow> control_position c + 1 = p \<longrightarrow>
        2 < control_remaining c \<longrightarrow> session_drafts s = 2 \<longrightarrow>
        \<not> (session_kv_mode s = CheckpointFp8 \<and> sliding_tokens < context_limit s) \<longrightarrow>
        decodes_group d (stop_ids s) h p c 2 (fixed_group ops e (control_token c) p)) \<and>
     (\<forall>e c. ready d e c \<longrightarrow> check_parity ops e c = Inr ()) \<and>
     (\<forall>e h p. represents d e h p \<longrightarrow> 0 < p \<longrightarrow> (\<exists>e'. prepare_graph ops e = Inr e' \<and> represents d e' h p))"

lemma decodesD:
  assumes "decodes ops d s"
  shows "predicted d h < vocabulary_tokens"
    and "represents d e h p \<Longrightarrow> suffix \<noteq> [] \<Longrightarrow> p + length suffix \<le> context_limit s \<Longrightarrow>
      \<exists>e'. prefill_at ops e suffix p audio vision = Inr (e', predicted d (absorbed d h suffix audio vision)) \<and>
        represents d e' (absorbed d h suffix audio vision) (p + length suffix)"
    and "represents d e h p \<Longrightarrow> p < context_limit s \<Longrightarrow> token < vocabulary_tokens \<Longrightarrow>
      \<exists>e'. forward ops e token p = Inr (e', predicted d (grown d token h)) \<and> represents d e' (grown d token h) (p + 1)"
    and "represents d e h p \<Longrightarrow> session_drafts s \<noteq> 0 \<Longrightarrow> control_fits (context_limit s) c \<Longrightarrow> control_position c + 1 = p \<Longrightarrow>
      control_reasoning c = None \<Longrightarrow> \<exists>e'. prepare_control ops e c = Inr e' \<and> represents d e' h p \<and> armed d e' c"
    and "represents d e h p \<Longrightarrow> armed d e c \<Longrightarrow> control_fits (context_limit s) c \<Longrightarrow> control_position c + 1 = p \<Longrightarrow> 0 < n \<Longrightarrow>
      n < control_remaining c \<Longrightarrow> n \<le> session_drafts s \<Longrightarrow> session_drafts s \<le> 4 \<Longrightarrow> drafts_group ops d (stop_ids s) e h p c n"
    and "represents d e h p \<Longrightarrow> armed d e c \<Longrightarrow> control_fits (context_limit s) c \<Longrightarrow> control_position c + 1 = p \<Longrightarrow>
      2 < control_remaining c \<Longrightarrow> session_drafts s = 2 \<Longrightarrow>
      \<not> (session_kv_mode s = CheckpointFp8 \<and> sliding_tokens < context_limit s) \<Longrightarrow>
      decodes_group d (stop_ids s) h p c 2 (fixed_group ops e (control_token c) p)"
    and "ready d e c \<Longrightarrow> check_parity ops e c = Inr ()"
    and "represents d e h p \<Longrightarrow> 0 < p \<Longrightarrow> \<exists>e'. prepare_graph ops e = Inr e' \<and> represents d e' h p"
  using assms unfolding decodes_def by (elim conjE, metis)+

section \<open>Plain decoding\<close>

lemma plain_decode_stop [simp]: "token \<in> set ids \<Longrightarrow> plain_decode grow predict opts ids n h st token = []"
  by (cases n) auto

lemma observe_state_complete [simp]: "snd st \<Longrightarrow> observe_state opts t st = st"
  by (cases st) (simp add: observe_state_def)

lemma next_token_complete [simp]: "snd st \<Longrightarrow> next_token opts st t = t"
  by (cases st) (simp add: next_token_def forced_close_def)

text \<open>A verified group is what plain decoding gives once the model cannot reason any more.\<close>

lemma plain_decode_group:
  assumes "snd st" "token \<notin> set ids" "out \<noteq> []" "set (butlast out) \<inter> set ids = {}"
    "\<And>i. i < length out \<Longrightarrow> out ! i = predict (fold grow (token # take i out) h)"
  shows "plain_decode grow predict opts ids (length out + m) h st token =
    out @ plain_decode grow predict opts ids m (fold grow (token # butlast out) h) st (last out)"
  using assms(2-)
proof (induction out arbitrary: h token)
  case (Cons x xs)
  have x: "x = predict (grow token h)" using Cons.prems(4) [of 0] by simp
  show ?case
  proof (cases "xs = []")
    case True
    then show ?thesis using Cons.prems(1) x assms(1) by (simp add: Let_def)
  next
    case False
    have nth: "xs ! i = predict (fold grow (x # take i xs) (grow token h))" if "i < length xs" for i
      using Cons.prems(4) [of "Suc i"] that by simp
    have "plain_decode grow predict opts ids (length xs + m) (grow token h) st x =
        xs @ plain_decode grow predict opts ids m (fold grow (x # butlast xs) (grow token h)) st (last xs)"
      using Cons.IH [of x "grow token h"] Cons.prems(3) False nth by auto
    then show ?thesis using Cons.prems(1) x assms(1) False by (simp add: Let_def)
  qed
qed simp

section \<open>The state between two steps\<close>

text \<open>The engine holds the prompt and every output but the last, which is the next input.\<close>

definition synced :: "('e, 'h) decoder \<Rightarrow> ('e, 'c) turn \<Rightarrow> 'h \<Rightarrow> nat \<Rightarrow> ('e, 'c) session_run \<Rightarrow> bool" where
  "synced d turn h base r \<longleftrightarrow>
     outputs r \<noteq> [] \<and> run_next r = last (outputs r) \<and> 0 < base \<and> run_next r < vocabulary_tokens \<and>
     (stopped (run_result r) \<longleftrightarrow> run_next r \<in> set (stop_ids (turn_session turn))) \<and>
     stop_token_id (run_result r) = (if run_next r \<in> set (stop_ids (turn_session turn)) then run_next r else 0) \<and>
     represents d (run_engine r) (fold (grown d) (butlast (outputs r)) h) (base + length (butlast (outputs r)))"

abbreviation plain_rest where
  "plain_rest d turn h n r \<equiv>
     plain_decode (grown d) (predicted d) (turn_reasoning turn) (stop_ids (turn_session turn)) n
       (fold (grown d) (butlast (outputs r)) h) (channel_state r) (run_next r)"

definition turn_ok :: "('e, 'h) decoder \<Rightarrow> ('e, 'c) turn \<Rightarrow> bool" where
  "turn_ok d turn \<longleftrightarrow> decodes (turn_ops turn) d (turn_session turn) \<and> observer_accepts (turn_observer turn) \<and>
     (reasoning_on (turn_reasoning turn) \<longrightarrow> channel_close_id (turn_reasoning turn) < vocabulary_tokens)"

lemma fold_grown_butlast: "xs \<noteq> [] \<Longrightarrow> fold f xs h = f (last xs) (fold f (butlast xs) h)"
  by (induction xs arbitrary: h) auto

lemma synced_running:
  "synced d turn h base r \<Longrightarrow> \<not> stopped (run_result r) \<Longrightarrow> run_next r \<notin> set (stop_ids (turn_session turn))"
  unfolding synced_def by blast

lemma synced_stopped:
  "synced d turn h base r \<Longrightarrow> stopped (run_result r) \<Longrightarrow> run_next r \<in> set (stop_ids (turn_session turn))"
  unfolding synced_def by blast

lemma synced_next: "synced d turn h base r \<Longrightarrow> run_next r = last (outputs r) \<and> outputs r \<noteq> [] \<and> run_next r < vocabulary_tokens"
  by (simp add: synced_def)

lemma synced_represents:
  "synced d turn h base r \<Longrightarrow>
   represents d (run_engine r) (fold (grown d) (butlast (outputs r)) h) (base + length (butlast (outputs r)))"
  by (simp add: synced_def)

lemma synced_snoc:
  assumes "synced d turn h base r" "\<not> stopped (run_result r)" "t < vocabulary_tokens"
    and "delivered (stop_ids (turn_session turn)) t q r'" "outputs q = outputs r" "stopped (run_result q) = stopped (run_result r)"
    and "stop_token_id (run_result q) = stop_token_id (run_result r)"
    and "represents d (run_engine q) (fold (grown d) (outputs r) h) (base + length (outputs r))"
  shows "synced d turn h base r'" "outputs r' = outputs r @ [t]" "run_next r' = t"
proof -
  show out: "outputs r' = outputs r @ [t]" and next_t: "run_next r' = t" using assms(4,5) by (simp_all add: delivered_def)
  have "stop_token_id (run_result r) = 0" using assms(1) synced_running [OF assms(1,2)] by (simp add: synced_def)
  then have "stopped (run_result r') \<longleftrightarrow> t \<in> set (stop_ids (turn_session turn))"
    "stop_token_id (run_result r') = (if t \<in> set (stop_ids (turn_session turn)) then t else 0)" "run_engine r' = run_engine q"
    using assms(2,4,6,7) by (simp_all add: delivered_def)
  then show "synced d turn h base r'" using assms(1,3,8) by (simp add: synced_def out next_t)
qed

text \<open>One forward pass.\<close>

lemma forward_token:
  assumes "turn_ok d turn" "synced d turn h base r" "base + length (butlast (outputs r)) < context_limit (turn_session turn)"
  obtains e' where "forward (turn_ops turn) (run_engine r) (run_next r) (base + length (butlast (outputs r))) =
      Inr (e', predicted d (fold (grown d) (outputs r) h))"
    "represents d e' (fold (grown d) (outputs r) h) (base + length (outputs r))"
    "predicted d (fold (grown d) (outputs r) h) < vocabulary_tokens"
proof -
  from assms(1) have d: "decodes (turn_ops turn) d (turn_session turn)" by (simp add: turn_ok_def)
  have next_r: "fold (grown d) (outputs r) h = grown d (run_next r) (fold (grown d) (butlast (outputs r)) h)"
    "length (outputs r) = length (butlast (outputs r)) + 1"
    using synced_next [OF assms(2)] fold_grown_butlast [of "outputs r" "grown d" h] by simp_all
  from decodesD(3) [OF d synced_represents [OF assms(2)] assms(3)] synced_next [OF assms(2)] decodesD(1) [OF d]
  show thesis using that unfolding next_r by (metis add.assoc)
qed

text \<open>What an observed and an unobserved token after it leave.\<close>

lemma deliver_observed:
  assumes "turn_ok d turn" "synced d turn h base r" "\<not> stopped (run_result r)"
    and "outputs q = outputs r" "stopped (run_result q) = stopped (run_result r)" "channel_state q = channel_state r"
    and "stop_token_id (run_result q) = stop_token_id (run_result r)"
    and "represents d (run_engine q) (fold (grown d) (outputs r) h) (base + length (outputs r))"
    and "t = next_token (turn_reasoning turn) (channel_state r) (predicted d (fold (grown d) (outputs r) h))" "t < vocabulary_tokens"
  obtains r' where "deliver turn t q = Inr r'" "synced d turn h base r'" "outputs r' = outputs r @ [t]"
    "run_cached r' = run_cached q" "run_position r' = run_position q"
    "\<And>n. plain_rest d turn h (Suc n) r = t # plain_rest d turn h n r'"
proof -
  from assms(1) obtain r' where r': "deliver turn t q = Inr r'" using deliver_accepts unfolding turn_ok_def by metis
  note c = deliver_Inr [OF r']
  note s = synced_snoc [OF assms(2,3,10) c(1) assms(4,5,7,8)]
  have rest: "plain_rest d turn h (Suc n) r = t # plain_rest d turn h n r'" for n
    using synced_running [OF assms(2,3)] synced_next [OF assms(2)] assms(6,9) c(1,2) s(2,3) fold_grown_butlast [of "outputs r" "grown d" h]
    by (simp add: delivered_def Let_def)
  show thesis by (rule that [OF r' s(1,2) _ _ rest]) (use c(1) in \<open>simp_all add: delivered_def\<close>)
qed

lemma deliver_plain:
  assumes "turn_ok d turn" "synced d turn h base r" "\<not> stopped (run_result r)"
    and "outputs q = outputs r" "stopped (run_result q) = stopped (run_result r)" "channel_state q = channel_state r"
    and "stop_token_id (run_result q) = stop_token_id (run_result r)"
    and "represents d (run_engine q) (fold (grown d) (outputs r) h) (base + length (outputs r))"
    and "t = predicted d (fold (grown d) (outputs r) h)" "t < vocabulary_tokens" "snd (channel_state r)"
  obtains r' where "deliver_unobserved turn t q = Inr r'" "synced d turn h base r'" "outputs r' = outputs r @ [t]"
    "run_position r' = run_position q" "channel_state r' = channel_state r"
    "\<And>n. plain_rest d turn h (Suc n) r = t # plain_rest d turn h n r'"
proof -
  from assms(1) obtain r' where r': "deliver_unobserved turn t q = Inr r'"
    using deliver_unobserved_accepts unfolding turn_ok_def by metis
  note c = deliver_unobserved_Inr [OF r']
  note s = synced_snoc [OF assms(2,3,10) c(1) assms(4,5,7,8)]
  have rest: "plain_rest d turn h (Suc n) r = t # plain_rest d turn h n r'" for n
    using synced_running [OF assms(2,3)] synced_next [OF assms(2)] assms(6,9,11) c(1,2) s(2,3) fold_grown_butlast [of "outputs r" "grown d" h]
    by (simp add: delivered_def Let_def)
  show thesis by (rule that [OF r' s(1,2) _ _ rest]) (use c(1,2) assms(6) in \<open>simp_all add: delivered_def\<close>)
qed

section \<open>The loops that forward one token at a time\<close>

lemma forced_close_state: "forced_close opts (channel_state r) \<longleftrightarrow> \<not> run_complete r \<and> budget_spent opts r"
  by (simp add: forced_close_def channel_state_def budget_spent_def)

lemma run_engine_update [simp]:
  "outputs (r\<lparr>run_engine := e\<rparr>) = outputs r" "channel_state (r\<lparr>run_engine := e\<rparr>) = channel_state r"
  "outputs (r\<lparr>run_cached := ids\<rparr>) = outputs r" "channel_state (r\<lparr>run_cached := ids\<rparr>) = channel_state r"
  by (simp_all add: outputs_def channel_state_def)

text \<open>A channel that is not complete belongs to a request with reasoning.\<close>

definition reasoning_state_ok :: "reasoning_options \<Rightarrow> channel_tracker \<times> bool \<Rightarrow> bool" where
  "reasoning_state_ok opts st \<longleftrightarrow> reasoning_on opts \<or> snd st"

lemma reasoning_state_ok_observe [simp]: "reasoning_state_ok opts (observe_state opts t st) \<longleftrightarrow> reasoning_state_ok opts st"
  by (cases st) (auto simp: reasoning_state_ok_def observe_state_def Let_def)

lemma next_token_vocabulary:
  assumes "turn_ok d turn" "reasoning_state_ok (turn_reasoning turn) st" "token < vocabulary_tokens"
  shows "next_token (turn_reasoning turn) st token < vocabulary_tokens"
  using assms by (cases st) (auto simp: next_token_def forced_close_def turn_ok_def reasoning_state_ok_def)

lemma ordinary_step_plain:
  assumes "turn_ok d turn" "synced d turn h base r" "\<not> stopped (run_result r)"
    and "length (run_cached r) = base + length (butlast (outputs r))" "length (run_cached r) < context_limit (turn_session turn)"
    and "reasoning_state_ok (turn_reasoning turn) (channel_state r)"
  obtains r' where "ordinary_step turn r = Inr r'" "synced d turn h base r'" "outputs r' = outputs r @ [run_next r']"
    "length (run_cached r') = base + length (butlast (outputs r'))" "reasoning_state_ok (turn_reasoning turn) (channel_state r')"
    "\<And>n. plain_rest d turn h (Suc n) r = run_next r' # plain_rest d turn h n r'"
proof -
  let ?p = "predicted d (fold (grown d) (outputs r) h)"
  have room: "base + length (butlast (outputs r)) < context_limit (turn_session turn)" using assms(4,5) by simp
  obtain e' where e': "forward (turn_ops turn) (run_engine r) (run_next r) (base + length (butlast (outputs r))) = Inr (e', ?p)"
    "represents d e' (fold (grown d) (outputs r) h) (base + length (outputs r))" "?p < vocabulary_tokens"
    by (rule forward_token [OF assms(1,2) room])
  let ?t = "next_token (turn_reasoning turn) (channel_state r) ?p"
  let ?q = "mark_forced (forced_close (turn_reasoning turn) (channel_state r))
    (r\<lparr>run_engine := e', run_cached := run_cached r @ [run_next r]\<rparr>)"
  obtain r' where r': "deliver turn ?t ?q = Inr r'" "synced d turn h base r'" "outputs r' = outputs r @ [?t]"
    "run_cached r' = run_cached ?q" "run_position r' = run_position ?q"
    "\<And>n. plain_rest d turn h (Suc n) r = ?t # plain_rest d turn h n r'"
    by (rule deliver_observed [OF assms(1-3), where q = ?q and t = ?t])
      (use e' next_token_vocabulary [OF assms(1,6) e'(3)] in simp_all)
  have step: "ordinary_step turn r = Inr r'"
    using r'(1) e'(1) by (simp add: ordinary_step_def on_engine_def assms(4) Let_def forced_close_state next_token_def)
  have t: "run_next r' = ?t" using r'(2,3) by (simp add: synced_def)
  have ok: "reasoning_state_ok (turn_reasoning turn) (channel_state r')" using deliver_Inr(2) [OF r'(1)] assms(6) by simp
  show thesis
    by (rule that [OF step r'(2) _ _ ok]) (use r' assms(4) synced_next [OF assms(2)] in \<open>simp_all add: t\<close>)
qed

lemma ordinary_loop_plain:
  assumes "turn_ok d turn" "synced d turn h base r" "length (run_cached r) = base + length (butlast (outputs r))"
    and "base + length (butlast (outputs r)) + n \<le> context_limit (turn_session turn)"
    and "reasoning_state_ok (turn_reasoning turn) (channel_state r)"
  shows "\<exists>r'. ordinary_loop turn n r = Inr r' \<and> synced d turn h base r' \<and> outputs r' = outputs r @ plain_rest d turn h n r"
  using assms(2-)
proof (induction n arbitrary: r)
  case (Suc n)
  show ?case
  proof (cases "stopped (run_result r)")
    case True
    then show ?thesis using Suc.prems(1) synced_stopped [OF Suc.prems(1)] by simp
  next
    case False
    have "length (run_cached r) < context_limit (turn_session turn)" using Suc.prems(2,3) by simp
    from ordinary_step_plain [OF assms(1) Suc.prems(1) False Suc.prems(2) this Suc.prems(4)]
    obtain r' where r': "ordinary_step turn r = Inr r'" "synced d turn h base r'" "outputs r' = outputs r @ [run_next r']"
      "length (run_cached r') = base + length (butlast (outputs r'))" "reasoning_state_ok (turn_reasoning turn) (channel_state r')"
      "\<And>n. plain_rest d turn h (Suc n) r = run_next r' # plain_rest d turn h n r'" by metis
    have "0 < length (outputs r)" using synced_next [OF Suc.prems(1)] by simp
    then have "base + length (butlast (outputs r')) + n \<le> context_limit (turn_session turn)" using Suc.prems(3) by (simp add: r'(3))
    from Suc.IH [OF r'(2,4) this r'(5)] show ?thesis using False r'(1,3,6) by (auto simp del: plain_decode.simps)
  qed
qed simp

lemma reasoning_step_plain:
  assumes "turn_ok d turn" "synced d turn h base r" "\<not> stopped (run_result r)" "\<not> run_complete r"
    and "run_position r + 1 = base + length (butlast (outputs r))"
    and "base + length (butlast (outputs r)) < context_limit (turn_session turn)"
    and "reasoning_state_ok (turn_reasoning turn) (channel_state r)"
  obtains r' where "reasoning_step turn r = Inr r'" "synced d turn h base r'" "outputs r' = outputs r @ [run_next r']"
    "run_position r' + 1 = base + length (butlast (outputs r'))" "reasoning_state_ok (turn_reasoning turn) (channel_state r')"
    "\<And>n. plain_rest d turn h (Suc n) r = run_next r' # plain_rest d turn h n r'"
proof -
  let ?p = "predicted d (fold (grown d) (outputs r) h)"
  obtain e' where e': "forward (turn_ops turn) (run_engine r) (run_next r) (base + length (butlast (outputs r))) = Inr (e', ?p)"
    "represents d e' (fold (grown d) (outputs r) h) (base + length (outputs r))" "?p < vocabulary_tokens"
    by (rule forward_token [OF assms(1,2,6)])
  let ?t = "next_token (turn_reasoning turn) (channel_state r) ?p"
  let ?q = "mark_forced (forced_close (turn_reasoning turn) (channel_state r))
    (update_result (\<lambda>v. v\<lparr>reasoning_ordinary_target_tokens := reasoning_ordinary_target_tokens v + 1\<rparr>)
      (count_forward (r\<lparr>run_engine := e'\<rparr>)))"
  have q: "outputs ?q = outputs r" "channel_state ?q = channel_state r"
    by (simp_all add: outputs_def channel_state_def count_forward_def mark_forced_def)
  obtain r' where r': "deliver turn ?t ?q = Inr r'" "synced d turn h base r'" "outputs r' = outputs r @ [?t]"
    "run_cached r' = run_cached ?q" "run_position r' = run_position ?q"
    "\<And>n. plain_rest d turn h (Suc n) r = ?t # plain_rest d turn h n r'"
    by (rule deliver_observed [OF assms(1-3), where q = ?q and t = ?t])
      (use e' q next_token_vocabulary [OF assms(1,7) e'(3)] in simp_all)
  have pos: "Suc (run_position r) = base + length (butlast (outputs r))" using assms(5) by simp
  have step: "reasoning_step turn r = Inr r'"
    using r'(1) e'(1) assms(4)
    by (simp del: length_butlast add: reasoning_step_def on_engine_def pos Let_def forced_close_state next_token_def)
  have t: "run_next r' = ?t" using r'(2,3) by (simp add: synced_def)
  have ok: "reasoning_state_ok (turn_reasoning turn) (channel_state r')" using deliver_Inr(2) [OF r'(1)] assms(7) q(2) by simp
  have "0 < length (outputs r)" using synced_next [OF assms(2)] by simp
  then show thesis by (intro that [OF step r'(2) _ _ ok]) (use r' pos in \<open>simp_all add: t\<close>)
qed

lemma reasoning_loop_plain:
  assumes "turn_ok d turn" "synced d turn h base r" "run_position r + 1 = base + length (butlast (outputs r))"
    and "base + length (butlast (outputs r)) + n \<le> context_limit (turn_session turn)"
    and "reasoning_state_ok (turn_reasoning turn) (channel_state r)"
  shows "\<exists>r' m. reasoning_loop turn n r = Inr r' \<and> synced d turn h base r' \<and>
    run_position r' + 1 = base + length (butlast (outputs r')) \<and> length (outputs r') + m = length (outputs r) + n \<and>
    (m = 0 \<or> stopped (run_result r') \<or> run_complete r') \<and>
    outputs r @ plain_rest d turn h n r = outputs r' @ plain_rest d turn h m r'"
  using assms(2-)
proof (induction n arbitrary: r)
  case (Suc n)
  show ?case
  proof (cases "stopped (run_result r) \<or> run_complete r")
    case True
    then show ?thesis using Suc.prems by (intro exI [of _ r] exI [of _ "Suc n"]) auto
  next
    case False
    then have run: "\<not> stopped (run_result r)" "\<not> run_complete r" by auto
    have "base + length (butlast (outputs r)) < context_limit (turn_session turn)" using Suc.prems(3) by simp
    from reasoning_step_plain [OF assms(1) Suc.prems(1) run Suc.prems(2) this Suc.prems(4)]
    obtain r' where r': "reasoning_step turn r = Inr r'" "synced d turn h base r'" "outputs r' = outputs r @ [run_next r']"
      "run_position r' + 1 = base + length (butlast (outputs r'))" "reasoning_state_ok (turn_reasoning turn) (channel_state r')"
      "\<And>n. plain_rest d turn h (Suc n) r = run_next r' # plain_rest d turn h n r'" by metis
    have "0 < length (outputs r)" using synced_next [OF Suc.prems(1)] by simp
    then have "base + length (butlast (outputs r')) + n \<le> context_limit (turn_session turn)" using Suc.prems(3) by (simp add: r'(3))
    from Suc.IH [OF r'(2,4) this r'(5)] show ?thesis using False r'(1,3,6) by (auto simp del: plain_decode.simps)
  qed
qed (auto intro!: exI [of _ "0 :: nat"])

section \<open>The loop of verification groups\<close>

lemma deliver_group_plain:
  assumes "observer_accepts (turn_observer turn)" "out \<noteq> []" "\<not> stopped (run_result q)" "stop_token_id (run_result q) = 0"
    and "set (butlast out) \<inter> set (stop_ids (turn_session turn)) = {}"
  shows "\<exists>r'. deliver_group turn out q = Inr r' \<and> outputs r' = outputs q @ out \<and> run_next r' = last out \<and>
    (stopped (run_result r') \<longleftrightarrow> last out \<in> set (stop_ids (turn_session turn))) \<and>
    stop_token_id (run_result r') = (if last out \<in> set (stop_ids (turn_session turn)) then last out else 0) \<and>
    run_engine r' = run_engine q \<and> run_position r' = run_position q \<and> channel_state r' = channel_state q"
  using assms(2-)
proof (induction out arbitrary: q)
  case (Cons x xs)
  from deliver_unobserved_accepts [OF assms(1)] obtain p where p: "deliver_unobserved turn x q = Inr p" by metis
  note c = deliver_unobserved_Inr [OF p]
  show ?case
  proof (cases "xs = []")
    case True
    then show ?thesis using p c Cons.prems(2,3) by (auto simp: delivered_def)
  next
    case False
    then have "x \<notin> set (stop_ids (turn_session turn))" using Cons.prems(4) by auto
    then have "\<not> stopped (run_result p)" "stop_token_id (run_result p) = 0" using c Cons.prems(2,3) by (simp_all add: delivered_def)
    moreover have "set (butlast xs) \<inter> set (stop_ids (turn_session turn)) = {}" using Cons.prems(4) False by auto
    ultimately show ?thesis using Cons.IH [of p] False p c by (auto simp: delivered_def)
  qed
qed simp

lemma record_group_simps [simp]:
  "outputs (record_group n g r) = outputs r" "run_next (record_group n g r) = run_next r"
  "run_engine (record_group n g r) = run_engine r" "run_position (record_group n g r) = run_position r + group_outputs g"
  "stopped (run_result (record_group n g r)) = stopped (run_result r)" "channel_state (record_group n g r) = channel_state r"
  "stop_token_id (run_result (record_group n g r)) = stop_token_id (run_result r)"
  by (simp_all add: record_group_def outputs_def channel_state_def)

text \<open>However the drafts are made, the group is one of the engine's; \<open>c\<close> is the control that was prepared.\<close>

lemma run_group_decodes:
  assumes "turn_ok d turn" "represents d (run_engine r) h p" "armed d (run_engine r) c"
    and "control_fits (context_limit (turn_session turn)) c" "control_token c = run_next r" "control_position c = run_position r"
    and "run_position r + 1 = p" "0 < n" "n < control_remaining c" "n \<le> session_drafts (turn_session turn)"
    and "session_drafts (turn_session turn) \<le> 4" "\<not> (3 \<le> control_remaining c \<and> chain_capable turn)"
  obtains q g where "\<And>f. run_group turn n r f = f g q"
    "decodes_group d (stop_ids (turn_session turn)) h p c n (Inr (run_engine q, g))"
    "outputs q = outputs r" "stopped (run_result q) = stopped (run_result r)" "channel_state q = channel_state r"
    "run_position q = run_position r" "stop_token_id (run_result q) = stop_token_id (run_result r)"
proof -
  from assms(1) have d: "decodes (turn_ops turn) d (turn_session turn)" by (simp add: turn_ok_def)
  have p: "control_position c + 1 = p" using assms(6,7) by simp
  show thesis
  proof (cases "n = 2 \<and> session_drafts (turn_session turn) = 2 \<and> \<not> session_adaptive (turn_session turn)")
    case True
    then have mode: "\<not> (session_kv_mode (turn_session turn) = CheckpointFp8 \<and> sliding_tokens < context_limit (turn_session turn))"
      using assms(9,12) by (simp add: chain_capable_def Let_def)
    have "decodes_group d (stop_ids (turn_session turn)) h p c n (fixed_group (turn_ops turn) (run_engine r) (run_next r) p)"
      using decodesD(6) [OF d assms(2,3,4) p _ _ mode] True assms(5,9) by simp
    then obtain e g where reply: "fixed_group (turn_ops turn) (run_engine r) (run_next r) p = Inr (e, g)"
      and ok: "decodes_group d (stop_ids (turn_session turn)) h p c n (Inr (e, g))"
      by (auto simp: decodes_group_def)
    show thesis
      by (rule that [of g "(update_result (\<lambda>v. v\<lparr>mtp_fixed_d2_graph :=
          (session_kv_mode (turn_session turn) = CheckpointFp8 \<and> sliding_tokens < context_limit (turn_session turn))\<rparr>) r)\<lparr>run_engine := e\<rparr>"])
        (use True reply ok assms(7) in \<open>auto simp add: run_group_def on_engine_def Let_def outputs_def channel_state_def\<close>)
  next
    case False
    from decodesD(5) [OF d assms(2,3,4) p assms(8-11)] obtain e1 where
      e1: "draft_tokens_at (turn_ops turn) (run_engine r) (run_next r) (run_position r) n = Inr e1"
      and "decodes_group d (stop_ids (turn_session turn)) h p c n (verify_batch (turn_ops turn) e1 (run_next r) p n)"
      unfolding drafts_group_def assms(5,6) by blast
    then obtain e g where reply: "verify_batch (turn_ops turn) e1 (run_next r) p n = Inr (e, g)"
      and ok: "decodes_group d (stop_ids (turn_session turn)) h p c n (Inr (e, g))"
      by (auto simp: decodes_group_def)
    have "run_group turn n r f = f g (r\<lparr>run_engine := e\<rparr>)" for f
      using False e1 reply assms(7) by (auto simp add: run_group_def on_status_def on_engine_def Let_def)
    then show thesis by (rule that) (use ok in simp_all)
  qed
qed

lemma butlast_grow: "out \<noteq> [] \<Longrightarrow> xs \<noteq> [] \<Longrightarrow> fold f (butlast (xs @ out)) h = fold f (last xs # butlast out) (fold f (butlast xs) h)"
  using fold_grown_butlast [of xs f h] by (simp add: butlast_append)

text \<open>The tokens of a group, delivered.\<close>

lemma group_delivered:
  assumes "turn_ok d turn" "synced d turn h base r" "\<not> stopped (run_result r)" "snd (channel_state r)"
    and "outputs q = outputs r" "stopped (run_result q) = stopped (run_result r)" "channel_state q = channel_state r"
    and "stop_token_id (run_result q) = stop_token_id (run_result r)" "run_position q = run_position r"
    and "run_position r + 1 = base + length (butlast (outputs r))"
    and "decodes_group d (stop_ids (turn_session turn)) (fold (grown d) (butlast (outputs r)) h)
      (base + length (butlast (outputs r))) (control_of turn None r) n (Inr (run_engine q, g))"
  obtains r' k where "deliver_group turn (take (group_outputs g) (group_verified g)) (record_group n g q) = Inr r'"
    "synced d turn h base r'" "snd (channel_state r')" "run_position r' + 1 = base + length (butlast (outputs r'))"
    "0 < k" "k \<le> n + 1" "length (outputs r') = length (outputs r) + k" "ready d (run_engine r') (control_of turn None r')"
    "\<And>m. outputs r @ plain_rest d turn h (k + m) r = outputs r' @ plain_rest d turn h m r'"
proof -
  let ?out = "take (group_outputs g) (group_verified g)" and ?h = "fold (grown d) (butlast (outputs r)) h"
  have token: "control_token (control_of turn None r) = run_next r" by (simp add: control_of_def)
  from assms(11) have g: "length ?out = group_outputs g" "?out \<noteq> []" "length ?out \<le> n + 1"
      "\<And>i. i < length ?out \<Longrightarrow> ?out ! i = predicted d (fold (grown d) (run_next r # take i ?out) ?h)"
      "set (butlast ?out) \<inter> set (stop_ids (turn_session turn)) = {}"
      "represents d (run_engine q) (fold (grown d) (run_next r # butlast ?out) ?h) (base + length (butlast (outputs r)) + length ?out)"
      "ready d (run_engine q) (advance_control (stop_ids (turn_session turn)) (control_of turn None r) ?out)"
    unfolding decodes_group_def Let_def token by auto
  have accepts: "observer_accepts (turn_observer turn)" and d: "decodes (turn_ops turn) d (turn_session turn)"
    using assms(1) by (simp_all add: turn_ok_def)
  note next_r = synced_next [OF assms(2)] and running = synced_running [OF assms(2,3)]
  have "\<not> stopped (run_result (record_group n g q))" "stop_token_id (run_result (record_group n g q)) = 0"
    using assms(2,3,6,8) running by (simp_all add: synced_def)
  from deliver_group_plain [OF accepts g(2) this g(5)] assms(5,7,9)
  obtain r' where r': "deliver_group turn ?out (record_group n g q) = Inr r'" "outputs r' = outputs r @ ?out"
    "run_next r' = last ?out" "stopped (run_result r') \<longleftrightarrow> last ?out \<in> set (stop_ids (turn_session turn))"
    "stop_token_id (run_result r') = (if last ?out \<in> set (stop_ids (turn_session turn)) then last ?out else 0)"
    "run_engine r' = run_engine q" "run_position r' = run_position r + group_outputs g" "channel_state r' = channel_state r"
    by auto
  have grown_r': "fold (grown d) (butlast (outputs r')) h = fold (grown d) (run_next r # butlast ?out) ?h"
    using butlast_grow [of ?out "outputs r"] g(2) next_r unfolding r'(2) by auto
  have len: "length (butlast (outputs r')) = length (butlast (outputs r)) + length ?out"
    using next_r g(2) unfolding r'(2) by (cases "outputs r") (simp_all add: butlast_append)
  have "length ?out - 1 < length ?out" using g(2) by (cases ?out) auto
  from g(4) [OF this] have "last ?out < vocabulary_tokens" using decodesD(1) [OF d] unfolding last_conv_nth [OF g(2)] by metis
  then have sync: "synced d turn h base r'"
    using assms(2) g(2,6) r'(2-6) unfolding synced_def grown_r' len by (auto simp: add.assoc)
  have rest: "outputs r @ plain_rest d turn h (group_outputs g + m) r = outputs r' @ plain_rest d turn h m r'" for m
    using plain_decode_group [OF assms(4) running g(2,5,4)] r'(2,3,8) g(1) grown_r' by simp
  have control: "control_of turn None r' = advance_control (stop_ids (turn_session turn)) (control_of turn None r) ?out"
    using r'(2-5,7) g(1) by (simp add: control_of_def advance_control_def)
  show thesis
    by (rule that [OF r'(1) sync _ _ _ _ _ _ rest])
      (use r' g assms(4,10) len control in \<open>simp_all del: length_butlast length_take\<close>)
qed

lemma parity_plain: "turn_ok d turn \<Longrightarrow> ready d (run_engine r) (control_of turn None r) \<Longrightarrow> parity turn r = Inr r"
  using decodesD(7) unfolding turn_ok_def by (fastforce simp: parity_def)

lemma active_drafts_bounds:
  "0 < active_drafts s \<Longrightarrow> active_drafts s \<le> maximum_drafts s \<Longrightarrow>
   0 < active_drafts (observe_group s pos accepted) \<and> active_drafts (observe_group s pos accepted) \<le> maximum_drafts s \<and>
   maximum_drafts (observe_group s pos accepted) = maximum_drafts s"
  by (simp add: observe_group_def close_window_def Let_def)

text \<open>What the scheduler of a turn keeps.\<close>

definition schedules :: "('e, 'c) turn \<Rightarrow> mtp_scheduler \<Rightarrow> bool" where
  "schedules turn sch \<longleftrightarrow> 0 < active_drafts sch \<and> active_drafts sch \<le> maximum_drafts sch \<and>
     maximum_drafts sch = session_drafts (turn_session turn)"

lemma group_step_plain:
  assumes "turn_ok d turn" "synced d turn h base r" "\<not> stopped (run_result r)" "snd (channel_state r)"
    and "run_position r + 1 = base + length (butlast (outputs r))" "length (outputs r) < turn_limit turn"
    and "base + turn_limit turn \<le> context_limit (turn_session turn) + 1" "schedules turn sch"
    and "0 < n" "n < turn_limit turn - length (outputs r)" "n \<le> session_drafts (turn_session turn)"
    and "session_drafts (turn_session turn) \<le> 4" "\<not> (3 \<le> turn_limit turn - length (outputs r) \<and> chain_capable turn)"
  obtains sch' r' k where "group_step turn n sch r = Inr (sch', r')" "schedules turn sch'"
    "synced d turn h base r'" "snd (channel_state r')" "run_position r' + 1 = base + length (butlast (outputs r'))"
    "0 < k" "k \<le> n + 1" "length (outputs r') = length (outputs r) + k"
    "\<And>m. outputs r @ plain_rest d turn h (k + m) r = outputs r' @ plain_rest d turn h m r'"
proof -
  let ?c = "control_of turn None r" and ?h = "fold (grown d) (butlast (outputs r)) h" and ?p = "base + length (butlast (outputs r))"
  have d: "decodes (turn_ops turn) d (turn_session turn)" using assms(1) by (simp add: turn_ok_def)
  note next_r = synced_next [OF assms(2)] and running = synced_running [OF assms(2,3)]
  have drafts: "session_drafts (turn_session turn) \<noteq> 0" using assms(9,11) by simp
  have pos: "run_position r + 2 = base + length (outputs r)" using assms(5) next_r by (cases "outputs r") simp_all
  have fits: "control_fits (context_limit (turn_session turn)) ?c"
    using assms(2,3,6,7) pos next_r running by (simp add: control_fits_def control_of_def synced_def)
  have position: "control_position ?c + 1 = ?p" using assms(5) by (simp add: control_of_def)
  have "control_reasoning ?c = None" by (simp add: control_of_def)
  from decodesD(4) [OF d synced_represents [OF assms(2)] drafts fits position this] obtain e where
    e: "prepare_control (turn_ops turn) (run_engine r) ?c = Inr e" "represents d e ?h ?p" "armed d e ?c" by blast
  let ?r = "r\<lparr>run_engine := e\<rparr>"
  have sync: "synced d turn h base ?r" using assms(2) e(2) by (simp add: synced_def)
  have group: "represents d (run_engine ?r) ?h ?p" "armed d (run_engine ?r) ?c" "control_token ?c = run_next ?r"
    "control_position ?c = run_position ?r" "run_position ?r + 1 = ?p" "n < control_remaining ?c"
    "\<not> (3 \<le> control_remaining ?c \<and> chain_capable turn)"
    using e assms(5,10,13) by (simp_all add: control_of_def)
  obtain q g where q: "\<And>f :: mtp_group \<Rightarrow> ('a, 'c) session_run \<Rightarrow> status \<times> ('a, 'c) session_run + mtp_scheduler \<times> ('a, 'c) session_run. run_group turn n ?r f = f g q"
    "decodes_group d (stop_ids (turn_session turn)) ?h ?p ?c n (Inr (run_engine q, g))"
    "outputs q = outputs ?r" "stopped (run_result q) = stopped (run_result ?r)" "channel_state q = channel_state ?r"
    "run_position q = run_position ?r" "stop_token_id (run_result q) = stop_token_id (run_result ?r)"
    by (rule run_group_decodes [OF assms(1) group(1,2) fits group(3-5) assms(9) group(6) assms(11,12) group(7)]) (rule that)
  have control: "control_of turn None ?r = ?c" by (simp add: control_of_def)
  obtain r' k where r': "deliver_group turn (take (group_outputs g) (group_verified g)) (record_group n g q) = Inr r'"
    "synced d turn h base r'" "snd (channel_state r')" "run_position r' + 1 = base + length (butlast (outputs r'))"
    "0 < k" "k \<le> n + 1" "length (outputs r') = length (outputs ?r) + k" "ready d (run_engine r') (control_of turn None r')"
    "\<And>m. outputs ?r @ plain_rest d turn h (k + m) ?r = outputs r' @ plain_rest d turn h m r'"
    by (rule group_delivered [OF assms(1) sync, of q n g]) (use assms(3,4,5) q control in simp_all)
  have "group_step turn n sch r =
      Inr (if stopped (run_result r') then sch else observe_group sch (run_position r') (group_accepted g), r')"
    by (simp add: group_step_def on_status_def e(1) q(1) r'(1) parity_plain [OF assms(1) r'(8)])
  moreover have "schedules turn (if stopped (run_result r') then sch else observe_group sch (run_position r') (group_accepted g))"
    using assms(8) active_drafts_bounds [of sch "run_position r'" "group_accepted g"] by (auto simp: schedules_def)
  ultimately show thesis by (rule that) (use r' in simp_all)
qed

lemma ordinary_token_plain:
  assumes "turn_ok d turn" "synced d turn h base r" "\<not> stopped (run_result r)" "snd (channel_state r)"
    and "run_position r + 1 = base + length (butlast (outputs r))"
    and "base + length (butlast (outputs r)) < context_limit (turn_session turn)"
  obtains r' where "ordinary_token turn fallback r = Inr r'" "synced d turn h base r'" "snd (channel_state r')"
    "run_position r' + 1 = base + length (butlast (outputs r'))" "length (outputs r') = length (outputs r) + 1"
    "\<And>m. outputs r @ plain_rest d turn h (1 + m) r = outputs r' @ plain_rest d turn h m r'"
proof -
  let ?p = "predicted d (fold (grown d) (outputs r) h)"
  obtain e' where e': "forward (turn_ops turn) (run_engine r) (run_next r) (base + length (butlast (outputs r))) = Inr (e', ?p)"
    "represents d e' (fold (grown d) (outputs r) h) (base + length (outputs r))" "?p < vocabulary_tokens"
    by (rule forward_token [OF assms(1,2,6)])
  let ?q = "update_result (\<lambda>v. if fallback then v\<lparr>ordinary_fallback_tokens := ordinary_fallback_tokens v + 1\<rparr> else v)
    (count_forward (r\<lparr>run_engine := e'\<rparr>))"
  have q: "outputs ?q = outputs r" "channel_state ?q = channel_state r" "stopped (run_result ?q) = stopped (run_result r)"
    "stop_token_id (run_result ?q) = stop_token_id (run_result r)"
    by (simp_all add: outputs_def channel_state_def count_forward_def)
  obtain r' where r': "deliver_unobserved turn ?p ?q = Inr r'" "synced d turn h base r'"
    "outputs r' = outputs r @ [?p]" "run_position r' = run_position ?q" "channel_state r' = channel_state r"
    "\<And>n. plain_rest d turn h (Suc n) r = ?p # plain_rest d turn h n r'"
    by (rule deliver_plain [OF assms(1-3), where q = ?q and t = ?p]) (use e' q assms(4) in simp_all)
  have pos: "Suc (run_position r) = base + length (butlast (outputs r))" using assms(5) by simp
  have step: "ordinary_token turn fallback r = Inr r'"
    using r'(1) e'(1) by (simp del: length_butlast add: ordinary_token_def on_engine_def pos)
  have "0 < length (outputs r)" using synced_next [OF assms(2)] by simp
  then show thesis
    by (intro that [OF step r'(2)]) (use r' assms(4) pos in \<open>simp_all del: plain_decode.simps\<close>)
qed

lemma draft_step_plain:
  assumes "turn_ok d turn" "synced d turn h base r" "\<not> stopped (run_result r)" "snd (channel_state r)"
    and "run_position r + 1 = base + length (butlast (outputs r))" "length (outputs r) < turn_limit turn"
    and "base + turn_limit turn \<le> context_limit (turn_session turn) + 1" "schedules turn sch"
    and "session_drafts (turn_session turn) \<le> 4" "\<not> (3 \<le> turn_limit turn - length (outputs r) \<and> chain_capable turn)"
  obtains sch' r' k where "draft_step turn sch r = Inr (sch', r')" "schedules turn sch'"
    "synced d turn h base r'" "snd (channel_state r')" "run_position r' + 1 = base + length (butlast (outputs r'))"
    "0 < k" "length (outputs r') = length (outputs r) + k" "length (outputs r') \<le> turn_limit turn"
    "\<And>m. outputs r @ plain_rest d turn h (k + m) r = outputs r' @ plain_rest d turn h m r'"
proof (cases "turn_limit turn - length (outputs r) = 1 \<or> use_ordinary_fallback sch")
  case True
  have "0 < length (outputs r)" using synced_next [OF assms(2)] by simp
  then have room: "base + length (butlast (outputs r)) < context_limit (turn_session turn)"
    using assms(6,7) unfolding length_butlast by linarith
  obtain r' where r': "ordinary_token turn (use_ordinary_fallback sch) r = Inr r'" "synced d turn h base r'"
    "snd (channel_state r')" "run_position r' + 1 = base + length (butlast (outputs r'))" "length (outputs r') = length (outputs r) + 1"
    "\<And>m. outputs r @ plain_rest d turn h (1 + m) r = outputs r' @ plain_rest d turn h m r'"
    using ordinary_token_plain [OF assms(1-5) room] by metis
  have "draft_step turn sch r = Inr (if use_ordinary_fallback sch then consume_fallback sch else sch, r')"
    using True r'(1) assms(10) by (auto simp add: draft_step_def Let_def)
  then show thesis
    by (rule that [OF _ _ r'(2,3,4)])
      (use r'(5,6) assms(6,8) in \<open>auto simp: consume_fallback_def schedules_def simp del: plain_decode.simps\<close>)
next
  case False
  let ?n = "min (active_drafts sch) (turn_limit turn - length (outputs r) - 1)"
  have n: "0 < ?n" "?n < turn_limit turn - length (outputs r)" "?n \<le> session_drafts (turn_session turn)"
    using False assms(6,8) by (auto simp: schedules_def)
  obtain sch' r' k where r': "group_step turn ?n sch r = Inr (sch', r')" "schedules turn sch'"
    "synced d turn h base r'" "snd (channel_state r')" "run_position r' + 1 = base + length (butlast (outputs r'))"
    "0 < k" "k \<le> ?n + 1" "length (outputs r') = length (outputs r) + k"
    "\<And>m. outputs r @ plain_rest d turn h (k + m) r = outputs r' @ plain_rest d turn h m r'"
    by (rule group_step_plain [OF assms(1-8) n assms(9,10)]) (rule that)
  have "draft_step turn sch r = Inr (sch', r')" using False r'(1) assms(10) by (auto simp add: draft_step_def Let_def)
  moreover have "length (outputs r') \<le> turn_limit turn" using r'(7,8) n(2) assms(6) by linarith
  ultimately show thesis using that r'(2-6,8,9) by blast
qed

lemma draft_loop_plain:
  assumes "turn_ok d turn" "base + turn_limit turn \<le> context_limit (turn_session turn) + 1"
    and "session_drafts (turn_session turn) \<le> 4" "\<not> (4 \<le> turn_limit turn \<and> chain_capable turn)"
    and "synced d turn h base r" "run_position r + 1 = base + length (butlast (outputs r))"
    and "snd (channel_state r) \<or> stopped (run_result r) \<or> turn_limit turn \<le> length (outputs r)"
    and "length (outputs r) + m = turn_limit turn" "schedules turn sch" "m < fuel"
  shows "\<exists>r'. draft_loop fuel turn sch r = Some (Inr r') \<and> synced d turn h base r' \<and> outputs r' = outputs r @ plain_rest d turn h m r"
  using assms(5-)
proof (induction fuel arbitrary: sch r m)
  case (Suc fuel)
  show ?case
  proof (cases "turn_limit turn \<le> length (outputs r) \<or> stopped (run_result r)")
    case True
    then have "plain_rest d turn h m r = []"
      using Suc.prems(4) synced_stopped [OF Suc.prems(1)] by (cases m) auto
    then show ?thesis using True Suc.prems(1) by auto
  next
    case False
    then have run: "\<not> stopped (run_result r)" "length (outputs r) < turn_limit turn" "snd (channel_state r)" using Suc.prems(3) by auto
    have "0 < length (outputs r)" using synced_next [OF Suc.prems(1)] by simp
    then have host: "\<not> (3 \<le> turn_limit turn - length (outputs r) \<and> chain_capable turn)" using assms(4) by linarith
    obtain sch' r' k where r': "draft_step turn sch r = Inr (sch', r')" "schedules turn sch'"
      "synced d turn h base r'" "snd (channel_state r')" "run_position r' + 1 = base + length (butlast (outputs r'))"
      "0 < k" "length (outputs r') = length (outputs r) + k" "length (outputs r') \<le> turn_limit turn"
      "\<And>m. outputs r @ plain_rest d turn h (k + m) r = outputs r' @ plain_rest d turn h m r'"
      by (rule draft_step_plain [OF assms(1) Suc.prems(1) run(1,3) Suc.prems(2) run(2) assms(2) Suc.prems(5) assms(3) host]) (rule that)
    have m: "k + (m - k) = m" "length (outputs r') + (m - k) = turn_limit turn" "m - k < fuel"
      using r'(6-8) Suc.prems(4,6) by linarith+
    from r'(4) have "snd (channel_state r') \<or> stopped (run_result r') \<or> turn_limit turn \<le> length (outputs r')" ..
    from Suc.IH [OF r'(3,5) this m(2) r'(2) m(3)]
    show ?thesis using False r'(1) r'(9) [of "m - k"] by (auto simp: m(1) simp del: plain_decode.simps)
  qed
qed simp

end
