(* ===== verification/Mtp_Facts.thy ===== *)
theory Mtp_Facts
  imports Mtp_Device Session_Decode
begin

text \<open>
  The device engine meets the contract of src/cuda/inference_session.cuh: an accepted group is a prefix of plain
  decoding, and the control of the device stays equal to the state of the host.
\<close>

section \<open>Accepting a group\<close>

lemma agreeing_le: "agreeing ds vs \<le> length ds" "agreeing ds vs \<le> length vs"
  by (induction ds vs rule: agreeing.induct) auto

lemma agreeing_take: "take (agreeing ds vs) vs = take (agreeing ds vs) ds"
  by (induction ds vs rule: agreeing.induct) auto

lemma first_stop_None: "first_stop ids xs = None \<longleftrightarrow> set xs \<inter> set ids = {}"
  by (induction xs) auto

lemma first_stop_Some:
  "first_stop ids xs = Some i \<Longrightarrow> i < length xs \<and> xs ! i \<in> set ids \<and> set (take i xs) \<inter> set ids = {}"
  by (induction xs arbitrary: i) (auto split: if_splits)

lemma accepted_group_bounds:
  fixes g :: device_group
  assumes "g = accepted_group drafts verified n ids" "length verified = n + 1" "n \<le> length drafts" "n \<le> 4" "0 < n"
  defines "out \<equiv> take (group_outputs g) (group_verified g)"
  shows "out = take (group_outputs g) verified" "length out = group_outputs g" "0 < group_outputs g" "group_outputs g \<le> n + 1"
    and "group_outputs g \<le> agreeing (take n drafts) verified + 1" "set (butlast out) \<inter> set ids = {}"
    and "group_stopped g \<longleftrightarrow> last out \<in> set ids" "group_stop_token g = (if last out \<in> set ids then last out else 0)"
    and "group_accepted g \<le> n" "group_proposals g = n"
proof -
  let ?a = "agreeing (take n drafts) verified"
  let ?k = "if ?a = n then n + 1 else ?a + 1"
  have a: "?a \<le> n" using agreeing_le(1) [of "take n drafts" verified] assms(3) by simp
  have take_v: "take k (map (\<lambda>i. if i \<le> n then verified ! i else 0) [0..<5]) = take k verified" if "k \<le> n + 1" for k
    using that assms(2,4) by (intro nth_equalityI) auto
  have "out = take (group_outputs g) verified \<and> length out = group_outputs g \<and> 0 < group_outputs g \<and> group_outputs g \<le> n + 1 \<and>
    group_outputs g \<le> ?a + 1 \<and> set (butlast out) \<inter> set ids = {} \<and> (group_stopped g \<longleftrightarrow> last out \<in> set ids) \<and>
    group_stop_token g = (if last out \<in> set ids then last out else 0) \<and> group_accepted g \<le> n \<and> group_proposals g = n"
  proof (cases "first_stop ids (take ?k verified)")
    case None
    have k: "?k \<le> n + 1" "0 < ?k" "?k \<le> ?a + 1" using a by auto
    have out: "out = take ?k verified" and g: "group_outputs g = ?k" "\<not> group_stopped g" "group_stop_token g = 0" "group_accepted g = ?a"
      "group_proposals g = n"
      using None take_v [OF k(1)] by (simp_all add: assms(1) out_def accepted_group_def Let_def)
    have len: "length out = ?k" using k(1) assms(2) by (simp add: out)
    then have "out \<noteq> []" using k(2) by auto
    moreover have "set out \<inter> set ids = {}" using None by (simp add: first_stop_None out)
    ultimately have "last out \<notin> set ids" "set (butlast out) \<inter> set ids = {}" using in_set_butlastD last_in_set by fastforce+
    then show ?thesis using g k a len out by simp
  next
    case (Some i)
    from first_stop_Some [OF Some] have i: "i < ?k" "take ?k verified ! i \<in> set ids" "set (take i (take ?k verified)) \<inter> set ids = {}"
      by auto
    have k: "i + 1 \<le> n + 1" "i + 1 \<le> ?a + 1" using i(1) a by (auto split: if_splits)
    have out: "out = take (i + 1) verified" and g: "group_outputs g = i + 1" "group_stopped g" "group_stop_token g = verified ! i"
      "group_accepted g = min ?a i" "group_proposals g = n"
      using Some take_v [OF k(1)] by (simp_all add: assms(1) out_def accepted_group_def Let_def)
    have len: "i < length verified" using k(1) assms(2) by simp
    have split_out: "out = take i verified @ [verified ! i]" using take_Suc_conv_app_nth [OF len] by (simp add: out)
    have "set (take i verified) \<inter> set ids = {}" "verified ! i \<in> set ids" using i by (auto simp: min_def split: if_splits)
    then show ?thesis using g k a len split_out out by simp
  qed
  then show "out = take (group_outputs g) verified" "length out = group_outputs g" "0 < group_outputs g" "group_outputs g \<le> n + 1"
    "group_outputs g \<le> ?a + 1" "set (butlast out) \<inter> set ids = {}" "group_stopped g \<longleftrightarrow> last out \<in> set ids"
    "group_stop_token g = (if last out \<in> set ids then last out else 0)" "group_accepted g \<le> n" "group_proposals g = n" by blast+
qed

section \<open>The network and its histories\<close>

fun passes :: "'m network \<Rightarrow> 'm \<Rightarrow> nat \<Rightarrow> nat list \<Rightarrow> 'm" where
  "passes net m p [] = m"
| "passes net m p (t # ts) = passes net (token_pass net m p t) (p + 1) ts"

text \<open>
  What the kernels that are not modelled promise: a batched verification gives the tokens of one pass after the
  other, committing its first rows leaves what these passes leave, the assistant drafts as many tokens as
  it is asked for, and every token chosen is in the vocabulary.
\<close>

definition exact_rows :: "'m network \<Rightarrow> bool" where
  "exact_rows net \<longleftrightarrow>
     (\<forall>m p step inputs. length (row_tokens net m p step inputs) = length inputs) \<and>
     (\<forall>m p step inputs. \<forall>i < length inputs. row_tokens net m p step inputs ! i =
        select net (passes net m p (take (Suc i) inputs)) (map_option (\<lambda>s. s + i) step)) \<and>
     (\<forall>m p inputs k. k \<le> length inputs \<longrightarrow> commit_rows net m p inputs k = passes net m p (take k inputs)) \<and>
     (\<forall>m t p n. length (propose net m t p n) = n) \<and>
     (\<forall>m step. select net m step < vocabulary_tokens)"

lemma exact_rowsD:
  assumes "exact_rows net"
  shows "length (row_tokens net m p step inputs) = length inputs"
    and "i < length inputs \<Longrightarrow> row_tokens net m p step inputs ! i =
      select net (passes net m p (take (Suc i) inputs)) (map_option (\<lambda>s. s + i) step)"
    and "k \<le> length inputs \<Longrightarrow> commit_rows net m p inputs k = passes net m p (take k inputs)"
    and "length (propose net m t p n) = n" "select net m step < vocabulary_tokens"
  using assms unfolding exact_rows_def by blast+

text \<open>A history: the state of the model, the positions it holds, the sampling step.\<close>

type_synonym 'm history = "'m \<times> nat \<times> nat"

definition step_count :: "device_setup \<Rightarrow> nat \<Rightarrow> nat" where
  "step_count setup n = (if setup_sampling setup then n else 0)"

definition grow_history :: "'m network \<Rightarrow> device_setup \<Rightarrow> nat \<Rightarrow> 'm history \<Rightarrow> 'm history" where
  "grow_history net setup t h = (case h of (m, p, s) \<Rightarrow> (token_pass net m p t, p + 1, s + step_count setup 1))"

definition predict_history :: "'m network \<Rightarrow> device_setup \<Rightarrow> 'm history \<Rightarrow> nat" where
  "predict_history net setup h = (case h of (m, p, s) \<Rightarrow> select net m (step_of setup (s - 1)))"

definition absorb_history :: "'m network \<Rightarrow> device_setup \<Rightarrow> 'm history \<Rightarrow> nat list \<Rightarrow> audio_segment list \<Rightarrow> vision_segment list \<Rightarrow> 'm history" where
  "absorb_history net setup h suffix audio vision = (case h of (m, p, s) \<Rightarrow>
     (prompt_pass net m p suffix audio vision, p + length suffix, s + step_count setup 1))"

definition represents_history :: "device_setup \<Rightarrow> 'm device_engine \<Rightarrow> 'm history \<Rightarrow> nat \<Rightarrow> bool" where
  "represents_history setup e h q \<longleftrightarrow> (case h of (m, p, s) \<Rightarrow>
     q = p \<and> model_state e = m \<and> engine_step e = s \<and> (0 < p \<longrightarrow> has_hidden e) \<and>
     length (output_array e) = setup_context setup \<and> length (proposal_array e) = 2 * setup_context setup)"

definition armed_control :: "device_setup \<Rightarrow> 'm device_engine \<Rightarrow> device_control \<Rightarrow> bool" where
  "armed_control setup e c \<longleftrightarrow> current_state (pinned_control e) = host_state c (engine_step e) \<and>
     fixed_drafts (pinned_control e) = setup_drafts setup \<and> control_sampling (pinned_control e) = setup_sampling setup \<and>
     chain_reasoning (pinned_control e) = device_reasoning_state (control_reasoning c)"

definition ready_control :: "'m device_engine \<Rightarrow> device_control \<Rightarrow> bool" where
  "ready_control e c \<longleftrightarrow> next_state (pinned_control e) = host_state c (engine_step e)"

definition device_decoder :: "'m network \<Rightarrow> device_setup \<Rightarrow> ('m device_engine, 'm history) decoder" where
  "device_decoder net setup = \<lparr>represents = represents_history setup, armed = armed_control setup, ready = ready_control,
     grown = grow_history net setup, predicted = predict_history net setup, absorbed = absorb_history net setup\<rparr>"

lemma fold_grow_history:
  "fold (grow_history net setup) ts (m, p, s) = (passes net m p ts, p + length ts, s + step_count setup (length ts))"
  by (induction ts arbitrary: m p s) (auto simp: grow_history_def step_count_def)

lemma predict_fold:
  "predict_history net setup (fold (grow_history net setup) (t # ts) (m, p, s)) =
     select net (passes net m p (t # ts)) (step_of setup (s + length ts))"
  unfolding fold_grow_history by (simp add: predict_history_def step_of_def step_count_def)

section \<open>The verified group\<close>

text \<open>
  Where the rows of a verification are exact, the accepted outputs are predictions: each is what the model
  gives after the tokens before it.
\<close>

lemma accepted_predictions:
  fixes g :: device_group
  assumes "exact_rows net" "n \<le> length drafts" "n \<le> 4" "0 < n" "inputs = token # take n drafts"
    and "verified = row_tokens net m p (step_of setup s) inputs" "g = accepted_group drafts verified n ids"
  defines "out \<equiv> take (group_outputs g) (group_verified g)"
  shows "length verified = n + 1"
    and "i < length out \<Longrightarrow> out ! i = predict_history net setup (fold (grow_history net setup) (token # take i out) (m, p, s))"
    and "commit_rows net m p inputs (group_outputs g) = passes net m p (token # butlast out)"
proof -
  have inputs: "length inputs = n + 1" using assms(2,5) by simp
  show len: "length verified = n + 1" using exact_rowsD(1) [OF assms(1)] inputs by (simp add: assms(6))
  note g = accepted_group_bounds [OF assms(7) len assms(2-4), folded out_def]
  have prefix_out: "take i out = take i drafts" if "i < length out" for i
  proof -
    have "i \<le> agreeing (take n drafts) verified" using that g(2,5) by simp
    then have "take i verified = take i (take n drafts)"
      using agreeing_take [of "take n drafts" verified] by (metis min.absorb1 take_take)
    moreover have "i \<le> n" using that g(2,4) by simp
    ultimately show ?thesis using that g(1,2) by (simp add: min.absorb1)
  qed
  show "out ! i = predict_history net setup (fold (grow_history net setup) (token # take i out) (m, p, s))" if i: "i < length out"
  proof -
    have "i \<le> n" using i g(2,4) by simp
    then have "take (Suc i) inputs = token # take i out" using prefix_out [OF i] by (simp add: assms(5) min.absorb1)
    moreover have "map_option (\<lambda>s. s + i) (step_of setup s) = step_of setup (s + length (take i out))"
      using i by (simp add: step_of_def)
    moreover have "out ! i = verified ! i" using g(1) i by simp
    ultimately show ?thesis
      using exact_rowsD(2) [OF assms(1), of i inputs m p "step_of setup s"] \<open>i \<le> n\<close> inputs
      unfolding predict_fold assms(6) by simp
  qed
  have "butlast out = take (group_outputs g - 1) out" using g(2) by (simp add: butlast_conv_take)
  also have "\<dots> = take (group_outputs g - 1) drafts" using prefix_out [of "group_outputs g - 1"] g(2,3) by simp
  finally have "token # butlast out = take (group_outputs g) inputs"
    using g(3,4) by (cases "group_outputs g") (simp_all add: assms(5) min.absorb1)
  then show "commit_rows net m p inputs (group_outputs g) = passes net m p (token # butlast out)"
    using exact_rowsD(3) [OF assms(1), of "group_outputs g" inputs] g(4) inputs by simp
qed

lemma host_state_simps [simp]:
  "input_token (host_state c s) = control_token c" "state_stopped (host_state c s) = control_stopped c"
  "state_stop_token (host_state c s) = control_stop_token c" "processed_position (host_state c s) = control_position c"
  "remaining_capacity (host_state c s) = control_remaining c" "write_position (host_state c s) = control_written c"
  "state_step (host_state c s) = s"
  by (simp_all add: host_state_def)

text \<open>The transition that the accept kernel makes, and its check on the host.\<close>

lemma accept_transition:
  fixes g :: device_group
  assumes "current_state pc = host_state c step" "fixed_drafts pc = setup_drafts setup"
    and "control_sampling pc = setup_sampling setup"
    and "control_fits cap c" "n < control_remaining c" "n \<le> setup_drafts setup"
    and "accept_group drafts verified n ids pc = (g, c')"
    and "length verified = n + 1" "n \<le> length drafts" "n \<le> 4" "0 < n"
  defines "out \<equiv> take (group_outputs g) (group_verified g)"
  shows "g = accepted_group drafts verified n ids"
    and "next_state c' = host_state (advance_control ids c out) (step + step_count setup (length out))"
    and "validate_group setup (control_token c) (control_position c + 1) n g c' = Inr (mtp_group.truncate g)"
    and "chain_reasoning c' = chain_reasoning pc" "fixed_drafts c' = fixed_drafts pc"
      "control_sampling c' = control_sampling pc" "current_state c' = current_state pc"
proof -
  show g: "g = accepted_group drafts verified n ids" using assms(7) by (simp add: accept_group_def Let_def)
  note b = accepted_group_bounds [OF g assms(8-11), folded out_def]
  note armed = assms(1-3)
  have ok: "\<not> state_stopped (current_state pc) \<and> n \<le> fixed_drafts pc \<and>
      group_outputs g \<le> remaining_capacity (current_state pc)"
    using assms(4-6) b(4) by (simp add: armed control_fits_def)
  have c': "c' = pc\<lparr>control_proposals := n, transition_valid := True,
      next_state := advance_state pc g verified\<rparr>"
    using assms(7) ok g by (auto simp: accept_group_def Let_def)
  show "chain_reasoning c' = chain_reasoning pc" "fixed_drafts c' = fixed_drafts pc"
    "control_sampling c' = control_sampling pc" "current_state c' = current_state pc" by (simp_all add: c')
  have out: "out \<noteq> []" "length out = group_outputs g" using b(2,3) by auto
  have "group_outputs g - 1 < length out" using b(3) out(2) by simp
  then have "verified ! (group_outputs g - 1) = out ! (group_outputs g - 1)" using b(1) by simp
  then have last_out: "last out = verified ! (group_outputs g - 1)" using out by (simp add: last_conv_nth)
  have last_group: "group_verified g ! (group_outputs g - 1) = last out"
  proof -
    have "group_verified g ! (group_outputs g - 1) = take (group_outputs g) (group_verified g) ! (group_outputs g - 1)"
      by (rule nth_take [symmetric]) (use b(3) in simp)
    also have "\<dots> = last out" unfolding last_conv_nth [OF out(1)] out(2) by (simp only: out_def)
    finally show ?thesis .
  qed
  show next_c': "next_state c' = host_state (advance_control ids c out) (step + step_count setup (length out))"
    unfolding c' by (simp add: advance_state_def armed host_state_def advance_control_def Let_def b(7,8) out(2) last_out step_count_def)
  show "validate_group setup (control_token c) (control_position c + 1) n g c' = Inr (mtp_group.truncate g)"
    unfolding validate_group_def Let_def next_c'
    using b(3) by (simp add: c' armed advance_control_def b(7,8) out(2) last_group [symmetric] step_count_def rguard_def)
qed

lemma truncate_group [simp]:
  "group_outputs (mtp_group.truncate g) = group_outputs g" "group_verified (mtp_group.truncate g) = group_verified g"
  "group_accepted (mtp_group.truncate g) = group_accepted g"
  by (simp_all add: mtp_group.truncate_def)

lemma count_steps_simps [simp]:
  "model_state (count_steps setup n e) = model_state e" "has_hidden (count_steps setup n e) = has_hidden e"
  "pinned_control (count_steps setup n e) = pinned_control e" "engine_step (count_steps setup n e) = engine_step e + step_count setup n"
  "output_array (count_steps setup n e) = output_array e" "proposal_array (count_steps setup n e) = proposal_array e"
  "draft_buffer (count_steps setup n e) = draft_buffer e" "graph_ready (count_steps setup n e) = graph_ready e"
  by (simp_all add: count_steps_def step_count_def)

lemma device_verify_decodes:
  assumes "exact_rows net" "represents_history setup e h p" "armed_control setup e c" "control_fits (setup_context setup) c"
    and "control_position c + 1 = p" "0 < n" "n < control_remaining c" "n \<le> setup_drafts setup" "setup_drafts setup \<le> 4"
    and "length (draft_buffer e) = n"
  shows "decodes_group (device_decoder net setup) (setup_stops setup) h p c n (device_verify net setup e (control_token c) p n)"
proof -
  obtain m q s where h: "h = (m, q, s)" by (cases h)
  from assms(2) have e: "q = p" "model_state e = m" "engine_step e = s" "length (output_array e) = setup_context setup"
    "length (proposal_array e) = 2 * setup_context setup" "0 < p \<longrightarrow> has_hidden e"
    by (simp_all add: represents_history_def h)
  have n: "n \<le> length (draft_buffer e)" "n \<le> 4" using assms(8-10) by simp_all
  let ?inputs = "control_token c # take n (draft_buffer e)"
  let ?verified = "row_tokens net (model_state e) p (step_of setup (engine_step e)) ?inputs"
  obtain g c' where acc: "accept_group (draft_buffer e) ?verified n (setup_stops setup) (pinned_control e) = (g, c')" by fastforce
  have g: "g = accepted_group (draft_buffer e) ?verified n (setup_stops setup)" using acc by (simp add: accept_group_def Let_def)
  let ?out = "take (group_outputs g) (group_verified g)"
  note pred = accepted_predictions [OF assms(1) n assms(6) refl refl g]
  note b = accepted_group_bounds [OF g pred(1) n assms(6)]
  have armed: "current_state (pinned_control e) = host_state c (engine_step e)" "fixed_drafts (pinned_control e) = setup_drafts setup"
    "control_sampling (pinned_control e) = setup_sampling setup" using assms(3) by (simp_all add: armed_control_def)
  note t = accept_transition [OF armed assms(4,7,8) acc pred(1) n assms(6)]
  have room: "p < setup_context setup" "n + 1 \<le> setup_context setup - p"
    using assms(4,5,7) unfolding control_fits_def by linarith+
  have reply: "device_verify net setup e (control_token c) p n = Inr (count_steps setup (group_outputs g)
      (e\<lparr>model_state := commit_rows net (model_state e) p ?inputs (group_outputs g), pinned_control := c'\<rparr>), mtp_group.truncate g)"
    using room assms(5,6,8) n t(3) by (simp add: device_verify_def Let_def acc rguard_def)
  have len: "length ?out = group_outputs g" "?out \<noteq> []" using b(2,3) by auto
  have "length (control_token c # butlast ?out) = group_outputs g" using len b(3) by simp
  then have history: "fold (grow_history net setup) (control_token c # butlast ?out) h =
      (commit_rows net (model_state e) p ?inputs (group_outputs g), p + group_outputs g, s + step_count setup (group_outputs g))"
    using pred(3) e(1) unfolding h fold_grow_history by (simp add: e(2))
  let ?e = "count_steps setup (group_outputs g)
      (e\<lparr>model_state := commit_rows net (model_state e) p ?inputs (group_outputs g), pinned_control := c'\<rparr>)"
  have "represents_history setup ?e (fold (grow_history net setup) (control_token c # butlast ?out) h) (p + length ?out)"
    unfolding history using len e assms(5) by (simp add: represents_history_def)
  moreover have "ready_control ?e (advance_control (setup_stops setup) c ?out)"
    using t(2) len by (simp add: ready_control_def)
  moreover have "\<forall>i < length ?out. ?out ! i = predict_history net setup (fold (grow_history net setup) (control_token c # take i ?out) h)"
    using pred(2) unfolding h e(1) by (simp only: e(2,3)) blast
  ultimately show ?thesis
    unfolding decodes_group_def reply Let_def using len b(4,6)
    by (intro exI [of _ ?e] exI [of _ "mtp_group.truncate g"]) (simp add: device_decoder_def)
qed

definition session_setup :: "'e conversation \<Rightarrow> device_setup" where
  "session_setup s = \<lparr>setup_context = context_limit s, setup_drafts = session_drafts s,
     setup_sampling = sampling_enabled (session_sampling s), setup_stops = stop_ids s, setup_mode = session_kv_mode s\<rparr>"

lemma device_ops_simps [simp]:
  "prefill_at (device_ops net setup sizes) = device_prefill net setup" "forward (device_ops net setup sizes) = device_forward net setup"
  "prepare_graph (device_ops net setup sizes) = device_prepare_graph setup"
  "prepare_control (device_ops net setup sizes) = device_prepare_control setup"
  "draft_tokens_at (device_ops net setup sizes) = device_draft net setup"
  "verify_batch (device_ops net setup sizes) = device_verify net setup"
  "fixed_group (device_ops net setup sizes) = device_fixed_group net setup"
  "execute_chain (device_ops net setup sizes) = device_chain net setup" "check_parity (device_ops net setup sizes) = device_parity"
  by (simp_all add: device_ops_def)

lemma device_decoder_simps [simp]:
  "represents (device_decoder net setup) = represents_history setup" "armed (device_decoder net setup) = armed_control setup"
  "ready (device_decoder net setup) = ready_control" "grown (device_decoder net setup) = grow_history net setup"
  "predicted (device_decoder net setup) = predict_history net setup" "absorbed (device_decoder net setup) = absorb_history net setup"
  by (simp_all add: device_decoder_def)

lemma device_prepare_control_armed:
  assumes "represents_history setup e h p" "setup_drafts setup \<noteq> 0" "control_fits (setup_context setup) c"
    and "q = device_reasoning_state (control_reasoning c)" "length (mtp_open q) \<le> maximum_open_tokens" "mtp_match q \<le> length (mtp_open q)"
    and "mtp_enabled q \<longrightarrow> mtp_open q \<noteq> [] \<and> mtp_maximum q \<noteq> 0"
  shows "\<exists>e'. device_prepare_control setup e c = Inr e' \<and> represents_history setup e' h p \<and> armed_control setup e' c \<and>
    graph_ready e' = graph_ready e"
proof -
  have "device_prepare_control setup e c = Inr (e\<lparr>pinned_control := \<lparr>current_state = host_state c (engine_step e),
      next_state = host_state c (engine_step e), chain_reasoning = q, fixed_drafts = setup_drafts setup,
      control_proposals = 0, transition_valid = False, control_sampling = setup_sampling setup\<rparr>\<rparr>)"
    using assms(2-) by (simp add: device_prepare_control_def Let_def control_fits_def rguard_def)
  then show ?thesis using assms(1,4) by (cases h) (simp add: represents_history_def armed_control_def)
qed

lemma device_draft_buffer:
  assumes "exact_rows net" "represents_history setup e h p" "armed_control setup e c" "control_fits (setup_context setup) c"
    and "control_position c + 1 = p" "0 < n" "n \<le> setup_drafts setup"
  obtains e1 where "device_draft net setup e (control_token c) (control_position c) n = Inr e1"
    "represents_history setup e1 h p" "armed_control setup e1 c" "length (draft_buffer e1) = n"
proof -
  have "device_draft net setup e (control_token c) (control_position c) n =
      Inr (e\<lparr>draft_buffer := propose net (model_state e) (control_token c) (control_position c) n\<rparr>)"
    using assms(2,4-7) by (cases h) (auto simp: device_draft_def represents_history_def control_fits_def rguard_def)
  then show thesis
    by (rule that) (use assms(1-3) in \<open>cases h, simp_all add: represents_history_def armed_control_def exact_rowsD(4)\<close>)
qed

lemma device_drafts_group:
  assumes "exact_rows net" "represents_history setup e h p" "armed_control setup e c" "control_fits (setup_context setup) c"
    and "control_position c + 1 = p" "0 < n" "n < control_remaining c" "n \<le> setup_drafts setup" "setup_drafts setup \<le> 4"
  shows "\<exists>e1. device_draft net setup e (control_token c) (control_position c) n = Inr e1 \<and>
    decodes_group (device_decoder net setup) (setup_stops setup) h p c n (device_verify net setup e1 (control_token c) p n)"
proof -
  obtain e1 where e1: "device_draft net setup e (control_token c) (control_position c) n = Inr e1"
    "represents_history setup e1 h p" "armed_control setup e1 c" "length (draft_buffer e1) = n"
    by (rule device_draft_buffer [OF assms(1-6,8)])
  show ?thesis using e1(1) device_verify_decodes [OF assms(1) e1(2,3) assms(4-9) e1(4)] by blast
qed

text \<open>The contract of the session holds for the device engine.\<close>

lemma device_prefill_history:
  assumes "represents_history setup e h p" "suffix \<noteq> []" "p + length suffix \<le> setup_context setup"
  shows "\<exists>e'. device_prefill net setup e suffix p audio vision =
      Inr (e', predict_history net setup (absorb_history net setup h suffix audio vision)) \<and>
    represents_history setup e' (absorb_history net setup h suffix audio vision) (p + length suffix)"
  using assms
  by (cases h) (auto simp: device_prefill_def absorb_history_def predict_history_def represents_history_def step_count_def
      step_of_def rguard_def Let_def)

lemma device_forward_history:
  assumes "represents_history setup e h p" "p < setup_context setup" "token < vocabulary_tokens"
  shows "\<exists>e'. device_forward net setup e token p = Inr (e', predict_history net setup (grow_history net setup token h)) \<and>
    represents_history setup e' (grow_history net setup token h) (p + 1)"
  using assms
  by (cases h) (auto simp: device_forward_def grow_history_def predict_history_def represents_history_def step_count_def
      step_of_def rguard_def Let_def)

lemma device_fixed_group_history:
  assumes "exact_rows net" "represents_history setup e h p" "armed_control setup e c" "control_fits (setup_context setup) c"
    and "control_position c + 1 = p" "2 < control_remaining c" "setup_drafts setup = 2" "\<not> graph_mode setup"
  shows "decodes_group (device_decoder net setup) (setup_stops setup) h p c 2 (device_fixed_group net setup e (control_token c) p)"
proof -
  have n: "(0 :: nat) < 2" "2 \<le> setup_drafts setup" "setup_drafts setup \<le> 4" using assms(7) by simp_all
  from device_drafts_group [OF assms(1-5) n(1) assms(6) n(2,3)] obtain e1 where
    e1: "device_draft net setup e (control_token c) (control_position c) 2 = Inr e1"
      "decodes_group (device_decoder net setup) (setup_stops setup) h p c 2 (device_verify net setup e1 (control_token c) p 2)" by blast
  have room: "p < setup_context setup" "3 \<le> setup_context setup - p" using assms(4-6) unfolding control_fits_def by linarith+
  have "device_fixed_group net setup e (control_token c) p = device_verify net setup e1 (control_token c) p 2"
    using e1(1) room assms(2,5,7,8) by (cases h) (auto simp: device_fixed_group_def represents_history_def rguard_def)
  then show ?thesis using e1(2) by simp
qed

text \<open>The contract of the session holds for the device engine.\<close>

lemma device_decodes:
  fixes s :: "'m device_engine conversation"
  assumes "exact_rows net"
  defines "setup \<equiv> session_setup s"
  shows "decodes (device_ops net setup sizes) (device_decoder net setup) s"
proof -
  have same: "setup_context setup = context_limit s" "setup_drafts setup = session_drafts s" "setup_stops setup = stop_ids s"
    "graph_mode setup \<longleftrightarrow> session_kv_mode s = CheckpointFp8 \<and> sliding_tokens < context_limit s"
    by (simp_all add: setup_def session_setup_def graph_mode_def)
  show ?thesis
    unfolding decodes_def device_ops_simps device_decoder_simps drafts_group_def
  proof (intro conjI allI impI)
    show "predict_history net setup h < vocabulary_tokens" for h
      using exact_rowsD(5) [OF assms(1)] by (cases h) (simp add: predict_history_def)
    show "\<exists>e'. device_prefill net setup e suffix p audio vision =
          Inr (e', predict_history net setup (absorb_history net setup h suffix audio vision)) \<and>
        represents_history setup e' (absorb_history net setup h suffix audio vision) (p + length suffix)"
      if "represents_history setup e h p" "suffix \<noteq> []" "p + length suffix \<le> context_limit s" for e h p suffix audio vision
      using device_prefill_history [OF that(1,2)] that(3) by (simp add: same)
    show "\<exists>e'. device_forward net setup e token p = Inr (e', predict_history net setup (grow_history net setup token h)) \<and>
        represents_history setup e' (grow_history net setup token h) (p + 1)"
      if "represents_history setup e h p" "p < context_limit s" "token < vocabulary_tokens" for e h p and token
      using device_forward_history [OF that(1)] that(2,3) by (simp add: same)
    show "\<exists>e'. device_prepare_control setup e c = Inr e' \<and> represents_history setup e' h p \<and> armed_control setup e' c"
      if "represents_history setup e h p" "session_drafts s \<noteq> 0" "control_fits (context_limit s) c" "control_position c + 1 = p"
        "control_reasoning c = None" for e h p c
      using device_prepare_control_armed [OF that(1), of c "no_mtp_reasoning"] that(2-)
      by (auto simp: same device_reasoning_state_def no_mtp_reasoning_def)
    show "\<exists>e1. device_draft net setup e (control_token c) (control_position c) n = Inr e1 \<and>
        decodes_group (device_decoder net setup) (stop_ids s) h p c n (device_verify net setup e1 (control_token c) p n)"
      if "represents_history setup e h p" "armed_control setup e c" "control_fits (context_limit s) c" "control_position c + 1 = p"
        "0 < n" "n < control_remaining c" "n \<le> session_drafts s" "session_drafts s \<le> 4" for e h p c n
      using device_drafts_group [OF assms(1) that(1,2)] that(3-) by (simp add: same)
    show "decodes_group (device_decoder net setup) (stop_ids s) h p c 2 (device_fixed_group net setup e (control_token c) p)"
      if "represents_history setup e h p" "armed_control setup e c" "control_fits (context_limit s) c" "control_position c + 1 = p"
        "2 < control_remaining c" "session_drafts s = 2" "\<not> (session_kv_mode s = CheckpointFp8 \<and> sliding_tokens < context_limit s)" for e h p c
      using device_fixed_group_history [OF assms(1) that(1,2)] that(3-) by (simp add: same)
    show "device_parity e c = Inr ()" if "ready_control e c" for e :: "'m device_engine" and c
      using that by (simp add: device_parity_def ready_control_def)
    show "\<exists>e'. device_prepare_graph setup e = Inr e' \<and> represents_history setup e' h p"
      if "represents_history setup e h p" "0 < p" for e h p
      using that by (cases h) (auto simp: device_prepare_graph_def represents_history_def rguard_def)
  qed
qed

end
