(* ===== verification/Chain_Facts.thy ===== *)
theory Chain_Facts
  imports Mtp_Facts
begin

text \<open>
  The chain of groups that the device runs without the host generates the tokens of plain decoding, the
  thinking budget included, and ends in the state the host computes from them.
\<close>

section \<open>The thinking channel\<close>

text \<open>The device state \<open>q\<close> follows the tracker and the flag \<open>st\<close> of the host.\<close>

definition tracks :: "reasoning_options \<Rightarrow> mtp_reasoning \<Rightarrow> channel_tracker \<times> bool \<Rightarrow> bool" where
  "tracks opts q st \<longleftrightarrow> (case st of (t, complete) \<Rightarrow>
     mtp_open q = channel_open_ids opts \<and> mtp_close q = channel_close_id opts \<and> mtp_enabled q = reasoning_on opts \<and>
     mtp_maximum q = max_reasoning opts \<and> mtp_complete q = complete \<and> mtp_count q = reasoning_count t \<and>
     mtp_inside q = in_reasoning t \<and> mtp_match q = open_match t \<and> (complete \<longrightarrow> \<not> in_reasoning t) \<and>
     (\<not> complete \<longrightarrow> reasoning_on opts \<and> channel_open_ids opts \<noteq> [] \<and> open_match t < length (channel_open_ids opts) \<and>
        \<not> reasoning_done t \<and> \<not> suppressing t \<and> open_tokens t = channel_open_ids opts \<and> close_token t = channel_close_id opts \<and>
        (\<not> in_reasoning t \<longrightarrow> reasoning_count t = 0)))"

lemma tracks_observe:
  assumes "tracks opts q st"
  shows "tracks opts (observe_device q token) (observe_state opts token st)"
proof -
  obtain t complete where st: "st = (t, complete)" by (cases st)
  show ?thesis
  proof (cases complete)
    case True
    then show ?thesis using assms by (simp add: tracks_def st observe_device_def observe_state_def)
  next
    case False
    note q = assms [unfolded tracks_def st, simplified] and False
    show ?thesis
    proof (cases "in_reasoning t")
      case True
      then show ?thesis using q False
        by (auto simp: tracks_def st observe_device_def observe_state_def Let_def observe_def observe_reasoning_def)
    next
      case outside: False
      show ?thesis
      proof (cases "token = close_token t")
        case True
        then show ?thesis using q False outside
          by (auto simp: tracks_def st observe_device_def observe_state_def Let_def observe_def)
      next
        case other: False
        then show ?thesis using q False outside hd_conv_nth [of "channel_open_ids opts"]
          by (cases "open_match t")
            (auto simp: tracks_def st observe_device_def observe_state_def Let_def observe_def observe_opening_def
              intro!: Suc_lessI)
      qed
    qed
  qed
qed

lemma tracks_fold: "tracks opts q st \<Longrightarrow> tracks opts (fold (\<lambda>t q. observe_device q t) ts q) (fold (observe_state opts) ts st)"
  by (induction ts arbitrary: q st) (simp_all add: tracks_observe)

text \<open>The budget is not spent by the next \<open>k\<close> tokens.\<close>

definition budget_room :: "reasoning_options \<Rightarrow> nat \<Rightarrow> channel_tracker \<times> bool \<Rightarrow> bool" where
  "budget_room opts k st \<longleftrightarrow> (case st of (t, complete) \<Rightarrow>
     complete \<or> (if in_reasoning t then unat (reasoning_count t) + k \<le> unat (max_reasoning opts)
       else reasoning_count t = 0 \<and> k \<le> unat (max_reasoning opts)))"

lemma budget_room_forced: "budget_room opts (Suc k) st \<Longrightarrow> \<not> forced_close opts st"
  by (cases st) (auto simp: budget_room_def forced_close_def word_le_nat_alt)

lemma budget_room_observe:
  assumes "tracks opts q st" "budget_room opts (Suc k) st"
  shows "budget_room opts k (observe_state opts token st)"
proof -
  obtain t complete where st: "st = (t, complete)" by (cases st)
  show ?thesis
  proof (cases complete)
    case True
    then show ?thesis by (simp add: st observe_state_def budget_room_def)
  next
    case False
    note q = assms(1) [unfolded tracks_def st, simplified]
    show ?thesis
    proof (cases "in_reasoning t")
      case True
      then have room: "unat (reasoning_count t) + Suc k \<le> unat (max_reasoning opts)"
        using assms(2) False by (simp add: budget_room_def st)
      also have "\<dots> < 2 ^ 64" using unsigned_less [of "max_reasoning opts"] by simp
      finally have "unat (reasoning_count t + 1) = unat (reasoning_count t) + 1" by (simp add: unat_word_ariths)
      then show ?thesis using room q False True
        by (auto simp: st budget_room_def observe_state_def Let_def observe_def observe_reasoning_def)
    next
      case outside: False
      have "reasoning_count (fst (observe t token)) = 0" using q False outside
        by (simp add: observe_def observe_opening_def)
      then show ?thesis using assms(2) q False outside
        by (simp add: st budget_room_def observe_state_def Let_def)
    qed
  qed
qed

lemma can_run_d2_room:
  assumes "can_run_d2 c" "tracks opts (chain_reasoning c) st"
  shows "budget_room opts 3 st" "3 \<le> remaining_capacity (current_state c)"
proof -
  obtain t complete where st: "st = (t, complete)" by (cases st)
  note q = assms(2) [unfolded tracks_def st, simplified]
  show "3 \<le> remaining_capacity (current_state c)" using assms(1) by (simp add: can_run_d2_def Let_def)
  show "budget_room opts 3 st"
  proof (cases "complete")
    case False
    have three: "unat (3 :: 64 word) = 3" by simp
    have diff: "reasoning_count t \<le> max_reasoning opts \<Longrightarrow>
        unat (max_reasoning opts - reasoning_count t) = unat (max_reasoning opts) - unat (reasoning_count t)"
      by (simp add: unat_sub)
    show ?thesis using assms(1) q False diff three unfolding can_run_d2_def budget_room_def st Let_def
      by (auto simp: word_le_nat_alt split: if_splits)
  qed (simp add: st budget_room_def)
qed

text \<open>A group of predictions is what plain decoding gives while the budget lasts.\<close>

lemma plain_decode_observed:
  assumes "tracks opts q st" "budget_room opts (length out) st" "token \<notin> set ids" "out \<noteq> []" "set (butlast out) \<inter> set ids = {}"
    "\<And>i. i < length out \<Longrightarrow> out ! i = predict (fold grow (token # take i out) h)"
  shows "plain_decode grow predict opts ids (length out + m) h st token =
    out @ plain_decode grow predict opts ids m (fold grow (token # butlast out) h) (fold (observe_state opts) out st) (last out)"
  using assms
proof (induction out arbitrary: h token st q)
  case (Cons x xs)
  have x: "x = next_token opts st (predict (grow token h))"
    using Cons.prems(6) [of 0] budget_room_forced Cons.prems(2) by (simp add: next_token_def)
  show ?case
  proof (cases "xs = []")
    case True
    then show ?thesis using Cons.prems(3) x by (simp add: Let_def)
  next
    case False
    have nth: "xs ! i = predict (fold grow (x # take i xs) (grow token h))" if "i < length xs" for i
      using Cons.prems(6) [of "Suc i"] that by simp
    have "budget_room opts (length xs) (observe_state opts x st)" using budget_room_observe [OF Cons.prems(1)] Cons.prems(2) by simp
    from Cons.IH [OF tracks_observe [OF Cons.prems(1)] this _ False _ nth] Cons.prems(5) False
    have "plain_decode grow predict opts ids (length xs + m) (grow token h) (observe_state opts x st) x =
        xs @ plain_decode grow predict opts ids m (fold grow (x # butlast xs) (grow token h))
          (fold (observe_state opts) xs (observe_state opts x st)) (last xs)" by auto
    then show ?thesis using Cons.prems(3) x False by (simp add: Let_def)
  qed
qed simp

section \<open>One turn of the chain\<close>

lemma write_tokens_append:
  "i + length vs \<le> length array \<Longrightarrow> write_tokens i vs array = take i array @ vs @ drop (i + length vs) array"
proof (induction vs arbitrary: i array)
  case (Cons v vs)
  have "take (Suc i) (array[i := v]) = take i array @ [v]" using Cons.prems by (simp add: take_Suc_conv_app_nth)
  then show ?case using Cons by simp
qed simp

lemma write_tokens_length [simp]: "length (write_tokens i vs array) = length array"
  by (induction vs arbitrary: i array) auto

lemma written_tokens:
  assumes "take k (drop start array) = pub" "length pub = k" "start + k + length out \<le> length array"
  shows "take (k + length out) (drop start (write_tokens (start + k) out array)) = pub @ out"
  using assms by (simp add: write_tokens_append take_add drop_take)

text \<open>
  Between two turns: \<open>pub\<close> are the tokens generated so far, \<open>t\<close> the last one, \<open>h\<close> the history before it,
  \<open>n\<close> what may still be generated.
\<close>

definition chain_counted :: "nat list \<Rightarrow> 'm chain_state \<Rightarrow> nat \<Rightarrow> nat list \<Rightarrow> bool" where
  "chain_counted ids s t pub \<longleftrightarrow> (let r = chain_counts s in
     chain_published s = pub \<and> cc_outputs r = length pub \<and> cc_proposed r = 2 * cc_groups r \<and>
     cc_accepted r + cc_rejected r = cc_proposed r \<and> cc_proposed r \<le> 2 * length pub \<and>
     cc_stopped r = (t \<in> set ids) \<and> cc_stop_token r = (if t \<in> set ids then t else 0))"

definition chain_settled :: "'m chain_state \<Rightarrow> bool" where
  "chain_settled s \<longleftrightarrow> (let r = chain_counts s; c = chain_control s; q = chain_reasoning c in
     cc_reasoning_count r = mtp_count q \<and> cc_complete r = mtp_complete q \<and> cc_forced r = mtp_forced q \<and>
     next_state c = current_state c)"

definition chain_control_at :: "device_setup \<Rightarrow> mtp_control \<Rightarrow> nat \<Rightarrow> nat \<Rightarrow> nat \<Rightarrow> nat \<Rightarrow> nat \<Rightarrow> bool" where
  "chain_control_at setup c t p k w n \<longleftrightarrow>
     current_state c = \<lparr>input_token = t, state_stopped = (t \<in> set (setup_stops setup)),
       state_stop_token = (if t \<in> set (setup_stops setup) then t else 0), processed_position = p - 1, remaining_capacity = n,
       write_position = w, state_step = k\<rparr> \<and>
     fixed_drafts c = setup_drafts setup \<and> control_sampling c = setup_sampling setup \<and>
     0 < p \<and> p + n \<le> setup_context setup \<and> t < vocabulary_tokens"

definition chain_at :: "device_setup \<Rightarrow> reasoning_options \<Rightarrow> 'm chain_state \<Rightarrow> 'm history \<Rightarrow> channel_tracker \<times> bool \<Rightarrow> nat \<Rightarrow>
    nat list \<Rightarrow> nat \<Rightarrow> nat \<Rightarrow> bool" where
  "chain_at setup opts s h st t pub start n \<longleftrightarrow> (case h of (m, p, k) \<Rightarrow>
     chain_model s = m \<and> chain_control_at setup (chain_control s) t p k (start + length pub) n \<and>
     tracks opts (chain_reasoning (chain_control s)) st \<and> chain_counted (setup_stops setup) s t pub \<and>
     take (length pub) (drop start (chain_tokens s)) = pub \<and> length (chain_tokens s) = setup_context setup \<and>
     length (chain_drafts s) = 2 * setup_context setup \<and> start + length pub + n \<le> setup_context setup)"

text \<open>What a turn of the chain does to it.\<close>

definition chain_moves :: "'m network \<Rightarrow> device_setup \<Rightarrow> reasoning_options \<Rightarrow> 'm chain_state \<Rightarrow> 'm history \<Rightarrow>
    channel_tracker \<times> bool \<Rightarrow> nat \<Rightarrow> nat list \<Rightarrow> nat \<Rightarrow> nat \<Rightarrow> bool" where
  "chain_moves net setup opts s' h st t pub start n \<longleftrightarrow> (\<exists>out. out \<noteq> [] \<and> length out \<le> n \<and> chain_settled s' \<and>
     chain_at setup opts s' (fold (grow_history net setup) (t # butlast out) h) (fold (observe_state opts) out st) (last out)
       (pub @ out) start (n - length out) \<and>
     (\<forall>m. plain_decode (grow_history net setup) (predict_history net setup) opts (setup_stops setup) (length out + m) h st t =
        out @ plain_decode (grow_history net setup) (predict_history net setup) opts (setup_stops setup) m
          (fold (grow_history net setup) (t # butlast out) h) (fold (observe_state opts) out st) (last out)))"

lemma chain_movesI:
  assumes "out \<noteq> []" "length out \<le> n" "chain_settled s'" "fold (grow_history net setup) (t # butlast out) h = h'"
    and "chain_at setup opts s' h' (fold (observe_state opts) out st) (last out) (pub @ out) start (n - length out)"
    and "\<And>m. plain_decode (grow_history net setup) (predict_history net setup) opts (setup_stops setup) (length out + m) h st t =
      out @ plain_decode (grow_history net setup) (predict_history net setup) opts (setup_stops setup) m
        (fold (grow_history net setup) (t # butlast out) h) (fold (observe_state opts) out st) (last out)"
  shows "chain_moves net setup opts s' h st t pub start n"
  using assms unfolding chain_moves_def by blast

text \<open>The single token, with the choice of the token and the force of the budget as given.\<close>

definition after_tail :: "device_setup \<Rightarrow> bool \<Rightarrow> nat \<Rightarrow> nat \<Rightarrow> 'm chain_state \<Rightarrow> 'm chain_state" where
  "after_tail setup f x p s =
     (let c = chain_control s; q = chain_reasoning c; r = chain_counts s; cur = current_state c;
          q' = observe_device (if f then q\<lparr>mtp_forced := True\<rparr> else q) x; stop = x \<in> set (setup_stops setup);
          cur' = \<lparr>input_token = x, state_stopped = stop, state_stop_token = (if stop then x else 0), processed_position = p,
            remaining_capacity = remaining_capacity cur - 1, write_position = write_position cur + 1,
            state_step = state_step cur + step_count setup 1\<rparr>
      in s\<lparr>chain_tokens := (chain_tokens s)[write_position cur := x], chain_published := chain_published s @ [x],
          chain_counts := note_reasoning q' (r\<lparr>cc_outputs := cc_outputs r + 1, cc_tail := cc_tail r + 1,
            cc_reasoning_ordinary := (if mtp_enabled q \<and> \<not> mtp_complete q then cc_reasoning_ordinary r + 1 else cc_reasoning_ordinary r),
            cc_stopped := stop, cc_stop_token := (if stop then x else 0)\<rparr>),
          chain_control := c\<lparr>chain_reasoning := q', current_state := cur', next_state := cur'\<rparr>\<rparr>)"

lemma finalize_tail_after:
  assumes "mtp_inside (chain_reasoning (chain_control s)) \<and> mtp_maximum (chain_reasoning (chain_control s)) \<le>
      mtp_count (chain_reasoning (chain_control s)) \<longleftrightarrow> f"
    and "x = (if f then mtp_close (chain_reasoning (chain_control s)) else selected)"
    and "control_sampling (chain_control s) = setup_sampling setup" "processed_position (current_state (chain_control s)) + 1 = p"
    and "\<not> state_stopped (current_state (chain_control s))" "state_stop_token (current_state (chain_control s)) = 0"
    and "\<not> cc_stopped (chain_counts s)" "cc_stop_token (chain_counts s) = 0"
  shows "finalize_tail setup selected s = after_tail setup f x p s"
proof -
  have cur: "(current_state (chain_control s))\<lparr>input_token := x, processed_position := processed_position (current_state (chain_control s)) + 1,
      remaining_capacity := remaining_capacity (current_state (chain_control s)) - 1,
      write_position := write_position (current_state (chain_control s)) + 1,
      state_step := (if control_sampling (chain_control s) then state_step (current_state (chain_control s)) + 1
        else state_step (current_state (chain_control s))),
      state_stopped := state_stopped (current_state (chain_control s)) \<or> x \<in> set (setup_stops setup),
      state_stop_token := (if x \<in> set (setup_stops setup) then x else state_stop_token (current_state (chain_control s)))\<rparr> =
    \<lparr>input_token = x, state_stopped = x \<in> set (setup_stops setup), state_stop_token = (if x \<in> set (setup_stops setup) then x else 0),
      processed_position = p, remaining_capacity = remaining_capacity (current_state (chain_control s)) - 1,
      write_position = write_position (current_state (chain_control s)) + 1,
      state_step = state_step (current_state (chain_control s)) + step_count setup 1\<rparr>"
    using assms(3-6) by (cases "current_state (chain_control s)") (simp add: step_count_def)
  have stop: "(cc_stopped (chain_counts s) \<or> x \<in> set (setup_stops setup)) = (x \<in> set (setup_stops setup))"
    "(if x \<in> set (setup_stops setup) then x else cc_stop_token (chain_counts s)) = (if x \<in> set (setup_stops setup) then x else 0)"
    using assms(7,8) by simp_all
  show ?thesis
    unfolding finalize_tail_def after_tail_def Let_def assms(1) assms(2) [symmetric] cur stop by (rule refl)
qed


lemma chain_atD:
  assumes "chain_at setup opts s (m, p, k) st t pub start n"
  shows "chain_model s = m" "chain_control_at setup (chain_control s) t p k (start + length pub) n"
    "tracks opts (chain_reasoning (chain_control s)) st" "chain_counted (setup_stops setup) s t pub"
    "take (length pub) (drop start (chain_tokens s)) = pub" "length (chain_tokens s) = setup_context setup"
    "length (chain_drafts s) = 2 * setup_context setup" "start + length pub + n \<le> setup_context setup"
  using assms by (simp_all add: chain_at_def)

lemma tracks_forced: "tracks opts q st \<Longrightarrow> mtp_inside q \<and> mtp_maximum q \<le> mtp_count q \<longleftrightarrow> forced_close opts st"
  by (auto simp: tracks_def forced_close_def split: prod.splits)

lemma tracks_force [simp]: "tracks opts (q\<lparr>mtp_forced := b\<rparr>) st \<longleftrightarrow> tracks opts q st"
  by (simp add: tracks_def split: prod.splits)

lemma tracks_close: "tracks opts q st \<Longrightarrow> mtp_close q = channel_close_id opts"
  by (auto simp: tracks_def)

lemma predict_vocabulary: "exact_rows net \<Longrightarrow> predict_history net setup h < vocabulary_tokens"
  by (cases h) (simp add: predict_history_def exact_rowsD(5))

lemma tail_step_moves:
  assumes "exact_rows net" "chain_at setup opts s h st t pub start n" "t \<notin> set (setup_stops setup)" "0 < n"
    and "reasoning_on opts \<longrightarrow> channel_close_id opts < vocabulary_tokens"
  shows "chain_moves net setup opts (tail_step net setup s) h st t pub start n"
proof -
  obtain m p k where h: "h = (m, p, k)" by (cases h)
  note at = chain_atD [OF assms(2) [unfolded h]]
  let ?c = "chain_control s" and ?m = "token_pass net m p t" and ?f = "forced_close opts st"
  let ?h = "(?m, p + 1, k + step_count setup 1)"
  let ?x = "next_token opts st (predict_history net setup ?h)"
  have grow: "grow_history net setup t h = ?h" by (simp add: h grow_history_def)
  have cur: "current_state ?c = \<lparr>input_token = t, state_stopped = False, state_stop_token = 0, processed_position = p - 1,
      remaining_capacity = n, write_position = start + length pub, state_step = k\<rparr>"
    "control_sampling ?c = setup_sampling setup" "fixed_drafts ?c = setup_drafts setup" "0 < p" "p + n \<le> setup_context setup"
    using at(2) assms(3) by (simp_all add: chain_control_at_def)
  note counted = at(4) [unfolded chain_counted_def Let_def]
  have pick: "select net ?m (step_of setup k) = predict_history net setup ?h"
    by (simp add: predict_history_def step_of_def step_count_def)
  have "?x < vocabulary_tokens"
  proof (cases ?f)
    case True
    then have "reasoning_on opts" using at(3) by (auto simp: forced_close_def tracks_def split: prod.splits)
    then show ?thesis using assms(5) True by (simp add: next_token_def)
  qed (simp add: next_token_def predict_vocabulary [OF assms(1)])
  have tail: "tail_step net setup s = after_tail setup ?f ?x p (s\<lparr>chain_model := ?m\<rparr>)"
    unfolding tail_step_def Let_def cur(1) using cur(4)
    by (simp add: at(1) pick) (rule finalize_tail_after;
      simp add: cur tracks_forced [OF at(3)] tracks_close [OF at(3)] next_token_def counted assms(3))
  let ?s = "after_tail setup ?f ?x p (s\<lparr>chain_model := ?m\<rparr>)"
  have settled: "chain_settled ?s" by (simp add: chain_settled_def after_tail_def Let_def note_reasoning_def)
  have tracked: "tracks opts (chain_reasoning (chain_control ?s)) (observe_state opts ?x st)"
    using tracks_observe [of opts _ st ?x] at(3) by (simp add: after_tail_def Let_def)
  have placed: "chain_control_at setup (chain_control ?s) ?x (p + 1) (k + step_count setup 1) (start + length (pub @ [?x])) (n - 1)"
    using cur assms(4) \<open>?x < vocabulary_tokens\<close> by (simp add: after_tail_def Let_def chain_control_at_def)
  have written: "take (length (pub @ [?x])) (drop start (chain_tokens ?s)) = pub @ [?x]"
    using written_tokens [OF at(5) refl, of "[?x]"] at(6,8) assms(4) by (simp add: after_tail_def Let_def cur)
  have "chain_counted (setup_stops setup) ?s ?x (pub @ [?x])"
    using counted by (simp add: chain_counted_def after_tail_def Let_def note_reasoning_def)
  then have "chain_at setup opts ?s ?h (observe_state opts ?x st) ?x (pub @ [?x]) start (n - 1)"
    unfolding chain_at_def using tracked placed written at assms(4)
    by (simp add: after_tail_def Let_def)
  then show ?thesis unfolding chain_moves_def tail
    by (intro exI [of _ "[?x]"]) (use settled assms(3,4) in \<open>simp add: grow Let_def\<close>)
qed


lemma budget_room_mono: "budget_room opts k st \<Longrightarrow> j \<le> k \<Longrightarrow> budget_room opts j st"
  by (cases st) (auto simp: budget_room_def split: if_splits)

text \<open>A group of two drafts: \<open>m'\<close> is what its accepted rows leave, \<open>out\<close> its outputs.\<close>

lemma d2_group_predictions:
  assumes "exact_rows net" "chain_control_at setup c t p k w n" "t \<notin> set (setup_stops setup)" "2 < n" "setup_drafts setup = 2"
    and "d2_group net setup m c = (g, c', m')"
  defines "out \<equiv> take (group_outputs g) (group_verified g)"
  shows "length out = group_outputs g" "out \<noteq> []" "length out \<le> 3" "set (butlast out) \<inter> set (setup_stops setup) = {}"
    and "\<And>i. i < length out \<Longrightarrow> out ! i = predict_history net setup (fold (grow_history net setup) (t # take i out) (m, p, k))"
    and "m' = passes net m p (t # butlast out)" "group_accepted g \<le> 2" "group_proposals g = 2"
    and "group_stopped g \<longleftrightarrow> last out \<in> set (setup_stops setup)"
    and "group_stop_token g = (if last out \<in> set (setup_stops setup) then last out else 0)"
    and "chain_reasoning c' = chain_reasoning c" "current_state c' = current_state c"
    and "chain_control_at setup (c'\<lparr>chain_reasoning := q, current_state := next_state c', transition_valid := False\<rparr>) (last out)
      (p + length out) (k + step_count setup (length out)) (w + length out) (n - length out)"
proof -
  let ?host = "\<lparr>control_token = t, control_position = p - 1, control_remaining = n, control_written = w,
    control_stopped = False, control_stop_token = 0, control_reasoning = None\<rparr>"
  have c: "current_state c = host_state ?host k" "fixed_drafts c = setup_drafts setup" "control_sampling c = setup_sampling setup"
    "0 < p" "p + n \<le> setup_context setup" "t < vocabulary_tokens"
    using assms(2,3) by (simp_all add: chain_control_at_def host_state_def)
  let ?drafts = "propose net m t (p - 1) 2"
  let ?inputs = "controlled_inputs c ?drafts"
  let ?verified = "row_tokens net m p (step_of setup k) ?inputs"
  have drafts: "length ?drafts = 2" using exact_rowsD(4) [OF assms(1)] by simp
  then obtain x y where xy: "?drafts = [x, y]" by (auto simp: length_Suc_conv numeral_2_eq_2)
  have inputs: "?inputs = t # take 2 ?drafts" "tl ?inputs = ?drafts" using xy by (simp_all add: controlled_inputs_def c(1))
  have group: "accept_group ?drafts ?verified 2 (setup_stops setup) c = (g, c')" "m' = commit_rows net m p ?inputs (group_outputs g)"
    using assms(6) c(4) inputs(2) by (auto simp: d2_group_def Let_def c(1) split: prod.splits)
  have g: "g = accepted_group ?drafts ?verified 2 (setup_stops setup)" using group(1) by (simp add: accept_group_def Let_def)
  have two: "2 \<le> length ?drafts" "(2 :: nat) \<le> 4" "(0 :: nat) < 2" using drafts by simp_all
  note pred = accepted_predictions [OF assms(1) two inputs(1) refl g, folded out_def]
  note b = accepted_group_bounds [OF g pred(1) two, folded out_def]
  show "length out = group_outputs g" "set (butlast out) \<inter> set (setup_stops setup) = {}" "group_accepted g \<le> 2" "group_proposals g = 2"
    "group_stopped g \<longleftrightarrow> last out \<in> set (setup_stops setup)"
    "group_stop_token g = (if last out \<in> set (setup_stops setup) then last out else 0)"
    by (fact b)+
  show out: "out \<noteq> []" "length out \<le> 3" using b(2-4) by auto
  show nth: "out ! i = predict_history net setup (fold (grow_history net setup) (t # take i out) (m, p, k))" if "i < length out" for i
    using pred(2) [OF that] .
  show "m' = passes net m p (t # butlast out)" using pred(3) group(2) by simp
  have fits: "control_fits (setup_context setup) ?host" "2 < control_remaining ?host" "2 \<le> setup_drafts setup"
    using assms(4,5) c(4-6) unfolding control_fits_def by auto
  note t = accept_transition [OF c(1-3) fits group(1) pred(1) two, folded out_def]
  show "chain_reasoning c' = chain_reasoning c" "current_state c' = current_state c" by (fact t)+
  have "last out < vocabulary_tokens"
    using nth [of "length out - 1"] out predict_vocabulary [OF assms(1)] by (simp add: last_conv_nth)
  then show "chain_control_at setup (c'\<lparr>chain_reasoning := q, current_state := next_state c', transition_valid := False\<rparr>) (last out)
      (p + length out) (k + step_count setup (length out)) (w + length out) (n - length out)"
    using t out(2) c(2-5) assms(4) by (simp add: chain_control_at_def host_state_def advance_control_def)
qed

lemma d2_step_moves:
  assumes "exact_rows net" "chain_at setup opts s h st t pub start n" "t \<notin> set (setup_stops setup)" "can_run_d2 (chain_control s)"
    and "setup_drafts setup = 2"
  shows "chain_moves net setup opts (d2_step net setup s) h st t pub start n"
proof -
  obtain m p k where h: "h = (m, p, k)" by (cases h)
  note at = chain_atD [OF assms(2) [unfolded h]]
  note room = can_run_d2_room [OF assms(4) at(3)]
  have n: "2 < n" using room(2) at(2) by (simp add: chain_control_at_def)
  obtain g c' m' where group: "d2_group net setup m (chain_control s) = (g, c', m')" by (metis prod_cases3)
  let ?out = "take (group_outputs g) (group_verified g)"
  note d = d2_group_predictions [OF assms(1) at(2) assms(3) n assms(5) group]
  let ?s = "advance_d2_chain g (s\<lparr>chain_control := c', chain_model := m'\<rparr>)"
  let ?st = "fold (observe_state opts) ?out st"
  have step: "d2_step net setup s = ?s" using group by (simp add: d2_step_def at(1))
  have history: "fold (grow_history net setup) (t # butlast ?out) h =
      (m', p + length ?out, k + step_count setup (length ?out))"
    unfolding h fold_grow_history d(6) using d(2) by (cases ?out) simp_all
  have at_w: "write_position (current_state c') = start + length pub" using at(2) by (simp add: d(12) chain_control_at_def)
  note counted = at(4) [unfolded chain_counted_def Let_def]
  have settled: "chain_settled ?s" by (simp add: chain_settled_def advance_d2_chain_def Let_def note_reasoning_def)
  have tracked: "tracks opts (chain_reasoning (chain_control ?s)) ?st"
    using tracks_fold [OF at(3)] by (simp add: advance_d2_chain_def Let_def d(11))
  have placed: "chain_control_at setup (chain_control ?s) (last ?out) (p + length ?out) (k + step_count setup (length ?out))
      (start + length (pub @ ?out)) (n - length ?out)"
    using d(13) by (simp add: advance_d2_chain_def Let_def add.assoc)
  have "start + length pub + length ?out \<le> length (chain_tokens s)" using at(6,8) d(3) n by linarith
  from written_tokens [OF at(5) refl this]
  have written: "take (length (pub @ ?out)) (drop start (chain_tokens ?s)) = pub @ ?out"
    by (simp add: advance_d2_chain_def Let_def at_w)
  have "0 < length ?out" using d(2) by simp
  then have "chain_counted (setup_stops setup) ?s (last ?out) (pub @ ?out)"
    using counted d(1,7-10) by (simp add: chain_counted_def advance_d2_chain_def Let_def note_reasoning_def)
  then have "chain_at setup opts ?s (m', p + length ?out, k + step_count setup (length ?out)) ?st (last ?out) (pub @ ?out) start (n - length ?out)"
    unfolding chain_at_def using tracked placed written at(6-8) d(3) n
    by (simp add: advance_d2_chain_def Let_def)
  moreover have "plain_decode (grow_history net setup) (predict_history net setup) opts (setup_stops setup) (length ?out + m) h st t =
      ?out @ plain_decode (grow_history net setup) (predict_history net setup) opts (setup_stops setup) m
        (fold (grow_history net setup) (t # butlast ?out) h) ?st (last ?out)" for m
    by (rule plain_decode_observed [OF at(3) budget_room_mono [OF room(1) d(3)] assms(3) d(2,4)]) (use d(5) in \<open>simp add: h\<close>)
  ultimately show ?thesis unfolding step
    by (intro chain_movesI [of ?out, OF d(2) _ settled history]) (use d(3) n in linarith)
qed

end
