(* ===== verification/Session_Exits.thy ===== *)
theory Session_Exits
  imports Session_Facts
begin

text \<open>
  The exits of a turn: whatever step fails, after the first change of the session, has set the flag
  that poisons it, and a step that succeeds leaves the flag alone.
\<close>

section \<open>Settled outcomes\<close>

text \<open>\<open>left\<close> finds the state of the turn in what a step returns.\<close>

definition settled :: "('w \<Rightarrow> ('e, 'c) session_run) \<Rightarrow> ('e, 'c) session_run \<Rightarrow> status \<times> ('e, 'c) session_run + 'w \<Rightarrow> bool" where
  "settled left r outcome =
     (case outcome of Inl (e, r') \<Rightarrow> run_poisoned r' | Inr w \<Rightarrow> run_poisoned (left w) = run_poisoned r)"

named_theorems settles

lemma settled_Inr [settles]: "run_poisoned (left w) = run_poisoned r \<Longrightarrow> settled left r (Inr w)"
  by (simp add: settled_def)

lemma settled_Inl [settles]: "settled left r (Inl (e, poison r'))"
  by (simp add: settled_def poison_def)

lemma settled_from: "settled left r outcome \<Longrightarrow> run_poisoned r = run_poisoned q \<Longrightarrow> settled left q outcome"
  by (auto simp: settled_def split: sum.splits)

lemma settled_rbind [settles]:
  "settled left q outcome \<Longrightarrow> run_poisoned q = run_poisoned r \<Longrightarrow>
   (\<And>w. run_poisoned (left w) = run_poisoned r \<Longrightarrow> settled left' r (f w)) \<Longrightarrow> settled left' r (rbind outcome f)"
  by (cases outcome) (auto simp: settled_def)

lemma settled_on_engine [settles]:
  "(\<And>v e. settled left r (f v (q\<lparr>run_engine := e\<rparr>))) \<Longrightarrow> settled left r (on_engine reply q poison f)"
  by (cases reply) (auto simp: on_engine_def settled_Inl)

lemma settled_on_status [settles]:
  "(\<And>e. settled left r (f (q\<lparr>run_engine := e\<rparr>))) \<Longrightarrow> settled left r (on_status reply q poison f)"
  by (cases reply) (auto simp: on_status_def settled_Inl)

text \<open>The calls that leave the flag to their caller change it in no case.\<close>

lemma settled_poisoning [settles]:
  "(\<And>w. outcome = Inr w \<Longrightarrow> run_poisoned (left w) = run_poisoned r) \<Longrightarrow> settled left r (poisoning outcome)"
  by (auto simp: poisoning_def settled_def poison_def split: sum.splits)

lemma run_poisoned_kept [simp]:
  "run_poisoned (observe_token opts t r) = run_poisoned r" "run_poisoned (push_token t r) = run_poisoned r"
  "run_poisoned (note_stop ids t r) = run_poisoned r" "run_poisoned (mark_forced f r) = run_poisoned r"
  "run_poisoned (count_forward r) = run_poisoned r" "run_poisoned (record_chain ch r) = run_poisoned r"
  "run_poisoned (record_group n g r) = run_poisoned r"
  by (simp_all add: observe_token_def Let_def push_token_def note_stop_def mark_forced_def count_forward_def record_chain_def
      record_group_def)

lemma observe_outputs_poisoned [simp]: "run_poisoned (observe_outputs opts ts r) = run_poisoned r"
  by (induction ts arbitrary: r) (simp_all add: observe_outputs_def)

lemma deliver_poisoned: "deliver turn t r = Inr r' \<Longrightarrow> run_poisoned r' = run_poisoned r"
  "deliver_unobserved turn t r = Inr r' \<Longrightarrow> run_poisoned r' = run_poisoned r"
  by (auto simp: deliver_def deliver_unobserved_def rbind_Inr_iff elim!: notify_Inr)

lemma parity_poisoned: "parity turn r = Inr r' \<Longrightarrow> run_poisoned r' = run_poisoned r"
  by (auto simp: parity_def split: sum.splits)

lemma ordinary_token_poisoned: "ordinary_token turn fallback r = Inr r' \<Longrightarrow> run_poisoned r' = run_poisoned r"
  by (auto simp: ordinary_token_def on_engine_Inr dest!: deliver_poisoned)

section \<open>The steps and the loops\<close>

lemma settled_ordinary_step: "settled (\<lambda>r. r) r (ordinary_step turn r)"
  by (auto simp: ordinary_step_def Let_def intro!: settles dest!: deliver_poisoned)

lemma settled_ordinary_loop: "settled (\<lambda>r. r) r (ordinary_loop turn n r)"
proof (induction n arbitrary: r)
  case (Suc n)
  show ?case by (simp add: settled_Inr settled_rbind [OF settled_ordinary_step refl settled_from [OF Suc]])
qed (simp add: settles)

lemma settled_reasoning_step: "settled (\<lambda>r. r) r (reasoning_step turn r)"
  by (auto simp: reasoning_step_def Let_def intro!: settles dest!: deliver_poisoned)

lemma settled_reasoning_loop: "settled (\<lambda>r. r) r (reasoning_loop turn n r)"
proof (induction n arbitrary: r)
  case (Suc n)
  show ?case by (simp add: settled_Inr settled_rbind [OF settled_reasoning_step refl settled_from [OF Suc]])
qed (simp add: settles)

lemma settled_chain_step: "settled (\<lambda>r. r) r (chain_step turn r)"
  by (auto simp: chain_step_def Let_def intro!: settles dest!: parity_poisoned split: prod.splits)

lemma settled_deliver_group: "settled (\<lambda>r. r) r (deliver_group turn ts r)"
proof (induction ts arbitrary: r)
  case (Cons t ts)
  have token: "settled (\<lambda>r. r) r (poisoning (deliver_unobserved turn t r))" by (auto intro!: settles dest!: deliver_poisoned)
  have "settled (\<lambda>r. r) r (if stopped (run_result q) then Inr q else deliver_group turn ts q)"
    if "run_poisoned q = run_poisoned r" for q using settled_from [OF Cons] that by (simp add: settled_Inr)
  then show ?case by (simp add: settled_rbind [OF token refl])
qed (simp add: settles)

lemma settled_run_group:
  "(\<And>g q. run_poisoned q = run_poisoned r \<Longrightarrow> settled left r (f g q)) \<Longrightarrow> settled left r (run_group turn n r f)"
  by (auto simp: run_group_def Let_def intro!: settles)

lemma settled_group_step: "settled snd r (group_step turn n sch r)"
  unfolding group_step_def
  by (intro settles settled_from [OF settled_run_group] settled_rbind [OF settled_deliver_group])
    (auto dest!: parity_poisoned)

lemma settled_draft_step: "settled snd r (draft_step turn sch r)"
proof -
  have token: "settled (\<lambda>r. r) r (poisoning (ordinary_token turn b r))" for b
    by (auto intro!: settles dest!: ordinary_token_poisoned)
  show ?thesis unfolding draft_step_def Let_def
    by (auto intro!: settled_group_step settled_rbind [OF settled_chain_step] settled_rbind [OF token] settled_Inr)
qed

definition settled_run :: "('e, 'c) session_run \<Rightarrow> ('e, 'c) attempt option \<Rightarrow> bool" where
  "settled_run r outcome \<longleftrightarrow> (\<forall>x. outcome = Some x \<longrightarrow> settled (\<lambda>r. r) r x)"

lemma settled_fbind:
  "settled left r x \<Longrightarrow> (\<And>w. run_poisoned (left w) = run_poisoned r \<Longrightarrow> settled_run r (f w)) \<Longrightarrow>
   settled_run r (fbind (Some x) f)"
  by (cases x) (auto simp: settled_def settled_run_def)

lemma settled_draft_loop: "settled_run r (draft_loop fuel turn sch r)"
proof (induction fuel arbitrary: sch r)
  case (Suc fuel)
  have "settled_run r (case w of (sch, r) \<Rightarrow> draft_loop fuel turn sch r)" if "run_poisoned (snd w) = run_poisoned r" for w
    using Suc [of "snd w" "fst w"] that by (cases w) (auto simp: settled_run_def elim: settled_from)
  from settled_fbind [OF settled_draft_step this] show ?case by (auto simp: settled_run_def settled_Inr)
qed (simp add: settled_run_def)

lemma settled_decode_with_drafts: "settled_run r (decode_with_drafts fuel turn r)"
proof -
  let ?r = "r\<lparr>run_position := length (run_cached r) - 1\<rparr>"
  have "settled (\<lambda>r. r) r (reasoning_loop turn n ?r)" for n by (rule settled_from [OF settled_reasoning_loop]) simp
  then have "settled (\<lambda>r. r) r (if chain_capable turn then Inr ?r else reasoning_loop turn n ?r)" for n
    by (simp add: settled_Inr)
  moreover have "settled_run r (fbind (draft_loop fuel turn sch q) (\<lambda>r. Some (Inr (r\<lparr>run_cached := run_cached r @ butlast (outputs r)\<rparr>))))"
    if "run_poisoned q = run_poisoned r" for q sch
    using settled_draft_loop [of q fuel turn sch] that
    by (auto simp: settled_run_def fbind_def settled_def split: option.splits sum.splits)
  ultimately show ?thesis unfolding decode_with_drafts_def Let_def by (intro settled_fbind [where left = "\<lambda>r. r"]) simp_all
qed

text \<open>Every exit of the decoding of a turn.\<close>

lemma settled_decode_turn: "settled_run r (decode_turn fuel turn t r)"
proof -
  have first: "settled (\<lambda>r. r) r (poisoning (deliver turn t r))" by (auto intro!: settles dest!: deliver_poisoned)
  have graph: "settled (\<lambda>r. r) q (prepare_fixed_graph turn q)" for q by (auto simp: prepare_fixed_graph_def intro!: settles)
  have loops: "settled_run q (if session_drafts (turn_session turn) \<noteq> 0 then decode_with_drafts fuel turn q
      else Some (ordinary_loop turn (turn_limit turn - 1) q))" for q
    using settled_decode_with_drafts settled_ordinary_loop by (auto simp: settled_run_def)
  have from_run: "settled_run q x \<Longrightarrow> run_poisoned q = run_poisoned r \<Longrightarrow> settled_run r x" for q x
    by (auto simp: settled_run_def elim: settled_from)
  show ?thesis unfolding decode_turn_def
    by (intro settled_fbind [OF first] settled_fbind [OF settled_from [OF graph]] from_run [OF loops]) simp_all
qed

end
