(* ===== verification/Session_Turn.thy ===== *)
theory Session_Turn
  imports Session_Decode Session_Exits
begin

text \<open>
  The turns of a conversation session as a whole: what every finished turn leaves in the session, what a
  failed one does, the bound of the thinking budget, and the agreement with plain decoding.
\<close>

section \<open>What every step keeps\<close>

text \<open>The cached prefix stays, outputs are only added.\<close>

definition grows :: "('e, 'c) session_run \<Rightarrow> ('e, 'c) session_run \<Rightarrow> bool" where
  "grows r r' \<longleftrightarrow> run_cached r' = run_cached r \<and> (\<exists>out. outputs r' = outputs r @ out)"

lemma grows_refl [simp]: "grows r r"
  by (simp add: grows_def)

lemma grows_trans [trans]: "grows p q \<Longrightarrow> grows q r \<Longrightarrow> grows p r"
  by (auto simp: grows_def)

lemma grows_same: "run_cached q = run_cached r \<Longrightarrow> outputs q = outputs r \<Longrightarrow> grows q s \<Longrightarrow> grows r s"
  by (simp add: grows_def)

lemma deliver_grows: "deliver turn t q = Inr r \<Longrightarrow> grows q r"
  using deliver_Inr(1) by (fastforce simp: delivered_def grows_def)

lemma deliver_unobserved_grows: "deliver_unobserved turn t q = Inr r \<Longrightarrow> grows q r"
  using deliver_unobserved_Inr(1) by (fastforce simp: delivered_def grows_def)

lemma deliver_group_grows: "deliver_group turn ts q = Inr r \<Longrightarrow> grows q r"
proof (induction ts arbitrary: q)
  case (Cons t ts)
  from Cons.prems obtain p where p: "deliver_unobserved turn t q = Inr p" "p = r \<or> deliver_group turn ts p = Inr r"
    by (auto simp: rbind_Inr_iff split: if_splits)
  then show ?case using deliver_unobserved_grows [OF p(1)] Cons.IH [of p] grows_trans by blast
qed simp

lemma parity_Inr [simp]: "parity turn q = Inr r \<longleftrightarrow> r = q \<and> result_ok (check_parity (turn_ops turn) (run_engine q) (control_of turn None q))"
  by (auto simp: parity_def split: sum.splits)

lemma update_result_outputs: "output_token_ids (f (run_result r)) = output_token_ids (run_result r) \<Longrightarrow> outputs (update_result f r) = outputs r"
  by (simp add: outputs_def)

lemma reasoning_step_grows: "reasoning_step turn q = Inr r \<Longrightarrow> grows q r"
  by (auto simp: reasoning_step_def Let_def on_engine_Inr update_result_outputs dest!: deliver_grows elim!: grows_same [rotated 2])

lemma reasoning_loop_grows: "reasoning_loop turn n q = Inr r \<Longrightarrow> grows q r"
proof (induction n arbitrary: q)
  case (Suc n)
  then show ?case using reasoning_step_grows grows_trans by (fastforce simp: rbind_Inr_iff split: if_splits)
qed simp

lemma ordinary_token_grows: "ordinary_token turn fallback q = Inr r \<Longrightarrow> grows q r"
  by (auto simp: ordinary_token_def on_engine_Inr update_result_outputs dest!: deliver_unobserved_grows elim!: grows_same [rotated 2]
      split: if_splits)

lemma observe_outputs_grows: "grows q (observe_outputs opts ts q)"
proof (induction ts arbitrary: q)
  case (Cons t ts)
  from Cons.IH [of "observe_token opts t (push_token t q)"] show ?case by (auto simp: observe_outputs_def grows_def)
qed (simp add: observe_outputs_def)

lemma record_chain_simps [simp]: "outputs (record_chain ch r) = outputs r" "run_cached (record_chain ch r) = run_cached r"
  by (simp_all add: record_chain_def outputs_def)

lemma chain_step_grows: "chain_step turn q = Inr r \<Longrightarrow> grows q r"
proof -
  assume "chain_step turn q = Inr r"
  then obtain e where e: "(case execute_chain (turn_ops turn) e (turn_observer turn) (run_context q) of
       (c, reply) \<Rightarrow> on_engine reply (q\<lparr>run_engine := e, run_context := c\<rparr>) poison (\<lambda>ch r.
         let r = observe_outputs (turn_reasoning turn) (chain_outputs ch) (record_chain ch r);
             r = mark_forced (chain_forced ch) r
         in if reasoning_tokens (run_result r) \<noteq> chain_reasoning_count ch \<or> run_complete r \<noteq> chain_complete ch
            then Inl (Status KInternal ''host reasoning state disagrees with GPU MTP chain'', poison r)
            else poisoning (parity turn
              (update_result (\<lambda>v. v\<lparr>stopped := chain_stopped ch, stop_token_id := chain_stop_token ch\<rparr>) r)))) = Inr r"
    by (auto simp: chain_step_def on_status_Inr)
  obtain c reply where reply: "execute_chain (turn_ops turn) e (turn_observer turn) (run_context q) = (c, reply)" by fastforce
  from e obtain ch e' where r: "r = update_result (\<lambda>v. v\<lparr>stopped := chain_stopped ch, stop_token_id := chain_stop_token ch\<rparr>)
      (mark_forced (chain_forced ch) (observe_outputs (turn_reasoning turn) (chain_outputs ch)
        (record_chain ch (q\<lparr>run_context := c, run_engine := e'\<rparr>))))"
    unfolding reply by (auto simp: on_engine_Inr Let_def split: if_splits)
  have "grows (record_chain ch (q\<lparr>run_context := c, run_engine := e'\<rparr>)) r"
    using observe_outputs_grows [of "record_chain ch (q\<lparr>run_context := c, run_engine := e'\<rparr>)" "turn_reasoning turn" "chain_outputs ch"]
    by (simp add: r grows_def update_result_outputs)
  then show ?thesis by (rule grows_same [rotated 2]) simp_all
qed

lemma run_group_Inr:
  assumes "run_group turn n q f = Inr w"
  obtains p g where "f g p = Inr w" "run_cached p = run_cached q" "outputs p = outputs q" "channel_state p = channel_state q"
    "reasoning_tokens (run_result p) = reasoning_tokens (run_result q)"
proof -
  from assms consider (fixed) e g where "f g ((update_result (\<lambda>v. v\<lparr>mtp_fixed_d2_graph :=
          (session_kv_mode (turn_session turn) = CheckpointFp8 \<and> sliding_tokens < context_limit (turn_session turn))\<rparr>) q)\<lparr>run_engine := e\<rparr>) = Inr w"
    | (verify) e e' g where "f g (q\<lparr>run_engine := e, run_engine := e'\<rparr>) = Inr w"
    by (auto simp: run_group_def Let_def on_engine_Inr on_status_Inr split: if_splits)
  then show thesis by cases (auto intro!: that simp: outputs_def channel_state_def)
qed

lemma record_group_more [simp]: "run_cached (record_group n g r) = run_cached r"
  "reasoning_tokens (run_result (record_group n g r)) = reasoning_tokens (run_result r)"
  by (simp_all add: record_group_def)

lemma group_step_grows: "group_step turn n sch q = Inr (sch', r) \<Longrightarrow> grows q r"
  by (auto simp: group_step_def on_status_Inr rbind_Inr_iff elim!: run_group_Inr dest!: deliver_group_grows)
    (simp add: grows_def)

lemma draft_step_grows: "draft_step turn sch q = Inr (sch', r) \<Longrightarrow> grows q r"
  by (auto simp: draft_step_def Let_def rbind_Inr_iff split: if_splits
      dest: chain_step_grows ordinary_token_grows group_step_grows)

lemma draft_loop_grows: "draft_loop fuel turn sch q = Some (Inr r) \<Longrightarrow> grows q r"
proof (induction fuel arbitrary: sch q)
  case (Suc fuel)
  show ?case
  proof (cases "turn_limit turn \<le> length (outputs q) \<or> stopped (run_result q)")
    case False
    with Suc.prems obtain sch' p where "draft_step turn sch q = Inr (sch', p)" "draft_loop fuel turn sch' p = Some (Inr r)"
      by (auto simp: fbind_Inr_iff)
    then show ?thesis using draft_step_grows Suc.IH grows_trans by blast
  qed (use Suc.prems in auto)
qed simp

text \<open>Without drafts the cache grows with the outputs, one behind.\<close>

definition one_behind :: "nat list \<Rightarrow> ('e, 'c) session_run \<Rightarrow> bool" where
  "one_behind prompt r \<longleftrightarrow> outputs r \<noteq> [] \<and> run_cached r = prompt @ butlast (outputs r) \<and> run_next r = last (outputs r)"

lemma ordinary_step_one_behind:
  assumes "ordinary_step turn q = Inr r" "one_behind prompt q"
  shows "one_behind prompt r" "length (outputs r) = length (outputs q) + 1"
proof -
  from assms(1) obtain e f t where d: "deliver turn t (mark_forced f (q\<lparr>run_engine := e, run_cached := run_cached q @ [run_next q]\<rparr>)) = Inr r"
    by (auto simp: ordinary_step_def Let_def on_engine_Inr)
  from deliver_Inr(1) [OF d] assms(2) show "one_behind prompt r" "length (outputs r) = length (outputs q) + 1"
    by (auto simp: one_behind_def delivered_def append_butlast_last_id)
qed

lemma ordinary_loop_one_behind:
  "ordinary_loop turn n q = Inr r \<Longrightarrow> one_behind prompt q \<Longrightarrow> one_behind prompt r \<and> length (outputs r) \<le> length (outputs q) + n"
proof (induction n arbitrary: q)
  case (Suc n)
  show ?case
  proof (cases "stopped (run_result q)")
    case False
    with Suc.prems(1) obtain p where p: "ordinary_step turn q = Inr p" "ordinary_loop turn n p = Inr r"
      by (auto simp: rbind_Inr_iff)
    from Suc.IH [OF p(2) ordinary_step_one_behind(1) [OF p(1) Suc.prems(2)]] ordinary_step_one_behind(2) [OF p(1) Suc.prems(2)]
    show ?thesis by simp
  qed (use Suc.prems in auto)
qed simp

section \<open>The thinking budget\<close>

definition budget_kept :: "reasoning_options \<Rightarrow> ('e, 'c) session_run \<Rightarrow> bool" where
  "budget_kept opts r \<longleftrightarrow> reasoning_tokens (run_result r) \<le> max_reasoning opts \<and>
     reasoning_count (fst (channel_state r)) \<le> max_reasoning opts"

lemma observe_count:
  "reasoning_count (fst (observe t token)) =
     (if in_reasoning t \<and> token \<noteq> close_token t then reasoning_count t + 1 else reasoning_count t)"
  by (simp add: observe_def observe_reasoning_def observe_opening_def)

lemma observe_close [simp]: "close_token (fst (observe t token)) = close_token t"
  by (simp add: observe_def observe_reasoning_def observe_opening_def)

lemma observed_tokens:
  "reasoning_tokens (run_result (observe_token opts token r)) =
     (if \<not> reasoning_on opts \<or> snd (channel_state r) then reasoning_tokens (run_result r)
      else reasoning_count (fst (observe_state opts token (channel_state r))))"
  by (simp add: observe_token_def Let_def channel_state_def observe_state_def)

text \<open>The end of the channel is the token that the tracker was made with.\<close>

definition closes :: "reasoning_options \<Rightarrow> ('e, 'c) session_run \<Rightarrow> bool" where
  "closes opts r \<longleftrightarrow> close_token (fst (channel_state r)) = channel_close_id opts"

lemma observe_state_count:
  assumes "reasoning_count (fst st) \<le> max_reasoning opts" "close_token (fst st) = channel_close_id opts"
  shows "reasoning_count (fst (observe_state opts (next_token opts st guess) st)) \<le> max_reasoning opts"
    and "close_token (fst (observe_state opts token st)) = channel_close_id opts"
proof -
  obtain t complete where st: "st = (t, complete)" by fastforce
  show "close_token (fst (observe_state opts token st)) = channel_close_id opts"
    using assms(2) by (simp add: st observe_state_def Let_def)
  show "reasoning_count (fst (observe_state opts (next_token opts st guess) st)) \<le> max_reasoning opts"
  proof (cases "forced_close opts st")
    case True
    then show ?thesis using assms by (simp add: st observe_state_def Let_def next_token_def observe_count)
  next
    case False
    have "reasoning_count t + 1 \<le> max_reasoning opts" if "in_reasoning t" "\<not> complete"
      using False that by (intro inc_le) (simp add: st forced_close_def not_le)
    then show ?thesis using assms(1) by (auto simp: st observe_state_def Let_def observe_count)
  qed
qed

lemma deliver_budget:
  assumes "deliver turn (next_token (turn_reasoning turn) (channel_state q) guess) q = Inr r"
    and "budget_kept (turn_reasoning turn) q" "closes (turn_reasoning turn) q"
  shows "budget_kept (turn_reasoning turn) r" "closes (turn_reasoning turn) r"
  using deliver_Inr(2,3) [OF assms(1)] assms(2,3) observe_state_count [of "channel_state q" "turn_reasoning turn"]
  by (auto simp: budget_kept_def closes_def observed_tokens)

lemma budget_kept_cong:
  "reasoning_tokens (run_result q) = reasoning_tokens (run_result r) \<Longrightarrow> channel_state q = channel_state r \<Longrightarrow>
   budget_kept opts r \<Longrightarrow> closes opts r \<Longrightarrow> budget_kept opts q \<and> closes opts q"
  by (simp add: budget_kept_def closes_def)

lemma ordinary_step_budget:
  assumes "ordinary_step turn q = Inr r" "budget_kept (turn_reasoning turn) q" "closes (turn_reasoning turn) q"
  shows "budget_kept (turn_reasoning turn) r \<and> closes (turn_reasoning turn) r"
proof -
  let ?p = "\<lambda>e. mark_forced (forced_close (turn_reasoning turn) (channel_state q))
    (q\<lparr>run_engine := e, run_cached := run_cached q @ [run_next q]\<rparr>)"
  from assms(1) obtain e t where "deliver turn (next_token (turn_reasoning turn) (channel_state (?p e)) t) (?p e) = Inr r"
    by (auto simp: ordinary_step_def Let_def on_engine_Inr forced_close_state next_token_def)
  from deliver_budget [OF this] budget_kept_cong [of "?p e" q] assms(2,3) show ?thesis by simp
qed

lemma ordinary_loop_budget:
  "ordinary_loop turn n q = Inr r \<Longrightarrow> budget_kept (turn_reasoning turn) q \<Longrightarrow> closes (turn_reasoning turn) q \<Longrightarrow>
   budget_kept (turn_reasoning turn) r"
proof (induction n arbitrary: q)
  case (Suc n)
  show ?case
  proof (cases "stopped (run_result q)")
    case False
    with Suc.prems(1) obtain p where "ordinary_step turn q = Inr p" "ordinary_loop turn n p = Inr r" by (auto simp: rbind_Inr_iff)
    then show ?thesis using ordinary_step_budget Suc by blast
  qed (use Suc.prems in auto)
qed simp

lemma reasoning_step_budget:
  assumes "reasoning_step turn q = Inr r" "\<not> run_complete q" "budget_kept (turn_reasoning turn) q" "closes (turn_reasoning turn) q"
  shows "budget_kept (turn_reasoning turn) r \<and> closes (turn_reasoning turn) r"
proof -
  let ?p = "\<lambda>e. mark_forced (forced_close (turn_reasoning turn) (channel_state q))
    (update_result (\<lambda>v. v\<lparr>reasoning_ordinary_target_tokens := reasoning_ordinary_target_tokens v + 1\<rparr>)
      (count_forward (q\<lparr>run_engine := e\<rparr>)))"
  have p: "channel_state (?p e) = channel_state q" "reasoning_tokens (run_result (?p e)) = reasoning_tokens (run_result q)" for e
    by (simp_all add: channel_state_def count_forward_def mark_forced_def)
  from assms(1,2) obtain e t where "deliver turn (next_token (turn_reasoning turn) (channel_state (?p e)) t) (?p e) = Inr r"
    unfolding p by (auto simp: reasoning_step_def Let_def on_engine_Inr forced_close_state next_token_def)
  from deliver_budget [OF this] budget_kept_cong [OF p(2,1)] assms(3,4) show ?thesis by blast
qed

lemma reasoning_loop_budget:
  "reasoning_loop turn n q = Inr r \<Longrightarrow> budget_kept (turn_reasoning turn) q \<Longrightarrow> closes (turn_reasoning turn) q \<Longrightarrow>
   budget_kept (turn_reasoning turn) r \<and> closes (turn_reasoning turn) r"
proof (induction n arbitrary: q)
  case (Suc n)
  show ?case
  proof (cases "stopped (run_result q) \<or> run_complete q")
    case False
    with Suc.prems(1) obtain p where "reasoning_step turn q = Inr p" "reasoning_loop turn n p = Inr r" by (auto simp: rbind_Inr_iff)
    then show ?thesis using reasoning_step_budget False Suc by blast
  qed (use Suc.prems in auto)
qed simp

text \<open>Tokens that are not observed are not counted.\<close>

definition same_channel :: "('e, 'c) session_run \<Rightarrow> ('e, 'c) session_run \<Rightarrow> bool" where
  "same_channel q r \<longleftrightarrow> channel_state r = channel_state q \<and> reasoning_tokens (run_result r) = reasoning_tokens (run_result q)"

lemma deliver_group_channel: "deliver_group turn ts q = Inr r \<Longrightarrow> same_channel q r"
proof (induction ts arbitrary: q)
  case (Cons t ts)
  from Cons.prems obtain p where p: "deliver_unobserved turn t q = Inr p" "p = r \<or> deliver_group turn ts p = Inr r"
    by (auto simp: rbind_Inr_iff split: if_splits)
  then show ?case using deliver_unobserved_Inr(2,3) [OF p(1)] Cons.IH [of p] by (auto simp: same_channel_def)
qed (simp add: same_channel_def)

lemma group_step_channel: "group_step turn n sch q = Inr (sch', r) \<Longrightarrow> same_channel q r"
  by (auto simp: group_step_def on_status_Inr rbind_Inr_iff elim!: run_group_Inr dest!: deliver_group_channel)
    (simp add: same_channel_def)

lemma ordinary_token_channel: "ordinary_token turn fallback q = Inr r \<Longrightarrow> same_channel q r"
proof -
  assume "ordinary_token turn fallback q = Inr r"
  then obtain e t where d: "deliver_unobserved turn t (update_result
      (\<lambda>v. if fallback then v\<lparr>ordinary_fallback_tokens := ordinary_fallback_tokens v + 1\<rparr> else v)
      (count_forward (q\<lparr>run_engine := e\<rparr>))) = Inr r"
    by (auto simp: ordinary_token_def on_engine_Inr)
  from deliver_unobserved_Inr(2,3) [OF d] show ?thesis by (simp add: same_channel_def channel_state_def count_forward_def)
qed

lemma draft_step_channel: "draft_step turn sch q = Inr (sch', r) \<Longrightarrow> \<not> chain_capable turn \<Longrightarrow> same_channel q r"
  by (auto simp: draft_step_def Let_def rbind_Inr_iff split: if_splits dest: ordinary_token_channel group_step_channel)

lemma draft_loop_channel: "draft_loop fuel turn sch q = Some (Inr r) \<Longrightarrow> \<not> chain_capable turn \<Longrightarrow> same_channel q r"
proof (induction fuel arbitrary: sch q)
  case (Suc fuel)
  show ?case
  proof (cases "turn_limit turn \<le> length (outputs q) \<or> stopped (run_result q)")
    case False
    with Suc.prems obtain sch' p where "draft_step turn sch q = Inr (sch', p)" "draft_loop fuel turn sch' p = Some (Inr r)"
      by (auto simp: fbind_Inr_iff)
    then show ?thesis using draft_step_channel Suc.IH Suc.prems(2) by (fastforce simp: same_channel_def)
  qed (use Suc.prems in \<open>auto simp: same_channel_def\<close>)
qed simp

text \<open>With less than three tokens to go no chain runs, and nothing is observed.\<close>

lemma draft_step_unchained:
  "draft_step turn sch q = Inr (sch', r) \<Longrightarrow> turn_limit turn - length (outputs q) < 3 \<Longrightarrow> same_channel q r"
  by (auto simp: draft_step_def Let_def rbind_Inr_iff split: if_splits dest: ordinary_token_channel group_step_channel)

lemma draft_loop_unchained:
  "draft_loop fuel turn sch q = Some (Inr r) \<Longrightarrow> turn_limit turn - length (outputs q) < 3 \<Longrightarrow> same_channel q r"
proof (induction fuel arbitrary: sch q)
  case (Suc fuel)
  show ?case
  proof (cases "turn_limit turn \<le> length (outputs q) \<or> stopped (run_result q)")
    case False
    with Suc.prems(1) obtain sch' p where p: "draft_step turn sch q = Inr (sch', p)" "draft_loop fuel turn sch' p = Some (Inr r)"
      by (auto simp: fbind_Inr_iff)
    have "turn_limit turn - length (outputs p) < 3" using draft_step_grows [OF p(1)] Suc.prems(2) by (auto simp: grows_def)
    from Suc.IH [OF p(2) this] draft_step_unchained [OF p(1) Suc.prems(2)] show ?thesis by (simp add: same_channel_def)
  qed (use Suc.prems in \<open>auto simp: same_channel_def\<close>)
qed simp

section \<open>Whole turns\<close>

lemma start_run_simps [simp]:
  "outputs (start_run turn c prompt e) = []" "run_cached (start_run turn c prompt e) = prompt"
  "run_engine (start_run turn c prompt e) = e" "\<not> stopped (run_result (start_run turn c prompt e))"
  "reasoning_tokens (run_result (start_run turn c prompt e)) = 0" "stop_token_id (run_result (start_run turn c prompt e)) = 0"
  "channel_state (start_run turn c prompt e) =
     (new_tracker (channel_open_ids (turn_reasoning turn)) (channel_close_id (turn_reasoning turn))
        (starts_reasoning (turn_reasoning turn)), \<not> reasoning_on (turn_reasoning turn))"
  by (simp_all add: start_run_def Let_def outputs_def start_result_def channel_state_def)

text \<open>The counted reasoning tokens are those of the tracker.\<close>

definition counts_reasoning :: "('e, 'c) session_run \<Rightarrow> bool" where
  "counts_reasoning r \<longleftrightarrow> reasoning_tokens (run_result r) = reasoning_count (fst (channel_state r))"

lemma observed_counts: "counts_reasoning r \<Longrightarrow>
    reasoning_tokens (run_result (observe_token opts token r)) = reasoning_count (fst (observe_state opts token (channel_state r)))"
  by (auto simp: counts_reasoning_def observed_tokens observe_state_def split: prod.splits)

lemma deliver_counts: "deliver turn t q = Inr r \<Longrightarrow> counts_reasoning q \<Longrightarrow> counts_reasoning r"
  using deliver_Inr(2,3) observed_counts [of "push_token t q"] by (fastforce simp: counts_reasoning_def)

text \<open>The first token never is a forced one, as an enabled budget is positive.\<close>

lemma first_token:
  "reasoning_on opts \<longrightarrow> max_reasoning opts \<noteq> 0 \<Longrightarrow> next_token opts (new_tracker ids close b, \<not> reasoning_on opts) t = t"
  by (auto simp: next_token_def forced_close_def new_tracker_def word_le_0_iff)

lemma decode_turn_Inr:
  assumes "decode_turn fuel turn t r0 = Some (Inr r)"
  obtains p q where "deliver turn t r0 = Inr p" "run_cached q = run_cached p" "outputs q = outputs p" "channel_state q = channel_state p"
    "run_result q = run_result p" "run_next q = run_next p"
    "if session_drafts (turn_session turn) \<noteq> 0 then decode_with_drafts fuel turn q = Some (Inr r)
     else ordinary_loop turn (turn_limit turn - 1) q = Inr r"
proof -
  from assms obtain p where p: "deliver turn t r0 = Inr p"
    and rest: "fbind (Some (prepare_fixed_graph turn p)) (\<lambda>r. if session_drafts (turn_session turn) \<noteq> 0
      then decode_with_drafts fuel turn r else Some (ordinary_loop turn (turn_limit turn - 1) r)) = Some (Inr r)"
    by (auto simp: decode_turn_def fbind_Inr_iff)
  from rest obtain q where "prepare_fixed_graph turn p = Inr q" and q: "if session_drafts (turn_session turn) \<noteq> 0
      then decode_with_drafts fuel turn q = Some (Inr r) else ordinary_loop turn (turn_limit turn - 1) q = Inr r"
    by (auto simp: fbind_Inr_iff split: if_splits)
  then have "run_cached q = run_cached p \<and> outputs q = outputs p \<and> channel_state q = channel_state p \<and>
      run_result q = run_result p \<and> run_next q = run_next p"
    by (auto simp: prepare_fixed_graph_def on_status_Inr split: if_splits)
  then show thesis using that [OF p _ _ _ _ _ q] by simp
qed

lemma decode_with_drafts_Inr:
  assumes "decode_with_drafts fuel turn q = Some (Inr r)"
  obtains p sch w where "if chain_capable turn then p = q\<lparr>run_position := length (run_cached q) - 1\<rparr>
      else reasoning_loop turn (turn_limit turn - length (outputs q)) (q\<lparr>run_position := length (run_cached q) - 1\<rparr>) = Inr p"
    "draft_loop fuel turn sch p = Some (Inr w)" "r = w\<lparr>run_cached := run_cached w @ butlast (outputs w)\<rparr>"
  using assms by (fastforce simp: decode_with_drafts_def Let_def fbind_Inr_iff outputs_def split: if_splits)

lemma run_position_update [simp]: "outputs (r\<lparr>run_position := n\<rparr>) = outputs r" "channel_state (r\<lparr>run_position := n\<rparr>) = channel_state r"
  by (simp_all add: outputs_def channel_state_def)

lemma decode_turn_cached:
  assumes "decode_turn fuel turn t (start_run turn c prompt e) = Some (Inr r)"
  shows "outputs r \<noteq> []" "run_cached r = prompt @ butlast (outputs r)"
    and "session_drafts (turn_session turn) = 0 \<Longrightarrow> 0 < turn_limit turn \<Longrightarrow> length (outputs r) \<le> turn_limit turn"
proof -
  obtain p q where p: "deliver turn t (start_run turn c prompt e) = Inr p" "run_cached q = run_cached p" "outputs q = outputs p"
    "channel_state q = channel_state p" "run_result q = run_result p" "run_next q = run_next p"
    "if session_drafts (turn_session turn) \<noteq> 0 then decode_with_drafts fuel turn q = Some (Inr r)
     else ordinary_loop turn (turn_limit turn - 1) q = Inr r"
    by (rule decode_turn_Inr [OF assms])
  have start: "outputs q = [t]" "run_cached q = prompt" "run_next q = t"
    using deliver_Inr(1) [OF p(1)] p(2,3,6) by (simp_all add: delivered_def)
  have "outputs r \<noteq> [] \<and> run_cached r = prompt @ butlast (outputs r) \<and>
    (session_drafts (turn_session turn) = 0 \<longrightarrow> 0 < turn_limit turn \<longrightarrow> length (outputs r) \<le> turn_limit turn)"
  proof (cases "session_drafts (turn_session turn) = 0")
    case True
    with p(7) have "ordinary_loop turn (turn_limit turn - 1) q = Inr r" by simp
    from ordinary_loop_one_behind [OF this, of prompt] start True show ?thesis by (auto simp: one_behind_def)
  next
    case False
    with p(7) have "decode_with_drafts fuel turn q = Some (Inr r)" by simp
    then obtain v sch w where v: "if chain_capable turn then v = q\<lparr>run_position := length (run_cached q) - 1\<rparr>
      else reasoning_loop turn (turn_limit turn - length (outputs q)) (q\<lparr>run_position := length (run_cached q) - 1\<rparr>) = Inr v"
      and w: "draft_loop fuel turn sch v = Some (Inr w)" and r: "r = w\<lparr>run_cached := run_cached w @ butlast (outputs w)\<rparr>"
      by (rule decode_with_drafts_Inr)
    have "grows (q\<lparr>run_position := length (run_cached q) - 1\<rparr>) v" using v reasoning_loop_grows by (auto split: if_splits)
    also note draft_loop_grows [OF w]
    finally show ?thesis using start False by (auto simp: grows_def r)
  qed
  then show "outputs r \<noteq> []" "run_cached r = prompt @ butlast (outputs r)"
    "session_drafts (turn_session turn) = 0 \<Longrightarrow> 0 < turn_limit turn \<Longrightarrow> length (outputs r) \<le> turn_limit turn" by auto
qed

lemma decode_turn_budget:
  assumes "decode_turn fuel turn t (start_run turn c prompt e) = Some (Inr r)" "\<not> chain_capable turn"
    and "reasoning_on (turn_reasoning turn) \<longrightarrow> max_reasoning (turn_reasoning turn) \<noteq> 0"
  shows "reasoning_tokens (run_result r) \<le> max_reasoning (turn_reasoning turn)"
proof -
  let ?start = "start_run turn c prompt e"
  obtain p q where p: "deliver turn t ?start = Inr p" "run_cached q = run_cached p" "outputs q = outputs p"
    "channel_state q = channel_state p" "run_result q = run_result p" "run_next q = run_next p"
    "if session_drafts (turn_session turn) \<noteq> 0 then decode_with_drafts fuel turn q = Some (Inr r)
     else ordinary_loop turn (turn_limit turn - 1) q = Inr r"
    by (rule decode_turn_Inr [OF assms(1)])
  have "budget_kept (turn_reasoning turn) ?start" "closes (turn_reasoning turn) ?start"
    by (simp_all add: budget_kept_def closes_def new_tracker_def)
  moreover have "deliver turn (next_token (turn_reasoning turn) (channel_state ?start) t) ?start = Inr p"
    using p(1) first_token [OF assms(3)] by simp
  ultimately have "budget_kept (turn_reasoning turn) p" "closes (turn_reasoning turn) p" using deliver_budget by blast+
  then have q: "budget_kept (turn_reasoning turn) q" "closes (turn_reasoning turn) q"
    using p(4,5) by (simp_all add: budget_kept_def closes_def)
  show ?thesis
  proof (cases "session_drafts (turn_session turn) = 0")
    case True
    then show ?thesis using p(7) ordinary_loop_budget q by (auto simp: budget_kept_def)
  next
    case False
    with p(7) have "decode_with_drafts fuel turn q = Some (Inr r)" by simp
    then obtain v sch w where v: "if chain_capable turn then v = q\<lparr>run_position := length (run_cached q) - 1\<rparr>
      else reasoning_loop turn (turn_limit turn - length (outputs q)) (q\<lparr>run_position := length (run_cached q) - 1\<rparr>) = Inr v"
      and w: "draft_loop fuel turn sch v = Some (Inr w)" and r: "r = w\<lparr>run_cached := run_cached w @ butlast (outputs w)\<rparr>"
      by (rule decode_with_drafts_Inr)
    have "budget_kept (turn_reasoning turn) (q\<lparr>run_position := length (run_cached q) - 1\<rparr>)"
      "closes (turn_reasoning turn) (q\<lparr>run_position := length (run_cached q) - 1\<rparr>)" using q by (simp_all add: budget_kept_def closes_def)
    with v assms(2) have "budget_kept (turn_reasoning turn) v" using reasoning_loop_budget by auto
    then show ?thesis using draft_loop_channel [OF w assms(2)] by (simp add: same_channel_def budget_kept_def r)
  qed
qed

lemma decode_turn_unobserved:
  assumes "decode_turn fuel turn t (start_run turn c prompt e) = Some (Inr r)" "chain_capable turn" "turn_limit turn \<le> 3"
  shows "hd (outputs r) = t" "reasoning_tokens (run_result r) = reasoning_count (fst (observe_state (turn_reasoning turn) t
      (channel_state (start_run turn c prompt e))))"
proof -
  obtain p q where p: "deliver turn t (start_run turn c prompt e) = Inr p" "run_cached q = run_cached p" "outputs q = outputs p"
    "channel_state q = channel_state p" "run_result q = run_result p" "run_next q = run_next p"
    "if session_drafts (turn_session turn) \<noteq> 0 then decode_with_drafts fuel turn q = Some (Inr r)
     else ordinary_loop turn (turn_limit turn - 1) q = Inr r"
    by (rule decode_turn_Inr [OF assms(1)])
  note first = deliver_Inr(1,2) [OF p(1)]
  have counts: "counts_reasoning p" using deliver_counts [OF p(1)] by (simp add: counts_reasoning_def new_tracker_def)
  have "decode_with_drafts fuel turn q = Some (Inr r)" using p(7) assms(2) by (auto simp: chain_capable_def Let_def)
  then obtain v sch w where v: "if chain_capable turn then v = q\<lparr>run_position := length (run_cached q) - 1\<rparr>
      else reasoning_loop turn (turn_limit turn - length (outputs q)) (q\<lparr>run_position := length (run_cached q) - 1\<rparr>) = Inr v"
    and w: "draft_loop fuel turn sch v = Some (Inr w)" and r: "r = w\<lparr>run_cached := run_cached w @ butlast (outputs w)\<rparr>"
    by (rule decode_with_drafts_Inr)
  have same: "outputs v = [t]" "channel_state v = channel_state p" "reasoning_tokens (run_result v) = reasoning_tokens (run_result p)"
    using v assms(2) p(3-5) first(1) by (simp_all add: delivered_def)
  then have "turn_limit turn - length (outputs v) < 3" using assms(3) by simp
  from draft_loop_unchained [OF w this] draft_loop_grows [OF w] counts first same
  show "hd (outputs r) = t" "reasoning_tokens (run_result r) = reasoning_count (fst (observe_state (turn_reasoning turn) t
      (channel_state (start_run turn c prompt e))))"
    by (auto simp: r same_channel_def counts_reasoning_def grows_def)
qed

lemma run_engine_synced [simp]: "run_result (r\<lparr>run_engine := e\<rparr>) = run_result r"
  by simp

text \<open>The first token, and the graph that is prepared after it.\<close>

lemma turn_begins:
  assumes "turn_ok d turn" "represents d e h (length prompt)" "prompt \<noteq> []"
  obtains q where "decode_turn fuel turn (predicted d h) (start_run turn c prompt e) =
      (if session_drafts (turn_session turn) \<noteq> 0 then decode_with_drafts fuel turn q
       else Some (ordinary_loop turn (turn_limit turn - 1) q))"
    "synced d turn h (length prompt) q" "outputs q = [predicted d h]" "run_cached q = prompt" "counts_reasoning q"
    "channel_state q = observe_state (turn_reasoning turn) (predicted d h) (channel_state (start_run turn c prompt e))"
    "plain_turn (grown d) (predicted d) (turn_reasoning turn) (stop_ids (turn_session turn)) (turn_limit turn) h =
      outputs q @ plain_rest d turn h (turn_limit turn - 1) q"
    "chain_capable turn \<longrightarrow> (\<exists>e0. prepare_graph (turn_ops turn) e0 = Inr (run_engine q))"
proof -
  let ?start = "start_run turn c prompt e" and ?t = "predicted d h"
  have d: "decodes (turn_ops turn) d (turn_session turn)" and accepts: "observer_accepts (turn_observer turn)"
    using assms(1) by (simp_all add: turn_ok_def)
  from deliver_accepts [OF accepts] obtain p where p: "deliver turn ?t ?start = Inr p" by blast
  note c = deliver_Inr(1,2) [OF p]
  have out: "outputs p = [?t]" "run_cached p = prompt" using c(1) by (simp_all add: delivered_def)
  have sync: "synced d turn h (length prompt) p"
    using c(1) assms(2,3) decodesD(1) [OF d] by (auto simp: synced_def delivered_def)
  have counts: "counts_reasoning p" using deliver_counts [OF p] by (simp add: counts_reasoning_def new_tracker_def)
  have "\<exists>q. prepare_fixed_graph turn p = Inr q \<and> q = p\<lparr>run_engine := run_engine q\<rparr> \<and> represents d (run_engine q) h (length prompt) \<and>
      (chain_capable turn \<longrightarrow> (\<exists>e0. prepare_graph (turn_ops turn) e0 = Inr (run_engine q)))"
  proof (cases "chain_capable turn")
    case True
    from decodesD(8) [OF d, of "run_engine p" h "length prompt"] assms(2,3) c(1) obtain e' where
      "prepare_graph (turn_ops turn) (run_engine p) = Inr e'" "represents d e' h (length prompt)" by (auto simp: delivered_def)
    then show ?thesis using True by (intro exI [of _ "p\<lparr>run_engine := e'\<rparr>"]) (auto simp add: prepare_fixed_graph_def on_status_def)
  qed (use assms(2) c(1) in \<open>simp add: prepare_fixed_graph_def delivered_def\<close>)
  then obtain q where q: "prepare_fixed_graph turn p = Inr q" "q = p\<lparr>run_engine := run_engine q\<rparr>"
    "represents d (run_engine q) h (length prompt)" "chain_capable turn \<longrightarrow> (\<exists>e0. prepare_graph (turn_ops turn) e0 = Inr (run_engine q))"
    by blast
  have same: "outputs q = outputs p" "run_cached q = run_cached p" "channel_state q = channel_state p" "run_next q = run_next p"
    "run_result q = run_result p" by (subst q(2), simp)+
  have sync_q: "synced d turn h (length prompt) q" using sync q(3) out same by (simp add: synced_def)
  have plain: "plain_turn (grown d) (predicted d) (turn_reasoning turn) (stop_ids (turn_session turn)) (turn_limit turn) h =
      outputs q @ plain_rest d turn h (turn_limit turn - 1) q"
    using c out same synced_next [OF sync] by (simp add: plain_turn_def Let_def)
  have turn: "decode_turn fuel turn ?t ?start = (if session_drafts (turn_session turn) \<noteq> 0 then decode_with_drafts fuel turn q
      else Some (ordinary_loop turn (turn_limit turn - 1) q))"
    using p q(1) by (simp add: decode_turn_def)
  show thesis by (rule that [OF turn sync_q _ _ _ _ plain q(4)]) (use out same c(2) counts in \<open>simp_all add: counts_reasoning_def\<close>)
qed

lemma decode_turn_plain:
  assumes "turn_ok d turn" "represents d e h (length prompt)" "prompt \<noteq> []" "0 < turn_limit turn"
    and "length prompt + turn_limit turn \<le> context_limit (turn_session turn) + 1"
    and "\<not> chain_capable turn \<or> turn_limit turn < 4 \<and> \<not> reasoning_on (turn_reasoning turn)"
    and "session_drafts (turn_session turn) \<le> 4"
    and "reasoning_on (turn_reasoning turn) \<longrightarrow> max_reasoning (turn_reasoning turn) \<noteq> 0" "turn_limit turn \<le> fuel"
  shows "\<exists>r. decode_turn fuel turn (predicted d h) (start_run turn c prompt e) = Some (Inr r) \<and>
    outputs r = plain_turn (grown d) (predicted d) (turn_reasoning turn) (stop_ids (turn_session turn)) (turn_limit turn) h \<and>
    synced d turn h (length prompt) r"
proof -
  obtain q where turn: "decode_turn fuel turn (predicted d h) (start_run turn c prompt e) =
      (if session_drafts (turn_session turn) \<noteq> 0 then decode_with_drafts fuel turn q
       else Some (ordinary_loop turn (turn_limit turn - 1) q))"
    and sync_q: "synced d turn h (length prompt) q" and same: "outputs q = [predicted d h]" "run_cached q = prompt"
    and state: "channel_state q = observe_state (turn_reasoning turn) (predicted d h) (channel_state (start_run turn c prompt e))"
    and plain: "plain_turn (grown d) (predicted d) (turn_reasoning turn) (stop_ids (turn_session turn)) (turn_limit turn) h =
      outputs q @ plain_rest d turn h (turn_limit turn - 1) q"
    by (rule turn_begins [OF assms(1-3)])
  have ok: "reasoning_state_ok (turn_reasoning turn) (channel_state q)" using state by simp (simp add: reasoning_state_ok_def)
  show ?thesis
  proof (cases "session_drafts (turn_session turn) = 0")
    case True
    have "length (run_cached q) = length prompt + length (butlast (outputs q))"
      "length prompt + length (butlast (outputs q)) + (turn_limit turn - 1) \<le> context_limit (turn_session turn)"
      using same assms(4,5) by simp_all
    from ordinary_loop_plain [OF assms(1) sync_q this] ok same True turn plain show ?thesis by auto
  next
    case False
    let ?p = "q\<lparr>run_position := length (run_cached q) - 1\<rparr>" and ?m = "turn_limit turn - length (outputs q)"
    have sync': "synced d turn h (length prompt) ?p" using sync_q by (simp add: synced_def)
    have pos: "run_position ?p + 1 = length prompt + length (butlast (outputs ?p))" using same assms(3) by (cases prompt) simp_all
    have room: "length prompt + length (butlast (outputs ?p)) + ?m \<le> context_limit (turn_session turn)" using same assms(4,5) by simp
    have "\<exists>v m. (if chain_capable turn then Inr ?p else reasoning_loop turn ?m ?p) = Inr v \<and> synced d turn h (length prompt) v \<and>
        run_position v + 1 = length prompt + length (butlast (outputs v)) \<and> length (outputs v) + m = length (outputs ?p) + ?m \<and>
        (m = 0 \<or> stopped (run_result v) \<or> run_complete v) \<and>
        outputs ?p @ plain_rest d turn h ?m ?p = outputs v @ plain_rest d turn h m v"
    proof (cases "chain_capable turn")
      case True
      then have "run_complete q" using assms(6) ok by (simp add: reasoning_state_ok_def channel_state_def)
      then show ?thesis using True sync' pos by (intro exI [of _ ?p] exI [of _ ?m]) simp
    next
      case False
      from reasoning_loop_plain [OF assms(1) sync' pos room] ok same show ?thesis using False by simp
    qed
    then obtain v m where v: "(if chain_capable turn then Inr ?p else reasoning_loop turn ?m ?p) = Inr v"
      "synced d turn h (length prompt) v"
      "run_position v + 1 = length prompt + length (butlast (outputs v))" "length (outputs v) + m = length (outputs ?p) + ?m"
      "m = 0 \<or> stopped (run_result v) \<or> run_complete v"
      "outputs ?p @ plain_rest d turn h ?m ?p = outputs v @ plain_rest d turn h m v" by blast
    have m: "length (outputs v) + m = turn_limit turn" using v(4) same assms(4) by simp
    have "0 < length (outputs v)" using synced_next [OF v(2)] by simp
    then have fuel: "m < fuel" using m assms(9) by linarith
    have complete: "snd (channel_state v) \<or> stopped (run_result v) \<or> turn_limit turn \<le> length (outputs v)"
      using v(5) m by (auto simp: channel_state_def)
    have sch: "schedules turn (new_scheduler (session_drafts (turn_session turn)) (run_position v) (session_adaptive (turn_session turn)))"
      using False by (simp add: schedules_def new_scheduler_def)
    have host: "\<not> (4 \<le> turn_limit turn \<and> chain_capable turn)" using assms(6) by auto
    from draft_loop_plain [OF assms(1,5,7) host v(2,3) complete m sch fuel]
    obtain w where w: "draft_loop fuel turn (new_scheduler (session_drafts (turn_session turn)) (run_position v)
        (session_adaptive (turn_session turn))) v = Some (Inr w)" "synced d turn h (length prompt) w"
      "outputs w = outputs v @ plain_rest d turn h m v" by blast
    have "decode_with_drafts fuel turn q = Some (Inr (w\<lparr>run_cached := run_cached w @ butlast (outputs w)\<rparr>))"
      using v(1) w(1) by (cases "chain_capable turn") (auto simp: decode_with_drafts_def Let_def)
    moreover have "outputs w = outputs q @ plain_rest d turn h (turn_limit turn - 1) q"
      using w(3) v(6) same by simp
    ultimately show ?thesis using False turn plain w(2) by (simp add: synced_def)
  qed
qed

section \<open>The checks of a turn\<close>

lemma common_prefix_length: "common_prefix xs ys = length xs \<Longrightarrow> take (length xs) ys = xs"
  by (induction xs ys rule: common_prefix.induct) (auto split: if_splits)

lemma common_prefix_append [simp]: "common_prefix xs (xs @ ys) = length xs"
  by (induction xs) auto

lemma check_turn_Inr:
  assumes "check_turn s prompt limit opts audio vision = Inr ()"
  shows "\<not> poisoned s" "prompt \<noteq> []" "0 < limit" "reasoning_on opts \<longrightarrow> max_reasoning opts \<noteq> 0"
    "length prompt + limit \<le> context_limit s + 1" "take (length (cached_ids s)) prompt = cached_ids s"
    "length (cached_ids s) < length prompt"
    "reasoning_on opts \<longrightarrow> channel_close_id opts < vocabulary_tokens \<and> channel_open_ids opts \<noteq> [] \<and>
       length (channel_open_ids opts) \<le> maximum_open_tokens"
  using assms common_prefix_length [of "cached_ids s" prompt]
  by (auto simp: check_turn_def rbind_Inr_iff check_prefix_def Let_def)

lemma check_prefix_append: "check_prefix cached (cached @ new_ids) = Inr ()"
  by (simp add: check_prefix_def Let_def)

lemma start_run_poisoned [simp]: "run_poisoned (start_run turn c prompt e) = poisoned (turn_session turn)"
  by (simp add: start_run_def Let_def)

lemma close_turn_Inr:
  assumes "decode_turn fuel turn t (start_run turn c prompt e) = Some (Inr r)" "\<not> poisoned (turn_session turn)"
  shows "close_turn (turn_session turn) (Inr r) =
    ((turn_session turn)\<lparr>session_engine := run_engine r, cached_ids := run_cached r\<rparr>, run_context r, Inr (run_result r))"
  using settled_decode_turn [of "start_run turn c prompt e" fuel turn t] assms
  by (cases "turn_session turn") (auto simp: close_turn_def settled_run_def settled_def)

lemma close_turn_Inl:
  assumes "decode_turn fuel turn t (start_run turn c prompt e) = Some z" "close_turn s z = (s', c', Inl err)"
  shows "poisoned s'"
  using settled_decode_turn [of "start_run turn c prompt e" fuel turn t] assms
  by (cases z) (auto simp: close_turn_def settled_run_def settled_def)

lemma session_generate_Inr:
  assumes "session_generate fuel ops s prompt limit opts obs c audio vision = Some (s', c', Inr res)"
  obtains e t r where "check_turn s prompt limit opts audio vision = Inr ()"
    "decode_turn fuel \<lparr>turn_ops = ops, turn_session = s, turn_reasoning = opts, turn_limit = limit, turn_observer = obs\<rparr> t
       (start_run \<lparr>turn_ops = ops, turn_session = s, turn_reasoning = opts, turn_limit = limit, turn_observer = obs\<rparr> c prompt e) =
     Some (Inr r)"
    "s' = s\<lparr>session_engine := run_engine r, cached_ids := run_cached r\<rparr>" "res = run_result r"
proof -
  let ?turn = "\<lparr>turn_ops = ops, turn_session = s, turn_reasoning = opts, turn_limit = limit, turn_observer = obs\<rparr>"
  from assms have check: "check_turn s prompt limit opts audio vision = Inr ()"
    by (auto simp: session_generate_def split: sum.splits)
  with assms obtain e t where "map_option (close_turn s) (decode_turn fuel ?turn t (start_run ?turn c prompt e)) = Some (s', c', Inr res)"
    by (auto simp: session_generate_def Let_def split: sum.splits)
  then obtain z where z: "decode_turn fuel ?turn t (start_run ?turn c prompt e) = Some z" "close_turn s z = (s', c', Inr res)" by auto
  then obtain r where r: "decode_turn fuel ?turn t (start_run ?turn c prompt e) = Some (Inr r)"
    "close_turn s (Inr r) = (s', c', Inr res)" by (cases z) (auto simp: close_turn_def Let_def)
  show thesis using that [OF check r(1)] close_turn_Inr [OF r(1)] r(2) check_turn_Inr(1) [OF check] by simp
qed

end
