(* ===== verification/Chain_Turn.thy ===== *)
theory Chain_Turn
  imports Chain_Facts Session_Turn
begin

text \<open>
  The whole chain, its reply to the host, and the turn of a session whose groups run in it: together with the
  turns that stay on the host, every turn on the device engine gives the tokens of plain decoding.
\<close>

section \<open>The chain runs to its end\<close>

lemma plain_decode_ends: "length (plain_decode grow predict opts ids n h st token) = n \<or>
    last (token # plain_decode grow predict opts ids n h st token) \<in> set ids"
  by (induction n arbitrary: h st token) (auto simp: Let_def)

lemma plain_decode_length: "length (plain_decode grow predict opts ids n h st token) \<le> n"
  by (induction n arbitrary: h st token) (auto simp: Let_def)

lemma chain_body_moves:
  assumes "exact_rows net" "chain_at setup opts s h st t pub start n" "t \<notin> set (setup_stops setup)" "0 < n"
    and "setup_drafts setup = 2" "reasoning_on opts \<longrightarrow> channel_close_id opts < vocabulary_tokens"
  shows "chain_moves net setup opts (chain_body net setup s) h st t pub start n"
  using assms by (simp add: chain_body_def d2_step_moves tail_step_moves)

lemma run_chain_plain:
  assumes "exact_rows net" "setup_drafts setup = 2" "reasoning_on opts \<longrightarrow> channel_close_id opts < vocabulary_tokens"
    and "chain_at setup opts s h st t pub start n" "t \<notin> set (setup_stops setup)" "0 < n" "n \<le> fuel"
    and "out = plain_decode (grow_history net setup) (predict_history net setup) opts (setup_stops setup) n h st t"
  shows "\<exists>s'. run_chain fuel net setup s = Some s' \<and> chain_settled s' \<and> out \<noteq> [] \<and>
    chain_at setup opts s' (fold (grow_history net setup) (t # butlast out) h) (fold (observe_state opts) out st) (last out)
      (pub @ out) start (n - length out)"
  using assms(4-)
proof (induction fuel arbitrary: s h st t pub n out)
  case (Suc fuel)
  let ?s = "chain_body net setup s" and ?plain = "plain_decode (grow_history net setup) (predict_history net setup) opts (setup_stops setup)"
  from chain_body_moves [OF assms(1) Suc.prems(1-3) assms(2,3)] obtain v where
    v: "v \<noteq> []" "length v \<le> n" "chain_settled ?s"
      "chain_at setup opts ?s (fold (grow_history net setup) (t # butlast v) h) (fold (observe_state opts) v st) (last v)
        (pub @ v) start (n - length v)"
    and plain: "\<And>m. ?plain (length v + m) h st t = v @ ?plain m (fold (grow_history net setup) (t # butlast v) h)
      (fold (observe_state opts) v st) (last v)"
    unfolding chain_moves_def by blast
  let ?h = "fold (grow_history net setup) (t # butlast v) h" and ?st = "fold (observe_state opts) v st"
  let ?w = "?plain (n - length v) ?h ?st (last v)"
  have out: "out = v @ ?w" using plain [of "n - length v"] v(2) Suc.prems(5) by simp
  have cur: "state_stopped (current_state (chain_control ?s)) \<longleftrightarrow> last v \<in> set (setup_stops setup)"
    "remaining_capacity (current_state (chain_control ?s)) = n - length v"
    using v(4) by (cases ?h, simp add: chain_at_def chain_control_at_def)+
  show ?case
  proof (cases "last v \<in> set (setup_stops setup) \<or> n - length v = 0")
    case True
    then have "?w = []" by auto
    then show ?thesis using v True out by (intro exI [of _ ?s]) (auto simp: cur Let_def)
  next
    case False
    then have "n - length v \<le> fuel" "0 < n - length v" "last v \<notin> set (setup_stops setup)" using Suc.prems(4) v(1) by (cases v; simp)+
    from Suc.IH [OF v(4) this(3,2,1) refl] obtain s' where
      s': "run_chain fuel net setup ?s = Some s'" "chain_settled s'" "?w \<noteq> []"
        "chain_at setup opts s' (fold (grow_history net setup) (last v # butlast ?w) ?h) (fold (observe_state opts) ?w ?st) (last ?w)
          ((pub @ v) @ ?w) start (n - length v - length ?w)" by blast
    have "fold (grow_history net setup) (t # butlast out) h = fold (grow_history net setup) (last v # butlast ?w) ?h"
      using butlast_grow [of ?w "t # v" "grow_history net setup" h] s'(3) v(1) by (simp add: out)
    then show ?thesis using s' False unfolding out
      by (intro exI [of _ s']) (simp add: cur Let_def butlast_append v(1))
  qed
qed simp

section \<open>The reply of the chain\<close>

lemma stream_accepts: "observer_accepts obs \<Longrightarrow> \<exists>c'. stream_tokens obs c ts = (c', Inr ())"
proof (cases obs)
  case (Some f)
  assume "observer_accepts obs"
  then have f: "snd (f c t) = Inr ()" for c t by (simp add: observer_accepts_def Some)
  show ?thesis unfolding Some
  proof (induction ts arbitrary: c)
    case (Cons t ts)
    then show ?case using f [of c t] by (cases "f c t") auto
  qed simp
qed simp

text \<open>The chain starts from a control that the host has prepared.\<close>

lemma chain_starts:
  assumes "represents_history setup e h p" "armed_control setup e c" "control_fits (setup_context setup) c" "control_position c + 1 = p"
    and "control_token c \<notin> set (setup_stops setup)" "control_written c + control_remaining c \<le> setup_context setup"
    and "tracks opts (device_reasoning_state (control_reasoning c)) st"
  shows "chain_at setup opts \<lparr>chain_model = model_state e, chain_control = pinned_control e, chain_counts = no_counts,
      chain_tokens = output_array e, chain_drafts = proposal_array e, chain_published = []\<rparr> h st (control_token c) []
      (control_written c) (control_remaining c)"
proof -
  obtain m q k where h: "h = (m, q, k)" by (cases h)
  have c: "current_state (pinned_control e) = host_state c (engine_step e)" "fixed_drafts (pinned_control e) = setup_drafts setup"
    "control_sampling (pinned_control e) = setup_sampling setup"
    "chain_reasoning (pinned_control e) = device_reasoning_state (control_reasoning c)"
    using assms(2) by (simp_all add: armed_control_def)
  have e: "q = p" "model_state e = m" "engine_step e = k" "length (output_array e) = setup_context setup"
    "length (proposal_array e) = 2 * setup_context setup"
    using assms(1) by (simp_all add: represents_history_def h)
  have "p + control_remaining c \<le> setup_context setup" "\<not> control_stopped c" "control_stop_token c = 0"
    "control_token c < vocabulary_tokens" using assms(3,4) unfolding control_fits_def by linarith+
  then have "chain_control_at setup (pinned_control e) (control_token c) p k (control_written c) (control_remaining c)"
    using c e assms(4,5) by (auto simp add: chain_control_at_def host_state_def)
  then show ?thesis using assms(5-7) c(4) e by (simp add: chain_at_def h chain_counted_def no_counts_def)
qed

lemma chain_end_reply:
  assumes "chain_settled s" "chain_at setup opts s (m, p, k) st t pub start n"
    and "write_position (current_state (pinned_control e)) = start"
    and "k = engine_step e + step_count setup (length pub)"
  shows "\<exists>e' ch. chain_end setup e s = Inr (e', ch) \<and> chain_outputs ch = pub \<and>
    model_state e' = m \<and> engine_step e' = k \<and> has_hidden e' = has_hidden e \<and> length (output_array e') = setup_context setup \<and>
    length (proposal_array e') = 2 * setup_context setup \<and> next_state (pinned_control e') = current_state (chain_control s) \<and>
    chain_stopped ch = (t \<in> set (setup_stops setup)) \<and> chain_stop_token ch = (if t \<in> set (setup_stops setup) then t else 0) \<and>
    chain_reasoning_count ch = reasoning_count (fst st) \<and> chain_complete ch = snd st"
proof -
  note at = chain_atD [OF assms(2)]
  note counted = at(4) [unfolded chain_counted_def Let_def] and settled = assms(1) [unfolded chain_settled_def Let_def]
  have tracked: "mtp_count (chain_reasoning (chain_control s)) = reasoning_count (fst st)"
    "mtp_complete (chain_reasoning (chain_control s)) = snd st" using at(3) by (auto simp: tracks_def)
  have final: "write_position (current_state (chain_control s)) = start + length pub"
    "state_step (current_state (chain_control s)) = engine_step e + (if setup_sampling setup then length pub else 0)"
    "state_stopped (current_state (chain_control s)) = cc_stopped (chain_counts s)"
    "state_stop_token (current_state (chain_control s)) = cc_stop_token (chain_counts s)"
    using at(2) counted assms(4) by (simp_all add: chain_control_at_def step_count_def)
  have outs: "cc_outputs (chain_counts s) = length pub" "length (chain_published s) = length pub" using counted by simp_all
  have bounds: "length pub \<le> setup_context setup" "cc_proposed (chain_counts s) \<le> 2 * setup_context setup"
    using at(8) counted by linarith+
  have "state_step (current_state (chain_control s)) = k" using at(2) by (simp add: chain_control_at_def)
  then show ?thesis
    using counted settled tracked final bounds at(1,5-7) assms(3)
    unfolding chain_end_def Let_def outs by (simp add: rguard_def)
qed

lemma device_chain_plain:
  fixes e :: "'m device_engine"
  assumes "exact_rows net" "setup_drafts setup = 2" "reasoning_on opts \<longrightarrow> channel_close_id opts < vocabulary_tokens"
    and "represents_history setup e h p" "armed_control setup e c" "control_fits (setup_context setup) c" "control_position c + 1 = p"
    and "control_token c \<notin> set (setup_stops setup)" "control_written c + control_remaining c \<le> setup_context setup"
    and "tracks opts (device_reasoning_state (control_reasoning c)) st" "graph_ready e" "observer_accepts obs"
    and "out = plain_decode (grow_history net setup) (predict_history net setup) opts (setup_stops setup) (control_remaining c) h st
      (control_token c)"
  shows "\<exists>context' e' ch. device_chain net setup e obs context = (context', Inr (e', ch)) \<and> out \<noteq> [] \<and> chain_outputs ch = out \<and>
    represents_history setup e' (fold (grow_history net setup) (control_token c # butlast out) h) (p + length out) \<and>
    ready_control e' (advance_control (setup_stops setup) c out) \<and> chain_stopped ch = (last out \<in> set (setup_stops setup)) \<and>
    chain_stop_token ch = (if last out \<in> set (setup_stops setup) then last out else 0) \<and>
    chain_reasoning_count ch = reasoning_count (fst (fold (observe_state opts) out st)) \<and>
    chain_complete ch = snd (fold (observe_state opts) out st) \<and> last out < vocabulary_tokens"
proof -
  let ?s = "\<lparr>chain_model = model_state e, chain_control = pinned_control e, chain_counts = no_counts,
      chain_tokens = output_array e, chain_drafts = proposal_array e, chain_published = []\<rparr>"
  let ?st = "fold (observe_state opts) out st" and ?n = "control_remaining c"
  have pinned: "current_state (pinned_control e) = host_state c (engine_step e)" using assms(5) by (simp add: armed_control_def)
  obtain m q k where h: "h = (m, q, k)" by (cases h)
  have e: "q = p" "model_state e = m" "engine_step e = k" "has_hidden e"
    using assms(4,7) by (auto simp add: represents_history_def h)
  have remaining: "0 < ?n" using assms(6) by (simp add: control_fits_def)
  from run_chain_plain [OF assms(1-3) chain_starts [OF assms(4-10)] assms(8) remaining order_refl assms(13)] obtain s where
    s: "run_chain ?n net setup ?s = Some s" "chain_settled s" "out \<noteq> []"
      "chain_at setup opts s (fold (grow_history net setup) (control_token c # butlast out) h) ?st (last out) out (control_written c)
        (?n - length out)" by auto
  obtain m' where history: "fold (grow_history net setup) (control_token c # butlast out) h = (m', p + length out, k + step_count setup (length out))"
    using s(3) unfolding h fold_grow_history e(1) by (cases out) simp_all
  obtain context' where streamed: "stream_tokens obs context (chain_published s) = (context', Inr ())"
    using stream_accepts [OF assms(12)] by blast
  have "write_position (current_state (pinned_control e)) = control_written c" by (simp add: pinned)
  from chain_end_reply [OF s(2) s(4) [unfolded history] this] e(3) obtain e' ch where
    reply: "chain_end setup e s = Inr (e', ch)" "chain_outputs ch = out" "model_state e' = m'" "engine_step e' = k + step_count setup (length out)"
      "has_hidden e'" "length (output_array e') = setup_context setup" "length (proposal_array e') = 2 * setup_context setup"
      "next_state (pinned_control e') = current_state (chain_control s)" "chain_stopped ch = (last out \<in> set (setup_stops setup))"
      "chain_stop_token ch = (if last out \<in> set (setup_stops setup) then last out else 0)"
      "chain_reasoning_count ch = reasoning_count (fst ?st)" "chain_complete ch = snd ?st"
    using e(4) by blast
  have "current_state (chain_control s) = host_state (advance_control (setup_stops setup) c out) (k + step_count setup (length out))"
    using s(4) assms(7) unfolding history
    by (auto simp: chain_at_def chain_control_at_def host_state_def advance_control_def)
  then have "ready_control e' (advance_control (setup_stops setup) c out)" by (simp add: ready_control_def reply)
  moreover have "represents_history setup e' (fold (grow_history net setup) (control_token c # butlast out) h) (p + length out)"
    unfolding history by (simp add: represents_history_def reply)
  moreover have "last out < vocabulary_tokens" using s(4) unfolding history by (simp add: chain_at_def chain_control_at_def)
  moreover have "device_chain net setup e obs context = (context', Inr (e', ch))"
    using assms(11) s(1) streamed reply(1) by (simp add: device_chain_def pinned)
  ultimately show ?thesis using s(3) reply by blast
qed

section \<open>The step of the host\<close>

text \<open>Where the device may follow the channel: the request has its tokens, and without reasoning none has begun.\<close>

definition channel_fits :: "reasoning_options \<Rightarrow> bool" where
  "channel_fits opts \<longleftrightarrow> length (channel_open_ids opts) \<le> maximum_open_tokens \<and>
     (reasoning_on opts \<longrightarrow> channel_open_ids opts \<noteq> [] \<and> channel_close_id opts < vocabulary_tokens \<and> max_reasoning opts \<noteq> 0) \<and>
     (\<not> reasoning_on opts \<longrightarrow> \<not> starts_reasoning opts)"

definition tracker_follows :: "reasoning_options \<Rightarrow> channel_tracker \<times> bool \<Rightarrow> bool" where
  "tracker_follows opts st \<longleftrightarrow> (\<exists>q. tracks opts q st) \<and> open_match (fst st) \<le> length (channel_open_ids opts)"

lemma tracker_follows_start:
  assumes "channel_fits opts"
  shows "tracker_follows opts (observe_state opts token
    (new_tracker (channel_open_ids opts) (channel_close_id opts) (starts_reasoning opts), \<not> reasoning_on opts))"
proof -
  let ?st = "(new_tracker (channel_open_ids opts) (channel_close_id opts) (starts_reasoning opts), \<not> reasoning_on opts)"
  have "tracks opts \<lparr>mtp_open = channel_open_ids opts, mtp_close = channel_close_id opts, mtp_match = 0, mtp_enabled = reasoning_on opts,
      mtp_started = starts_reasoning opts, mtp_complete = \<not> reasoning_on opts, mtp_inside = starts_reasoning opts, mtp_forced = False,
      mtp_count = 0, mtp_maximum = max_reasoning opts\<rparr> ?st"
    using assms by (simp add: tracks_def new_tracker_def channel_fits_def)
  moreover have "open_match (fst (observe_state opts token ?st)) \<le> length (channel_open_ids opts)"
    using assms by (cases "channel_open_ids opts")
      (auto simp: observe_state_def Let_def new_tracker_def observe_def observe_reasoning_def observe_opening_def channel_fits_def)
  ultimately show ?thesis using tracks_observe unfolding tracker_follows_def by blast
qed

lemma tracks_device:
  "tracker_follows opts (channel_state r) \<Longrightarrow> tracks opts (device_reasoning_state (Some (opts, device_reasoning_of r))) (channel_state r)"
  by (auto simp: tracker_follows_def tracks_def device_reasoning_state_def device_reasoning_of_def channel_state_def)

lemma observe_outputs_more [simp]:
  "observe_outputs opts [] r = r"
  "observe_outputs opts (t # ts) r = observe_outputs opts ts (observe_token opts t (push_token t r))"
  by (simp_all add: observe_outputs_def)

lemma observe_token_counts: "counts_reasoning r \<Longrightarrow> counts_reasoning (observe_token opts t (push_token t r))"
  using observed_counts [of "push_token t r" opts t] by (simp add: counts_reasoning_def)

lemma observe_outputs_simps:
  "outputs (observe_outputs opts ts r) = outputs r @ ts"
  "run_next (observe_outputs opts ts r) = last (run_next r # ts)"
  "run_engine (observe_outputs opts ts r) = run_engine r" "run_position (observe_outputs opts ts r) = run_position r"
  "channel_state (observe_outputs opts ts r) = fold (observe_state opts) ts (channel_state r)"
  "counts_reasoning r \<Longrightarrow> counts_reasoning (observe_outputs opts ts r)"
  by (induction ts arbitrary: r) (simp_all add: observe_token_counts)

lemma record_chain_more [simp]:
  "run_next (record_chain ch r) = run_next r" "run_engine (record_chain ch r) = run_engine r"
  "run_position (record_chain ch r) = run_position r + length (chain_outputs ch)" "channel_state (record_chain ch r) = channel_state r"
  "reasoning_tokens (run_result (record_chain ch r)) = reasoning_tokens (run_result r)"
  by (simp_all add: record_chain_def channel_state_def)

lemma run_complete_state: "run_complete r = snd (channel_state r)"
  by (simp add: channel_state_def)

text \<open>A turn on the device engine, in which the groups run in the chain.\<close>

definition chain_turn :: "'m network \<Rightarrow> (inference_result \<Rightarrow> inference_result) \<Rightarrow> ('m device_engine, 'c) turn \<Rightarrow> bool" where
  "chain_turn net sizes turn \<longleftrightarrow> exact_rows net \<and> turn_ops turn = device_ops net (session_setup (turn_session turn)) sizes \<and>
     observer_accepts (turn_observer turn) \<and> channel_fits (turn_reasoning turn) \<and> chain_capable turn"

lemma chain_turn_ok: "chain_turn net sizes turn \<Longrightarrow> turn_ok (device_decoder net (session_setup (turn_session turn))) turn"
  by (auto simp: chain_turn_def turn_ok_def device_decodes channel_fits_def)

lemma chain_capable_setup:
  "chain_capable turn \<Longrightarrow> setup_drafts (session_setup (turn_session turn)) = 2 \<and> graph_mode (session_setup (turn_session turn))"
  by (simp add: chain_capable_def Let_def session_setup_def graph_mode_def)

lemma length_butlast_append: "xs \<noteq> [] \<Longrightarrow> length (butlast (xs @ ys)) = length (butlast xs) + length ys"
  by (cases xs) auto

lemma chain_step_Inr:
  assumes "prepare_control (turn_ops turn) (run_engine r) (control_of turn (Some (turn_reasoning turn, device_reasoning_of r)) r) = Inr e"
    and "execute_chain (turn_ops turn) e (turn_observer turn) (run_context r) = (c, Inr (e', ch))"
    and "w = mark_forced (chain_forced ch) (observe_outputs (turn_reasoning turn) (chain_outputs ch)
      (record_chain ch (r\<lparr>run_context := c, run_engine := e'\<rparr>)))"
    and "reasoning_tokens (run_result w) = chain_reasoning_count ch" "run_complete w = chain_complete ch"
    and "parity turn r' = Inr r'" "r' = update_result (\<lambda>v. v\<lparr>stopped := chain_stopped ch, stop_token_id := chain_stop_token ch\<rparr>) w"
  shows "chain_step turn r = Inr r'"
proof -
  have "r\<lparr>run_engine := e, run_context := c, run_engine := e'\<rparr> = r\<lparr>run_context := c, run_engine := e'\<rparr>" by simp
  then show ?thesis
    using assms(4-6) unfolding chain_step_def on_status_def assms(1) Let_def
    by (simp del: mark_forced_simps add: on_engine_def assms(2) assms(3) [symmetric] assms(7) [symmetric])
qed

lemma chain_step_plain:
  fixes turn :: "('m device_engine, 'c) turn" and net :: "'m network"
  defines "setup \<equiv> session_setup (turn_session turn)"
  defines "d \<equiv> device_decoder net setup"
  assumes "chain_turn net sizes turn" "synced d turn h base r" "\<not> stopped (run_result r)"
    and "run_position r + 1 = base + length (butlast (outputs r))" "length (outputs r) < turn_limit turn"
    and "base + turn_limit turn \<le> context_limit (turn_session turn) + 1" "counts_reasoning r"
    and "tracker_follows (turn_reasoning turn) (channel_state r)" "graph_ready (run_engine r)"
  shows "\<exists>r'. chain_step turn r = Inr r' \<and> synced d turn h base r' \<and>
    outputs r' = outputs r @ plain_rest d turn h (turn_limit turn - length (outputs r)) r"
proof -
  let ?opts = "turn_reasoning turn" and ?h = "fold (grown d) (butlast (outputs r)) h" and ?p = "base + length (butlast (outputs r))"
  let ?reasoning = "Some (?opts, device_reasoning_of r)"
  let ?c = "control_of turn ?reasoning r" and ?q = "device_reasoning_state ?reasoning"
  let ?out = "plain_rest d turn h (turn_limit turn - length (outputs r)) r"
  have same: "setup_context setup = context_limit (turn_session turn)" "setup_stops setup = stop_ids (turn_session turn)"
    "setup_drafts setup = 2" "turn_ops turn = device_ops net setup sizes" "exact_rows net" "observer_accepts (turn_observer turn)"
    "length (channel_open_ids ?opts) \<le> maximum_open_tokens"
    "reasoning_on ?opts \<longrightarrow> channel_open_ids ?opts \<noteq> [] \<and> channel_close_id ?opts < vocabulary_tokens \<and> max_reasoning ?opts \<noteq> 0"
    using assms(3) chain_capable_setup [of turn] unfolding chain_turn_def channel_fits_def setup_def by (simp_all add: session_setup_def)
  have dec: "grown d = grow_history net setup" "predicted d = predict_history net setup" by (simp_all add: d_def)
  note next_r = synced_next [OF assms(4)] and running = synced_running [OF assms(4,5)] and shown = synced_represents [OF assms(4)]
  have pos: "run_position r + 2 = base + length (outputs r)" using assms(6) next_r by (cases "outputs r") simp_all
  have full: "turn_limit turn - length (outputs r) \<le> context_limit (turn_session turn) - (base + (length (outputs r) - Suc 0))"
    using assms(7,8) next_r by (cases "outputs r") simp_all
  have fits: "control_fits (setup_context setup) ?c" "control_position ?c + 1 = ?p" "0 < base"
    using assms(4-8) pos next_r running full by (auto simp add: control_fits_def control_of_def synced_def same)
  have control: "control_token ?c = run_next r" "control_reasoning ?c = ?reasoning" "control_written ?c = length (outputs r)"
    "control_remaining ?c = turn_limit turn - length (outputs r)" by (simp_all add: control_of_def)
  have tracked: "tracks ?opts ?q (channel_state r)" using tracks_device assms(10) by blast
  have match: "mtp_match ?q \<le> length (mtp_open ?q)" "length (mtp_open ?q) \<le> maximum_open_tokens"
    "mtp_enabled ?q \<longrightarrow> mtp_open ?q \<noteq> [] \<and> mtp_maximum ?q \<noteq> 0"
    using assms(10) same(7,8)
    by (auto simp: tracker_follows_def device_reasoning_state_def device_reasoning_of_def channel_state_def)
  have shown': "represents_history setup (run_engine r) ?h ?p" using shown by (simp add: d_def)
  have drafts: "setup_drafts setup \<noteq> 0" by (simp add: same)
  from device_prepare_control_armed [OF shown' drafts fits(1) _ match(2,1,3)] control(2) obtain e where
    e: "device_prepare_control setup (run_engine r) ?c = Inr e" "represents_history setup e ?h ?p" "armed_control setup e ?c"
      "graph_ready e" using assms(11) by auto
  have enough: "control_written ?c + control_remaining ?c \<le> setup_context setup"
    using assms(7,8) fits(3) by (simp add: control same)
  have token: "control_token ?c \<notin> set (setup_stops setup)" using running by (simp add: control same)
  have out: "?out = plain_decode (grow_history net setup) (predict_history net setup) ?opts (setup_stops setup) (control_remaining ?c) ?h
      (channel_state r) (control_token ?c)" by (simp add: control same dec)
  have close: "reasoning_on ?opts \<longrightarrow> channel_close_id ?opts < vocabulary_tokens" using same(8) by blast
  from device_chain_plain [OF same(5,3) close e(2,3) fits(1,2) token enough _ e(4) same(6) out] tracked control(2)
  obtain context' e' ch where chain:
    "device_chain net setup e (turn_observer turn) (run_context r) = (context', Inr (e', ch))" "?out \<noteq> []" "chain_outputs ch = ?out"
    "represents_history setup e' (fold (grow_history net setup) (control_token ?c # butlast ?out) ?h) (?p + length ?out)"
    "ready_control e' (advance_control (setup_stops setup) ?c ?out)" "chain_stopped ch = (last ?out \<in> set (setup_stops setup))"
    "chain_stop_token ch = (if last ?out \<in> set (setup_stops setup) then last ?out else 0)"
    "chain_reasoning_count ch = reasoning_count (fst (fold (observe_state ?opts) ?out (channel_state r)))"
    "chain_complete ch = snd (fold (observe_state ?opts) ?out (channel_state r))" "last ?out < vocabulary_tokens" by metis
  let ?v = "record_chain ch (r\<lparr>run_context := context', run_engine := e'\<rparr>)"
  let ?w = "mark_forced (chain_forced ch) (observe_outputs ?opts ?out ?v)"
  let ?r' = "update_result (\<lambda>v. v\<lparr>stopped := chain_stopped ch, stop_token_id := chain_stop_token ch\<rparr>) ?w"
  have v: "outputs ?v = outputs r" "channel_state ?v = channel_state r" "run_engine ?v = e'"
    "run_position ?v = run_position r + length ?out" "counts_reasoning ?v"
    using assms(9) chain(3) by (simp_all add: outputs_def channel_state_def counts_reasoning_def record_chain_def)
  have w: "outputs ?w = outputs r @ ?out" "channel_state ?w = fold (observe_state ?opts) ?out (channel_state r)" "run_engine ?w = e'"
    "run_position ?w = run_position r + length ?out" "run_next ?w = last ?out" "counts_reasoning ?w"
    using observe_outputs_simps [where opts = ?opts and ts = ?out and r = ?v] v chain(2) by (simp_all add: counts_reasoning_def)
  have r': "outputs ?r' = outputs r @ ?out" "run_engine ?r' = e'" "run_position ?r' = run_position r + length ?out"
    "run_next ?r' = last ?out" "stopped (run_result ?r') = chain_stopped ch" "stop_token_id (run_result ?r') = chain_stop_token ch"
    using w by (simp_all add: outputs_def)
  have agree: "reasoning_tokens (run_result ?w) = chain_reasoning_count ch" "run_complete ?w = chain_complete ch"
    using w(6) unfolding counts_reasoning_def run_complete_state w(2) chain(8,9) by simp_all
  have next_control: "control_of turn None ?r' = advance_control (setup_stops setup) ?c ?out"
    using r' chain(6,7) by (simp add: control_of_def advance_control_def)
  have "ready d = ready_control" by (simp add: d_def)
  then have "ready d (run_engine ?r') (control_of turn None ?r')" using chain(5) unfolding next_control r'(2) by (simp only:)
  moreover have "turn_ok d turn" unfolding d_def setup_def by (rule chain_turn_ok [OF assms(3)])
  ultimately have parity_ok: "parity turn ?r' = Inr ?r'" using parity_plain by blast
  have ops: "prepare_control (turn_ops turn) (run_engine r) ?c = Inr e"
    "execute_chain (turn_ops turn) e (turn_observer turn) (run_context r) = (context', Inr (e', ch))"
    using e(1) chain(1) by (simp_all add: same(4))
  have step: "chain_step turn r = Inr ?r'"
    by (rule chain_step_Inr [OF ops _ agree parity_ok refl]) (simp only: chain(3))
  have history: "fold (grown d) (butlast (outputs r @ ?out)) h = fold (grown d) (control_token ?c # butlast ?out) ?h"
    using butlast_grow [OF chain(2), of "outputs r"] next_r by (simp add: control)
  have len: "base + length (butlast (outputs r @ ?out)) = ?p + length ?out"
    using next_r length_butlast_append [of "outputs r"] by simp
  have "synced d turn h base ?r'"
    unfolding synced_def r' history len using chain(2,4,6,7,10) fits(3) by (simp add: same d_def)
  then show ?thesis using step r'(1) by blast
qed

section \<open>The turn\<close>

lemma chain_loop_plain:
  fixes turn :: "('m device_engine, 'c) turn" and net :: "'m network"
  defines "setup \<equiv> session_setup (turn_session turn)"
  defines "d \<equiv> device_decoder net setup"
  assumes "chain_turn net sizes turn" "synced d turn h base r" "outputs r = [t]" "run_position r + 1 = base"
    and "base + turn_limit turn \<le> context_limit (turn_session turn) + 1" "turn_limit turn = 1 \<or> 4 \<le> turn_limit turn"
    and "turn_limit turn \<le> fuel" "counts_reasoning r" "tracker_follows (turn_reasoning turn) (channel_state r)" "graph_ready (run_engine r)"
  shows "\<exists>r'. draft_loop fuel turn sch r = Some (Inr r') \<and> synced d turn h base r' \<and>
    outputs r' = outputs r @ plain_rest d turn h (turn_limit turn - 1) r"
proof -
  obtain f where f: "fuel = Suc f" using assms(8,9) by (cases fuel) auto
  have capable: "chain_capable turn" using assms(3) by (simp add: chain_turn_def)
  show ?thesis
  proof (cases "turn_limit turn = 1 \<or> stopped (run_result r)")
    case True
    then have "plain_rest d turn h (turn_limit turn - 1) r = []" using synced_stopped [OF assms(4)] by (elim disjE) simp_all
    then show ?thesis using True assms(4,5) f by (intro exI [of _ r]) auto
  next
    case False
    then have run: "\<not> stopped (run_result r)" "length (outputs r) < turn_limit turn" "4 \<le> turn_limit turn" using assms(5,8) by auto
    have pos: "run_position r + 1 = base + length (butlast (outputs r))" using assms(5,6) by simp
    from chain_step_plain [OF assms(3) assms(4) [unfolded d_def setup_def] run(1) pos run(2) assms(7,10-12)] obtain r' where
      r': "chain_step turn r = Inr r'" "synced d turn h base r'" "outputs r' = outputs r @ plain_rest d turn h (turn_limit turn - 1) r"
      using assms(5) unfolding d_def setup_def by auto
    let ?out = "plain_rest d turn h (turn_limit turn - 1) r"
    obtain n where n: "turn_limit turn - 1 = Suc n" using run(3) by (cases "turn_limit turn - 1") auto
    have out: "?out \<noteq> []" using synced_running [OF assms(4) run(1)] unfolding n by (simp add: Let_def)
    have "turn_limit turn \<le> length (outputs r') \<or> stopped (run_result r')"
    proof (cases "length ?out = turn_limit turn - 1")
      case False
      then have "last ?out \<in> set (stop_ids (turn_session turn))"
        using plain_decode_ends [of "grown d" "predicted d" "turn_reasoning turn" "stop_ids (turn_session turn)" "turn_limit turn - 1"
          "fold (grown d) (butlast (outputs r)) h" "channel_state r" "run_next r"] out by (simp del: plain_decode.simps)
      then show ?thesis using r'(2,3) out by (simp add: synced_def)
    qed (use r'(3) assms(5) run(3) in simp)
    moreover have "3 \<le> turn_limit turn - length (outputs r)" using run(3) assms(5) by simp
    then have "draft_step turn sch r = Inr (sch, r')" using capable r'(1) by (simp add: draft_step_def Let_def)
    moreover have "\<exists>g. f = Suc g" using assms(9) run(3) f by (cases f) auto
    ultimately have "draft_loop fuel turn sch r = Some (Inr r')" using run by (auto simp: f)
    then show ?thesis using r' by blast
  qed
qed

lemma decode_turn_chain:
  fixes turn :: "('m device_engine, 'c) turn" and net :: "'m network"
  defines "setup \<equiv> session_setup (turn_session turn)"
  defines "d \<equiv> device_decoder net setup"
  assumes "chain_turn net sizes turn" "represents_history setup e h (length prompt)" "prompt \<noteq> []"
    and "length prompt + turn_limit turn \<le> context_limit (turn_session turn) + 1"
    and "turn_limit turn = 1 \<or> 4 \<le> turn_limit turn" "turn_limit turn \<le> fuel"
  shows "\<exists>r. decode_turn fuel turn (predicted d h) (start_run turn c prompt e) = Some (Inr r) \<and>
    outputs r = plain_turn (grown d) (predicted d) (turn_reasoning turn) (stop_ids (turn_session turn)) (turn_limit turn) h \<and>
    synced d turn h (length prompt) r"
proof -
  have ok: "turn_ok d turn" unfolding d_def setup_def by (rule chain_turn_ok [OF assms(3)])
  have shown: "represents d e h (length prompt)" using assms(4) by (simp add: d_def)
  have chain: "chain_capable turn" "turn_ops turn = device_ops net setup sizes" "channel_fits (turn_reasoning turn)"
    using assms(3) by (simp_all add: chain_turn_def setup_def)
  obtain q where turn: "decode_turn fuel turn (predicted d h) (start_run turn c prompt e) =
      (if session_drafts (turn_session turn) \<noteq> 0 then decode_with_drafts fuel turn q
       else Some (ordinary_loop turn (turn_limit turn - 1) q))"
    and q: "synced d turn h (length prompt) q" "outputs q = [predicted d h]" "run_cached q = prompt" "counts_reasoning q"
      "channel_state q = observe_state (turn_reasoning turn) (predicted d h) (channel_state (start_run turn c prompt e))"
    and plain: "plain_turn (grown d) (predicted d) (turn_reasoning turn) (stop_ids (turn_session turn)) (turn_limit turn) h =
      outputs q @ plain_rest d turn h (turn_limit turn - 1) q"
    and graph: "chain_capable turn \<longrightarrow> (\<exists>e0. prepare_graph (turn_ops turn) e0 = Inr (run_engine q))"
    by (rule turn_begins [OF ok shown assms(5)])
  have drafts: "session_drafts (turn_session turn) \<noteq> 0" using chain(1) by (auto simp: chain_capable_def Let_def)
  have made: "graph_ready e1" if "device_prepare_graph setup e0 = Inr e1" for e0 e1 :: "'m device_engine"
    using that chain_capable_setup [OF chain(1)] by (auto simp: device_prepare_graph_def setup_def rbind_Inr_iff)
  have ready: "graph_ready (run_engine q)" using graph chain(1,2) made by auto
  have follows: "tracker_follows (turn_reasoning turn) (channel_state q)" using tracker_follows_start [OF chain(3)] q(5) by simp
  let ?q = "q\<lparr>run_position := length (run_cached q) - 1\<rparr>"
  have start: "synced d turn h (length prompt) ?q" "outputs ?q = [predicted d h]" "run_position ?q + 1 = length prompt"
    "counts_reasoning ?q" "tracker_follows (turn_reasoning turn) (channel_state ?q)" "graph_ready (run_engine ?q)"
    using q(1-4) assms(5) follows ready by (simp_all add: synced_def counts_reasoning_def)
  from chain_loop_plain [OF assms(3) start(1) [unfolded d_def setup_def] start(2,3) assms(6-8) start(4-6),
      of "new_scheduler (session_drafts (turn_session turn)) (run_position ?q) (session_adaptive (turn_session turn))"]
  obtain w where w: "draft_loop fuel turn (new_scheduler (session_drafts (turn_session turn)) (run_position ?q)
      (session_adaptive (turn_session turn))) ?q = Some (Inr w)" "synced d turn h (length prompt) w"
    "outputs w = outputs ?q @ plain_rest d turn h (turn_limit turn - 1) ?q"
    unfolding d_def setup_def by blast
  have "decode_with_drafts fuel turn q = Some (Inr (w\<lparr>run_cached := run_cached w @ butlast (outputs w)\<rparr>))"
    using w(1) chain(1) by (simp add: decode_with_drafts_def Let_def)
  then show ?thesis using turn drafts plain w(2,3) by (simp add: synced_def)
qed

end
