(* ===== verification/Session_Theorems.thy ===== *)
theory Session_Theorems
  imports Chain_Turn
begin

text \<open>The properties of a conversation session, on any engine and on the device engine, and a small network at which they are applied.\<close>

section \<open>Any engine\<close>

lemma generate_cached:
  assumes "session_generate fuel ops s prompt limit opts obs c audio vision = Some (s', c', Inr res)"
  shows "output_token_ids res \<noteq> []" "cached_ids s' = prompt @ butlast (output_token_ids res)" "\<not> poisoned s'"
    and "check_turn s prompt limit opts audio vision = Inr ()" "context_limit s' = context_limit s" "stop_ids s' = stop_ids s"
    and "session_drafts s = 0 \<longrightarrow> length (output_token_ids res) \<le> limit"
proof -
  let ?turn = "\<lparr>turn_ops = ops, turn_session = s, turn_reasoning = opts, turn_limit = limit, turn_observer = obs\<rparr>"
  obtain e t r where check: "check_turn s prompt limit opts audio vision = Inr ()"
    and r: "decode_turn fuel ?turn t (start_run ?turn c prompt e) = Some (Inr r)"
    "s' = s\<lparr>session_engine := run_engine r, cached_ids := run_cached r\<rparr>" "res = run_result r"
    by (rule session_generate_Inr [OF assms])
  show "check_turn s prompt limit opts audio vision = Inr ()" by (fact check)
  show "output_token_ids res \<noteq> []" "cached_ids s' = prompt @ butlast (output_token_ids res)" "\<not> poisoned s'"
    "context_limit s' = context_limit s" "stop_ids s' = stop_ids s"
    "session_drafts s = 0 \<longrightarrow> length (output_token_ids res) \<le> limit"
    using decode_turn_cached [OF r(1)] check_turn_Inr(1,3) [OF check] by (simp_all add: r(2,3) outputs_def)
qed

lemma generate_failed:
  assumes "session_generate fuel ops s prompt limit opts obs c audio vision = Some (s', c', Inl e)"
  shows "(s' = s \<and> c' = c \<and> check_turn s prompt limit opts audio vision = Inl e) \<or> poisoned s'"
proof (cases "check_turn s prompt limit opts audio vision")
  case (Inr u)
  let ?turn = "\<lparr>turn_ops = ops, turn_session = s, turn_reasoning = opts, turn_limit = limit, turn_observer = obs\<rparr>"
  from assms Inr consider "s' = s\<lparr>poisoned := True\<rparr>" | e' t where
      "map_option (close_turn s) (decode_turn fuel ?turn t (start_run ?turn c prompt e')) = Some (s', c', Inl e)"
    by (auto simp: session_generate_def Let_def split: sum.splits prod.splits)
  then show ?thesis by cases (auto dest!: close_turn_Inl)
qed (use assms in \<open>simp add: session_generate_def\<close>)

text \<open>
  C2. After a turn that returned, whatever the engine did, the session holds exactly the rendered prompt
  and every generated token but the last: the prompt had extended what was cached, and the transcript
  of the next turn, when it repeats prompt and outputs, again extends it.  Without drafts a turn gives
  at most the tokens asked for and the cache stays within the context.
\<close>

theorem turn_caches_transcript:
  assumes "session_generate fuel ops s prompt limit opts obs c audio vision = Some (s', c', Inr res)"
  shows "output_token_ids res \<noteq> [] \<and> cached_ids s' = prompt @ butlast (output_token_ids res) \<and>
    take (length (cached_ids s)) prompt = cached_ids s \<and> \<not> poisoned s' \<and>
    (\<forall>later. check_prefix (cached_ids s') (prompt @ output_token_ids res @ later) = Inr ()) \<and>
    (session_drafts s = 0 \<longrightarrow> length (output_token_ids res) \<le> limit \<and> length (cached_ids s') \<le> context_limit s')"
proof -
  note done_turn = generate_cached [OF assms] and turn = check_turn_Inr [OF generate_cached(4) [OF assms]]
  have "prompt @ output_token_ids res @ later = cached_ids s' @ last (output_token_ids res) # later" for later
    using done_turn(1,2) append_butlast_last_id [of "output_token_ids res"] by simp
  then have "check_prefix (cached_ids s') (prompt @ output_token_ids res @ later) = Inr ()" for later
    by (simp only: check_prefix_append)
  then show ?thesis using done_turn turn by auto
qed

text \<open>
  C3. A turn that fails either was refused by the checks, and then nothing has changed at all, or it
  poisons the session: from then on every turn is refused with an internal error.
\<close>

theorem failed_turn_poisons:
  assumes "session_generate fuel ops s prompt limit opts obs c audio vision = Some (s', c', Inl e)"
  shows "(s' = s \<and> c' = c \<and> check_turn s prompt limit opts audio vision = Inl e) \<or>
    (poisoned s' \<and> (\<forall>fuel' prompt' limit' opts' obs' c'' audio' vision'.
       session_generate fuel' ops s' prompt' limit' opts' obs' c'' audio' vision' = Some (s', c'',
         Inl (Status KInternal ''conversation session cannot continue after an inference failure''))))"
  using generate_failed [OF assms] by (auto simp: session_generate_def check_turn_def rguard_def)

text \<open>The condition under which the device runs the verification groups in a chain.\<close>

definition on_device_chain :: "'e conversation \<Rightarrow> bool" where
  "on_device_chain s \<longleftrightarrow> session_drafts s = 2 \<and> \<not> session_adaptive s \<and> session_kv_mode s = CheckpointFp8 \<and>
     sliding_tokens < context_limit s"

lemma chain_capable_session [simp]:
  "chain_capable \<lparr>turn_ops = ops, turn_session = s, turn_reasoning = opts, turn_limit = limit, turn_observer = obs\<rparr> = on_device_chain s"
  by (simp add: chain_capable_def on_device_chain_def Let_def)

text \<open>
  C4. Whatever the model generates, a turn whose loop runs on the host never counts more reasoning tokens
  than the thinking budget of the request: the token after the last one allowed is the forced end of
  the channel.  The count never wraps around.
\<close>

theorem reasoning_within_budget:
  assumes "session_generate fuel ops s prompt limit opts obs c audio vision = Some (s', c', Inr res)" "\<not> on_device_chain s"
  shows "reasoning_tokens res \<le> max_reasoning opts"
proof -
  let ?turn = "\<lparr>turn_ops = ops, turn_session = s, turn_reasoning = opts, turn_limit = limit, turn_observer = obs\<rparr>"
  obtain e t r where check: "check_turn s prompt limit opts audio vision = Inr ()"
    and r: "decode_turn fuel ?turn t (start_run ?turn c prompt e) = Some (Inr r)"
    "s' = s\<lparr>session_engine := run_engine r, cached_ids := run_cached r\<rparr>" "res = run_result r"
    by (rule session_generate_Inr [OF assms(1)])
  show ?thesis using decode_turn_budget [OF r(1)] check_turn_Inr(4) [OF check] assms(2) by (simp add: r(3))
qed

text \<open>
  A chained session that may generate two or three tokens forwards them one group after the other and
  observes only the first: however many reasoning tokens come, the session counts at most one.
\<close>

lemma short_chain_unobserved:
  assumes "session_generate fuel ops s prompt limit opts obs c audio vision = Some (s', c', Inr res)" "on_device_chain s" "limit \<le> 3"
  shows "reasoning_tokens res = reasoning_count (fst (observe_state opts (hd (output_token_ids res))
    (new_tracker (channel_open_ids opts) (channel_close_id opts) (starts_reasoning opts), \<not> reasoning_on opts)))"
proof -
  let ?turn = "\<lparr>turn_ops = ops, turn_session = s, turn_reasoning = opts, turn_limit = limit, turn_observer = obs\<rparr>"
  obtain e t r where r: "decode_turn fuel ?turn t (start_run ?turn c prompt e) = Some (Inr r)" "res = run_result r"
    by (rule session_generate_Inr [OF assms(1)])
  from decode_turn_unobserved [OF r(1)] assms(2,3) show ?thesis by (simp add: r(2) outputs_def)
qed

section \<open>The device engine\<close>

text \<open>Any engine that meets the contract, once its turns decode plainly.\<close>

lemma generate_plain:
  assumes "decodes ops d s" "check_turn s prompt limit opts audio vision = Inr ()"
    and "represents d (session_engine s) h0 (length (cached_ids s))"
    and "turn = \<lparr>turn_ops = ops, turn_session = s, turn_reasoning = opts, turn_limit = limit, turn_observer = obs\<rparr>"
    and "h = absorbed d h0 (drop (length (cached_ids s)) prompt) audio vision"
    and "ids = plain_turn (grown d) (predicted d) opts (stop_ids s) limit h"
    and "\<And>e. represents d e h (length prompt) \<Longrightarrow> \<exists>r. decode_turn fuel turn (predicted d h) (start_run turn c prompt e) = Some (Inr r) \<and>
      outputs r = ids \<and> synced d turn h (length prompt) r"
  shows "\<exists>s' c' res. session_generate fuel ops s prompt limit opts obs c audio vision = Some (s', c', Inr res) \<and>
    output_token_ids res = ids \<and> (stopped res \<longleftrightarrow> last ids \<in> set (stop_ids s)) \<and>
    represents d (session_engine s') (fold (grown d) (butlast ids) h) (length (cached_ids s'))"
proof -
  note turn = check_turn_Inr [OF assms(2)]
  have "drop (length (cached_ids s)) prompt \<noteq> []" "length (cached_ids s) + length (drop (length (cached_ids s)) prompt) \<le> context_limit s"
    using turn by simp_all
  from decodesD(2) [OF assms(1,3) this, of audio vision] obtain e where
    e: "prefill_at ops (session_engine s) (drop (length (cached_ids s)) prompt) (length (cached_ids s)) audio vision = Inr (e, predicted d h)"
      "represents d e h (length prompt)" using turn(7) by (auto simp: assms(5))
  from assms(7) [OF e(2)] obtain r where r: "decode_turn fuel turn (predicted d h) (start_run turn c prompt e) = Some (Inr r)"
    "outputs r = ids" "synced d turn h (length prompt) r" by blast
  have session: "turn_session turn = s" by (simp add: assms(4))
  have "run_cached r = prompt @ butlast ids" "ids \<noteq> []" using decode_turn_cached [OF r(1)] r(2) by simp_all
  then have "session_generate fuel ops s prompt limit opts obs c audio vision =
      Some (s\<lparr>session_engine := run_engine r, cached_ids := prompt @ butlast ids\<rparr>, run_context r, Inr (run_result r))"
    using assms(2) e(1) r(1) close_turn_Inr [OF r(1), unfolded session] check_turn_Inr(1) [OF assms(2)]
    by (simp add: session_generate_def Let_def assms(4) [symmetric])
  moreover have "represents d (run_engine r) (fold (grown d) (butlast ids) h) (length (prompt @ butlast ids))"
    using synced_represents [OF r(3)] by (simp add: r(2))
  moreover have "stopped (run_result r) \<longleftrightarrow> last ids \<in> set (stop_ids s)"
    using r(2,3) by (simp add: synced_def assms(4))
  ultimately show ?thesis using r(2) by (fastforce simp: outputs_def)
qed

lemma device_turn_plain:
  fixes s :: "'m device_engine conversation"
  defines "setup \<equiv> session_setup s"
  assumes "exact_rows net" "observer_accepts obs" "check_turn s prompt limit opts audio vision = Inr ()"
    and "represents_history setup (session_engine s) h0 (length (cached_ids s))"
    and "session_drafts s \<in> {0, 1, 2, 4}" "length (channel_open_ids opts) \<le> maximum_open_tokens"
    and "reasoning_on opts \<or> \<not> starts_reasoning opts"
    and "on_device_chain s \<longrightarrow> \<not> reasoning_on opts \<or> limit = 1 \<or> 4 \<le> limit" "limit \<le> fuel"
    and "h = absorb_history net setup h0 (drop (length (cached_ids s)) prompt) audio vision"
    and "ids = plain_turn (grow_history net setup) (predict_history net setup) opts (stop_ids s) limit h"
  shows "\<exists>s' c' res. session_generate fuel (device_ops net setup sizes) s prompt limit opts obs c audio vision = Some (s', c', Inr res) \<and>
    output_token_ids res = ids \<and> (stopped res \<longleftrightarrow> last ids \<in> set (stop_ids s)) \<and>
    represents_history setup (session_engine s') (fold (grow_history net setup) (butlast ids) h) (length (cached_ids s'))"
proof -
  let ?d = "device_decoder net setup"
  let ?turn = "\<lparr>turn_ops = device_ops net setup sizes, turn_session = s, turn_reasoning = opts, turn_limit = limit, turn_observer = obs\<rparr>"
  note turn = check_turn_Inr [OF assms(4)]
  have decodes: "decodes (device_ops net setup sizes) ?d s" unfolding setup_def by (rule device_decodes [OF assms(2)])
  have ok: "turn_ok ?d ?turn" using decodes assms(3) turn(8) by (simp add: turn_ok_def)
  have "\<exists>r. decode_turn fuel ?turn (predicted ?d h) (start_run ?turn c prompt e) = Some (Inr r) \<and>
      outputs r = ids \<and> synced ?d ?turn h (length prompt) r" if e: "represents ?d e h (length prompt)" for e
  proof (cases "on_device_chain s \<and> (limit = 1 \<or> 4 \<le> limit)")
    case True
    then have "chain_turn net sizes ?turn" using assms(2,3,7,8) turn(4,8) by (auto simp add: chain_turn_def channel_fits_def setup_def)
    from decode_turn_chain [OF this, of e h prompt] e True turn(2,5) assms(10) show ?thesis by (simp add: assms(12) setup_def)
  next
    case False
    then have "\<not> chain_capable ?turn \<or> limit < 4 \<and> \<not> reasoning_on opts" using assms(9) turn(3) by auto
    moreover have "session_drafts s \<le> 4" using assms(6) by auto
    ultimately show ?thesis using decode_turn_plain [OF ok e] turn(2-5) assms(10) by (simp add: assms(12))
  qed
  from generate_plain [OF decodes assms(4) _ refl _ _ this] assms(5,11,12) show ?thesis by simp
qed

text \<open>
  C1. Speculative decoding changes nothing, from the session down to the kernels that accept the drafts: on
  the device engine a turn gives, for no drafts, for groups of one, two or four, fixed or adaptive, and for
  the chain that runs on the device alone, exactly the tokens of plain decoding with the thinking budget.
  The engine then holds the history of the cached tokens, so the same is true of the turn after
  it.  The one hypothesis about the network is that a batched verification gives what one pass per token
  gives.  A chained session with two or three tokens to generate and reasoning on is left out; there the
  code does not observe the channel.
\<close>

theorem turn_is_plain_decoding:
  assumes "exact_rows net" "observer_accepts obs" "check_turn s prompt limit opts audio vision = Inr ()"
    and "represents_history (session_setup s) (session_engine s) h0 (length (cached_ids s))"
    and "session_drafts s \<in> {0, 1, 2, 4}" "length (channel_open_ids opts) \<le> maximum_open_tokens"
    and "reasoning_on opts \<or> \<not> starts_reasoning opts"
    and "on_device_chain s \<longrightarrow> \<not> reasoning_on opts \<or> limit = 1 \<or> 4 \<le> limit" "limit \<le> fuel"
  shows "\<exists>s' c' res. session_generate fuel (device_ops net (session_setup s) sizes) s prompt limit opts obs c audio vision =
      Some (s', c', Inr res) \<and>
    (let grow = grow_history net (session_setup s);
         h = absorb_history net (session_setup s) h0 (drop (length (cached_ids s)) prompt) audio vision;
         ids = plain_turn grow (predict_history net (session_setup s)) opts (stop_ids s) limit h
     in output_token_ids res = ids \<and> (stopped res \<longleftrightarrow> last ids \<in> set (stop_ids s)) \<and>
        represents_history (session_setup s) (session_engine s') (fold grow (butlast ids) h) (length (cached_ids s')))"
  using device_turn_plain [OF assms refl refl, of sizes c] by (simp add: Let_def)

section \<open>A small network\<close>

text \<open>Its state is the list of tokens; the next token is its length modulo ten, and the drafts guess one more.\<close>

definition demo_net :: "nat list network" where
  "demo_net = \<lparr>prompt_pass = (\<lambda>m p suffix a v. m @ suffix), token_pass = (\<lambda>m p t. m @ [t]), select = (\<lambda>m step. length m mod 10),
     propose = (\<lambda>m t p n. map (\<lambda>i. (length m + 1 + i) mod 7) [0..<n]),
     row_tokens = (\<lambda>m p step inputs. map (\<lambda>i. (length m + Suc i) mod 10) [0..<length inputs]),
     commit_rows = (\<lambda>m p inputs k. m @ take k inputs)\<rparr>"

lemma demo_passes: "passes demo_net m p ts = m @ ts"
  by (induction ts arbitrary: m p) (simp_all add: demo_net_def)

lemma demo_exact: "exact_rows demo_net"
proof -
  have "k mod 10 < 262144" for k :: nat by (rule less_le_trans [OF mod_less_divisor]) simp_all
  then show ?thesis unfolding exact_rows_def demo_passes by (simp add: demo_net_def vocabulary_tokens_def)
qed

definition demo_engine :: "nat list device_engine" where
  "demo_engine = \<lparr>model_state = [7, 7], engine_step = 0, has_hidden = True, graph_ready = False, draft_buffer = [],
     output_array = replicate 2000 0, proposal_array = replicate 4000 0,
     pinned_control = \<lparr>current_state = host_state \<lparr>control_token = 0, control_position = 0, control_remaining = 0, control_written = 0,
         control_stopped = False, control_stop_token = 0, control_reasoning = None\<rparr> 0,
       next_state = host_state \<lparr>control_token = 0, control_position = 0, control_remaining = 0, control_written = 0,
         control_stopped = False, control_stop_token = 0, control_reasoning = None\<rparr> 0,
       chain_reasoning = no_mtp_reasoning, fixed_drafts = 0, control_proposals = 0, transition_valid = False,
       control_sampling = False\<rparr>\<rparr>"

definition demo_session :: "nat \<Rightarrow> bool \<Rightarrow> nat list device_engine conversation" where
  "demo_session drafts adaptive = \<lparr>session_engine = demo_engine, cached_ids = [7, 7], stop_ids = [9], context_limit = 2000,
     session_kv_mode = CheckpointFp8, session_load_ms = Finite False 0 0, session_sampling = default_sampling, session_drafts = drafts,
     session_adaptive = adaptive, poisoned = False\<rparr>"

definition demo_ops :: "nat \<Rightarrow> bool \<Rightarrow> (nat list device_engine, unit) engine_ops" where
  "demo_ops drafts adaptive = device_ops demo_net (session_setup (demo_session drafts adaptive)) id"

definition demo_thinking :: reasoning_options where
  "demo_thinking = \<lparr>channel_open_ids = [20], channel_close_id = 21, max_reasoning = 2, reasoning_on = True, starts_reasoning = True\<rparr>"

lemma demo_checks: "check_turn (demo_session drafts adaptive) [7, 7, 4, 2, 3] 9 demo_thinking [] [] = Inr ()"
  by (simp add: check_turn_def rbind_Inr_iff demo_session_def demo_thinking_def check_prefix_def maximum_open_tokens_def
      vocabulary_tokens_def)

lemma demo_simps: "stop_ids (demo_session n b) = [9]" "cached_ids (demo_session n b) = [7, 7]" "session_engine (demo_session n b) = demo_engine"
  "session_drafts (demo_session n b) = n" "on_device_chain (demo_session n b) \<longleftrightarrow> n = 2 \<and> \<not> b"
  by (auto simp add: demo_session_def on_device_chain_def sliding_tokens_def)

lemma default_no_sampling: "\<not> setup_sampling (session_setup (demo_session n b))"
  by (simp add: session_setup_def demo_session_def default_sampling_def)

lemma demo_represents: "represents_history (session_setup (demo_session n b)) demo_engine ([7, 7], 2, 0) (length [7, 7])"
  by (simp add: represents_history_def demo_engine_def session_setup_def demo_session_def)

lemma plain_decode_pos: "0 < n \<Longrightarrow> plain_decode grow predict opts ids n h st token =
    (if token \<in> set ids then []
     else let h = grow token h; t = next_token opts st (predict h)
       in t # plain_decode grow predict opts ids (n - 1) h (observe_state opts t st) t)"
  by (cases n) auto

lemma demo_history: "predict_history demo_net setup (m, p, k) = length m mod 10"
  "\<not> setup_sampling setup \<Longrightarrow> grow_history demo_net setup t (m, p, k) = (m @ [t], p + 1, k)"
  "\<not> setup_sampling setup \<Longrightarrow> absorb_history demo_net setup (m, p, k) suffix a v = (m @ suffix, p + length suffix, k)"
  by (simp_all add: predict_history_def grow_history_def absorb_history_def demo_net_def step_count_def)

lemma demo_plain:
  assumes "\<not> setup_sampling setup"
  shows "plain_turn (grow_history demo_net setup) (predict_history demo_net setup) demo_thinking [9] 9 ([7, 7, 4, 2, 3], 5, 0) = [5, 6, 21, 8, 9]"
  by (simp add: plain_turn_def demo_history assms demo_thinking_def new_tracker_def observe_state_def observe_def observe_reasoning_def
      next_token_def forced_close_def Let_def plain_decode_pos) (simp add: word_le_nat_alt)

lemma demo_turn:
  assumes "n \<in> {0, 1, 2, 4}"
  shows "\<exists>s' c' res. session_generate 9 (demo_ops n b) (demo_session n b) [7, 7, 4, 2, 3] 9 demo_thinking None () [] [] = Some (s', c', Inr res) \<and>
     output_token_ids res = [5, 6, 21, 8, 9]"
proof -
  have session: "represents_history (session_setup (demo_session n b)) (session_engine (demo_session n b)) ([7, 7], 2, 0)
      (length (cached_ids (demo_session n b)))" using demo_represents by (simp add: demo_simps)
  from device_turn_plain [OF demo_exact _ demo_checks session _ _ _ _ _ refl refl, of None 9 id "()"] assms show ?thesis
    by (auto simp: demo_simps observer_accepts_def demo_history default_no_sampling demo_plain demo_ops_def maximum_open_tokens_def
        demo_thinking_def [THEN arg_cong [where f = channel_open_ids]] demo_thinking_def [THEN arg_cong [where f = reasoning_on]])
qed

text \<open>Here the groups run in the chain of the device.\<close>

theorem turn_is_plain_decoding_witness:
  "\<exists>s' c' res. session_generate 9 (demo_ops 2 False) (demo_session 2 False) [7, 7, 4, 2, 3] 9 demo_thinking None () [] [] =
       Some (s', c', Inr res) \<and>
     output_token_ids res = [5, 6, 21, 8, 9] \<and> stopped res \<and> model_state (session_engine s') = [7, 7, 4, 2, 3, 5, 6, 21, 8]"
proof -
  have session: "represents_history (session_setup (demo_session 2 False)) (session_engine (demo_session 2 False)) ([7, 7], 2, 0)
      (length (cached_ids (demo_session 2 False)))" using demo_represents by (simp add: demo_simps)
  have thinking: "length (channel_open_ids demo_thinking) \<le> maximum_open_tokens" "reasoning_on demo_thinking"
    by (simp_all add: demo_thinking_def maximum_open_tokens_def)
  from turn_is_plain_decoding [OF demo_exact _ demo_checks session _ thinking(1), of None 9 id "()"] thinking show ?thesis
    by (auto simp: demo_simps observer_accepts_def demo_history default_no_sampling demo_plain demo_ops_def Let_def represents_history_def)
qed

theorem turn_caches_transcript_witness:
  "\<exists>s' c' res. session_generate 9 (demo_ops 4 True) (demo_session 4 True) [7, 7, 4, 2, 3] 9 demo_thinking None () [] [] =
       Some (s', c', Inr res) \<and> cached_ids s' = [7, 7, 4, 2, 3, 5, 6, 21, 8]"
proof -
  from demo_turn [of 4 True] obtain s' c' res where
    run: "session_generate 9 (demo_ops 4 True) (demo_session 4 True) [7, 7, 4, 2, 3] 9 demo_thinking None () [] [] = Some (s', c', Inr res)"
      "output_token_ids res = [5, 6, 21, 8, 9]" by auto
  from turn_caches_transcript [OF run(1)] run show ?thesis by simp
qed

theorem reasoning_within_budget_witness:
  "\<exists>s' c' res. session_generate 9 (demo_ops 4 True) (demo_session 4 True) [7, 7, 4, 2, 3] 9 demo_thinking None () [] [] =
       Some (s', c', Inr res) \<and> reasoning_tokens res \<le> 2"
proof -
  from demo_turn [of 4 True] obtain s' c' res where
    run: "session_generate 9 (demo_ops 4 True) (demo_session 4 True) [7, 7, 4, 2, 3] 9 demo_thinking None () [] [] = Some (s', c', Inr res)"
    by auto
  from reasoning_within_budget [OF run] run show ?thesis by (simp add: demo_simps demo_thinking_def)
qed

text \<open>An engine that is out of memory.\<close>

definition failing_ops :: "(nat list device_engine, unit) engine_ops" where
  "failing_ops = (demo_ops 4 True)\<lparr>prefill_at := \<lambda>e suffix p a v. Inl (Status KResourceExhausted ''out of memory'')\<rparr>"

theorem failed_turn_poisons_witness:
  "\<exists>s'. session_generate 9 failing_ops (demo_session 4 True) [7, 7, 4, 2, 3] 9 demo_thinking None () [] [] =
       Some (s', (), Inl (Status KResourceExhausted ''out of memory'')) \<and> poisoned s'"
proof -
  have run: "session_generate 9 failing_ops (demo_session 4 True) [7, 7, 4, 2, 3] 9 demo_thinking None () [] [] =
      Some ((demo_session 4 True)\<lparr>poisoned := True\<rparr>, (), Inl (Status KResourceExhausted ''out of memory''))"
    by (simp add: session_generate_def demo_checks failing_ops_def)
  from failed_turn_poisons [OF run] run show ?thesis by (auto simp: demo_checks)
qed

end
