(* ===== verification/Session_Account.thy ===== *)
theory Session_Account
  imports Session_Theorems Channel_Facts
begin

text \<open>
  The reasoning tokens that a turn counts are those that the chat session finds when it takes the
  outputs apart.
\<close>

section \<open>The state that observing all outputs leaves\<close>

definition accounted :: "reasoning_options \<Rightarrow> channel_tracker \<times> bool \<Rightarrow> ('e, 'c) session_run \<Rightarrow> bool" where
  "accounted opts st r \<longleftrightarrow> channel_state r = fold (observe_state opts) (outputs r) st \<and> counts_reasoning r"

lemma accounted_cong:
  "accounted opts st q \<Longrightarrow> outputs r = outputs q \<Longrightarrow> channel_state r = channel_state q \<Longrightarrow>
   reasoning_tokens (run_result r) = reasoning_tokens (run_result q) \<Longrightarrow> accounted opts st r"
  by (simp add: accounted_def counts_reasoning_def)

lemma deliver_accounted: "deliver turn t q = Inr r \<Longrightarrow> accounted (turn_reasoning turn) st q \<Longrightarrow> accounted (turn_reasoning turn) st r"
  using deliver_Inr(1,2) [of turn t q r] deliver_counts [of turn t q r] by (simp add: accounted_def delivered_def)

lemma deliver_unobserved_accounted:
  assumes "deliver_unobserved turn t q = Inr r" "accounted opts st q" "snd (channel_state q)"
  shows "accounted opts st r \<and> snd (channel_state r)"
  using deliver_unobserved_Inr [OF assms(1)] assms(2,3) by (simp add: accounted_def delivered_def counts_reasoning_def)

lemma ordinary_step_accounted:
  assumes "ordinary_step turn q = Inr r" "accounted (turn_reasoning turn) st q"
  shows "accounted (turn_reasoning turn) st r"
proof -
  from assms(1) obtain e f t where "deliver turn t (mark_forced f (q\<lparr>run_engine := e, run_cached := run_cached q @ [run_next q]\<rparr>)) = Inr r"
    by (auto simp: ordinary_step_def Let_def on_engine_Inr)
  then show ?thesis using accounted_cong [OF assms(2)] by (rule deliver_accounted) simp_all
qed

lemma ordinary_loop_accounted:
  "ordinary_loop turn n q = Inr r \<Longrightarrow> accounted (turn_reasoning turn) st q \<Longrightarrow> accounted (turn_reasoning turn) st r"
  by (induction n arbitrary: q) (auto simp: rbind_Inr_iff ordinary_step_accounted split: if_splits)

lemma reasoning_step_accounted:
  assumes "reasoning_step turn q = Inr r" "accounted (turn_reasoning turn) st q"
  shows "accounted (turn_reasoning turn) st r" "length (outputs r) = length (outputs q) + 1"
proof -
  let ?p = "\<lambda>f e. mark_forced f (update_result (\<lambda>v. v\<lparr>reasoning_ordinary_target_tokens := reasoning_ordinary_target_tokens v + 1\<rparr>)
      (count_forward (q\<lparr>run_engine := e\<rparr>)))"
  have p: "outputs (?p f e) = outputs q" "channel_state (?p f e) = channel_state q"
    "reasoning_tokens (run_result (?p f e)) = reasoning_tokens (run_result q)" for f e
    by (simp_all add: update_result_outputs) (simp add: channel_state_def count_forward_def)
  from assms(1) obtain e f t where d: "deliver turn t (?p f e) = Inr r" by (auto simp: reasoning_step_def Let_def on_engine_Inr)
  show "accounted (turn_reasoning turn) st r" by (rule deliver_accounted [OF d accounted_cong [OF assms(2) p]])
  show "length (outputs r) = length (outputs q) + 1" using deliver_Inr(1) [OF d] p(1) by (simp add: delivered_def)
qed

lemma reasoning_loop_accounted:
  "reasoning_loop turn n q = Inr r \<Longrightarrow> accounted (turn_reasoning turn) st q \<Longrightarrow>
   accounted (turn_reasoning turn) st r \<and> (stopped (run_result r) \<or> snd (channel_state r) \<or> length (outputs r) = length (outputs q) + n)"
proof (induction n arbitrary: q)
  case (Suc n)
  show ?case
  proof (cases "stopped (run_result q) \<or> run_complete q")
    case False
    with Suc.prems(1) obtain p where p: "reasoning_step turn q = Inr p" "reasoning_loop turn n p = Inr r" by (auto simp: rbind_Inr_iff)
    show ?thesis using Suc.IH [OF p(2)] reasoning_step_accounted [OF p(1) Suc.prems(2)] by auto
  qed (use Suc.prems in \<open>auto simp: channel_state_def\<close>)
qed simp

lemma deliver_group_accounted:
  "deliver_group turn ts q = Inr r \<Longrightarrow> accounted opts st q \<Longrightarrow> snd (channel_state q) \<Longrightarrow> accounted opts st r \<and> snd (channel_state r)"
proof (induction ts arbitrary: q)
  case (Cons t ts)
  from Cons.prems(1) obtain p where p: "deliver_unobserved turn t q = Inr p" "p = r \<or> deliver_group turn ts p = Inr r"
    by (auto simp: rbind_Inr_iff split: if_splits)
  then show ?case using deliver_unobserved_accounted [OF p(1) Cons.prems(2,3)] Cons.IH [of p] by auto
qed simp

lemma group_step_accounted:
  assumes "group_step turn n sch q = Inr (sch', r)" "accounted opts st q" "snd (channel_state q)"
  shows "accounted opts st r \<and> snd (channel_state r)"
proof -
  from assms(1) obtain e where e: "run_group turn n (q\<lparr>run_engine := e\<rparr>) (\<lambda>g r.
       rbind (deliver_group turn (take (group_outputs g) (group_verified g)) (record_group n g r)) (\<lambda>r.
       rbind (poisoning (parity turn r)) (\<lambda>r.
         Inr (if stopped (run_result r) then sch else observe_group sch (run_position r) (group_accepted g), r)))) = Inr (sch', r)"
    by (auto simp: group_step_def on_status_Inr)
  obtain p g where p: "rbind (deliver_group turn (take (group_outputs g) (group_verified g)) (record_group n g p)) (\<lambda>r.
       rbind (poisoning (parity turn r)) (\<lambda>r.
         Inr (if stopped (run_result r) then sch else observe_group sch (run_position r) (group_accepted g), r))) = Inr (sch', r)"
    "outputs p = outputs q" "channel_state p = channel_state q" "reasoning_tokens (run_result p) = reasoning_tokens (run_result q)"
    by (rule run_group_Inr [OF e]) simp
  from p(1) have "deliver_group turn (take (group_outputs g) (group_verified g)) (record_group n g p) = Inr r"
    by (auto simp: rbind_Inr_iff)
  moreover have "accounted opts st (record_group n g p)" by (rule accounted_cong [OF assms(2)]) (simp_all add: p(2-4))
  ultimately show ?thesis using deliver_group_accounted assms(3) p(3) by fastforce
qed

lemma ordinary_token_accounted:
  assumes "ordinary_token turn fallback q = Inr r" "accounted opts st q" "snd (channel_state q)"
  shows "accounted opts st r \<and> snd (channel_state r)"
proof -
  let ?p = "\<lambda>e. update_result (\<lambda>v. if fallback then v\<lparr>ordinary_fallback_tokens := ordinary_fallback_tokens v + 1\<rparr> else v)
      (count_forward (q\<lparr>run_engine := e\<rparr>))"
  have p: "outputs (?p e) = outputs q" "channel_state (?p e) = channel_state q"
    "reasoning_tokens (run_result (?p e)) = reasoning_tokens (run_result q)" for e
    by (simp_all add: update_result_outputs) (simp add: channel_state_def count_forward_def)
  from assms(1) obtain e t where "deliver_unobserved turn t (?p e) = Inr r" by (auto simp: ordinary_token_def on_engine_Inr)
  from deliver_unobserved_accounted [OF this accounted_cong [OF assms(2) p]] show ?thesis using assms(3) by (simp only: p)
qed

lemma draft_step_accounted:
  assumes "draft_step turn sch q = Inr (sch', p)" "\<not> chain_capable turn" "accounted opts st q" "snd (channel_state q)"
  shows "accounted opts st p \<and> snd (channel_state p)"
  using assms(1,2) ordinary_token_accounted [OF _ assms(3,4)] group_step_accounted [OF _ assms(3,4)]
  by (auto simp: draft_step_def Let_def rbind_Inr_iff split: if_splits)

lemma draft_loop_accounted:
  assumes "\<not> chain_capable turn"
  shows "draft_loop fuel turn sch q = Some (Inr r) \<Longrightarrow> accounted opts st q \<Longrightarrow>
    snd (channel_state q) \<or> stopped (run_result q) \<or> turn_limit turn \<le> length (outputs q) \<Longrightarrow> accounted opts st r"
proof (induction fuel arbitrary: sch q)
  case (Suc fuel)
  show ?case
  proof (cases "turn_limit turn \<le> length (outputs q) \<or> stopped (run_result q)")
    case False
    with Suc.prems(1) obtain sch' p where p: "draft_step turn sch q = Inr (sch', p)" "draft_loop fuel turn sch' p = Some (Inr r)"
      by (auto simp: fbind_Inr_iff)
    have "snd (channel_state q)" using False Suc.prems(3) by blast
    then have "accounted opts st p \<and> snd (channel_state p)" by (rule draft_step_accounted [OF p(1) assms Suc.prems(2)])
    then show ?thesis using Suc.IH [OF p(2)] by blast
  qed (use Suc.prems in auto)
qed simp

lemma decode_turn_accounted:
  assumes "decode_turn fuel turn t (start_run turn c prompt e) = Some (Inr r)" "\<not> chain_capable turn" "0 < turn_limit turn"
  shows "accounted (turn_reasoning turn) (channel_state (start_run turn c prompt e)) r"
proof -
  let ?start = "start_run turn c prompt e"
  let ?st = "channel_state ?start"
  obtain p q where p: "deliver turn t ?start = Inr p" "run_cached q = run_cached p" "outputs q = outputs p"
    "channel_state q = channel_state p" "run_result q = run_result p" "run_next q = run_next p"
    "if session_drafts (turn_session turn) \<noteq> 0 then decode_with_drafts fuel turn q = Some (Inr r)
     else ordinary_loop turn (turn_limit turn - 1) q = Inr r"
    by (rule decode_turn_Inr [OF assms(1)])
  have "accounted (turn_reasoning turn) ?st ?start" by (simp add: accounted_def counts_reasoning_def new_tracker_def)
  from deliver_accounted [OF p(1) this] have q: "accounted (turn_reasoning turn) ?st q"
    by (rule accounted_cong) (simp_all add: p(3-5))
  show ?thesis
  proof (cases "session_drafts (turn_session turn) = 0")
    case True
    then show ?thesis using p(7) ordinary_loop_accounted q by auto
  next
    case False
    with p(7) have "decode_with_drafts fuel turn q = Some (Inr r)" by simp
    then obtain v sch w where v: "if chain_capable turn then v = q\<lparr>run_position := length (run_cached q) - 1\<rparr>
      else reasoning_loop turn (turn_limit turn - length (outputs q)) (q\<lparr>run_position := length (run_cached q) - 1\<rparr>) = Inr v"
      and w: "draft_loop fuel turn sch v = Some (Inr w)" and r: "r = w\<lparr>run_cached := run_cached w @ butlast (outputs w)\<rparr>"
      by (rule decode_with_drafts_Inr)
    have "accounted (turn_reasoning turn) ?st (q\<lparr>run_position := length (run_cached q) - 1\<rparr>)" by (rule accounted_cong [OF q]) simp_all
    with v assms(2) have v': "accounted (turn_reasoning turn) ?st v"
      "stopped (run_result v) \<or> snd (channel_state v) \<or> length (outputs v) = length (outputs q) + (turn_limit turn - length (outputs q))"
      using reasoning_loop_accounted [of turn "turn_limit turn - length (outputs q)" "q\<lparr>run_position := length (run_cached q) - 1\<rparr>" v ?st]
      by auto
    have "length (outputs q) = 1" using deliver_Inr(1) [OF p(1)] p(3) by (simp add: delivered_def)
    then have "snd (channel_state v) \<or> stopped (run_result v) \<or> turn_limit turn \<le> length (outputs v)" using v'(2) assms(3) by auto
    from draft_loop_accounted [OF assms(2) w v'(1) this] show ?thesis
      by (rule accounted_cong) (simp_all add: r)
  qed
qed

section \<open>The count and the extraction\<close>

lemma observe_done:
  "\<not> reasoning_done t \<Longrightarrow> reasoning_done (fst (observe t x)) \<longleftrightarrow> in_reasoning t \<and> \<not> in_reasoning (fst (observe t x))"
  by (auto simp: observe_def observe_reasoning_def observe_opening_def)

lemma fold_complete: "fold (observe_state opts) xs (t, True) = (t, True)"
  by (induction xs) (simp_all add: observe_state_def)

lemma fold_observe_count:
  assumes "reasoning_on opts"
  shows "\<not> reasoning_done t \<Longrightarrow> reasoning_count (fst (fold (observe_state opts) xs (t, False))) =
    reasoning_count t + of_nat (length (tokens_of ReasoningChannel t xs))"
proof (induction xs arbitrary: t)
  case (Cons x xs)
  let ?t = "fst (observe t x)"
  have state: "observe_state opts x (t, False) = (?t, in_reasoning t \<and> \<not> in_reasoning ?t)"
    using assms by (simp add: observe_state_def Let_def)
  have count: "reasoning_count ?t = reasoning_count t + (if snd (observe t x) = ReasoningChannel then 1 else 0)"
    by (simp add: observe_def observe_reasoning_def observe_opening_def)
  show ?case
  proof (cases "in_reasoning t \<and> \<not> in_reasoning ?t")
    case True
    then have "tokens_of ReasoningChannel ?t xs = []" using observe_done [OF Cons.prems] by (intro no_reasoning_after) auto
    then show ?thesis using True count by (simp add: state fold_complete tokens_of_Cons)
  next
    case False
    then have "\<not> reasoning_done ?t" using observe_done [OF Cons.prems] by blast
    moreover from False have "observe_state opts x (t, False) = (?t, False)" using state by simp
    ultimately show ?thesis using Cons.IH [of ?t] by (simp add: count tokens_of_Cons)
  qed
qed simp

lemma fold_observe_off: "\<not> reasoning_on opts \<Longrightarrow> fold (observe_state opts) xs st = st"
  by (induction xs) (auto simp: observe_state_def split: prod.splits)

text \<open>
  The accounts of the two layers agree: whatever the engine generates in a turn whose loop runs on the host, the session
  counts exactly the tokens that the chat session takes out of the outputs as reasoning, or none
  when the request has no reasoning.
\<close>

theorem reasoning_is_accounted:
  assumes "session_generate fuel ops s prompt limit opts obs c audio vision = Some (s', c', Inr res)" "\<not> on_device_chain s"
  shows "reasoning_tokens res = (if reasoning_on opts
    then of_nat (length (extract_reasoning (output_token_ids res) (channel_open_ids opts) (channel_close_id opts) (starts_reasoning opts)))
    else 0)"
proof -
  let ?turn = "\<lparr>turn_ops = ops, turn_session = s, turn_reasoning = opts, turn_limit = limit, turn_observer = obs\<rparr>"
  obtain e t r where check: "check_turn s prompt limit opts audio vision = Inr ()"
    and r: "decode_turn fuel ?turn t (start_run ?turn c prompt e) = Some (Inr r)" "res = run_result r"
    by (rule session_generate_Inr [OF assms(1)])
  from decode_turn_accounted [OF r(1)] assms(2) check_turn_Inr(3) [OF check]
  have "accounted opts (channel_state (start_run ?turn c prompt e)) r" by simp
  then have "reasoning_tokens res = reasoning_count (fst (fold (observe_state opts) (output_token_ids res)
      (new_tracker (channel_open_ids opts) (channel_close_id opts) (starts_reasoning opts), \<not> reasoning_on opts)))"
    by (simp add: accounted_def counts_reasoning_def r(2) outputs_def)
  also have "\<dots> = (if reasoning_on opts
      then of_nat (length (extract_reasoning (output_token_ids res) (channel_open_ids opts) (channel_close_id opts) (starts_reasoning opts)))
      else 0)"
    using fold_observe_count [of opts "new_tracker (channel_open_ids opts) (channel_close_id opts) (starts_reasoning opts)"]
    by (simp add: fold_observe_off extract_reasoning_def) (simp add: new_tracker_def)
  finally show ?thesis .
qed

end
