(* ===== verification/Chat_Template.thy ===== *)
theory Chat_Template
  imports Chat_Types Tokenizer Tokenizer_Config
begin

text \<open>
  \<open>GemmaChatProcessor\<close> (src/model/tokenizer.cpp): the prompt of a conversation, the continuations that a
  resident session appends, and the texts of a response.  Loading the processor is not modelled here; its
  parts are the modelled tokenizer and response contract.

  The extraction of the content and the encoder may run for ever on degenerate markers; their \<open>None\<close> is
  passed on.
\<close>

section \<open>Messages and the processor\<close>

record chat_message =
  chat_role :: string
  chat_content :: string
  chat_calls :: "tool_call list"
  chat_call_id :: string
  chat_tool_name :: string

record token_controls =
  stop_token_ids :: "nat list"
  suppressed_token_ids :: "nat list"
  thinking_open_ids :: "nat list"
  thinking_close_id :: nat

record chat_processor =
  processor_tokenizer :: tokenizer
  generation_controls :: token_controls
  processor_open :: string
  processor_close :: string
  processor_closes :: "string list"
  processor_tool_start :: string

definition newline :: string where "newline = [CHR 0x0A]"

definition turn_opener :: "string \<Rightarrow> string" where
  "turn_opener speaker = ''<|turn>'' @ speaker @ newline"

definition turn_closer :: string where "turn_closer = ''<turn|>'' @ newline"

definition thought_opener :: string where "thought_opener = ''<|channel>thought'' @ newline"

definition empty_thought :: string where "empty_thought = thought_opener @ ''<channel|>''"

section \<open>The prompt of a whole conversation\<close>

definition is_system :: "chat_message \<Rightarrow> bool" where
  "is_system m \<longleftrightarrow> chat_role m = ''system'' \<or> chat_role m = ''developer''"

definition tool_text :: "tool_definition \<Rightarrow> string result" where
  "tool_text t = format_tool_definition (tool_name t) (tool_description t) (parameters_json t)"

definition append_rendered :: "('a \<Rightarrow> string result) \<Rightarrow> string \<Rightarrow> 'a \<Rightarrow> string result" where
  "append_rendered f out x = rbind (f x) (\<lambda>t. Inr (out @ t))"

definition system_block :: "chat_message \<Rightarrow> bool \<Rightarrow> tool_definition list \<Rightarrow> string result" where
  "system_block front enable_thinking tools =
     (if enable_thinking \<or> tools \<noteq> [] \<or> is_system front
      then rbind (rfold (append_rendered tool_text) (turn_opener ''system'' @ (if enable_thinking then ''<|think|>'' @ newline else []) @
               (if is_system front then trim (chat_content front) else [])) tools) (\<lambda>t.
             Inr (t @ turn_closer))
      else Inr [])"

definition call_text :: "tool_call \<Rightarrow> string result" where
  "call_text c = format_tool_call (call_name c) (arguments_json c)"

text \<open>The name of the tool whose result a message holds.\<close>

definition result_name :: "tool_call list \<Rightarrow> chat_message \<Rightarrow> string" where
  "result_name calls m =
     (if chat_tool_name m \<noteq> [] then chat_tool_name m
      else case find (\<lambda>c. call_id c = chat_call_id m) calls of Some c \<Rightarrow> call_name c | None \<Rightarrow> [])"

definition result_text :: "tool_call list \<Rightarrow> chat_message \<Rightarrow> string result" where
  "result_text calls m =
     rbind (rguard (result_name calls m \<noteq> []) (invalid_argument ''tool result does not match an assistant tool call'')) (\<lambda>_.
     Inr (format_tool_response (result_name calls m) (chat_content m)))"

definition response_content :: "chat_processor \<Rightarrow> string \<Rightarrow> string result option" where
  "response_content p text =
     extract_response_content text (processor_open p) (processor_close p) (processor_closes p) (processor_tool_start p)"

definition is_tool :: "chat_message \<Rightarrow> bool" where
  "is_tool m \<longleftrightarrow> chat_role m = ''tool''"

text \<open>
  An assistant message with the tool results after it: its text, the role that counts as the previous one
  afterwards.  \<open>final\<close> says that no message follows.
\<close>

definition assistant_block :: "chat_processor \<Rightarrow> chat_message \<Rightarrow> chat_message list \<Rightarrow> bool \<Rightarrow> (string \<times> string) result option" where
  "assistant_block p m results final =
     fbind (Some (rfold (append_rendered call_text) (turn_opener ''model'') (chat_calls m))) (\<lambda>out.
     fbind (if chat_content m = [] then Some (Inr []) else response_content p (chat_content m)) (\<lambda>text.
     fbind (Some (rfold (append_rendered (result_text (chat_calls m))) (out @ text) results)) (\<lambda>out.
       Some (Inr (if chat_calls m \<noteq> [] \<and> results = [] then (out @ ''<|tool_response>'', ''assistant'')
         else if results \<noteq> [] \<and> text = [] \<and> final then (out, ''tool'')
         else (out @ turn_closer, ''assistant''))))))"

function render_messages :: "chat_processor \<Rightarrow> string \<Rightarrow> string \<Rightarrow> chat_message list \<Rightarrow> (string \<times> string) result option" where
  "render_messages p out previous [] = Some (Inr (out, previous))"
| "render_messages p out previous (m # ms) =
     (if is_tool m then Some (Inl (invalid_argument ''tool results must immediately follow an assistant tool call''))
      else if chat_role m \<noteq> ''user'' \<and> chat_role m \<noteq> ''assistant''
      then Some (Inl (Status KUnsupported ''native chat message role is unsupported''))
      else if chat_role m = previous
      then Some (Inl (invalid_argument ''native chat requires alternating user and assistant messages''))
      else if chat_role m = ''assistant''
      then fbind (assistant_block p m (takeWhile is_tool ms) (dropWhile is_tool ms = [])) (\<lambda>(text, previous).
             render_messages p (out @ text) previous (dropWhile is_tool ms))
      else render_messages p (out @ turn_opener ''user'' @ trim (chat_content m) @ turn_closer) ''user'' ms)"
  by pat_completeness auto
termination
  by (relation "measure (\<lambda>(p, out, previous, ms). length ms)") (auto simp: le_imp_less_Suc length_dropWhile_le)

declare render_messages.simps(2) [simp del]

definition generation_prompt :: "bool \<Rightarrow> string \<Rightarrow> string result" where
  "generation_prompt enable_thinking previous =
     (if previous = ''tool'' then Inr (if enable_thinking then thought_opener else [])
      else rbind (rguard (previous = ''user'') (invalid_argument ''generation prompt requires a final user message'')) (\<lambda>_.
        Inr (turn_opener ''model'' @ (if enable_thinking then [] else empty_thought))))"

definition render :: "chat_processor \<Rightarrow> chat_message list \<Rightarrow> bool \<Rightarrow> bool \<Rightarrow> tool_definition list \<Rightarrow> string result option" where
  "render p history enable_thinking add_prompt tools =
     (if history = [] then Some (Inl (invalid_argument ''chat requires at least one message''))
      else
        fbind (Some (system_block (hd history) enable_thinking tools)) (\<lambda>system.
        fbind (render_messages p (''<bos>'' @ system) [] (if is_system (hd history) then tl history else history)) (\<lambda>(out, previous).
          Some (if add_prompt then rbind (generation_prompt enable_thinking previous) (\<lambda>t. Inr (out @ t)) else Inr out))))"

definition encode_chat :: "chat_processor \<Rightarrow> chat_message list \<Rightarrow> bool \<Rightarrow> bool \<Rightarrow> tool_definition list \<Rightarrow> nat list result option" where
  "encode_chat p history enable_thinking add_prompt tools =
     fbind (render p history enable_thinking add_prompt tools) (encode (processor_tokenizer p))"

section \<open>Continuations of a resident conversation\<close>

definition user_continuation :: "bool \<Rightarrow> string \<Rightarrow> string" where
  "user_continuation enable_thinking user =
     turn_closer @ turn_opener ''user'' @ trim user @ turn_closer @ turn_opener ''model'' @
     (if enable_thinking then [] else empty_thought)"

definition encode_continuation :: "chat_processor \<Rightarrow> string \<Rightarrow> bool \<Rightarrow> nat list result option" where
  "encode_continuation p user enable_thinking = encode (processor_tokenizer p) (user_continuation enable_thinking user)"

definition named_result :: "string \<times> string \<Rightarrow> string result" where
  "named_result r = (case r of (name, output) \<Rightarrow>
     rbind (rguard (name \<noteq> []) (invalid_argument ''tool continuation requires resolved tool names'')) (\<lambda>_.
     Inr (format_tool_response name output)))"

definition results_continuation :: "(string \<times> string) list \<Rightarrow> bool \<Rightarrow> string result" where
  "results_continuation results enable_thinking =
     rbind (rguard (results \<noteq> []) (invalid_argument ''tool continuation requires at least one result'')) (\<lambda>_.
     rbind (rfold (append_rendered named_result) [] results) (\<lambda>t.
       Inr (t @ (if enable_thinking then thought_opener else []))))"

definition encode_results :: "chat_processor \<Rightarrow> (string \<times> string) list \<Rightarrow> bool \<Rightarrow> nat list result option" where
  "encode_results p results enable_thinking =
     fbind (Some (results_continuation results enable_thinking)) (encode (processor_tokenizer p))"

definition decode_response_text :: "chat_processor \<Rightarrow> nat list \<Rightarrow> string result option" where
  "decode_response_text p ids = fbind (Some (decode (processor_tokenizer p) ids False)) (response_content p)"

end
