(* ===== verification/Chat_Session.thy ===== *)
theory Chat_Session
  imports Chat_Template Inference_Session Tool_Parser
begin

text \<open>
  \<open>ChatSession\<close> (src/runtime/chat.cpp): the resident conversation above the inference session.  It turns messages
  into prompts, continues from what the session has cached, and takes the response apart into text,
  reasoning and tool calls.

  The fuel is that of the loop of the inference session; \<open>None\<close> also stands for an exception that is not
  caught, or a loop that does not end, in the parts it calls.
\<close>

section \<open>Messages\<close>

fun thinking_budget :: "thinking_effort \<Rightarrow> nat" where
  "thinking_budget ThinkOff = 0"
| "thinking_budget ThinkSmall = 1024"
| "thinking_budget ThinkMedium = 4096"
| "thinking_budget ThinkHigh = 8192"

record materialized_part =
  part_text :: string
  part_calls :: "tool_call list"
  part_call_id :: string
  part_audio :: "32 word list list"
  part_images :: "vision_image list"

definition no_parts :: materialized_part where
  "no_parts = \<lparr>part_text = [], part_calls = [], part_call_id = [], part_audio = [], part_images = []\<rparr>"

text \<open>\<open>std::isfinite\<close> on the bits of a float.\<close>

definition finite_sample :: "32 word \<Rightarrow> bool" where
  "finite_sample x \<longleftrightarrow> drop_bit 23 x AND 0xFF \<noteq> 0xFF"

definition placeholders :: "string \<Rightarrow> string \<Rightarrow> string \<Rightarrow> nat \<Rightarrow> string" where
  "placeholders opening each closing n = opening @ concat (replicate n each) @ closing"

definition materialize_image :: "string \<Rightarrow> vision_image \<Rightarrow> materialized_part \<Rightarrow> materialized_part result" where
  "materialize_image speaker i m =
     rbind (rguard (speaker = ''user'') (session_invalid ''image content is supported only in user messages'')) (\<lambda>_.
     rbind (rguard (patch_count i \<noteq> 0 \<and> patch_count i \<le> 280 \<and> length (patches i) = patch_count i * 6912 \<and>
         length (positions i) = patch_count i * 2)
       (session_invalid ''image content has invalid processed patch geometry'')) (\<lambda>_.
     Inr (m\<lparr>part_images := part_images m @ [i],
       part_text := part_text m @ placeholders ''<|image>'' ''<|image|>'' ''<image|>'' (patch_count i)\<rparr>)))"

definition audio_frame_count :: "audio_waveform \<Rightarrow> nat" where
  "audio_frame_count a = (length (samples a) + 639) div 640"

definition materialize_audio :: "string \<Rightarrow> audio_waveform \<Rightarrow> materialized_part \<Rightarrow> materialized_part result" where
  "materialize_audio speaker a m =
     (let frames = audio_frame_count a
      in rbind (rguard (speaker = ''user'') (session_invalid ''audio content is supported only in user messages'')) (\<lambda>_.
         rbind (rguard (sample_rate a = 16000 \<and> samples a \<noteq> [])
           (session_invalid ''audio content must contain mono 16 kHz samples'')) (\<lambda>_.
         rbind (rguard (list_all finite_sample (samples a))
           (session_invalid ''audio content contains a non-finite sample'')) (\<lambda>_.
         rbind (rguard (frames \<noteq> 0 \<and> frames \<le> 750)
           (Status KUnsupported ''audio content must be at most 30 seconds'')) (\<lambda>_.
         Inr (m\<lparr>part_audio := part_audio m @ [samples a @ replicate (frames * 640 - length (samples a)) 0],
           part_text := part_text m @ placeholders ''<|audio>'' ''<|audio|>'' ''<audio|>'' frames\<rparr>))))))"

definition materialize_step :: "generation_message \<Rightarrow> materialized_part \<Rightarrow> content_part \<Rightarrow> materialized_part result" where
  "materialize_step msg m part =
     (case part of
        TextPart t \<Rightarrow> Inr (m\<lparr>part_text := part_text m @ t\<rparr>)
      | ToolCallPart c \<Rightarrow>
          rbind (rguard (role msg = ''assistant'') (session_invalid ''tool calls are supported only in assistant messages'')) (\<lambda>_.
          Inr (m\<lparr>part_calls := part_calls m @ [c]\<rparr>))
      | ToolResultPart r \<Rightarrow>
          rbind (rguard (role msg = ''tool'' \<and> length (content msg) = 1)
            (session_invalid ''a tool message must contain exactly one tool result'')) (\<lambda>_.
          Inr (m\<lparr>part_call_id := result_call_id r, part_text := part_text m @ result_output r\<rparr>))
      | ImagePart i \<Rightarrow> materialize_image (role msg) i m
      | AudioPart a \<Rightarrow> materialize_audio (role msg) a m)"

definition materialize_content :: "generation_message \<Rightarrow> materialized_part result" where
  "materialize_content msg =
     rbind (rguard (content msg \<noteq> []) (session_invalid ''generation message content must not be empty'')) (\<lambda>_.
     rfold (materialize_step msg) no_parts (content msg))"

record materialized =
  chat_messages :: "chat_message list"
  audio_parts :: "32 word list list"
  image_parts :: "vision_image list"

definition add_message :: "materialized \<Rightarrow> generation_message \<Rightarrow> materialized result" where
  "add_message m msg =
     rbind (materialize_content msg) (\<lambda>p.
     Inr \<lparr>chat_messages = chat_messages m @ [\<lparr>chat_role = role msg, chat_content = part_text p, chat_calls = part_calls p,
            chat_call_id = part_call_id p, chat_tool_name = []\<rparr>],
          audio_parts = audio_parts m @ part_audio p, image_parts = image_parts m @ part_images p\<rparr>)"

text \<open>The messages that the session already holds stand for those of the request.\<close>

definition materialize_messages :: "generation_message list \<Rightarrow> generation_message list \<Rightarrow> materialized result" where
  "materialize_messages supplied resident =
     rbind (rguard (supplied \<noteq> []) (session_invalid ''generation request requires at least one message'')) (\<lambda>_.
     rfold add_message \<lparr>chat_messages = [], audio_parts = [], image_parts = []\<rparr>
       (take (length supplied) resident @ drop (length resident) supplied))"

section \<open>Media in the prompt\<close>

definition loss :: "string \<Rightarrow> status" where "loss m = Status KDataLoss m"

text \<open>
  The placeholders of one part: the boundary token is searched from \<open>search\<close> on; the first position after it
  is returned.
\<close>

definition locate_part :: "nat \<Rightarrow> nat \<Rightarrow> nat \<Rightarrow> string \<Rightarrow> nat list \<Rightarrow> nat \<Rightarrow> nat \<Rightarrow> nat result" where
  "locate_part opening each closing name ids search n =
     (case find (\<lambda>i. ids ! i = opening) [search..<length ids] of
        None \<Rightarrow> Inl (loss (''rendered prompt is missing the '' @ name @ '' boundary token''))
      | Some b \<Rightarrow>
          let first = b + 1
          in rbind (rguard (n \<le> length ids - first) (loss (''rendered '' @ name @ '' placeholder extent is truncated''))) (\<lambda>_.
             rbind (rguard (\<forall>i \<in> set [0..<n]. ids ! (first + i) = each)
               (loss (''rendered '' @ name @ '' placeholder count is inconsistent''))) (\<lambda>_.
             rbind (rguard (first + n < length ids \<and> ids ! (first + n) = closing)
               (loss (''rendered prompt is missing the '' @ name @ '' end token''))) (\<lambda>_.
             Inr first))))"

fun locate_audio :: "nat list \<Rightarrow> nat \<Rightarrow> 32 word list list \<Rightarrow> audio_segment list result" where
  "locate_audio ids search [] = Inr []"
| "locate_audio ids search (f # fs) =
     (let n = length f div 640
      in rbind (locate_part 256000 258881 258883 ''audio'' ids search n) (\<lambda>first.
         rbind (locate_audio ids (first + n + 1) fs) (\<lambda>segments.
         Inr (\<lparr>audio_offset = first, audio_frames = f\<rparr> # segments))))"

fun locate_vision :: "nat list \<Rightarrow> nat \<Rightarrow> vision_image list \<Rightarrow> vision_segment list result" where
  "locate_vision ids search [] = Inr []"
| "locate_vision ids search (i # is) =
     rbind (locate_part 255999 258880 258882 ''image'' ids search (patch_count i)) (\<lambda>first.
     rbind (locate_vision ids (first + patch_count i + 1) is) (\<lambda>segments.
     Inr (\<lparr>vision_offset = first, vision_patches = patches i, vision_positions = positions i\<rparr> # segments)))"

section \<open>The resident conversation\<close>

record 'e chat =
  chat_session :: "'e conversation"
  committed_messages :: "generation_message list"
  committed_tools :: "tool_definition list"
  committed_choice :: tool_choice
  cached_prefix :: "nat list"
  pending_token :: "nat option"
  chat_context :: nat
  chat_poisoned :: bool

text \<open>\<open>Create\<close> on a runtime; \<open>initialize\<close> and its parameters are those of the inference session.\<close>

definition create_chat :: "chat_processor \<Rightarrow> bool \<Rightarrow> binary64 \<Rightarrow> (session_options \<Rightarrow> 'e result) \<Rightarrow> session_options \<Rightarrow> 'e chat result" where
  "create_chat p assistant load_ms initialize options =
     rbind (create_session assistant load_ms initialize
       (options\<lparr>option_stop_ids := stop_token_ids (generation_controls p),
         option_suppressed_ids := suppressed_token_ids (generation_controls p)\<rparr>)) (\<lambda>s.
     Inr \<lparr>chat_session = s, committed_messages = [], committed_tools = [], committed_choice = default_tool_choice,
       cached_prefix = [], pending_token = None, chat_context = option_context options, chat_poisoned = False\<rparr>)"

text \<open>The same part, as far as a client can tell.\<close>

definition resident_part :: "string \<Rightarrow> content_part \<Rightarrow> content_part \<Rightarrow> bool" where
  "resident_part speaker cached supplied =
     (case (cached, supplied) of
        (ImagePart i, ImagePart j) \<Rightarrow>
          if source_fingerprint i \<noteq> 0 \<and> source_fingerprint j \<noteq> 0 then source_fingerprint i = source_fingerprint j else i = j
      | (TextPart t, TextPart u) \<Rightarrow> if speaker = ''assistant'' then trim t = trim u else t = u
      | _ \<Rightarrow> cached = supplied)"

definition resident_equivalent :: "generation_message \<Rightarrow> generation_message \<Rightarrow> bool" where
  "resident_equivalent cached supplied \<longleftrightarrow>
     role cached = role supplied \<and> length (content cached) = length (content supplied) \<and>
     list_all (\<lambda>(c, s). resident_part (role cached) c s) (zip (content cached) (content supplied))"

definition extends_resident :: "generation_message list \<Rightarrow> generation_message list \<Rightarrow> bool" where
  "extends_resident cached supplied \<longleftrightarrow>
     length cached < length supplied \<and> list_all (\<lambda>(c, s). resident_equivalent c s) (zip cached supplied)"

definition check_resident :: "'e chat \<Rightarrow> generation_request \<Rightarrow> unit result" where
  "check_resident s q =
     (let cached = committed_messages s; supplied = messages q; added = drop (length cached) supplied;
          extends = extends_resident cached supplied
      in if cached = [] then Inr ()
         else
           rbind (rguard (extends \<and> (length supplied = length cached + 1 \<and> role (hd added) = ''user'' \<or>
               list_all (\<lambda>m. role m = ''tool'') added))
             (session_invalid ''generation request must append one user turn or consecutive tool results'')) (\<lambda>_.
           rbind (rguard (request_tools q = committed_tools s)
             (session_invalid ''resident conversation tool definitions must not change'')) (\<lambda>_.
           rguard (request_tool_choice q = committed_choice s)
             (session_invalid ''resident conversation tool choice must not change''))))"

definition check_request :: "'e chat \<Rightarrow> generation_request \<Rightarrow> unit result" where
  "check_request s q =
     rbind (rguard (\<not> chat_poisoned s \<and> \<not> poisoned (chat_session s))
       (Status KInternal ''chat session cannot continue after a state-mutating failure'')) (\<lambda>_.
     rbind (rguard (max_generated_tokens q \<noteq> Some 0)
       (session_invalid ''generation token limit must be positive when specified'')) (\<lambda>_.
     rbind (rguard (choice_mode (request_tool_choice q) = ChoiceAuto \<or> choice_mode (request_tool_choice q) = ChoiceNone)
       (Status KUnsupported ''native Gemma generation currently supports auto or none tool choice'')) (\<lambda>_.
     rbind (rguard (parallel_tool_calls q)
       (Status KUnsupported ''native Gemma generation cannot yet constrain output to one tool call'')) (\<lambda>_.
     rbind (validate_tool_definitions (request_tools q)) (\<lambda>_.
     rbind (rguard (messages q \<noteq> []) (session_invalid ''generation request requires at least one message'')) (\<lambda>_.
     rbind (rguard (role (last (messages q)) = ''user'' \<or> role (last (messages q)) = ''tool'')
       (session_invalid ''generation request must end with a user or tool message'')) (\<lambda>_.
     check_resident s q)))))))"

section \<open>The prompt\<close>

text \<open>The result that a message holds; the fields of another kind of part are empty.\<close>

definition held_result :: "generation_message \<Rightarrow> tool_result" where
  "held_result m = (case hd (content m) of ToolResultPart r \<Rightarrow> r | _ \<Rightarrow> \<lparr>result_call_id = [], result_output = []\<rparr>)"

definition resident_calls :: "'e chat \<Rightarrow> tool_call list" where
  "resident_calls s = concat (map (\<lambda>p. case p of ToolCallPart c \<Rightarrow> [c] | _ \<Rightarrow> []) (content (last (committed_messages s))))"

definition resolve_result :: "'e chat \<Rightarrow> (string \<times> string) list \<Rightarrow> generation_message \<Rightarrow> (string \<times> string) list result" where
  "resolve_result s out m =
     (let r = held_result m;
          name = (case find (\<lambda>c. call_id c = result_call_id r) (resident_calls s) of Some c \<Rightarrow> call_name c | None \<Rightarrow> [])
      in rbind (rguard (name \<noteq> []) (session_invalid ''tool result does not match the resident assistant calls'')) (\<lambda>_.
         Inr (out @ [(name, result_output r)])))"

definition resident_prefix :: "'e chat \<Rightarrow> nat list" where
  "resident_prefix s = cached_prefix s @ (case pending_token s of None \<Rightarrow> [] | Some t \<Rightarrow> [t])"

definition active_tools :: "generation_request \<Rightarrow> tool_definition list" where
  "active_tools q = (if choice_mode (request_tool_choice q) = ChoiceNone then [] else request_tools q)"

definition tool_continuation :: "materialized \<Rightarrow> bool" where
  "tool_continuation m \<longleftrightarrow> chat_role (last (chat_messages m)) = ''tool''"

definition prompt_ids :: "chat_processor \<Rightarrow> 'e chat \<Rightarrow> generation_request \<Rightarrow> materialized \<Rightarrow> nat list result option" where
  "prompt_ids p s q m =
     (let thinks = thinking q \<noteq> ThinkOff
      in if cached_prefix s = [] then encode_chat p (chat_messages m) thinks True (active_tools q)
         else
           fbind (if tool_continuation m
             then fbind (Some (rfold (resolve_result s) [] (drop (length (committed_messages s)) (messages q)))) (\<lambda>results.
                    encode_results p results thinks)
             else encode_continuation p (chat_content (last (chat_messages m))) thinks) (\<lambda>ids.
           Some (Inr (resident_prefix s @ ids))))"

text \<open>The room that a thinking channel has, and what is kept for the answer.\<close>

definition answer_reserve :: "nat \<Rightarrow> nat" where
  "answer_reserve limit = (if 128 < limit then 128 else limit div 2)"

definition reasoning_room :: "thinking_effort \<Rightarrow> nat \<Rightarrow> nat" where
  "reasoning_room effort limit =
     min (if effort = ThinkOff then 1 else thinking_budget effort) (max 1 (limit - answer_reserve limit))"

definition reasoning_of :: "chat_processor \<Rightarrow> generation_request \<Rightarrow> bool \<Rightarrow> nat \<Rightarrow> reasoning_options" where
  "reasoning_of p q results limit =
     (if thinking q \<noteq> ThinkOff \<or> results
      then \<lparr>channel_open_ids = thinking_open_ids (generation_controls p), channel_close_id = thinking_close_id (generation_controls p),
             max_reasoning = of_nat (reasoning_room (thinking q) limit), reasoning_on = True, starts_reasoning = results\<rparr>
      else \<lparr>channel_open_ids = [], channel_close_id = 0, max_reasoning = 0, reasoning_on = False, starts_reasoning = results\<rparr>)"

record turn_plan =
  plan_prompt :: "nat list"
  plan_limit :: nat
  plan_reasoning :: reasoning_options
  plan_audio :: "audio_segment list"
  plan_vision :: "vision_segment list"

definition plan_turn :: "chat_processor \<Rightarrow> 'e chat \<Rightarrow> generation_request \<Rightarrow> turn_plan result option" where
  "plan_turn p s q =
     fbind (Some (check_request s q)) (\<lambda>_.
     fbind (Some (materialize_messages (messages q) (committed_messages s))) (\<lambda>m.
     fbind (prompt_ids p s q m) (\<lambda>ids. Some (
     rbind (locate_audio ids 0 (audio_parts m)) (\<lambda>audio.
     rbind (locate_vision ids 0 (image_parts m)) (\<lambda>vision.
     rbind (rguard (length ids \<le> chat_context s)
       (session_invalid ''conversation prompt exceeds the session context capacity'')) (\<lambda>_.
     let room = chat_context s - length ids + 1;
         limit = (case max_generated_tokens q of None \<Rightarrow> room | Some n \<Rightarrow> n)
     in rbind (rguard (limit \<le> room) (session_invalid ''requested output exceeds the remaining context capacity'')) (\<lambda>_.
        Inr \<lparr>plan_prompt = ids, plan_limit = limit, plan_reasoning = reasoning_of p q (tool_continuation m) limit,
          plan_audio = audio, plan_vision = vision\<rparr>))))))))"

section \<open>The response\<close>

definition content_ids :: "nat list \<Rightarrow> nat list \<Rightarrow> nat list" where
  "content_ids stop_set ids = (if ids \<noteq> [] \<and> last ids \<in> set stop_set then butlast ids else ids)"

definition reasoning_mismatch :: "nat list \<Rightarrow> inference_result \<Rightarrow> status" where
  "reasoning_mismatch ids r = Status KInternal (''decoded reasoning channel has '' @ decimal (length ids) @
     '' tokens but inference accounted '' @ decimal (unat (reasoning_tokens r)))"

text \<open>A part of the response; \<open>leave\<close> is what happens to the session when it fails.\<close>

definition poison_chat :: "'e chat \<Rightarrow> 'e chat" where
  "poison_chat s = s\<lparr>chat_poisoned := True\<rparr>"

definition on_part :: "'v result option \<Rightarrow> 'e chat \<Rightarrow> ('e chat \<Rightarrow> 'e chat) \<Rightarrow>
    ('v \<Rightarrow> ('e chat \<times> 'w result) option) \<Rightarrow> ('e chat \<times> 'w result) option" where
  "on_part reply s leave f =
     (case reply of None \<Rightarrow> None | Some (Inl e) \<Rightarrow> Some (leave s, Inl e) | Some (Inr v) \<Rightarrow> f v)"

text \<open>What is made of the tokens.\<close>

definition read_response :: "chat_processor \<Rightarrow> generation_request \<Rightarrow> turn_plan \<Rightarrow> inference_result \<Rightarrow> 'e chat \<Rightarrow>
    ('e chat \<times> generation_response result) option" where
  "read_response p q plan r s =
     (let controls = generation_controls p; ids = content_ids (stop_token_ids controls) (output_token_ids r);
          opening = thinking_open_ids controls; closing = thinking_close_id controls; starts = starts_reasoning (plan_reasoning plan);
          thought = extract_reasoning ids opening closing starts
      in on_part (Some (decode (processor_tokenizer p) ids False)) s poison_chat (\<lambda>all_text.
         on_part (decode_response_text p (extract_visible ids opening closing starts)) s poison_chat (\<lambda>visible.
         on_part (Some (rguard (of_nat (length thought) = reasoning_tokens r) (reasoning_mismatch thought r))) s poison_chat (\<lambda>_.
         on_part (Some (decode (processor_tokenizer p) thought True)) s poison_chat (\<lambda>thought_text.
         on_part (Some (push new_parser all_text True)) s poison_chat (\<lambda>(events, parser).
         on_part (validate_generated_calls (request_tools q) (request_tool_choice q) (tool_calls parser)) s poison_chat (\<lambda>_.
           Some (s, Inr \<lparr>assistant_content = all_text, assistant_text = visible, reasoning_text = thought_text,
             response_calls = tool_calls parser, prompt_token_ids = plan_prompt plan,
             response_finish = (if tool_calls parser \<noteq> [] then FinishToolCalls else if stopped r then FinishStop else FinishLength),
             inference = r\<rparr>))))))))"

definition answer_message :: "generation_response \<Rightarrow> generation_message" where
  "answer_message r = \<lparr>role = ''assistant'',
     content = (if assistant_text r \<noteq> [] \<or> response_calls r = [] then [TextPart (assistant_text r)] else []) @
       map ToolCallPart (response_calls r)\<rparr>"

definition commit_turn :: "generation_request \<Rightarrow> generation_response \<Rightarrow> 'e chat \<Rightarrow> 'e chat" where
  "commit_turn q r s = s\<lparr>committed_messages := committed_messages s @ drop (length (committed_messages s)) (messages q) @ [answer_message r],
     committed_tools := request_tools q, committed_choice := request_tool_choice q\<rparr>"

definition note_cache :: "nat list \<Rightarrow> inference_result \<Rightarrow> 'e chat \<Rightarrow> 'e chat" where
  "note_cache prompt r s = s\<lparr>cached_prefix := prompt @ (if 1 < length (output_token_ids r) then butlast (output_token_ids r) else []),
     pending_token := (if \<not> stopped r \<and> output_token_ids r \<noteq> [] then Some (last (output_token_ids r)) else None)\<rparr>"

definition token_event :: "nat \<Rightarrow> generation_event" where
  "token_event t = \<lparr>kind = EvToken, token_id = t, text_delta = [], tool_call_id = [], event_tool_name = []\<rparr>"

type_synonym 'c event_callback = "'c \<Rightarrow> generation_event \<Rightarrow> 'c \<times> unit result"

definition event_bridge :: "'c event_callback option \<Rightarrow> 'c observer option" where
  "event_bridge callback = map_option (\<lambda>f c t. f c (token_event t)) callback"

definition chat_generate :: "nat \<Rightarrow> ('e, 'c) engine_ops \<Rightarrow> chat_processor \<Rightarrow> 'e chat \<Rightarrow> generation_request \<Rightarrow> 'c event_callback option \<Rightarrow> 'c \<Rightarrow>
    ('e chat \<times> 'c \<times> generation_response result) option" where
  "chat_generate fuel ops p s q callback context =
     (case plan_turn p s q of
        None \<Rightarrow> None
      | Some (Inl e) \<Rightarrow> Some (s, context, Inl e)
      | Some (Inr plan) \<Rightarrow>
          (case session_generate fuel ops (chat_session s) (plan_prompt plan) (plan_limit plan) (plan_reasoning plan)
              (event_bridge callback) context (plan_audio plan) (plan_vision plan) of
             None \<Rightarrow> None
           | Some (session, c, Inl e) \<Rightarrow> Some (s\<lparr>chat_session := session, chat_poisoned := poisoned session\<rparr>, c, Inl e)
           | Some (session, c, Inr r) \<Rightarrow>
               (case read_response p q plan r (note_cache (plan_prompt plan) r (s\<lparr>chat_session := session\<rparr>)) of
                  None \<Rightarrow> None
                | Some (s', Inl e) \<Rightarrow> Some (s', c, Inl e)
                | Some (s', Inr response) \<Rightarrow> Some (commit_turn q response s', c, Inr response))))"

end
