(* ===== verification/Chat_Facts.thy ===== *)
theory Chat_Facts
  imports Chat_Session Session_Theorems Transitions
begin

text \<open>
  The resident conversation: its prefix is the cache of the inference session, its transcript can be sent again,
  its media stand where the session expects them, and its errors poison it or change nothing.
\<close>

section \<open>One request\<close>

lemma plan_turn_Inr:
  assumes "plan_turn p s q = Some (Inr plan)"
  obtains m where "check_request s q = Inr ()" "materialize_messages (messages q) (committed_messages s) = Inr m"
    "prompt_ids p s q m = Some (Inr (plan_prompt plan))" "locate_audio (plan_prompt plan) 0 (audio_parts m) = Inr (plan_audio plan)"
    "locate_vision (plan_prompt plan) 0 (image_parts m) = Inr (plan_vision plan)" "length (plan_prompt plan) \<le> chat_context s"
    "plan_limit plan \<le> chat_context s - length (plan_prompt plan) + 1" "max_generated_tokens q = Some n \<Longrightarrow> plan_limit plan = n"
    "plan_reasoning plan = reasoning_of p q (tool_continuation m) (plan_limit plan)"
proof -
  from assms obtain m ids audio vision where m: "check_request s q = Inr ()"
    "materialize_messages (messages q) (committed_messages s) = Inr m" "prompt_ids p s q m = Some (Inr ids)"
    "locate_audio ids 0 (audio_parts m) = Inr audio" "locate_vision ids 0 (image_parts m) = Inr vision" "length ids \<le> chat_context s"
    and plan: "(let room = chat_context s - length ids + 1; limit = (case max_generated_tokens q of None \<Rightarrow> room | Some n \<Rightarrow> n)
     in rbind (rguard (limit \<le> room) (session_invalid ''requested output exceeds the remaining context capacity'')) (\<lambda>_.
        Inr \<lparr>plan_prompt = ids, plan_limit = limit, plan_reasoning = reasoning_of p q (tool_continuation m) limit,
          plan_audio = audio, plan_vision = vision\<rparr>)) = Inr plan"
    by (auto simp: plan_turn_def fbind_Inr_iff rbind_Inr_iff)
  show thesis by (rule that [OF m(1,2)]) (use m(3-) plan in \<open>auto simp: Let_def rbind_Inr_iff split: option.splits\<close>)
qed

lemma on_part_Some: "on_part reply s leave f = Some z \<longleftrightarrow>
   (\<exists>e. reply = Some (Inl e) \<and> z = (leave s, Inl e)) \<or> (\<exists>v. reply = Some (Inr v) \<and> f v = Some z)"
  by (auto simp: on_part_def split: option.splits sum.splits)

text \<open>A response changes nothing, and each of its errors poisons the conversation.\<close>

lemma read_response_Some:
  assumes "read_response p q plan r s = Some (s', v)"
  shows "(\<exists>response. v = Inr response \<and> s' = s) \<or> (\<exists>e. v = Inl e \<and> s' = poison_chat s)"
  using assms by (auto simp: read_response_def Let_def on_part_Some split: prod.splits)

lemma chat_generate_Inr:
  assumes "chat_generate fuel ops p s q callback c = Some (s', c', Inr r)"
  obtains plan session res where "plan_turn p s q = Some (Inr plan)"
    "session_generate fuel ops (chat_session s) (plan_prompt plan) (plan_limit plan) (plan_reasoning plan) (event_bridge callback) c
      (plan_audio plan) (plan_vision plan) = Some (session, c', Inr res)"
    "s' = commit_turn q r (note_cache (plan_prompt plan) res (s\<lparr>chat_session := session\<rparr>))"
  using assms by (auto simp: chat_generate_def split: option.splits sum.splits prod.splits dest!: read_response_Some)

lemma chat_generate_Inl:
  assumes "chat_generate fuel ops p s q callback c = Some (s', c', Inl e)"
  shows "(s' = s \<and> c' = c) \<or> chat_poisoned s'"
proof -
  from assms consider (plan) "s' = s" "c' = c"
    | (session) plan session where "plan_turn p s q = Some (Inr plan)"
        "session_generate fuel ops (chat_session s) (plan_prompt plan) (plan_limit plan) (plan_reasoning plan) (event_bridge callback) c
          (plan_audio plan) (plan_vision plan) = Some (session, c', Inl e)"
        "s' = s\<lparr>chat_session := session, chat_poisoned := poisoned session\<rparr>"
    | (response) "chat_poisoned s'"
    by (auto simp: chat_generate_def poison_chat_def split: option.splits sum.splits prod.splits dest!: read_response_Some)
  then show ?thesis
  proof cases
    case session
    from session(1) have "check_request s q = Inr ()" by (rule plan_turn_Inr)
    then have "\<not> chat_poisoned s" "\<not> poisoned (chat_session s)" by (auto simp: check_request_def rbind_Inr_iff)
    then show ?thesis using generate_failed [OF session(2)] session(3) by (cases s) auto
  qed auto
qed

section \<open>The prefix and the cache\<close>

definition chat_ok :: "'e chat \<Rightarrow> bool" where
  "chat_ok s \<longleftrightarrow> chat_poisoned s \<or> poisoned (chat_session s) \<or>
     cached_prefix s = cached_ids (chat_session s) \<and> chat_context s = context_limit (chat_session s) \<and>
     (committed_messages s = [] \<longleftrightarrow> cached_prefix s = [])"

lemma create_chat_ok: "create_chat p assistant load_ms initialize options = Inr s \<Longrightarrow> chat_ok s"
  by (auto simp: create_chat_def create_session_def rbind_Inr_iff chat_ok_def)

lemma note_cache_prefix: "output_token_ids r \<noteq> [] \<Longrightarrow> cached_prefix (note_cache prompt r s) = prompt @ butlast (output_token_ids r)"
  by (cases "output_token_ids r") (auto simp: note_cache_def)

lemma chat_generate_ok:
  assumes "chat_generate fuel ops p s q callback c = Some (s', c', v)" "chat_ok s"
  shows "chat_ok s'"
proof (cases v)
  case (Inl e)
  then show ?thesis using chat_generate_Inl [of fuel ops p s q callback c s' c' e] assms by (auto simp: chat_ok_def)
next
  case (Inr r)
  obtain plan session res where t: "plan_turn p s q = Some (Inr plan)"
    "session_generate fuel ops (chat_session s) (plan_prompt plan) (plan_limit plan) (plan_reasoning plan) (event_bridge callback) c
      (plan_audio plan) (plan_vision plan) = Some (session, c', Inr res)"
    "s' = commit_turn q r (note_cache (plan_prompt plan) res (s\<lparr>chat_session := session\<rparr>))"
    by (rule chat_generate_Inr [OF assms(1) [unfolded Inr]])
  note done_turn = generate_cached [OF t(2)]
  obtain "check_request s q = Inr ()" by (rule plan_turn_Inr [OF t(1)])
  then have "\<not> chat_poisoned s" "\<not> poisoned (chat_session s)" by (auto simp: check_request_def rbind_Inr_iff)
  moreover have "plan_prompt plan \<noteq> []" using check_turn_Inr(2) [OF done_turn(4)] .
  ultimately show ?thesis using assms(2) done_turn note_cache_prefix [OF done_turn(1)]
    by (auto simp: chat_ok_def t(3) commit_turn_def note_cache_def)
qed

text \<open>The states that a chat session can be in, whatever is asked of it.\<close>

inductive chat_created :: "chat_processor \<Rightarrow> 'e chat \<Rightarrow> bool" where
  "create_chat p assistant load_ms initialize options = Inr s \<Longrightarrow> chat_created p s"

inductive chat_step :: "('e, 'c) engine_ops \<Rightarrow> chat_processor \<Rightarrow> 'e chat \<Rightarrow> 'e chat \<Rightarrow> bool" where
  "chat_generate fuel ops p s q callback c = Some (s', c', v) \<Longrightarrow> chat_step ops p s s'"

interpretation chat: invariant_machine "chat_created p" "chat_step ops p" chat_ok for p :: chat_processor and ops :: "('e, 'c) engine_ops"
  by unfold_locales (auto elim!: chat_created.cases chat_step.cases intro: create_chat_ok chat_generate_ok)

lemma prompt_extends_prefix:
  assumes "prompt_ids p s q m = Some (Inr ids)" "cached_prefix s \<noteq> []"
  shows "\<exists>later. ids = cached_prefix s @ later"
  using assms by (auto simp: prompt_ids_def Let_def fbind_Inr_iff resident_prefix_def split: option.splits if_splits)

text \<open>
  C7. A resident conversation never loses its cache: in every state that a chat session reaches, unless a failure has
  poisoned it, the prefix it keeps is exactly what the inference session has cached, and the prompt that it
  makes of any accepted request begins with it.  So the session below never finds the rendered
  conversation different from its cache.
\<close>

theorem resident_prefix_is_cached:
  assumes "reachable (chat_created p) (chat_step ops p) s" "\<not> chat_poisoned s" "\<not> poisoned (chat_session s)"
  shows "cached_prefix s = cached_ids (chat_session s) \<and>
    (\<forall>q plan. plan_turn p s q = Some (Inr plan) \<longrightarrow> check_prefix (cached_ids (chat_session s)) (plan_prompt plan) = Inr ())"
proof (intro conjI allI impI)
  have ok: "chat_ok s" by (rule chat.reachable_inv [OF assms(1)])
  then show cached: "cached_prefix s = cached_ids (chat_session s)" using assms(2,3) by (simp add: chat_ok_def)
  fix q plan
  assume plan: "plan_turn p s q = Some (Inr plan)"
  obtain m where m: "prompt_ids p s q m = Some (Inr (plan_prompt plan))" by (rule plan_turn_Inr [OF plan])
  show "check_prefix (cached_ids (chat_session s)) (plan_prompt plan) = Inr ()"
  proof (cases "cached_prefix s = []")
    case True
    then show ?thesis using check_prefix_append [of "[]" "plan_prompt plan"] by (simp add: cached [symmetric])
  next
    case False
    from prompt_extends_prefix [OF m this] show ?thesis using check_prefix_append by (auto simp: cached [symmetric])
  qed
qed

text \<open>
  A failed request either changes nothing, or it poisons the conversation, which then refuses every later request.
\<close>

theorem chat_failure_poisons:
  assumes "chat_generate fuel ops p s q callback c = Some (s', c', Inl e)"
  shows "(s' = s \<and> c' = c) \<or> (chat_poisoned s' \<and> (\<forall>fuel' ops' q' callback' c''. chat_generate fuel' ops' p s' q' callback' c'' =
    Some (s', c'', Inl (Status KInternal ''chat session cannot continue after a state-mutating failure''))))"
  using chat_generate_Inl [OF assms] by (auto simp: chat_generate_def plan_turn_def check_request_def rguard_def)

section \<open>The transcript\<close>

lemma resident_part_refl [simp]: "resident_part speaker x x"
  by (cases x) (simp_all add: resident_part_def)

lemma resident_equivalent_refl [simp]: "resident_equivalent m m"
proof -
  have "list_all (\<lambda>(c, s). resident_part (role m) c s) (zip xs xs)" for xs by (induction xs) simp_all
  then show ?thesis by (simp add: resident_equivalent_def)
qed

lemma resident_refl: "list_all (\<lambda>(c, s). resident_equivalent c s) (zip xs xs)"
  by (induction xs) simp_all

lemma resident_append:
  "length xs \<le> length ys \<Longrightarrow> list_all (\<lambda>(c, s). resident_equivalent c s) (zip xs ys) \<Longrightarrow>
   list_all (\<lambda>(c, s). resident_equivalent c s) (zip (xs @ drop (length xs) ys) ys)"
proof (induction xs arbitrary: ys)
  case Nil
  then show ?case by (simp add: resident_refl)
next
  case (Cons x xs)
  then show ?case by (cases ys) auto
qed

lemma resident_snoc:
  "length xs = length ys \<Longrightarrow> list_all (\<lambda>(c, s). resident_equivalent c s) (zip xs ys) \<Longrightarrow> resident_equivalent a b \<Longrightarrow>
   list_all (\<lambda>(c, s). resident_equivalent c s) (zip (xs @ [a]) (ys @ [b, user]))"
  by simp

lemma check_resident_covers:
  assumes "check_resident s q = Inr ()"
  shows "length (committed_messages s) \<le> length (messages q) \<and>
    list_all (\<lambda>(c, s). resident_equivalent c s) (zip (committed_messages s) (messages q))"
  using assms by (auto simp: check_resident_def Let_def extends_resident_def rbind_Inr_iff split: if_splits)

text \<open>
  The conversation that a client holds can be continued: after a turn that returned, the messages of the request
  followed by the assistant message of the response, its text with or without surrounding white space,
  and a new message of the user are accepted as an extension of what is resident.
\<close>

theorem conversation_can_continue:
  assumes "chat_generate fuel ops p s q callback c = Some (s', c', Inr r)" "role user = ''user''"
    and "resident_equivalent (answer_message r) answer"
  shows "check_resident s' (q\<lparr>messages := messages q @ [answer, user]\<rparr>) = Inr ()"
proof -
  obtain plan session res where t: "plan_turn p s q = Some (Inr plan)"
    "s' = commit_turn q r (note_cache (plan_prompt plan) res (s\<lparr>chat_session := session\<rparr>))"
    by (rule chat_generate_Inr [OF assms(1)])
  obtain "check_request s q = Inr ()" by (rule plan_turn_Inr [OF t(1)])
  then have "check_resident s q = Inr ()" by (auto simp: check_request_def rbind_Inr_iff)
  note covers = check_resident_covers [OF this]
  let ?old = "committed_messages s @ drop (length (committed_messages s)) (messages q)"
  have committed: "committed_messages s' = ?old @ [answer_message r]" "committed_tools s' = request_tools q"
    "committed_choice s' = request_tool_choice q"
    by (simp_all add: t(2) commit_turn_def note_cache_def)
  have len: "length ?old = length (messages q)" using covers by simp
  have "list_all (\<lambda>(c, s). resident_equivalent c s) (zip ?old (messages q))" using covers resident_append by blast
  then have "extends_resident (committed_messages s') (messages q @ [answer, user])"
    unfolding extends_resident_def committed(1) using resident_snoc [OF len _ assms(3)] len by auto
  moreover have "drop (length (committed_messages s')) (messages q @ [answer, user]) = [user]"
    using len by (simp add: committed(1))
  ultimately show ?thesis using assms(2) len by (simp add: check_resident_def committed Let_def rguard_def)
qed

end
