(* ===== verification/Template_Facts.thy ===== *)
theory Template_Facts
  imports Chat_Template
begin

text \<open>
  The continuations that a resident session appends are what rendering the longer conversation from its
  beginning would give.
\<close>

section \<open>Rendering a longer conversation\<close>

lemma no_tool_left: "ms \<noteq> [] \<Longrightarrow> \<not> is_tool (last ms) \<Longrightarrow> dropWhile is_tool ms \<noteq> [] \<and> last (dropWhile is_tool ms) = last ms"
  by (induction ms) (auto split: if_splits)

lemma take_tools_append:
  "ms \<noteq> [] \<Longrightarrow> \<not> is_tool (last ms) \<Longrightarrow> takeWhile is_tool (ms @ later) = takeWhile is_tool ms \<and>
   dropWhile is_tool (ms @ later) = dropWhile is_tool ms @ later"
  by (induction ms) (auto split: if_splits)

definition ends_with_user :: "chat_message list \<Rightarrow> bool" where
  "ends_with_user ms \<longleftrightarrow> ms \<noteq> [] \<and> chat_role (last ms) = ''user''"

lemma user_not_tool: "chat_role m = ''user'' \<Longrightarrow> \<not> is_tool m \<and> \<not> is_system m"
  by (simp add: is_tool_def is_system_def)

lemma render_messages_append:
  assumes "ends_with_user ms"
  shows "render_messages p out previous (ms @ later) =
    fbind (render_messages p out previous ms) (\<lambda>(out, previous). render_messages p out previous later)"
  using assms
proof (induction p out previous ms rule: render_messages.induct)
  case (2 p out previous m ms)
  show ?case
  proof (cases "is_tool m \<or> (chat_role m \<noteq> ''user'' \<and> chat_role m \<noteq> ''assistant'') \<or> chat_role m = previous")
    case True
    then show ?thesis by (auto simp: render_messages.simps(2))
  next
    case plain: False
    show ?thesis
    proof (cases "chat_role m = ''assistant''")
      case True
      then have ms: "ms \<noteq> []" "chat_role (last ms) = ''user''" using 2(3) by (auto simp: ends_with_user_def split: if_splits)
      let ?left = "dropWhile is_tool ms"
      note tools = take_tools_append [OF ms(1) user_not_tool [OF ms(2), THEN conjunct1]]
        no_tool_left [OF ms(1) user_not_tool [OF ms(2), THEN conjunct1]]
      have left: "ends_with_user ?left" using tools ms by (simp add: ends_with_user_def)
      have step: "render_messages p out previous (m # ms @ later) = fbind (assistant_block p m (takeWhile is_tool ms) False)
          (\<lambda>(shown, previous). render_messages p (out @ shown) previous (?left @ later))" for later
        using plain True tools by (simp add: render_messages.simps(2) del: dropWhile_eq_Nil_conv)
      have IH: "render_messages p (out @ shown) prev (?left @ later) = fbind (render_messages p (out @ shown) prev ?left)
          (\<lambda>(out, previous). render_messages p out previous later)"
        if "assistant_block p m (takeWhile is_tool ms) False = Some (Inr (shown, prev))" for shown prev
        by (rule 2(1) [OF _ _ _ True _ refl left]) (use that plain tools in \<open>auto simp del: dropWhile_eq_Nil_conv\<close>)
      show ?thesis using step [of later] step [of "[]"] IH
        by (auto simp: fbind_def split: option.splits sum.splits)
    next
      case False
      show ?thesis
      proof (cases "ms = []")
        case True
        then show ?thesis using plain False by (simp add: render_messages.simps(2))
      next
        case more: False
        then have "ends_with_user ms" using 2(3) by (simp add: ends_with_user_def)
        then show ?thesis using 2(2) plain False by (simp add: render_messages.simps(2))
      qed
    qed
  qed
qed (simp add: ends_with_user_def)

lemma render_messages_user:
  assumes "render_messages p out previous ms = Some (Inr (out', previous'))" "ends_with_user ms"
  shows "previous' = ''user''"
  using assms
proof (induction p out previous ms rule: render_messages.induct)
  case (2 p out previous m ms)
  then have plain: "\<not> is_tool m" "chat_role m = ''user'' \<or> chat_role m = ''assistant''" "chat_role m \<noteq> previous"
    by (auto simp: render_messages.simps(2) split: if_splits)
  show ?case
  proof (cases "chat_role m = ''assistant''")
    case True
    then have ms: "ms \<noteq> []" "chat_role (last ms) = ''user''" using 2(4) by (auto simp: ends_with_user_def split: if_splits)
    have "ends_with_user (dropWhile is_tool ms)"
      using no_tool_left [OF ms(1) user_not_tool [OF ms(2), THEN conjunct1]] ms by (simp add: ends_with_user_def)
    moreover obtain shown prev where "assistant_block p m (takeWhile is_tool ms) (dropWhile is_tool ms = []) = Some (Inr (shown, prev))"
      "render_messages p (out @ shown) prev (dropWhile is_tool ms) = Some (Inr (out', previous'))"
      using 2(3) plain True by (auto simp: render_messages.simps(2) fbind_Inr_iff)
    ultimately show ?thesis using 2(1) plain True by blast
  next
    case False
    then show ?thesis using 2(2-4) plain by (cases "ms = []") (auto simp: render_messages.simps(2) ends_with_user_def)
  qed
qed (simp add: ends_with_user_def)

text \<open>What the prompt of a conversation is before the text that invites an answer.\<close>

lemma render_prompt:
  assumes "render p ms enable_thinking True tools = Some (Inr prompt)" "ends_with_user ms"
  obtains body where "prompt = body @ turn_opener ''model'' @ (if enable_thinking then [] else empty_thought)"
    "\<And>later. render p (ms @ later) enable_thinking True tools = fbind (render_messages p body ''user'' later) (\<lambda>(out, previous).
       Some (rbind (generation_prompt enable_thinking previous) (\<lambda>t. Inr (out @ t))))"
proof -
  have ms: "ms \<noteq> []" using assms(2) by (simp add: ends_with_user_def)
  let ?body = "if is_system (hd ms) then tl ms else ms"
  have body: "ends_with_user ?body"
    using assms(2) user_not_tool [of "last ms"] by (cases ms) (auto simp: ends_with_user_def split: if_splits)
  from assms(1) ms obtain system out previous where
    s: "system_block (hd ms) enable_thinking tools = Inr system"
      "render_messages p (''<bos>'' @ system) [] ?body = Some (Inr (out, previous))"
      "rbind (generation_prompt enable_thinking previous) (\<lambda>t. Inr (out @ t)) = Inr prompt"
    by (auto simp: render_def fbind_Inr_iff)
  have previous: "previous = ''user''" by (rule render_messages_user [OF s(2) body])
  then have prompt_text: "prompt = out @ turn_opener ''model'' @ (if enable_thinking then [] else empty_thought)"
    using s(3) by (simp add: generation_prompt_def rguard_def)
  have joined: "render_messages p (''<bos>'' @ system) [] (?body @ later) = render_messages p out ''user'' later" for later
    using s(2) previous by (simp add: render_messages_append [OF body])
  have "render p (ms @ later) enable_thinking True tools = fbind (render_messages p out ''user'' later) (\<lambda>(out, previous).
       Some (rbind (generation_prompt enable_thinking previous) (\<lambda>t. Inr (out @ t))))" for later
    using joined [of later] ms s(1) by (cases "is_system (hd ms)") (simp_all add: render_def)
  with prompt_text show thesis by (rule that)
qed


section \<open>The two continuations\<close>

text \<open>The response of the assistant as the transcript will show it.\<close>

definition shown_content :: "chat_processor \<Rightarrow> chat_message \<Rightarrow> string result option" where
  "shown_content p m = (if chat_content m = [] then Some (Inr []) else response_content p (chat_content m))"

text \<open>
  C8. Appending to a resident conversation is rendering it again: when the user answers an assistant
  message without tool calls, the prompt of the longer conversation is that of the shorter one, without the
  empty thought that invites an answer when thinking is off, then the content of the response, then
  the continuation that the resident session encodes.
\<close>

theorem continuation_extends_render:
  assumes "render p ms enable_thinking True tools = Some (Inr prompt)" "ends_with_user ms"
    and "chat_role a = ''assistant''" "chat_calls a = []" "shown_content p a = Some (Inr answer)" "chat_role u = ''user''"
  shows "\<exists>body. prompt = body @ (if enable_thinking then [] else empty_thought) \<and>
    render p (ms @ [a, u]) enable_thinking True tools =
      Some (Inr (body @ answer @ user_continuation enable_thinking (chat_content u)))"
proof -
  obtain body where body: "prompt = body @ turn_opener ''model'' @ (if enable_thinking then [] else empty_thought)"
    "\<And>later. render p (ms @ later) enable_thinking True tools = fbind (render_messages p body ''user'' later) (\<lambda>(out, previous).
       Some (rbind (generation_prompt enable_thinking previous) (\<lambda>t. Inr (out @ t))))"
    by (rule render_prompt [OF assms(1,2)]) (rule that)
  have roles: "\<not> is_tool a" "\<not> is_tool u" using assms(3,6) by (simp_all add: is_tool_def)
  have "assistant_block p a [] False = Some (Inr (turn_opener ''model'' @ answer @ turn_closer, ''assistant''))"
    using assms(4,5) by (simp add: assistant_block_def shown_content_def [symmetric])
  then have "render_messages p body ''user'' [a, u] = Some (Inr (body @ turn_opener ''model'' @ answer @ turn_closer @
      turn_opener ''user'' @ trim (chat_content u) @ turn_closer, ''user''))"
    using assms(3,6) roles by (simp add: render_messages.simps(2))
  then show ?thesis using body
    by (intro exI [of _ "body @ turn_opener ''model''"]) (simp add: generation_prompt_def rguard_def user_continuation_def)
qed

lemma append_rendered_step: "rfold (append_rendered f) out (x # xs) = rbind (f x) (\<lambda>t. rfold (append_rendered f) (out @ t) xs)"
  by (cases "f x") (simp_all add: append_rendered_def)

lemma append_rendereds: "rfold (append_rendered f) out xs = rbind (rfold (append_rendered f) [] xs) (\<lambda>t. Inr (out @ t))"
proof (induction xs arbitrary: out)
  case (Cons x xs)
  have "rfold (append_rendered f) (out @ t) xs = rbind (rfold (append_rendered f) t xs) (\<lambda>u. Inr (out @ u))" for t
    using Cons [of "out @ t"] Cons [of t] by (cases "rfold (append_rendered f) [] xs") simp_all
  then show ?case by (cases "f x") (simp_all add: append_rendered_step del: rfold.simps(2))
qed simp

text \<open>
  The same holds when the results of tools follow an assistant message that only called them, once
  every result finds its call: the continuation of the results then comes after the calls, in the
  same turn of the model, and with thinking on it opens the channel.
\<close>

theorem results_extend_render:
  assumes "render p ms enable_thinking True tools = Some (Inr prompt)" "ends_with_user ms"
    and "chat_role a = ''assistant''" "chat_content a = []" "rfold (append_rendered call_text) [] (chat_calls a) = Inr calls"
    and "results \<noteq> []" "\<forall>m \<in> set results. is_tool m \<and> result_name (chat_calls a) m \<noteq> []"
  shows "\<exists>body continuation. prompt = body @ (if enable_thinking then [] else empty_thought) \<and>
    results_continuation (map (\<lambda>m. (result_name (chat_calls a) m, chat_content m)) results) enable_thinking = Inr continuation \<and>
    render p (ms @ a # results) enable_thinking True tools = Some (Inr (body @ calls @ continuation))"
proof -
  obtain body where body: "prompt = body @ turn_opener ''model'' @ (if enable_thinking then [] else empty_thought)"
    "\<And>later. render p (ms @ later) enable_thinking True tools = fbind (render_messages p body ''user'' later) (\<lambda>(out, previous).
       Some (rbind (generation_prompt enable_thinking previous) (\<lambda>t. Inr (out @ t))))"
    by (rule render_prompt [OF assms(1,2)]) (rule that)
  let ?name = "\<lambda>m. (result_name (chat_calls a) m, chat_content m)"
  let ?texts = "concat (map (\<lambda>m. format_tool_response (result_name (chat_calls a) m) (chat_content m)) results)"
  have tools: "takeWhile is_tool results = results" "dropWhile is_tool results = []" "\<not> is_tool a"
    using assms(3,7) by (auto simp: takeWhile_eq_all_conv is_tool_def)
  have texts: "rfold (append_rendered (result_text (chat_calls a))) out results = Inr (out @ ?texts)"
    "rfold (append_rendered named_result) out (map ?name results) = Inr (out @ ?texts)" for out
    using assms(7) by (induction results arbitrary: out) (simp_all add: append_rendered_step result_text_def named_result_def rguard_def del: rfold.simps(2))
  have "assistant_block p a results True = Some (Inr (turn_opener ''model'' @ calls @ ?texts, ''tool''))"
    using assms(4-6) append_rendereds [of call_text "turn_opener ''model''" "chat_calls a"] by (simp add: assistant_block_def texts)
  then have "render_messages p body ''user'' (a # results) = Some (Inr (body @ turn_opener ''model'' @ calls @ ?texts, ''tool''))"
    using assms(3) tools by (simp add: render_messages.simps(2) del: takeWhile_eq_all_conv dropWhile_eq_Nil_conv)
  moreover have "results_continuation (map ?name results) enable_thinking =
      Inr (?texts @ (if enable_thinking then thought_opener else []))"
    using assms(6) texts(2) [of "[]"] by (simp add: results_continuation_def rguard_def)
  ultimately show ?thesis using body
    by (intro exI [of _ "body @ turn_opener ''model''"] exI [of _ "?texts @ (if enable_thinking then thought_opener else [])"])
      (simp add: generation_prompt_def)
qed

end
