(* ===== verification/Chat_Sample.thy ===== *)
theory Chat_Sample
  imports Chat_Facts Template_Facts
begin

text \<open>A small processor and a conversation with it, at which the properties of the chat session are applied.\<close>

definition sample_prompt :: string where
  "sample_prompt = ''<bos><|turn>user'' @ newline @ ''hi<turn|>'' @ newline @ ''<|turn>model'' @ newline @ empty_thought"

text \<open>The whole prompt is one token, and so is the end of a turn.\<close>

definition sample_processor :: chat_processor where
  "sample_processor = \<lparr>processor_tokenizer = \<lparr>vocabulary = [], tokens = [sample_prompt, ''<turn|>''], merges = [],
       added_tokens = [\<lparr>added_content = sample_prompt, added_id = 0\<rparr>, \<lparr>added_content = ''<turn|>'', added_id = 1\<rparr>],
       special_ids = [0, 1], maximum_decoded_bytes = 100\<rparr>,
     generation_controls = \<lparr>stop_token_ids = [1], suppressed_token_ids = [], thinking_open_ids = [20], thinking_close_id = 21\<rparr>,
     processor_open = ''<|channel>'', processor_close = ''<channel|>'', processor_closes = [''<turn|>''], processor_tool_start = ''<|tool_call>''\<rparr>"

text \<open>The engine of the sample network without drafts; its first token after one token of prompt ends the turn.\<close>

definition sample_chat_options :: session_options where
  "sample_chat_options = \<lparr>option_stop_ids = [], option_suppressed_ids = [], option_context = 2000, option_kv_mode = CheckpointFp8,
     option_sampling = default_sampling, option_drafts = 0, option_adaptive = False\<rparr>"

definition fresh_engine :: "nat list device_engine" where
  "fresh_engine = demo_engine\<lparr>model_state := []\<rparr>"

definition sample_session :: "nat list device_engine chat" where
  "sample_session = \<lparr>chat_session = \<lparr>session_engine = fresh_engine, cached_ids = [], stop_ids = [1], context_limit = 2000,
       session_kv_mode = CheckpointFp8, session_load_ms = Finite False 0 0, session_sampling = default_sampling, session_drafts = 0,
       session_adaptive = False, poisoned = False\<rparr>,
     committed_messages = [], committed_tools = [], committed_choice = default_tool_choice, cached_prefix = [], pending_token = None,
     chat_context = 2000, chat_poisoned = False\<rparr>"

definition sample_ops :: "(nat list device_engine, unit) engine_ops" where
  "sample_ops = device_ops demo_net (session_setup (chat_session sample_session)) id"

definition sample_question :: generation_request where
  "sample_question = default_generation_request\<lparr>messages := [text_message ''user'' ''hi''], thinking := ThinkOff\<rparr>"

lemma sample_created: "create_chat sample_processor False (Finite False 0 0) (\<lambda>options. Inr fresh_engine) sample_chat_options = Inr sample_session"
  by (simp add: create_chat_def create_session_def check_session_options_def rbind_Inr_iff sample_chat_options_def sample_processor_def
      sample_session_def rguard_def maximum_context_def vocabulary_tokens_def)

lemma sample_renders:
  "render sample_processor [\<lparr>chat_role = ''user'', chat_content = ''hi'', chat_calls = [], chat_call_id = [], chat_tool_name = []\<rparr>]
     False True [] = Some (Inr sample_prompt)"
  by code_simp

lemma sample_encodes: "encode (processor_tokenizer sample_processor) sample_prompt = Some (Inr [0])"
  by code_simp

lemma sample_materializes: "materialize_messages [text_message ''user'' ''hi''] [] = Inr \<lparr>chat_messages =
     [\<lparr>chat_role = ''user'', chat_content = ''hi'', chat_calls = [], chat_call_id = [], chat_tool_name = []\<rparr>],
     audio_parts = [], image_parts = []\<rparr>"
  by code_simp

definition sample_plan :: turn_plan where
  "sample_plan = \<lparr>plan_prompt = [0], plan_limit = 2000,
     plan_reasoning = \<lparr>channel_open_ids = [], channel_close_id = 0, max_reasoning = 0, reasoning_on = False, starts_reasoning = False\<rparr>,
     plan_audio = [], plan_vision = []\<rparr>"

lemma sample_plans: "plan_turn sample_processor sample_session sample_question = Some (Inr sample_plan)"
proof -
  have "validate_tool_definitions [] = Inr ()" by code_simp
  then have "check_request sample_session sample_question = Inr ()"
    by (simp add: check_request_def check_resident_def Let_def rguard_def sample_session_def sample_question_def
        default_generation_request_def default_tool_choice_def text_message_def)
  then show ?thesis
    by (simp add: plan_turn_def sample_question_def sample_session_def default_generation_request_def default_tool_choice_def
        sample_materializes prompt_ids_def encode_chat_def active_tools_def sample_renders sample_encodes rguard_def
        Let_def reasoning_of_def tool_continuation_def sample_plan_def)
qed

lemma ordinary_loop_stopped: "stopped (run_result r) \<Longrightarrow> ordinary_loop turn n r = Inr r"
  by (cases n) simp_all

lemma sample_fields: "\<not> on_device_chain (chat_session sample_session)" "session_drafts (chat_session sample_session) = 0"
  "stop_ids (chat_session sample_session) = [1]" "cached_ids (chat_session sample_session) = []"
  "\<not> poisoned (chat_session sample_session)"
  by (simp_all add: sample_session_def on_device_chain_def)

lemma sample_turn: "\<exists>s' r. session_generate 9 sample_ops (chat_session sample_session) [0] 2000 (plan_reasoning sample_plan) None () [] [] =
     Some (s', (), Inr r) \<and> \<not> poisoned s' \<and> output_token_ids r = [1] \<and> reasoning_tokens r = 0 \<and> stopped r"
proof -
  let ?turn = "\<lparr>turn_ops = sample_ops, turn_session = chat_session sample_session, turn_reasoning = plan_reasoning sample_plan,
     turn_limit = 2000, turn_observer = None\<rparr>"
  have checked: "check_turn (chat_session sample_session) [0] 2000 (plan_reasoning sample_plan) [] [] = Inr ()"
    by (simp add: check_turn_def rbind_Inr_iff sample_session_def sample_plan_def check_prefix_def vocabulary_tokens_def)
  obtain e where e: "prefill_at sample_ops (session_engine (chat_session sample_session)) [0] 0 [] [] = Inr (e, 1)"
    by (simp add: sample_ops_def device_ops_def device_prefill_def rguard_def session_setup_def sample_session_def
        fresh_engine_def demo_net_def Let_def)
  have "\<exists>r. decode_turn 9 ?turn 1 (start_run ?turn () [0] e) = Some (Inr r) \<and> \<not> run_poisoned r \<and> outputs r = [1] \<and>
      reasoning_tokens (run_result r) = 0 \<and> stopped (run_result r)"
    by (simp add: decode_turn_def deliver_def push_token_def observe_token_def notify_def note_stop_def update_result_def
        prepare_fixed_graph_def ordinary_loop_stopped start_run_def start_result_def Let_def outputs_def sample_fields
        sample_plan_def)
  then show ?thesis using checked e
    by (auto simp add: session_generate_def Let_def close_turn_def sample_fields outputs_def)
qed

lemma sample_reads:
  assumes "output_token_ids r = [1]" "reasoning_tokens r = 0"
  shows "\<exists>response. read_response sample_processor sample_question sample_plan r s = Some (s, Inr response) \<and>
     assistant_text response = [] \<and> response_calls response = []"
proof -
  have "content_ids [1] [1] = []" "extract_reasoning [] [20] 21 False = []" "extract_visible [] [20] 21 False = []"
    "decode (processor_tokenizer sample_processor) [] False = Inr []" "decode (processor_tokenizer sample_processor) [] True = Inr []"
    "response_content sample_processor [] = Some (Inr [])" "push new_parser [] True = Inr ([], new_parser)" "tool_calls new_parser = []"
    "validate_generated_calls [] default_tool_choice [] = Some (Inr ())" by code_simp+
  then show ?thesis
    by (simp add: read_response_def Let_def assms on_part_def decode_response_text_def rguard_def sample_plan_def sample_question_def
        default_generation_request_def sample_processor_def [THEN arg_cong [where f = generation_controls]])
qed

text \<open>The conversation after one turn.\<close>

lemma sample_answer: "\<exists>s r. chat_generate 9 sample_ops sample_processor sample_session sample_question None () = Some (s, (), Inr r) \<and>
   cached_prefix s = [0] \<and> \<not> chat_poisoned s \<and> \<not> poisoned (chat_session s) \<and> assistant_text r = [] \<and> response_calls r = []"
proof -
  obtain t res where turn: "session_generate 9 sample_ops (chat_session sample_session) [0] 2000 (plan_reasoning sample_plan) None () [] [] =
     Some (t, (), Inr res)" "\<not> poisoned t" "output_token_ids res = [1]" "reasoning_tokens res = 0" using sample_turn by blast
  let ?s = "note_cache [0] res (sample_session\<lparr>chat_session := t\<rparr>)"
  obtain r where r: "read_response sample_processor sample_question sample_plan res ?s = Some (?s, Inr r)"
    "assistant_text r = []" "response_calls r = []" using sample_reads [OF turn(3,4)] by blast
  have "chat_generate 9 sample_ops sample_processor sample_session sample_question None () =
      Some (commit_turn sample_question r ?s, (), Inr r)"
    using turn(1) r(1) by (simp add: chat_generate_def sample_plans event_bridge_def sample_plan_def)
  moreover have "\<not> chat_poisoned sample_session" by (simp add: sample_session_def)
  ultimately show ?thesis using r(2,3) turn(2,3) by (auto simp: commit_turn_def note_cache_def)
qed

theorem resident_prefix_is_cached_witness:
  "\<exists>s. reachable (chat_created sample_processor) (chat_step sample_ops sample_processor) s \<and> cached_prefix s = [0] \<and>
     cached_ids (chat_session s) = [0]"
proof -
  obtain s r where s: "chat_generate 9 sample_ops sample_processor sample_session sample_question None () = Some (s, (), Inr r)"
    "cached_prefix s = [0]" "\<not> chat_poisoned s" "\<not> poisoned (chat_session s)" using sample_answer by blast
  have "reachable (chat_created sample_processor) (chat_step sample_ops sample_processor) sample_session"
    by (intro reachable.start chat_created.intros [OF sample_created])
  then have "reachable (chat_created sample_processor) (chat_step sample_ops sample_processor) s"
    by (rule reachable.next_state) (rule chat_step.intros [OF s(1)])
  moreover from resident_prefix_is_cached [OF this s(3,4)] s(2) have "cached_ids (chat_session s) = [0]" by simp
  ultimately show ?thesis using s(2) by blast
qed

theorem conversation_can_continue_witness:
  "\<exists>s :: nat list device_engine chat. check_resident s (sample_question\<lparr>messages := [text_message ''user'' ''hi'', text_message ''assistant'' '' '',
     text_message ''user'' ''bye'']\<rparr>) = Inr () \<and> cached_prefix s = [0]"
proof -
  obtain s r where s: "chat_generate 9 sample_ops sample_processor sample_session sample_question None () = Some (s, (), Inr r)"
    "cached_prefix s = [0]" "assistant_text r = []" "response_calls r = []" using sample_answer by blast
  have "trim [] = trim '' ''" by code_simp
  then have "resident_equivalent (answer_message r) (text_message ''assistant'' '' '')"
    by (simp add: resident_equivalent_def answer_message_def s(3,4) text_message_def resident_part_def)
  from conversation_can_continue [OF s(1) _ this, of "text_message ''user'' ''bye''"] s(2) show ?thesis
    by (intro exI [of _ s]) (simp add: text_message_def sample_question_def)
qed

section \<open>Rendering\<close>

definition user_turn :: "string \<Rightarrow> chat_message" where
  "user_turn t = \<lparr>chat_role = ''user'', chat_content = t, chat_calls = [], chat_call_id = [], chat_tool_name = []\<rparr>"

theorem continuation_extends_render_witness:
  "\<exists>body. sample_prompt = body @ empty_thought \<and>
     render sample_processor [user_turn ''hi'', (user_turn ''hello'')\<lparr>chat_role := ''assistant''\<rparr>, user_turn ''bye''] False True [] =
       Some (Inr (body @ ''hello'' @ user_continuation False ''bye''))"
proof -
  have "ends_with_user [user_turn ''hi'']" "shown_content sample_processor (user_turn ''hello'') = Some (Inr ''hello'')"
    by (simp_all add: ends_with_user_def user_turn_def) code_simp
  with continuation_extends_render [of sample_processor "[user_turn ''hi'']" False "[]" sample_prompt
      "(user_turn ''hello'')\<lparr>chat_role := ''assistant''\<rparr>" "''hello''" "user_turn ''bye''"] sample_renders
  show ?thesis by (simp add: user_turn_def shown_content_def)
qed

end
