(* ===== verification/Spec2Isabelle.thy ===== *)
theory Spec2Isabelle
  imports Tool_Parser Session_Invariant Request_Checks Responses_Chain Server_Metrics Sse_Chunk Tokenizer_Sample Sm120_Facts Checkpoint_Plan Channel_Facts Session_Account Chat_Sample
begin

text \<open>
  A model of gem16gb, a Gemma inference engine for one 16 GB GPU: the logic of its C++ host code, and the
  part of its CUDA code that decides which tokens a turn generates.  Paths below are under src/ of the
  repository (src/model/tokenizer.cpp is src/src/model/tokenizer.cpp in the tree, include/ is src/include/).

  THE PROGRAM.  A request reaches the server as JSON (src/util/json.cpp) and becomes a generation request
  (src/server/openai_chat.cpp).  The server keeps resident conversations in a pool
  (src/server/session_pool.cpp) and, for the Responses interface, a chain of turns.  A conversation
  (src/runtime/chat.cpp) renders its messages into a prompt, or only the continuation of what is resident
  (GemmaChatProcessor in src/model/tokenizer.cpp), encodes it (Tokenizer), and asks the inference session
  (src/cuda/inference_session.cuh) for a turn.  The session prefills what is new, generates token by token or
  with speculative drafts (src/cuda/mtp), watches the thinking channel and its budget, and reports every
  token to the caller, who writes it as a server-sent event (src/server/sse_chunk.h).  The finished
  response is taken apart into reasoning, visible text and tool calls (src/runtime/tool_call_parser.cpp).
  Before all that the checkpoint is read and checked (src/model/safetensors.cpp, config.cpp,
  tokenizer_config.cpp, manifest.cpp), its memory is planned (src/runtime/memory_plan.cpp) and its packed
  weights are tiled for the GPU (src/cuda/nvfp4/sm120_layout.cpp).

  CONVENTIONS.  A Result is \<open>status + 'a\<close>, an early return is a branch of \<open>rbind\<close> or \<open>rguard\<close>; a loop or a
  call that may not end, or an exception that nobody catches, is \<open>None\<close> of an option around it (\<open>fbind\<close>).
  Objects are records that operations return updated.  Strings are lists of bytes.  Sizes are \<open>nat\<close>, with
  \<open>mod 2 ^ 64\<close> where the code may wrap; counters that the code only adds to are 64-bit words; floats that are
  only copied are bit patterns; a double is a \<open>binary64\<close>.  Where a failure leaves a changed object,
  the failure carries it: in the inference session and in the chat session every exit that sets the flag
  \<open>poisoned\<close> in the source names \<open>poison\<close>, \<open>poisoning\<close> or \<open>poison_chat\<close> at that exit (a failed prefill sets it directly), and nothing
  else sets it.

  THE THEORIES.
  Prelude: status values, results and their folds, decimal numbers, the standard library on strings and
  maps.  Transitions: the locale \<open>invariant_machine\<close> of a state machine with an invariant; it is interpreted
  for the session pool, the draft scheduler and the chat session.  Chunked: the locale of an incremental
  parser, interpreted for the tool-call parser.
  Utf8, Binary64, Json: UTF-8, IEEE doubles with their decimal reading, the JSON parser with its limits and
  messages, the writer.  Json_Sound and Json_Roundtrip: what an accepted value satisfies, that the parser
  always answers, and that it reads back what the writer prints (without doubles: the writer prints 1.0
  as 1).
  Tool_Schema, Tool_Calls, Tool_Format, Tool_Dsl, Tool_Parser: src/runtime/tool_call_parser.cpp and the
  formatting of tools in src/model/tokenizer.cpp: the schema checks, the checks of generated calls, the Gemma
  syntax of calls and its parser, the parser of the response stream.  The lemmas: no JSON accessor is
  misused, the accepted calls are exactly those that meet the contract, the chunks of the stream do not
  matter, the events are the text and the calls, a formatted call is read back.
  Chat_Types, Openai_Request, Request_Checks, Responses_Chain, Server_Metrics: the data that server and session
  exchange, the two request adapters, what an accepted request is known to satisfy, the Responses chain,
  identifiers and metrics.  Sse_Chunk: the event builder, its refinement of appending to a bounded text
  and the reading back of a finished chunk.
  Session_Pool and Session_Invariant: each critical section and each atomic access of the pool is a step of
  \<open>pool_step\<close>, with any interleaving of requests; the invariant and what follows from it.  \<open>touch\<close> joins the
  increment of the clock and the store of the time of last use, which only the holder of the session
  performs.
  Tokenizer, Tokenizer_Load, Tokenizer_Encode, Tokenizer_Decode, Tokenizer_Sample: loading, encoding and
  decoding; consistent tables, the round trip, the decoder into a buffer, and when the encoder ends.
  Among added tokens of equal text the order after \<open>std::sort\<close> is not determined; the model sorts
  stably.  Tokenizer_Config: the response contract and the extraction of the visible content.
  Safetensors, Model_Config, Manifest, Memory_Plan, Checkpoint with Safetensors_Facts, Plan_Facts,
  Checkpoint_Facts, Checkpoint_Plan: the checkpoint from its files to the plan of the arena.  The lemmas: ranges
  of tensors, agreement with the index, a complete manifest with its totals, aligned and disjoint regions, and
  when planning must succeed.  Sm120_Layout and Sm120_Facts: the tiling of packed weights and the lane
  mapping that reads it.
  Response_Channel, Mtp_Scheduler, Channel_Facts: the tracker of the thinking channel, the adaptive scheduler of
  drafts, and their invariants.
  Inference_Session: \<open>ConversationSession\<close> over an engine given as a record of the operations that the session calls.
  Session_Facts, Session_Exits, Session_Decode, Session_Turn, Session_Theorems, Session_Account: its tokens and
  counters step by step; \<open>settled\<close>, that every failure after the checks has set the poison flag at its
  own exit; plain decoding as the reference of all loops; the whole turn; and the account of reasoning tokens.
  Mtp_Device, Mtp_Facts, Chain_Facts, Chain_Turn: the kernels of src/cuda/mtp/verify.cu that accept groups of
  drafts and chain them without the host, and the engine operations around them, as an engine for the session
  above; they meet its contract, so that every turn gives the tokens of plain decoding.
  Chat_Template and Template_Facts: rendering and continuations, and that a continuation is what rendering the
  longer conversation gives.  Chat_Session, Chat_Facts, Chat_Sample: \<open>ChatSession\<close>, its invariant (its prefix is the
  cache of the session), its failures, that a client can continue a conversation, and a small conversation.

  FUEL.  The JSON parser and the parser of call arguments get fuel computed from their input that
  is proved enough for every input (\<open>json_parse_total\<close> and its like), so their \<open>None\<close> branches are never taken.
  \<open>encode\<close> gets the length of the text, which is enough exactly when no added token is empty
  (\<open>encode_terminates_iff\<close>); \<open>drop_thinking\<close> gets the length of the text plus one.  \<open>draft_loop\<close> has fuel because an engine
  could give empty groups for ever; on the device engine fuel of the token limit is enough, and the
  turn returns (\<open>turn_is_plain_decoding\<close>).

  PARAMETERS.  The network (a pass over tokens, the choice of a token, the drafts, batched rows) and for
  the engine-independent theorems the whole engine; the file system; the regular expressions of the
  quantization rules; the image and audio decoders; the random numbers of the system and the clock.  The one
  hypothesis about the network, \<open>exact_rows\<close>, says that the rows of a batched verification are those of one
  pass per token; a small network for which it holds is given.

  NOT MODELLED.  The floating-point kernels on the GPU (attention, NVFP4 and FP8 products, norms, the
  assistant network): parallel numerics on tensor cores, for which only bit-level models would say
  anything.  CUDA memory, streams, graphs and the errors of its runtime.  The HTTP handlers and the
  streaming thread: wiring around the modelled parts.  Image and audio decoding and resampling:
  third-party codecs and floating-point filters.  The writers of reports and the command line
  programs: input and output.  \<open>GemmaChatProcessor::Load\<close>, the timing fields of a turn, and the calls of
  objects that have been moved from.
\<close>

end
